(* ===== verification/Avon_Prelude.thy ===== *)
theory Avon_Prelude
  imports Main "HOL-Library.Word"
begin

text \<open>
  Shared ground of the development: bytes and byte strings, fixed-width integers and their
  big- and little-endian encodings, fallible computations as values of a sum type (the left
  summand is the Rust \<open>Err\<close>), decimal printing for error messages, and UTF-8 validation.
  A Rust \<open>String\<close> is modelled by its UTF-8 bytes, a \<open>usize\<close> by a natural number.
\<close>

section \<open>Types\<close>

type_synonym byte = "8 word"
type_synonym bytes = "8 word list"
type_synonym u16 = "16 word"
type_synonym u32 = "32 word"
type_synonym u64 = "64 word"
type_synonym i64 = "64 word"
type_synonym u128 = "128 word"

named_theorems res_simps \<open>unfolding of fallible computations\<close>
named_theorems be_simps \<open>integers and their byte encodings\<close>
named_theorems label_simps \<open>evaluation of ASCII labels\<close>

section \<open>Fallible computations\<close>

fun bind_res :: "'e + 'a \<Rightarrow> ('a \<Rightarrow> 'e + 'b) \<Rightarrow> 'e + 'b" where
  "bind_res (Inl e) f = Inl e"
| "bind_res (Inr a) f = f a"

fun map_err :: "('e \<Rightarrow> 'f) \<Rightarrow> 'e + 'a \<Rightarrow> 'f + 'a" where
  "map_err g (Inl e) = Inl (g e)"
| "map_err g (Inr a) = Inr a"

fun ok_or :: "'e \<Rightarrow> 'a option \<Rightarrow> 'e + 'a" where
  "ok_or e None = Inl e"
| "ok_or e (Some a) = Inr a"

definition is_ok :: "'e + 'a \<Rightarrow> bool" where
  "is_ok r = (case r of Inl _ \<Rightarrow> False | Inr _ \<Rightarrow> True)"

lemma is_ok_simps [simp]: "\<not> is_ok (Inl e)" "is_ok (Inr a)"
  by (simp_all add: is_ok_def)

lemma is_ok_iff: "is_ok r \<longleftrightarrow> (\<exists>a. r = Inr a)"
  by (cases r) auto

lemma bind_res_Inr [res_simps]:
  "bind_res m f = Inr b \<longleftrightarrow> (\<exists>a. m = Inr a \<and> f a = Inr b)"
  by (cases m) auto

lemma bind_res_Inl [res_simps]:
  "bind_res m f = Inl e \<longleftrightarrow> m = Inl e \<or> (\<exists>a. m = Inr a \<and> f a = Inl e)"
  by (cases m) auto

lemma map_err_Inr [res_simps]: "map_err g m = Inr a \<longleftrightarrow> m = Inr a"
  by (cases m) auto

lemma ok_or_Inr [res_simps]: "ok_or e m = Inr a \<longleftrightarrow> m = Some a"
  by (cases m) auto

lemma ok_or_Inl [res_simps]: "ok_or e m = Inl e' \<longleftrightarrow> m = None \<and> e' = e"
  by (cases m) auto

lemma if_Inr [res_simps]:
  "(if b then Inl e else m) = Inr a \<longleftrightarrow> \<not> b \<and> m = Inr a"
  by simp

lemma bind_res_assoc: "bind_res (bind_res m f) g = bind_res m (\<lambda>a. bind_res (f a) g)"
  by (cases m) simp_all

lemma bind_res_cong [fundef_cong]:
  "m = m' \<Longrightarrow> (\<And>a. m' = Inr a \<Longrightarrow> f a = f' a) \<Longrightarrow> bind_res m f = bind_res m' f'"
  by (cases m') auto

section \<open>Machine integers as bytes\<close>

fun be_bytes :: "nat \<Rightarrow> nat \<Rightarrow> bytes" where
  "be_bytes 0 x = []"
| "be_bytes (Suc n) x = be_bytes n (x div 256) @ [word_of_nat x]"

definition from_be :: "bytes \<Rightarrow> nat" where
  "from_be bs = foldl (\<lambda>a b. a * 256 + unat b) 0 bs"

definition to_be_bytes :: "'a::len word \<Rightarrow> bytes" where
  "to_be_bytes w = be_bytes (LENGTH('a) div 8) (unat w)"

definition from_be_bytes :: "bytes \<Rightarrow> 'a::len word" where
  "from_be_bytes bs = word_of_nat (from_be bs)"

definition to_le_bytes :: "'a::len word \<Rightarrow> bytes" where
  "to_le_bytes w = rev (to_be_bytes w)"

definition from_le_bytes :: "bytes \<Rightarrow> 'a::len word" where
  "from_le_bytes bs = from_be_bytes (rev bs)"

lemma length_be_bytes [simp]: "length (be_bytes n x) = n"
  by (induction n arbitrary: x) auto

lemma from_be_Nil [simp]: "from_be [] = 0"
  by (simp add: from_be_def)

lemma from_be_snoc [simp]: "from_be (bs @ [b]) = from_be bs * 256 + unat b"
  by (simp add: from_be_def)

lemma from_be_be_bytes: "from_be (be_bytes n x) = x mod 256 ^ n"
proof (induction n arbitrary: x)
  case (Suc n)
  have "unat (word_of_nat x :: byte) = x mod 256"
    by (simp add: unat_of_nat)
  then show ?case
    using Suc[of "x div 256"] by (simp add: mod_mult2_eq mult.commute)
qed simp

lemma from_be_less: "from_be bs < 256 ^ length bs"
proof (induction bs rule: rev_induct)
  case (snoc b bs)
  have "unat b < 256" using unsigned_less[of b] by simp
  with snoc show ?case by simp
qed simp

lemma be_bytes_from_be: "be_bytes (length bs) (from_be bs) = bs"
proof (induction bs rule: rev_induct)
  case (snoc b bs)
  have b: "unat b < 256" using unsigned_less[of b] by simp
  have "word_of_nat (from_be bs * 256 + unat b) = b"
  proof (rule word_unat_eq_iff[THEN iffD2])
    show "unat (word_of_nat (from_be bs * 256 + unat b) :: byte) = unat b"
      using b by (simp add: unat_of_nat del: of_nat_add of_nat_mult)
  qed
  with b snoc show ?case by simp
qed simp

lemma be_bytes_inj:
  "\<lbrakk>be_bytes n x = be_bytes n y; x < 256 ^ n; y < 256 ^ n\<rbrakk> \<Longrightarrow> x = y"
  by (metis from_be_be_bytes mod_less)

lemma length_to_be_bytes [simp]:
  "length (to_be_bytes (w::'a::len word)) = LENGTH('a) div 8"
  by (simp add: to_be_bytes_def)

lemma length_to_le_bytes [simp]:
  "length (to_le_bytes (w::'a::len word)) = LENGTH('a) div 8"
  by (simp add: to_le_bytes_def)

lemma pow256_len:
  "8 dvd n \<Longrightarrow> (256::nat) ^ (n div 8) = 2 ^ n"
  using power_mult[of "2::nat" 8 "n div 8"] by simp

lemma from_be_bytes_to_be_bytes:
  "8 dvd LENGTH('a::len) \<Longrightarrow> from_be_bytes (to_be_bytes w) = (w :: 'a word)"
  using unsigned_less[of w]
  by (simp add: from_be_bytes_def to_be_bytes_def from_be_be_bytes pow256_len)

lemma to_be_bytes_from_be_bytes:
  assumes "8 dvd LENGTH('a::len)" and "length bs = LENGTH('a) div 8"
  shows "to_be_bytes (from_be_bytes bs :: 'a word) = bs"
proof -
  have "from_be bs < 2 ^ LENGTH('a)"
    using from_be_less[of bs] assms by (simp add: pow256_len)
  then show ?thesis
    using be_bytes_from_be[of bs] assms(2)
    by (simp add: to_be_bytes_def from_be_bytes_def unat_of_nat)
qed

lemma to_be_bytes_inj_gen:
  "8 dvd LENGTH('a::len) \<Longrightarrow> to_be_bytes v = to_be_bytes w \<longleftrightarrow> v = (w :: 'a word)"
  by (metis from_be_bytes_to_be_bytes)

lemma be_word_round [simp, be_simps]:
  "from_be_bytes (to_be_bytes (a::16 word)) = a"
  "from_be_bytes (to_be_bytes (b::32 word)) = b"
  "from_be_bytes (to_be_bytes (c::64 word)) = c"
  "from_be_bytes (to_be_bytes (d::128 word)) = d"
  by (simp_all add: from_be_bytes_to_be_bytes)

lemma be_bytes_round [be_simps]:
  "length bs = 2 \<Longrightarrow> to_be_bytes (from_be_bytes bs :: 16 word) = bs"
  "length bs = 4 \<Longrightarrow> to_be_bytes (from_be_bytes bs :: 32 word) = bs"
  "length bs = 8 \<Longrightarrow> to_be_bytes (from_be_bytes bs :: 64 word) = bs"
  "length bs = 16 \<Longrightarrow> to_be_bytes (from_be_bytes bs :: 128 word) = bs"
  by (simp_all add: to_be_bytes_from_be_bytes)

lemma to_be_bytes_inj [simp, be_simps]:
  "to_be_bytes (a::16 word) = to_be_bytes a' \<longleftrightarrow> a = a'"
  "to_be_bytes (b::32 word) = to_be_bytes b' \<longleftrightarrow> b = b'"
  "to_be_bytes (c::64 word) = to_be_bytes c' \<longleftrightarrow> c = c'"
  "to_be_bytes (d::128 word) = to_be_bytes d' \<longleftrightarrow> d = d'"
  by (simp_all add: to_be_bytes_inj_gen)

lemma to_le_bytes_inj [simp, be_simps]:
  "to_le_bytes (b::32 word) = to_le_bytes b' \<longleftrightarrow> b = b'"
  "to_le_bytes (c::64 word) = to_le_bytes c' \<longleftrightarrow> c = c'"
  by (simp_all add: to_le_bytes_def)

lemma le_word_round [simp, be_simps]:
  "from_le_bytes (to_le_bytes (a::16 word)) = a"
  "from_le_bytes (to_le_bytes (b::32 word)) = b"
  "from_le_bytes (to_le_bytes (c::64 word)) = c"
  by (simp_all add: from_le_bytes_def to_le_bytes_def)

lemma unat_word_of_nat16: "n < 65536 \<Longrightarrow> unat (word_of_nat n :: 16 word) = n"
  by (simp add: unat_of_nat)

lemma unat_word_of_nat32: "n < 4294967296 \<Longrightarrow> unat (word_of_nat n :: 32 word) = n"
  by (simp add: unat_of_nat)

lemma append_eq_same_length:
  "length xs = length ys \<Longrightarrow> xs @ us = ys @ vs \<longleftrightarrow> xs = ys \<and> us = vs"
  by auto

section \<open>Text\<close>

text \<open>An ASCII literal of the source, as the bytes Rust stores.\<close>

definition ascii :: "string \<Rightarrow> bytes" where
  "ascii s = map (\<lambda>c. word_of_nat (of_char c)) s"

lemma ascii_simps [simp]: "ascii [] = []" "ascii (c # s) = word_of_nat (of_char c) # ascii s"
  by (simp_all add: ascii_def)

lemma length_ascii [simp]: "length (ascii s) = length s"
  by (simp add: ascii_def)

fun show_nat :: "nat \<Rightarrow> string" where
  "show_nat n = (if n < 10 then [char_of (48 + n)] else show_nat (n div 10) @ [char_of (48 + n mod 10)])"

declare show_nat.simps [simp del]

text \<open>Validation as \<open>core::str::from_utf8\<close> does it: no overlong forms, no surrogates, at most
  U+10FFFF.\<close>

definition utf8_cont :: "byte \<Rightarrow> bool" where
  "utf8_cont b = (0x80 \<le> b \<and> b \<le> 0xBF)"

definition utf8_second3 :: "byte \<Rightarrow> byte \<Rightarrow> bool" where
  "utf8_second3 b c =
     ((if b = 0xE0 then 0xA0 else 0x80) \<le> c \<and> c \<le> (if b = 0xED then 0x9F else 0xBF))"

definition utf8_second4 :: "byte \<Rightarrow> byte \<Rightarrow> bool" where
  "utf8_second4 b c =
     ((if b = 0xF0 then 0x90 else 0x80) \<le> c \<and> c \<le> (if b = 0xF4 then 0x8F else 0xBF))"

fun utf8_valid :: "bytes \<Rightarrow> bool" where
  "utf8_valid [] = True"
| "utf8_valid (b # bs) =
    (if b < 0x80 then utf8_valid bs
     else if 0xC2 \<le> b \<and> b \<le> 0xDF then
       (case bs of c1 # r \<Rightarrow> utf8_cont c1 \<and> utf8_valid r | _ \<Rightarrow> False)
     else if 0xE0 \<le> b \<and> b \<le> 0xEF then
       (case bs of c1 # c2 # r \<Rightarrow> utf8_second3 b c1 \<and> utf8_cont c2 \<and> utf8_valid r | _ \<Rightarrow> False)
     else if 0xF0 \<le> b \<and> b \<le> 0xF4 then
       (case bs of c1 # c2 # c3 # r \<Rightarrow>
          utf8_second4 b c1 \<and> utf8_cont c2 \<and> utf8_cont c3 \<and> utf8_valid r | _ \<Rightarrow> False)
     else False)"

lemma utf8_valid_ascii_only: "(\<And>b. b \<in> set bs \<Longrightarrow> b < 0x80) \<Longrightarrow> utf8_valid bs"
  by (induction bs) simp_all

section \<open>Slices\<close>

text \<open>\<open>&b[i..j]\<close>, for \<open>i \<le> j \<le> b.len()\<close>.\<close>

definition slice :: "'a list \<Rightarrow> nat \<Rightarrow> nat \<Rightarrow> 'a list" where
  "slice b i j = take (j - i) (drop i b)"

lemma length_slice [simp]: "i \<le> j \<Longrightarrow> j \<le> length b \<Longrightarrow> length (slice b i j) = j - i"
  by (simp add: slice_def)

lemma slice_append_left: "j \<le> length xs \<Longrightarrow> slice (xs @ ys) i j = slice xs i j"
  by (simp add: slice_def)

lemma slice_all [simp]: "slice xs 0 (length xs) = xs"
  by (simp add: slice_def)

end
