(* ===== verification/Rust_Text.thy ===== *)
theory Rust_Text
  imports Avon_Prelude
begin

text \<open>
  The string functions of the Rust standard library that the policy, control and helper code calls,
  on the UTF-8 bytes of a \<open>str\<close>: \<open>split\<close>, \<open>split_once\<close>, \<open>trim\<close>, \<open>join\<close>, and \<open>parse\<close> for integers.
\<close>

section \<open>Splitting and joining\<close>

fun split_on :: "byte \<Rightarrow> bytes \<Rightarrow> bytes list" where
  "split_on c [] = [[]]"
| "split_on c (b # bs) =
    (if b = c then [] # split_on c bs
     else (case split_on c bs of [] \<Rightarrow> [[b]] | w # ws \<Rightarrow> (b # w) # ws))"

fun split_once :: "byte \<Rightarrow> bytes \<Rightarrow> (bytes \<times> bytes) option" where
  "split_once c [] = None"
| "split_once c (b # bs) =
    (if b = c then Some ([], bs)
     else (case split_once c bs of None \<Rightarrow> None | Some (l, r) \<Rightarrow> Some (b # l, r)))"

fun join :: "bytes \<Rightarrow> bytes list \<Rightarrow> bytes" where
  "join sep [] = []"
| "join sep [w] = w"
| "join sep (w # v # ws) = w @ sep @ join sep (v # ws)"

fun strip_prefix :: "bytes \<Rightarrow> bytes \<Rightarrow> bytes option" where
  "strip_prefix [] bs = Some bs"
| "strip_prefix (p # ps) [] = None"
| "strip_prefix (p # ps) (b # bs) = (if p = b then strip_prefix ps bs else None)"

lemma split_on_no_sep: "c \<notin> set w \<Longrightarrow> split_on c w = [w]"
  by (induction w) auto

lemma split_on_append: "c \<notin> set w \<Longrightarrow> split_on c (w @ c # bs) = w # split_on c bs"
  by (induction w) auto

lemma split_on_join:
  "ws \<noteq> [] \<Longrightarrow> \<forall>w \<in> set ws. c \<notin> set w \<Longrightarrow> split_on c (join [c] ws) = ws"
  by (induction "[c]" ws rule: join.induct) (auto simp: split_on_no_sep split_on_append)

lemma split_once_append: "c \<notin> set w \<Longrightarrow> split_once c (w @ c # bs) = Some (w, bs)"
  by (induction w) auto

lemma split_once_None: "split_once c w = None \<longleftrightarrow> c \<notin> set w"
  by (induction w) (auto split: option.splits)

lemma split_once_SomeD: "split_once c w = Some (l, r) \<Longrightarrow> w = l @ c # r \<and> c \<notin> set l"
  by (induction w arbitrary: l) (auto split: if_splits option.splits)

lemma strip_prefix_Some: "strip_prefix p bs = Some r \<longleftrightarrow> bs = p @ r"
  by (induction p bs rule: strip_prefix.induct) auto

section \<open>Trimming\<close>

text \<open>The characters with the Unicode \<open>White_Space\<close> property, by the length of their encoding.\<close>

definition ws1 :: "byte \<Rightarrow> bool" where
  "ws1 b = (b \<in> {0x09, 0x0A, 0x0B, 0x0C, 0x0D, 0x20})"

definition ws2 :: "byte \<Rightarrow> byte \<Rightarrow> bool" where
  "ws2 b c = (b = 0xC2 \<and> c \<in> {0x85, 0xA0})"

definition ws3 :: "byte \<Rightarrow> byte \<Rightarrow> byte \<Rightarrow> bool" where
  "ws3 b c d =
     (b = 0xE1 \<and> c = 0x9A \<and> d = 0x80 \<or>
      b = 0xE2 \<and> c = 0x80 \<and> (0x80 \<le> d \<and> d \<le> 0x8A \<or> d \<in> {0xA8, 0xA9, 0xAF}) \<or>
      b = 0xE2 \<and> c = 0x81 \<and> d = 0x9F \<or>
      b = 0xE3 \<and> c = 0x80 \<and> d = 0x80)"

fun trim_with ::
  "(byte \<Rightarrow> bool) \<Rightarrow> (byte \<Rightarrow> byte \<Rightarrow> bool) \<Rightarrow> (byte \<Rightarrow> byte \<Rightarrow> byte \<Rightarrow> bool) \<Rightarrow> bytes \<Rightarrow> bytes" where
  "trim_with p1 p2 p3 [] = []"
| "trim_with p1 p2 p3 (b # bs) =
    (if p1 b then trim_with p1 p2 p3 bs
     else case bs of
       [] \<Rightarrow> [b]
     | c # r \<Rightarrow>
        (if p2 b c then trim_with p1 p2 p3 r
         else case r of
           [] \<Rightarrow> [b, c]
         | d # r' \<Rightarrow> (if p3 b c d then trim_with p1 p2 p3 r' else b # c # d # r')))"

definition trim_start :: "bytes \<Rightarrow> bytes" where
  "trim_start bs = trim_with ws1 ws2 ws3 bs"

definition trim_end :: "bytes \<Rightarrow> bytes" where
  "trim_end bs = rev (trim_with ws1 (\<lambda>b c. ws2 c b) (\<lambda>b c d. ws3 d c b) (rev bs))"

definition trim :: "bytes \<Rightarrow> bytes" where
  "trim bs = trim_end (trim_start bs)"

text \<open>A visible ASCII byte at either end stops the trimming there.\<close>

definition solid :: "byte \<Rightarrow> bool" where
  "solid b = (0x20 < b \<and> b < 0x80)"

lemma solid_not_ws:
  assumes "solid b"
  shows "\<not> ws1 b" "\<not> ws2 b c" "\<not> ws2 c b" "\<not> ws3 b c d" "\<not> ws3 d c b"
  using assms unfolding solid_def ws1_def ws2_def ws3_def by (auto simp: word_less_nat_alt word_le_nat_alt)

lemma trim_with_solid:
  "\<not> p1 b \<Longrightarrow> (\<And>c. \<not> p2 b c) \<Longrightarrow> (\<And>c d. \<not> p3 b c d) \<Longrightarrow> trim_with p1 p2 p3 (b # bs) = b # bs"
  by (auto split: list.splits)

lemma trim_solid:
  assumes "bs \<noteq> []" and "solid (hd bs)" and "solid (last bs)"
  shows "trim bs = bs"
proof -
  obtain b r where b: "bs = b # r" using assms(1) by (cases bs) auto
  have "trim_start bs = bs"
    unfolding trim_start_def b by (rule trim_with_solid) (use assms(2) b solid_not_ws in auto)
  moreover have "trim_end bs = bs"
  proof -
    have r: "rev bs = last bs # tl (rev bs)" using assms(1) by (simp add: hd_rev[symmetric])
    have "trim_with ws1 (\<lambda>b c. ws2 c b) (\<lambda>b c d. ws3 d c b) (rev bs) = rev bs"
      by (subst (1 2) r, rule trim_with_solid) (use assms(3) solid_not_ws in auto)
    then show ?thesis by (simp add: trim_end_def)
  qed
  ultimately show ?thesis by (simp add: trim_def)
qed

lemma trim_Nil [simp]: "trim [] = []"
  by (simp add: trim_def trim_start_def trim_end_def)

section \<open>Integers\<close>

definition digit :: "byte \<Rightarrow> bool" where
  "digit b = (48 \<le> b \<and> b \<le> 57)"

text \<open>The loop of \<open>from_str_radix\<close> with its overflow check; \<open>limit\<close> is the type's maximum.\<close>

fun parse_digits :: "nat \<Rightarrow> nat \<Rightarrow> bytes \<Rightarrow> nat option" where
  "parse_digits limit acc [] = Some acc"
| "parse_digits limit acc (b # bs) =
    (if digit b \<and> acc * 10 + (unat b - 48) \<le> limit
     then parse_digits limit (acc * 10 + (unat b - 48)) bs else None)"

text \<open>\<open>parse\<close> for an unsigned type: an optional plus sign and at least one digit.\<close>

definition parse_uint :: "nat \<Rightarrow> bytes \<Rightarrow> nat option" where
  "parse_uint limit bs =
     (let ds = (case bs of b # r \<Rightarrow> if b = 43 then r else bs | [] \<Rightarrow> [])
      in if ds = [] then None else parse_digits limit 0 ds)"

text \<open>\<open>parse\<close> for \<open>i64\<close>.\<close>

definition parse_i64 :: "bytes \<Rightarrow> int option" where
  "parse_i64 bs =
     (case bs of
        [] \<Rightarrow> None
      | b # r \<Rightarrow>
         (if b = 45 then (if r = [] then None else map_option (\<lambda>n. - int n) (parse_digits (2 ^ 63) 0 r))
          else map_option int (parse_uint (2 ^ 63 - 1) bs)))"

text \<open>\<open>to_string\<close> of an unsigned integer.\<close>

definition dec :: "nat \<Rightarrow> bytes" where
  "dec n = ascii (show_nat n)"

lemma dec_unfold: "dec n = (if n < 10 then [word_of_nat (48 + n)] else dec (n div 10) @ [word_of_nat (48 + n mod 10)])"
  unfolding dec_def by (subst show_nat.simps) (simp add: ascii_def of_char_of)

lemma dec_nonempty [simp]: "dec n \<noteq> []"
  by (subst dec_unfold) simp

lemma digit_of: "k < 10 \<Longrightarrow> digit (word_of_nat (48 + k)) \<and> unat (word_of_nat (48 + k) :: byte) = 48 + k"
proof -
  assume "k < 10"
  then have "unat (word_of_nat (48 + k) :: byte) = 48 + k" unfolding unat_of_nat by simp
  with \<open>k < 10\<close> show ?thesis by (simp add: digit_def word_le_nat_alt del: of_nat_add)
qed

lemma dec_digits: "b \<in> set (dec n) \<Longrightarrow> digit b"
proof (induction n rule: show_nat.induct)
  case (1 n)
  then show ?case using digit_of[of n] digit_of[of "n mod 10"] by (subst (asm) dec_unfold) (auto split: if_splits)
qed

lemma digit_solid: "digit b \<Longrightarrow> solid b"
  by (auto simp: digit_def solid_def word_le_nat_alt word_less_nat_alt)

lemma parse_digits_append:
  "parse_digits L a (xs @ ys) = (case parse_digits L a xs of None \<Rightarrow> None | Some v \<Rightarrow> parse_digits L v ys)"
  by (induction xs arbitrary: a) simp_all

lemma parse_digits_le: "parse_digits L a bs = Some v \<Longrightarrow> a \<le> L \<Longrightarrow> v \<le> L"
  by (induction L a bs rule: parse_digits.induct) (auto split: if_splits)

lemma parse_digits_dec: "n \<le> L \<Longrightarrow> parse_digits L 0 (dec n) = Some n"
proof (induction n rule: show_nat.induct)
  case (1 n)
  show ?case
  proof (cases "n < 10")
    case True
    then show ?thesis using 1 digit_of[of n] by (subst dec_unfold) simp
  next
    case False
    then show ?thesis using 1 digit_of[of "n mod 10"]
      by (subst dec_unfold) (simp add: parse_digits_append)
  qed
qed

lemma parse_uint_dec: "n \<le> L \<Longrightarrow> parse_uint L (dec n) = Some n"
proof -
  assume n: "n \<le> L"
  obtain b r where b: "dec n = b # r" by (cases "dec n") auto
  with dec_digits[of b n] have "b \<noteq> 43" by (auto simp: digit_def word_le_nat_alt)
  with n b parse_digits_dec[OF n] show ?thesis by (simp add: parse_uint_def)
qed

lemma parse_uint_le: "parse_uint L bs = Some v \<Longrightarrow> v \<le> L"
  by (auto simp: parse_uint_def Let_def split: if_splits list.splits dest: parse_digits_le)

lemma dec_no_digit: "\<not> digit b \<Longrightarrow> b \<notin> set (dec n)"
  using dec_digits by blast

lemma trim_dec [simp]: "trim (dec n) = dec n"
  by (rule trim_solid) (auto intro!: digit_solid dec_digits[of _ n] hd_in_set last_in_set)

section \<open>Hexadecimal\<close>

definition hex_digit :: "nat \<Rightarrow> byte" where
  "hex_digit n = word_of_nat (if n < 10 then 48 + n else 87 + n)"

fun hex_text :: "nat \<Rightarrow> bytes" where
  "hex_text n = (if n < 16 then [hex_digit n] else hex_text (n div 16) @ [hex_digit (n mod 16)])"

declare hex_text.simps [simp del]

text \<open>\<open>{:#0wx}\<close> for a value that fits: the prefix and the digits, padded with zeros to \<open>n\<close> digits.\<close>

definition hex_padded :: "nat \<Rightarrow> nat \<Rightarrow> bytes" where
  "hex_padded n v = [48, 120] @ replicate (n - length (hex_text v)) 48 @ hex_text v"

end
