(* ===== verification/Net_Lib.thy ===== *)
theory Net_Lib
  imports Rust_Text "HOL-Library.AList"
begin

text \<open>
  Addresses (\<open>std::net::IpAddr\<close>) and the interface of the network crates the source calls:
  \<open>ipnet\<close>, \<open>ip_network\<close> and \<open>ip_network_table\<close>.  Their values have the types \<open>'n\<close> (a network of
  \<open>ipnet\<close>), \<open>'p\<close> (a network of \<open>ip_network\<close>) and \<open>'t\<close> (a table), and their functions are the fields
  of a record; what is relied on is stated as named hypotheses.
\<close>

datatype ip_addr = V4 u32 | V6 u128

record 'n net_lib =
  ipnet_new :: "ip_addr \<Rightarrow> nat \<Rightarrow> 'n option"
  ipnet_addr :: "'n \<Rightarrow> ip_addr"
  ipnet_network :: "'n \<Rightarrow> ip_addr"
  ipnet_prefix_len :: "'n \<Rightarrow> nat"
  ipnet_contains :: "'n \<Rightarrow> ip_addr \<Rightarrow> bool"
  ipnet_from_addr :: "ip_addr \<Rightarrow> 'n"
  ipnet_parse :: "bytes \<Rightarrow> 'n option"
  ipnet_show :: "'n \<Rightarrow> bytes"
  addr_parse :: "bytes \<Rightarrow> ip_addr option"
  addr_show :: "ip_addr \<Rightarrow> bytes"

text \<open>\<open>IpNetworkTable\<close>: its entries, and the longest match it looks up.\<close>

record ('p, 't) lpm_lib =
  ipn_new :: "ip_addr \<Rightarrow> nat \<Rightarrow> 'p option"
  ipn_contains :: "'p \<Rightarrow> ip_addr \<Rightarrow> bool"
  ipn_prefix_len :: "'p \<Rightarrow> nat"
  lpm_new :: 't
  lpm_insert :: "'t \<Rightarrow> 'p \<Rightarrow> bytes \<Rightarrow> 't"
  lpm_remove :: "'t \<Rightarrow> 'p \<Rightarrow> 't"
  lpm_iter :: "'t \<Rightarrow> ('p \<times> bytes) list"
  lpm_longest :: "'t \<Rightarrow> ip_addr \<Rightarrow> ('p \<times> bytes) option"

text \<open>The table is a finite map, and \<open>longest_match\<close> returns the most specific entry that contains
  the address.\<close>

definition lpm_entries :: "('p, 't) lpm_lib \<Rightarrow> 't \<Rightarrow> 'p \<Rightarrow> bytes option" where
  "lpm_entries L t = map_of (lpm_iter L t)"

definition lpm_correct :: "('p, 't) lpm_lib \<Rightarrow> bool" where
  "lpm_correct L =
     (lpm_entries L (lpm_new L) = Map.empty \<and>
      (\<forall>t. distinct (map fst (lpm_iter L t))) \<and>
      (\<forall>t p s. lpm_entries L (lpm_insert L t p s) = (lpm_entries L t)(p \<mapsto> s)) \<and>
      (\<forall>t p. lpm_entries L (lpm_remove L t p) = (lpm_entries L t)(p := None)) \<and>
      (\<forall>t a. case lpm_longest L t a of
          None \<Rightarrow> \<forall>p \<in> dom (lpm_entries L t). \<not> ipn_contains L p a
        | Some (p, s) \<Rightarrow> lpm_entries L t p = Some s \<and> ipn_contains L p a \<and>
            (\<forall>q \<in> dom (lpm_entries L t). ipn_contains L q a \<longrightarrow> ipn_prefix_len L q \<le> ipn_prefix_len L p)))"

lemma lpm_correctD:
  assumes "lpm_correct L"
  shows "lpm_entries L (lpm_new L) = Map.empty"
    and "distinct (map fst (lpm_iter L t))"
    and "lpm_entries L (lpm_insert L t p s) = (lpm_entries L t)(p \<mapsto> s)"
    and "lpm_entries L (lpm_remove L t p) = (lpm_entries L t)(p := None)"
  using assms by (simp_all add: lpm_correct_def)

lemma lpm_longest_Some:
  assumes "lpm_correct L" and "lpm_longest L t a = Some (p, s)"
  shows "lpm_entries L t p = Some s" and "ipn_contains L p a"
    and "lpm_entries L t q = Some s' \<Longrightarrow> ipn_contains L q a \<Longrightarrow> ipn_prefix_len L q \<le> ipn_prefix_len L p"
proof -
  from assms have "case lpm_longest L t a of
          None \<Rightarrow> \<forall>p \<in> dom (lpm_entries L t). \<not> ipn_contains L p a
        | Some (p, s) \<Rightarrow> lpm_entries L t p = Some s \<and> ipn_contains L p a \<and>
            (\<forall>q \<in> dom (lpm_entries L t). ipn_contains L q a \<longrightarrow> ipn_prefix_len L q \<le> ipn_prefix_len L p)"
    unfolding lpm_correct_def by blast
  with assms(2) show "lpm_entries L t p = Some s" "ipn_contains L p a"
    "lpm_entries L t q = Some s' \<Longrightarrow> ipn_contains L q a \<Longrightarrow> ipn_prefix_len L q \<le> ipn_prefix_len L p"
    by auto
qed

lemma lpm_longest_None:
  assumes "lpm_correct L" and "lpm_longest L t a = None" and "lpm_entries L t p = Some s"
  shows "\<not> ipn_contains L p a"
proof -
  from assms(1) have "case lpm_longest L t a of
          None \<Rightarrow> \<forall>p \<in> dom (lpm_entries L t). \<not> ipn_contains L p a
        | Some (p, s) \<Rightarrow> lpm_entries L t p = Some s \<and> ipn_contains L p a \<and>
            (\<forall>q \<in> dom (lpm_entries L t). ipn_contains L q a \<longrightarrow> ipn_prefix_len L q \<le> ipn_prefix_len L p)"
    unfolding lpm_correct_def by blast
  with assms(2,3) show ?thesis by auto
qed

section \<open>A concrete library\<close>

text \<open>Networks as base address and prefix length, tables as association lists.\<close>

definition covers :: "ip_addr \<times> nat \<Rightarrow> ip_addr \<Rightarrow> bool" where
  "covers n a =
     (case (fst n, a) of
        (V4 x, V4 y) \<Rightarrow> drop_bit (32 - snd n) x = drop_bit (32 - snd n) y
      | (V6 x, V6 y) \<Rightarrow> drop_bit (128 - snd n) x = drop_bit (128 - snd n) y
      | _ \<Rightarrow> False)"

definition width :: "ip_addr \<Rightarrow> nat" where
  "width a = (case a of V4 _ \<Rightarrow> 32 | V6 _ \<Rightarrow> 128)"

definition base_of :: "ip_addr \<times> nat \<Rightarrow> ip_addr" where
  "base_of n =
     (case fst n of
        V4 x \<Rightarrow> V4 (push_bit (32 - snd n) (drop_bit (32 - snd n) x))
      | V6 x \<Rightarrow> V6 (push_bit (128 - snd n) (drop_bit (128 - snd n) x)))"

definition toy_net :: "(ip_addr \<times> nat) net_lib" where
  "toy_net = \<lparr>ipnet_new = (\<lambda>a k. if k \<le> width a then Some (a, k) else None),
     ipnet_addr = fst, ipnet_network = base_of, ipnet_prefix_len = snd, ipnet_contains = covers,
     ipnet_from_addr = (\<lambda>a. (a, width a)), ipnet_parse = (\<lambda>_. None), ipnet_show = (\<lambda>_. []),
     addr_parse = (\<lambda>_. None), addr_show = (\<lambda>_. [])\<rparr>"

fun longest_of :: "((ip_addr \<times> nat) \<times> bytes) list \<Rightarrow> ip_addr \<Rightarrow> ((ip_addr \<times> nat) \<times> bytes) option" where
  "longest_of [] a = None"
| "longest_of ((p, s) # t) a =
    (case longest_of t a of
       None \<Rightarrow> if covers p a then Some (p, s) else None
     | Some (q, r) \<Rightarrow> if covers p a \<and> snd q < snd p then Some (p, s) else Some (q, r))"

definition toy_lpm :: "(ip_addr \<times> nat, ((ip_addr \<times> nat) \<times> bytes) list) lpm_lib" where
  "toy_lpm = \<lparr>ipn_new = (\<lambda>a k. if k \<le> width a \<and> base_of (a, k) = a then Some (a, k) else None),
     ipn_contains = covers, ipn_prefix_len = snd, lpm_new = [],
     lpm_insert = (\<lambda>t p s. AList.update p s t), lpm_remove = (\<lambda>t p. AList.delete p t),
     lpm_iter = AList.clearjunk, lpm_longest = (\<lambda>t a. longest_of (AList.clearjunk t) a)\<rparr>"

lemma longest_of_spec:
  "distinct (map fst t) \<Longrightarrow>
    (case longest_of t a of
       None \<Rightarrow> \<forall>p \<in> fst ` set t. \<not> covers p a
     | Some (p, s) \<Rightarrow> map_of t p = Some s \<and> covers p a \<and> (\<forall>q \<in> fst ` set t. covers q a \<longrightarrow> snd q \<le> snd p))"
proof (induction t)
  case (Cons e t)
  obtain p s where e: "e = (p, s)" by (cases e)
  have new: "map_of t q \<noteq> Some r" if "q = p" for q r
    using Cons.prems e that by (auto dest: map_of_SomeD simp: image_iff)
  show ?case
  proof (cases "longest_of t a")
    case None
    then show ?thesis using Cons e by auto
  next
    case (Some qr)
    then obtain q r where "longest_of t a = Some (q, r)" by (cases qr) auto
    then show ?thesis using Cons e new[of q r] by fastforce
  qed
qed simp

lemma toy_lpm_correct: "lpm_correct toy_lpm"
proof -
  have "case longest_of (AList.clearjunk t) a of
          None \<Rightarrow> \<forall>p \<in> dom (map_of t). \<not> covers p a
        | Some (p, s) \<Rightarrow> map_of t p = Some s \<and> covers p a \<and>
            (\<forall>q \<in> dom (map_of t). covers q a \<longrightarrow> snd q \<le> snd p)" for t and a
    using longest_of_spec[OF AList.distinct_clearjunk, of t a]
    unfolding AList.map_of_clearjunk AList.dom_clearjunk dom_map_of_conv_image_fst .
  then show ?thesis
    unfolding lpm_correct_def lpm_entries_def toy_lpm_def lpm_lib.select_convs AList.map_of_clearjunk
    by (simp add: AList.map_of_clearjunk AList.update_conv' AList.delete_conv' AList.distinct_clearjunk)
qed

end
