(* ===== verification/Policy_Spec.thy ===== *)
theory Policy_Spec
  imports Net_Lib "HOL-Library.Signed_Division"
begin

text \<open>
  \<open>avon-policy/src/spec.rs\<close> and \<open>time.rs\<close>: the policy language, its validation, port sets with their
  textual form, and time windows.  Networks are values of the \<open>ipnet\<close> crate (type \<open>'n\<close>); time zones
  and calendar fields come from \<open>chrono\<close> and \<open>chrono_tz\<close>, the record \<open>time_lib\<close>.  Unix times are
  integers: \<open>chrono\<close> refuses an instant long before the additions could overflow an \<open>i64\<close>.
\<close>

section \<open>The language\<close>

type_synonym uuid = bytes

datatype spec_error =
    EVersion byte
  | EmptySelector string
  | CidrInSource
  | PortsWithoutL4Protocol
  | EPort bytes
  | ETimezone bytes
  | ETime bytes
  | NoDays
  | EPriority

datatype effect = Allow | Deny

datatype protocol = Tcp | Udp | Icmp | AnyProtocol

type_synonym port_set = "(u16 \<times> u16) list"

record l4_rule =
  l4_protocol :: protocol
  l4_ports :: port_set

record 'n selector =
  sl_pods :: "uuid list"
  sl_devices :: "uuid list"
  sl_device_classes :: "uuid list"
  sl_cidrs :: "'n list"
  sl_any :: bool

datatype attestation_requirement = AttAny | AttVerified

record posture_requirements =
  pr_firewall_enabled :: "bool option"
  pr_disk_encrypted :: "bool option"
  pr_screen_lock_enabled :: "bool option"
  pr_min_os_version :: "bytes option"
  pr_max_hours_since_update :: "u32 option"

datatype weekday = Mon | Tue | Wed | Thu | Fri | Sat | Sun

record time_window =
  tw_start :: bytes
  tw_end :: bytes
  tw_days :: "weekday list"
  tw_timezone :: bytes

record conditions =
  cn_time_window :: "time_window option"
  cn_posture :: "posture_requirements option"
  cn_attestation :: "attestation_requirement option"
  cn_max_risk_score :: "byte option"

record 'n policy_spec =
  sp_version :: byte
  sp_effect :: effect
  sp_priority :: int
  sp_source :: "'n selector"
  sp_destination :: "'n selector"
  sp_l4 :: "l4_rule list"
  sp_conditions :: conditions

definition selector_default :: "'n selector" where
  "selector_default = \<lparr>sl_pods = [], sl_devices = [], sl_device_classes = [], sl_cidrs = [], sl_any = False\<rparr>"

definition conditions_default :: conditions where
  "conditions_default = \<lparr>cn_time_window = None, cn_posture = None, cn_attestation = None, cn_max_risk_score = None\<rparr>"

definition selector_is_empty :: "'n selector \<Rightarrow> bool" where
  "selector_is_empty s =
     (sl_pods s = [] \<and> sl_devices s = [] \<and> sl_device_classes s = [] \<and> sl_cidrs s = [] \<and> \<not> sl_any s)"

section \<open>Port sets\<close>

abbreviation COMMA :: byte where "COMMA \<equiv> 44"
abbreviation DASH :: byte where "DASH \<equiv> 45"

definition port_range :: "bytes \<Rightarrow> spec_error + u16 \<times> u16" where
  "port_range part =
     (let (a, b) = (case split_once DASH part of Some (a, b) \<Rightarrow> (trim a, trim b) | None \<Rightarrow> (part, part))
      in bind_res (ok_or (EPort part) (parse_uint 65535 a)) (\<lambda>lo.
         bind_res (ok_or (EPort part) (parse_uint 65535 b)) (\<lambda>hi.
         if lo > hi then Inl (EPort part) else Inr (word_of_nat lo, word_of_nat hi))))"

fun port_ranges :: "bytes list \<Rightarrow> spec_error + port_set" where
  "port_ranges [] = Inr []"
| "port_ranges (part # parts) =
    bind_res (port_range part) (\<lambda>r. bind_res (port_ranges parts) (\<lambda>rs. Inr (r # rs)))"

definition port_parse :: "bytes \<Rightarrow> spec_error + port_set" where
  "port_parse s = port_ranges (filter (\<lambda>p. p \<noteq> []) (map trim (split_on COMMA s)))"

definition port_contains :: "port_set \<Rightarrow> u16 \<Rightarrow> bool" where
  "port_contains ps port = (ps = [] \<or> (\<exists>(lo, hi) \<in> set ps. lo \<le> port \<and> port \<le> hi))"

definition port_is_all :: "port_set \<Rightarrow> bool" where
  "port_is_all ps = (ps = [])"

definition range_text :: "u16 \<times> u16 \<Rightarrow> bytes" where
  "range_text r =
     (if fst r = snd r then dec (unat (fst r)) else dec (unat (fst r)) @ [DASH] @ dec (unat (snd r)))"

definition port_serialize :: "port_set \<Rightarrow> bytes" where
  "port_serialize ps = join [COMMA] (map range_text ps)"

definition port_deserialize :: "bytes \<Rightarrow> spec_error + port_set" where
  "port_deserialize s = (if trim s = [] then Inr [] else port_parse s)"

section \<open>Times\<close>

definition parse_hhmm :: "bytes \<Rightarrow> spec_error + nat \<times> nat" where
  "parse_hhmm s =
     bind_res (ok_or (ETime s) (split_once 58 s)) (\<lambda>(h, m).
     bind_res (ok_or (ETime s) (parse_uint 4294967295 h)) (\<lambda>h.
     bind_res (ok_or (ETime s) (parse_uint 4294967295 m)) (\<lambda>m.
     if h > 23 \<or> m > 59 then Inl (ETime s) else Inr (h, m))))"

record 'z time_lib =
  tl_parse :: "bytes \<Rightarrow> 'z option"
  tl_valid :: "int \<Rightarrow> bool"
  tl_weekday :: "'z \<Rightarrow> int \<Rightarrow> weekday"
  tl_hour :: "'z \<Rightarrow> int \<Rightarrow> nat"
  tl_minute :: "'z \<Rightarrow> int \<Rightarrow> nat"
  tl_pred :: "weekday \<Rightarrow> weekday"

definition local_time :: "'z time_lib \<Rightarrow> time_window \<Rightarrow> int \<Rightarrow> spec_error + 'z" where
  "local_time T tw now =
     bind_res (ok_or (ETimezone (tw_timezone tw)) (tl_parse T (tw_timezone tw))) (\<lambda>tz.
     if tl_valid T now then Inr tz else Inl (ETime (ascii ''now'')))"

definition window_active :: "'z time_lib \<Rightarrow> time_window \<Rightarrow> int \<Rightarrow> spec_error + bool" where
  "window_active T tw now =
     bind_res (local_time T tw now) (\<lambda>tz.
     bind_res (parse_hhmm (tw_start tw)) (\<lambda>(sh, sm).
     bind_res (parse_hhmm (tw_end tw)) (\<lambda>(eh, em).
     let start = sh * 60 + sm;
         finish = eh * 60 + em;
         minute = tl_hour T tz now * 60 + tl_minute T tz now;
         today = tl_weekday T tz now;
         yesterday = tl_pred T today
     in if start \<le> finish then Inr (today \<in> set (tw_days tw) \<and> minute \<ge> start \<and> minute \<le> finish)
        else Inr (today \<in> set (tw_days tw) \<and> minute \<ge> start \<or>
                  yesterday \<in> set (tw_days tw) \<and> minute \<le> finish))))"

text \<open>The loop of \<open>next_window_change\<close>.\<close>

function scan_minutes :: "'z time_lib \<Rightarrow> time_window \<Rightarrow> bool \<Rightarrow> int \<Rightarrow> int \<Rightarrow> spec_error + int" where
  "scan_minutes T tw current limit t =
     (if t \<le> limit
      then bind_res (window_active T tw t) (\<lambda>a.
             if a \<noteq> current then Inr t else scan_minutes T tw current limit (t + 60))
      else Inr limit)"
  by pat_completeness auto
termination
  by (relation "measure (\<lambda>(T, tw, c, limit, t). nat (limit + 1 - t))") auto

declare scan_minutes.simps [simp del]

definition next_window_change :: "'z time_lib \<Rightarrow> time_window \<Rightarrow> int \<Rightarrow> spec_error + int" where
  "next_window_change T tw now =
     bind_res (window_active T tw now) (\<lambda>current.
       scan_minutes T tw current (now + 8 * 86400) (now - now smod 60 + 60))"

section \<open>Validation\<close>

definition rule_ok :: "l4_rule \<Rightarrow> bool" where
  "rule_ok r = (port_is_all (l4_ports r) \<or> l4_protocol r = Tcp \<or> l4_protocol r = Udp)"

definition validate :: "'z time_lib \<Rightarrow> 'n policy_spec \<Rightarrow> spec_error + unit" where
  "validate T sp =
     (if sp_version sp \<noteq> 2 then Inl (EVersion (sp_version sp))
      else if \<not> (0 \<le> sp_priority sp \<and> sp_priority sp \<le> 10000) then Inl EPriority
      else if selector_is_empty (sp_source sp) then Inl (EmptySelector ''source'')
      else if selector_is_empty (sp_destination sp) then Inl (EmptySelector ''destination'')
      else if sl_cidrs (sp_source sp) \<noteq> [] then Inl CidrInSource
      else if \<not> list_all rule_ok (sp_l4 sp) then Inl PortsWithoutL4Protocol
      else case cn_time_window (sp_conditions sp) of
        None \<Rightarrow> Inr ()
      | Some tw \<Rightarrow>
          if tw_days tw = [] then Inl NoDays
          else bind_res (ok_or (ETimezone (tw_timezone tw)) (tl_parse T (tw_timezone tw))) (\<lambda>_.
               bind_res (parse_hhmm (tw_start tw)) (\<lambda>_.
               bind_res (parse_hhmm (tw_end tw)) (\<lambda>_. Inr ()))))"

section \<open>Lemmas\<close>

definition ports_wf :: "port_set \<Rightarrow> bool" where
  "ports_wf ps = list_all (\<lambda>(lo, hi). lo \<le> hi) ps"

lemma range_text_chars: "b \<in> set (range_text r) \<Longrightarrow> digit b \<or> b = DASH"
  by (auto simp: range_text_def dec_digits split: if_splits)

lemma range_text_nonempty [simp]: "range_text r \<noteq> []"
  by (simp add: range_text_def)

lemma range_text_solid: "b \<in> set (range_text r) \<Longrightarrow> solid b"
  using range_text_chars[of b r] digit_solid by (auto simp: solid_def word_less_nat_alt)

lemma range_text_no_comma: "COMMA \<notin> set (range_text r)"
  using range_text_chars[of COMMA r] by (auto simp: digit_def)

lemma trim_range_text [simp]: "trim (range_text r) = range_text r"
  by (rule trim_solid) (auto intro!: range_text_solid[of _ r] hd_in_set last_in_set)

lemma unat16_le: "unat (w :: u16) \<le> 65535"
  using unsigned_less[of w, where 'a = nat] by simp

lemma port_range_text:
  assumes "fst r \<le> snd r"
  shows "port_range (range_text r) = Inr r"
proof -
  have d: "DASH \<notin> set (dec n)" for n by (rule dec_no_digit) (simp add: digit_def)
  have s: "split_once DASH (dec n) = None" for n using d by (simp add: split_once_None)
  show ?thesis
  proof (cases "fst r = snd r")
    case True
    then show ?thesis by (cases r) (simp add: port_range_def range_text_def s parse_uint_dec unat16_le)
  next
    case False
    then show ?thesis using assms
      by (cases r) (simp add: port_range_def range_text_def split_once_append[OF d] parse_uint_dec unat16_le
          word_le_nat_alt)
  qed
qed

lemma port_ranges_text: "ports_wf ps \<Longrightarrow> port_ranges (map range_text ps) = Inr ps"
  by (induction ps) (auto simp: ports_wf_def port_range_text)

lemma port_parse_serialize:
  assumes "ports_wf ps"
  shows "port_parse (port_serialize ps) = Inr ps"
proof (cases "ps = []")
  case False
  have "split_on COMMA (port_serialize ps) = map range_text ps"
    unfolding port_serialize_def using False by (intro split_on_join) (auto simp: range_text_no_comma)
  then show ?thesis using assms by (simp add: port_parse_def o_def port_ranges_text filter_id_conv)
qed (simp add: port_serialize_def port_parse_def)

lemma port_range_wf: "port_range part = Inr (lo, hi) \<Longrightarrow> lo \<le> hi"
  by (auto simp: port_range_def Let_def res_simps word_le_nat_alt unat_of_nat split: prod.splits
      dest!: parse_uint_le)

lemma port_ranges_wf: "port_ranges parts = Inr ps \<Longrightarrow> ports_wf ps"
  by (induction parts arbitrary: ps) (auto simp: res_simps ports_wf_def dest: port_range_wf)

lemma join_Nil_iff: "(\<forall>w \<in> set ws. w \<noteq> []) \<Longrightarrow> join sep ws = [] \<longleftrightarrow> ws = []"
  by (induction sep ws rule: join.induct) auto

lemma port_serialize_solid: "b \<in> set (port_serialize ps) \<Longrightarrow> solid b"
proof -
  have "set (join sep ws) \<subseteq> set sep \<union> \<Union> (set ` set ws)" for sep ws
    by (induction sep ws rule: join.induct) auto
  then show "solid b" if "b \<in> set (port_serialize ps)"
    using that range_text_solid unfolding port_serialize_def by (fastforce simp: solid_def word_less_nat_alt)
qed

lemma port_deserialize_serialize:
  assumes "ports_wf ps"
  shows "port_deserialize (port_serialize ps) = Inr ps"
proof (cases "ps = []")
  case False
  then have ne: "port_serialize ps \<noteq> []" by (simp add: port_serialize_def join_Nil_iff)
  have "trim (port_serialize ps) = port_serialize ps"
    using ne by (intro trim_solid) (auto intro!: port_serialize_solid[of _ ps])
  then show ?thesis using ne assms by (simp add: port_deserialize_def port_parse_serialize)
qed (simp add: port_deserialize_def port_serialize_def)

lemma scan_minutes_spec:
  assumes "\<And>m. t \<le> m \<Longrightarrow> m \<le> limit \<Longrightarrow> \<exists>a. window_active T tw m = Inr a"
  shows "\<exists>r. scan_minutes T tw c limit t = Inr r \<and> (t \<le> limit \<longrightarrow> t \<le> r) \<and> r \<le> limit \<and>
     (\<forall>k. t \<le> t + 60 * k \<and> t + 60 * k < r \<longrightarrow> window_active T tw (t + 60 * k) = Inr c) \<and>
     (r < limit \<longrightarrow> (\<exists>k. r = t + 60 * k) \<and> window_active T tw r = Inr (\<not> c))"
  using assms
proof (induction T tw c limit t rule: scan_minutes.induct)
  case (1 T tw c limit t)
  show ?case
  proof (cases "t \<le> limit")
    case False
    then show ?thesis by (subst scan_minutes.simps) auto
  next
    case True
    with "1.prems" obtain a where a: "window_active T tw t = Inr a" by blast
    show ?thesis
    proof (cases "a = c")
      case False
      then show ?thesis using a True by (subst scan_minutes.simps) (auto intro: exI[of _ "0 :: int"])
    next
      case same: True
      have "\<exists>a. window_active T tw m = Inr a" if "t + 60 \<le> m" "m \<le> limit" for m
        using "1.prems"[of m] that by simp
      from "1.IH"[OF True a _ this] same obtain r where
        r: "scan_minutes T tw c limit (t + 60) = Inr r" "t + 60 \<le> limit \<longrightarrow> t + 60 \<le> r" "r \<le> limit"
          "\<And>k. t + 60 \<le> t + 60 + 60 * k \<Longrightarrow> t + 60 + 60 * k < r \<Longrightarrow> window_active T tw (t + 60 + 60 * k) = Inr c"
          "r < limit \<Longrightarrow> (\<exists>k. r = t + 60 + 60 * k) \<and> window_active T tw r = Inr (\<not> c)" by auto
      have "scan_minutes T tw c limit t = Inr r"
        using a same True r(1) by (subst scan_minutes.simps) simp
      moreover have "t \<le> r" using r(1,2) True by (cases "t + 60 \<le> limit") (auto simp: scan_minutes.simps)
      moreover have "window_active T tw (t + 60 * k) = Inr c" if "t \<le> t + 60 * k" "t + 60 * k < r" for k
        using r(4)[of "k - 1"] that a same by (cases "k = 0") (auto simp: algebra_simps)
      moreover have "\<exists>k. r = t + 60 * k" if "r < limit"
        using r(5)[OF that] by (auto intro: exI[of _ "1 + _"])
      ultimately show ?thesis using r(3,5) by blast
    qed
  qed
qed

lemma window_active_total:
  assumes "validate T sp = Inr ()" and "cn_time_window (sp_conditions sp) = Some tw" and "tl_valid T m"
  shows "\<exists>a. window_active T tw m = Inr a"
proof -
  obtain z h k where "tl_parse T (tw_timezone tw) = Some z" "parse_hhmm (tw_start tw) = Inr h"
    "parse_hhmm (tw_end tw) = Inr k"
    using assms(1,2) by (auto simp: validate_def res_simps split: if_splits)
  then show ?thesis using assms(3)
    by (cases h; cases k) (simp add: window_active_def local_time_def Let_def)
qed

section \<open>Sample values\<close>

text \<open>Calendar fields in UTC.\<close>

definition utc_days :: "weekday list" where
  "utc_days = [Thu, Fri, Sat, Sun, Mon, Tue, Wed]"

definition utc_lib :: "unit time_lib" where
  "utc_lib = \<lparr>tl_parse = (\<lambda>s. if s = ascii ''UTC'' then Some () else None), tl_valid = (\<lambda>_. True),
     tl_weekday = (\<lambda>_ t. utc_days ! nat (t div 86400 mod 7)),
     tl_hour = (\<lambda>_ t. nat (t div 3600 mod 24)), tl_minute = (\<lambda>_ t. nat (t div 60 mod 60)),
     tl_pred = (\<lambda>d. case d of Mon \<Rightarrow> Sun | Tue \<Rightarrow> Mon | Wed \<Rightarrow> Tue | Thu \<Rightarrow> Wed | Fri \<Rightarrow> Thu | Sat \<Rightarrow> Fri | Sun \<Rightarrow> Sat)\<rparr>"

definition sample_window :: time_window where
  "sample_window = \<lparr>tw_start = ascii ''22:00'', tw_end = ascii ''6:30'', tw_days = [Mon], tw_timezone = ascii ''UTC''\<rparr>"

definition sample_spec :: "'n policy_spec" where
  "sample_spec = \<lparr>sp_version = 2, sp_effect = Allow, sp_priority = 100,
     sp_source = selector_default\<lparr>sl_any := True\<rparr>, sp_destination = selector_default\<lparr>sl_any := True\<rparr>,
     sp_l4 = [], sp_conditions = conditions_default\<lparr>cn_time_window := Some sample_window\<rparr>\<rparr>"

lemma sample_spec_valid: "validate utc_lib sample_spec = Inr ()"
  by (simp add: validate_def sample_spec_def sample_window_def utc_lib_def selector_is_empty_def
      selector_default_def conditions_default_def parse_hhmm_def parse_uint_def digit_def)

section \<open>Properties\<close>

text \<open>Port sets and their textual form.  Every port set that comes out of the parser is read back
  unchanged from the text it is serialised to, by the parser and by the deserialiser, and so is every
  set of non-empty ranges.\<close>

theorem port_set_round_trip:
  "(port_parse s = Inr ps \<longrightarrow> port_parse (port_serialize ps) = Inr ps \<and> port_deserialize (port_serialize ps) = Inr ps) \<and>
   (ports_wf qs \<longrightarrow> port_deserialize (port_serialize qs) = Inr qs)"
  using port_deserialize_serialize port_parse_serialize port_ranges_wf unfolding port_parse_def by blast

theorem port_set_round_trip_witness:
  "port_parse (ascii ''22, 8000-8100'') = Inr [(22, 22), (8000, 8100)] \<and>
   port_parse (port_serialize [(22, 22), (8000, 8100)]) = Inr [(22, 22), (8000, 8100)] \<and>
   port_deserialize (port_serialize [(22, 22), (8000, 8100)]) = Inr [(22, 22), (8000, 8100)] \<and>
   ports_wf [(1, 2)] \<and> port_deserialize (port_serialize [(1, 2)]) = Inr [(1, 2)]"
proof -
  have p: "port_parse (ascii ''22, 8000-8100'') = Inr [(22, 22), (8000, 8100)]"
    by (simp add: port_parse_def trim_def trim_start_def trim_end_def ws1_def ws2_def ws3_def port_range_def digit_def parse_uint_def)
  have "ports_wf [(1, 2)]" by (simp add: ports_wf_def)
  with p port_set_round_trip[of "ascii ''22, 8000-8100''" "[(22, 22), (8000, 8100)]" "[(1, 2)]"]
  show ?thesis by blast
qed

text \<open>C16. The next change of a time window.  For the window of a valid policy, \<open>next_window_change\<close>
  always answers; the window keeps its state at every whole minute before the answer, and at the
  answer it is in the other state, unless the answer is the horizon of eight days.\<close>

theorem window_change_exact:
  assumes "validate T sp = Inr ()" and "cn_time_window (sp_conditions sp) = Some tw"
    and "0 \<le> now" and "\<And>m. now \<le> m \<Longrightarrow> m \<le> now + 691200 \<Longrightarrow> tl_valid T m"
  shows "\<exists>t c. next_window_change T tw now = Inr t \<and> window_active T tw now = Inr c \<and>
     now < t \<and> t \<le> now + 691200 \<and>
     (\<forall>m. now < m \<and> m < t \<and> m mod 60 = 0 \<longrightarrow> window_active T tw m = Inr c) \<and>
     (t < now + 691200 \<longrightarrow> t mod 60 = 0 \<and> window_active T tw t = Inr (\<not> c))"
proof -
  have act: "\<exists>a. window_active T tw m = Inr a" if "now \<le> m" "m \<le> now + 691200" for m
    using window_active_total[OF assms(1,2)] assms(4) that by blast
  from act[of now] obtain c where c: "window_active T tw now = Inr c" by auto
  let ?t = "now - now smod 60 + 60"
  have sm: "now smod 60 = now mod 60" using assms(3) by (cases "now = 0") (simp_all add: signed_modulo_int_def)
  have lo: "now < ?t" and al: "?t mod 60 = 0" "?t \<le> now + 60" unfolding sm by presburger+
  have "\<exists>a. window_active T tw m = Inr a" if "?t \<le> m" "m \<le> now + 691200" for m
    using lo that by (intro act) linarith+
  from scan_minutes_spec[of ?t "now + 691200" T tw c, OF this] obtain r where
    r: "scan_minutes T tw c (now + 691200) ?t = Inr r" "?t \<le> r" "r \<le> now + 691200"
      "\<And>k. ?t \<le> ?t + 60 * k \<Longrightarrow> ?t + 60 * k < r \<Longrightarrow> window_active T tw (?t + 60 * k) = Inr c"
      "r < now + 691200 \<Longrightarrow> (\<exists>k. r = ?t + 60 * k) \<and> window_active T tw r = Inr (\<not> c)"
    using al(2) by auto
  have "window_active T tw m = Inr c" if m: "now < m" "m < r" "m mod 60 = 0" for m
  proof -
    have "?t \<le> m" using m(1,3) unfolding sm by presburger
    moreover obtain k where "m = ?t + 60 * k"
      using m(3) al(1) by (metis (no_types) add.commute diff_add_cancel dvd_def dvd_diff dvd_eq_mod_eq_0)
    ultimately show ?thesis using r(4)[of k] m(2) by simp
  qed
  moreover have "r mod 60 = 0" if "r < now + 691200"
    using r(5)[OF that] al(1) by (auto simp: mod_add_eq[symmetric])
  ultimately show ?thesis using c r lo by (auto simp: next_window_change_def)
qed

theorem window_change_exact_witness:
  "\<exists>t c. next_window_change utc_lib sample_window 0 = Inr t \<and> window_active utc_lib sample_window 0 = Inr c \<and>
     0 < t \<and> t \<le> 0 + 691200 \<and>
     (\<forall>m. 0 < m \<and> m < t \<and> m mod 60 = 0 \<longrightarrow> window_active utc_lib sample_window m = Inr c) \<and>
     (t < 0 + 691200 \<longrightarrow> t mod 60 = 0 \<and> window_active utc_lib sample_window t = Inr (\<not> c))"
  by (rule window_change_exact[OF sample_spec_valid])
    (simp_all add: sample_spec_def utc_lib_def)

end
