(* ===== verification/Policy_Compile.thy ===== *)
theory Policy_Compile
  imports Policy_Spec
begin

text \<open>
  \<open>avon-policy/src/entities.rs\<close> and \<open>compile.rs\<close>: the snapshot a tenant's policies travel in, their
  translation to Cedar source text, and the Cedar entities.  The translation is modelled as the text
  the code builds.  Its meaning is given by an abstract syntax \<open>cexpr\<close> of the Cedar fragment used, a
  printer \<open>render\<close> and an evaluator \<open>eval\<close> in which, as in Cedar, an evaluation error is not \<open>false\<close>
  and the connectives are lazy.  The Cedar crate itself is the record \<open>cedar_lib\<close>; its values have
  type \<open>'c\<close>.
\<close>

section \<open>Snapshots\<close>

record device_attrs =
  da_status :: bytes
  da_class :: "uuid option"
  da_firewall_enabled :: "bool option"
  da_disk_encrypted :: "bool option"
  da_screen_lock_enabled :: "bool option"
  da_os_version :: "bytes option"
  da_last_update_unix :: "int option"
  da_attestation :: bytes
  da_risk_score :: byte
  da_overlay_v4 :: "u32 option"
  da_overlay_v6 :: "u128 option"

record device_entity =
  de_id :: uuid
  de_pods :: "uuid list"
  de_attrs :: device_attrs

record pod_entity =
  pe_id :: uuid
  pe_parent :: "uuid option"

record 'n policy_entry =
  en_id :: uuid
  en_name :: bytes
  en_spec :: "'n policy_spec"

record 'n snapshot_data =
  sd_tenant_id :: uuid
  sd_version :: u64
  sd_generated_at :: int
  sd_pods :: "pod_entity list"
  sd_device_classes :: "uuid list"
  sd_devices :: "device_entity list"
  sd_policies :: "'n policy_entry list"

datatype compile_error =
    ESchema bytes
  | ECedar bytes
  | EUid
  | ETenant
  | ENotLoaded
  | ESpec spec_error

section \<open>The Cedar text of a policy\<close>

text \<open>\<open>U\<close> prints a UUID, \<open>N\<close> is the network library.\<close>

abbreviation QUOTE :: byte where "QUOTE \<equiv> 34"

definition uid_text :: "(uuid \<Rightarrow> bytes) \<Rightarrow> string \<Rightarrow> uuid \<Rightarrow> bytes" where
  "uid_text U ty u = ascii ''Avon::'' @ ascii ty @ ascii ''::'' @ [QUOTE] @ U u @ [QUOTE]"

definition in_list :: "(uuid \<Rightarrow> bytes) \<Rightarrow> string \<Rightarrow> string \<Rightarrow> uuid list \<Rightarrow> bytes" where
  "in_list U who ty us =
     ascii who @ ascii '' in ['' @ join (ascii '', '') (map (uid_text U ty) us) @ ascii '']''"

text \<open>No alternative: \<open>true\<close>; one: itself; several: their disjunction in parentheses.\<close>

definition alternatives :: "bytes list \<Rightarrow> bytes" where
  "alternatives ps =
     (case ps of
        [] \<Rightarrow> ascii ''true''
      | [p] \<Rightarrow> p
      | _ \<Rightarrow> ascii ''('' @ join (ascii '' || '') ps @ ascii '')'')"

definition source_expr :: "(uuid \<Rightarrow> bytes) \<Rightarrow> 'n selector \<Rightarrow> bytes" where
  "source_expr U s =
     (if sl_any s then ascii ''true''
      else alternatives
        ((if sl_pods s \<noteq> [] then [in_list U ''principal'' ''Pod'' (sl_pods s)] else []) @
         (if sl_device_classes s \<noteq> [] then [in_list U ''principal'' ''DeviceClass'' (sl_device_classes s)] else []) @
         (if sl_devices s \<noteq> [] then [in_list U ''principal'' ''Device'' (sl_devices s)] else [])))"

definition in_range_text :: "'n net_lib \<Rightarrow> 'n \<Rightarrow> bytes" where
  "in_range_text N c = ascii ''context.dst_ip.isInRange(ip('' @ [QUOTE] @ ipnet_show N c @ [QUOTE] @ ascii ''))''"

definition dest_expr :: "(uuid \<Rightarrow> bytes) \<Rightarrow> 'n net_lib \<Rightarrow> 'n selector \<Rightarrow> bytes" where
  "dest_expr U N s =
     (if sl_any s then ascii ''true''
      else alternatives
        ((if sl_pods s \<noteq> [] then [in_list U ''resource'' ''Pod'' (sl_pods s)] else []) @
         (if sl_devices s \<noteq> [] then [in_list U ''resource'' ''Device'' (sl_devices s)] else []) @
         (if sl_cidrs s \<noteq> []
          then let cidr_or = alternatives (map (in_range_text N) (sl_cidrs s))
               in [ascii ''(resource == Avon::Network::'' @ [QUOTE] @ ascii ''external'' @ [QUOTE] @
                     ascii '' && '' @ cidr_or @ ascii '')'',
                   ascii ''(resource is Avon::Device && '' @ cidr_or @ ascii '')'']
          else [])))"

fun proto_text :: "protocol \<Rightarrow> bytes" where
  "proto_text Tcp = ascii ''tcp''"
| "proto_text Udp = ascii ''udp''"
| "proto_text Icmp = ascii ''icmp''"
| "proto_text AnyProtocol = ascii ''any''"

definition proto_eq_text :: "protocol \<Rightarrow> bytes" where
  "proto_eq_text p = ascii ''context.protocol == '' @ [QUOTE] @ proto_text p @ [QUOTE]"

definition port_check :: "u16 \<times> u16 \<Rightarrow> bytes" where
  "port_check r =
     (if fst r = snd r then ascii ''context.dst_port == '' @ dec (unat (fst r))
      else ascii ''(context.dst_port >= '' @ dec (unat (fst r)) @ ascii '' && context.dst_port <= '' @
           dec (unat (snd r)) @ ascii '')'')"

definition rule_base :: "l4_rule \<Rightarrow> bytes" where
  "rule_base r =
     (case l4_protocol r of
        AnyProtocol \<Rightarrow> ascii ''true''
      | Icmp \<Rightarrow> proto_eq_text Icmp
      | p \<Rightarrow>
         if port_is_all (l4_ports r) then proto_eq_text p
         else ascii ''('' @ proto_eq_text p @ ascii '' && '' @
              alternatives (map port_check (l4_ports r)) @ ascii '')'')"

definition l4_expr :: "l4_rule list \<Rightarrow> bytes" where
  "l4_expr rules =
     alternatives (map (\<lambda>r. ascii ''(context.admission || '' @ rule_base r @ ascii '')'') rules)"

definition parse_os_version :: "bytes \<Rightarrow> int \<times> int" where
  "parse_os_version s =
     (let ps = split_on 46 s;
          part = (\<lambda>i. if i < length ps then (case parse_i64 (ps ! i) of Some v \<Rightarrow> v | None \<Rightarrow> 0) else 0)
      in (part 0, part 1))"

definition dec_int :: "int \<Rightarrow> bytes" where
  "dec_int i = (if i < 0 then [45] @ dec (nat (- i)) else dec (nat i))"

definition bool_text :: "bool \<Rightarrow> bytes" where
  "bool_text b = (if b then ascii ''true'' else ascii ''false'')"

definition has_eq_text :: "string \<Rightarrow> bool \<Rightarrow> bytes" where
  "has_eq_text a v =
     ascii ''(principal has '' @ ascii a @ ascii '' && principal.'' @ ascii a @ ascii '' == '' @ bool_text v @ ascii '')''"

definition os_version_text :: "int \<times> int \<Rightarrow> bytes" where
  "os_version_text v =
     ascii ''(principal has os_version_major && (principal.os_version_major > '' @ dec_int (fst v) @
     ascii '' || (principal.os_version_major == '' @ dec_int (fst v) @
     ascii '' && principal.os_version_minor >= '' @ dec_int (snd v) @ ascii '')))''"

definition opt_list :: "('a \<Rightarrow> 'b) \<Rightarrow> 'a option \<Rightarrow> 'b list" where
  "opt_list f x = (case x of None \<Rightarrow> [] | Some a \<Rightarrow> [f a])"

definition posture_parts :: "posture_requirements \<Rightarrow> bytes list" where
  "posture_parts p =
     opt_list (has_eq_text ''firewall_enabled'') (pr_firewall_enabled p) @
     opt_list (has_eq_text ''disk_encrypted'') (pr_disk_encrypted p) @
     opt_list (has_eq_text ''screen_lock_enabled'') (pr_screen_lock_enabled p) @
     opt_list (\<lambda>os. os_version_text (parse_os_version os)) (pr_min_os_version p) @
     opt_list (\<lambda>h. ascii ''(principal has hours_since_update && principal.hours_since_update <= '' @
                   dec (unat h) @ ascii '')'') (pr_max_hours_since_update p)"

definition attested_text :: bytes where
  "attested_text = ascii ''principal.attestation == '' @ [QUOTE] @ ascii ''verified'' @ [QUOTE]"

definition conjunction :: "bytes list \<Rightarrow> bytes" where
  "conjunction ps = (if ps = [] then ascii ''true'' else join (ascii '' && '') ps)"

definition cond_expr :: "conditions \<Rightarrow> bytes" where
  "cond_expr c =
     conjunction
       ((case cn_posture c of None \<Rightarrow> [] | Some p \<Rightarrow> posture_parts p) @
        (if cn_attestation c = Some AttVerified then [attested_text] else []) @
        opt_list (\<lambda>r. ascii ''principal.risk_score <= '' @ dec (unat r)) (cn_max_risk_score c))"

definition effect_text :: "effect \<Rightarrow> bytes" where
  "effect_text e = (case e of Allow \<Rightarrow> ascii ''permit'' | Deny \<Rightarrow> ascii ''forbid'')"

definition when_expr :: "(uuid \<Rightarrow> bytes) \<Rightarrow> 'n net_lib \<Rightarrow> 'n policy_spec \<Rightarrow> bytes" where
  "when_expr U N sp =
     ascii ''('' @ source_expr U (sp_source sp) @ ascii '') && ('' @ dest_expr U N (sp_destination sp) @
     ascii '') && ('' @ l4_expr (sp_l4 sp) @ ascii '') && ('' @ cond_expr (sp_conditions sp) @ ascii '')''"

definition cedar_source ::
  "'z time_lib \<Rightarrow> (uuid \<Rightarrow> bytes) \<Rightarrow> 'n net_lib \<Rightarrow> 'n policy_entry \<Rightarrow> compile_error + bytes" where
  "cedar_source T U N en =
     bind_res (map_err ESpec (validate T (en_spec en))) (\<lambda>_.
       Inr (ascii ''@id('' @ [QUOTE] @ U (en_id en) @ [QUOTE] @ ascii '')'' @ [10] @
         effect_text (sp_effect (en_spec en)) @
         ascii ''(principal, action == Avon::Action::'' @ [QUOTE] @ ascii ''connect'' @ [QUOTE] @
         ascii '', resource) when { '' @ when_expr U N (en_spec en) @ ascii '' };''))"

section \<open>The meaning of the text\<close>

datatype cvar = Principal | Resource

datatype 'n cexpr =
    CTrue
  | CIn cvar string "uuid list"
  | CExternalIn "'n cexpr"
  | CDeviceIn "'n cexpr"
  | CInRange 'n
  | CProto protocol
  | CProtoPort protocol "'n cexpr"
  | CPort "u16 \<times> u16"
  | CAdmissionOr "'n cexpr"
  | CHasEq string bool
  | CMinOs "int \<times> int"
  | CHours u32
  | CAttested
  | CRisk byte
  | CAlt "'n cexpr list"
  | CAll "'n cexpr list"
  | CWhen "'n cexpr" "'n cexpr" "'n cexpr" "'n cexpr"

fun var_text :: "cvar \<Rightarrow> string" where
  "var_text Principal = ''principal''"
| "var_text Resource = ''resource''"

fun render :: "(uuid \<Rightarrow> bytes) \<Rightarrow> 'n net_lib \<Rightarrow> 'n cexpr \<Rightarrow> bytes" where
  "render U N CTrue = ascii ''true''"
| "render U N (CIn v ty us) = in_list U (var_text v) ty us"
| "render U N (CExternalIn e) = ascii ''(resource == Avon::Network::'' @ [QUOTE] @ ascii ''external'' @ [QUOTE] @
     ascii '' && '' @ render U N e @ ascii '')''"
| "render U N (CDeviceIn e) = ascii ''(resource is Avon::Device && '' @ render U N e @ ascii '')''"
| "render U N (CInRange c) = in_range_text N c"
| "render U N (CProto p) = proto_eq_text p"
| "render U N (CProtoPort p e) = ascii ''('' @ proto_eq_text p @ ascii '' && '' @ render U N e @ ascii '')''"
| "render U N (CPort r) = port_check r"
| "render U N (CAdmissionOr e) = ascii ''(context.admission || '' @ render U N e @ ascii '')''"
| "render U N (CHasEq a v) = has_eq_text a v"
| "render U N (CMinOs v) = os_version_text v"
| "render U N (CHours h) = ascii ''(principal has hours_since_update && principal.hours_since_update <= '' @
     dec (unat h) @ ascii '')''"
| "render U N CAttested = attested_text"
| "render U N (CRisk r) = ascii ''principal.risk_score <= '' @ dec (unat r)"
| "render U N (CAlt es) = alternatives (map (render U N) es)"
| "render U N (CAll es) = conjunction (map (render U N) es)"
| "render U N (CWhen a b c d) = ascii ''('' @ render U N a @ ascii '') && ('' @ render U N b @
     ascii '') && ('' @ render U N c @ ascii '') && ('' @ render U N d @ ascii '')''"

text \<open>What Cedar evaluates against: the hierarchy, the request context, the principal's attributes.\<close>

record cenv =
  ev_in :: "cvar \<Rightarrow> string \<Rightarrow> uuid \<Rightarrow> bool"
  ev_external :: bool
  ev_is_device :: bool
  ev_dst_ip :: ip_addr
  ev_protocol :: protocol
  ev_dst_port :: u16
  ev_admission :: bool
  ev_bool :: "string \<Rightarrow> bool option"
  ev_long :: "string \<Rightarrow> int option"
  ev_attestation :: "bytes option"

text \<open>Lazy connectives over possibly failing operands.\<close>

fun and_then :: "bool option \<Rightarrow> bool option \<Rightarrow> bool option" where
  "and_then (Some True) b = b"
| "and_then (Some False) b = Some False"
| "and_then None b = None"

fun or_else :: "bool option \<Rightarrow> bool option \<Rightarrow> bool option" where
  "or_else (Some True) b = Some True"
| "or_else (Some False) b = b"
| "or_else None b = None"

definition any_of :: "bool option list \<Rightarrow> bool option" where
  "any_of xs = (if xs = [] then Some True else foldr or_else xs (Some False))"

definition all_of :: "bool option list \<Rightarrow> bool option" where
  "all_of xs = foldr and_then xs (Some True)"

fun eval :: "'n net_lib \<Rightarrow> cenv \<Rightarrow> 'n cexpr \<Rightarrow> bool option" where
  "eval N ev CTrue = Some True"
| "eval N ev (CIn v ty us) = Some (\<exists>u \<in> set us. ev_in ev v ty u)"
| "eval N ev (CExternalIn e) = and_then (Some (ev_external ev)) (eval N ev e)"
| "eval N ev (CDeviceIn e) = and_then (Some (ev_is_device ev)) (eval N ev e)"
| "eval N ev (CInRange c) = Some (ipnet_contains N c (ev_dst_ip ev))"
| "eval N ev (CProto p) = Some (ev_protocol ev = p)"
| "eval N ev (CProtoPort p e) = and_then (Some (ev_protocol ev = p)) (eval N ev e)"
| "eval N ev (CPort r) = Some (fst r \<le> ev_dst_port ev \<and> ev_dst_port ev \<le> snd r)"
| "eval N ev (CAdmissionOr e) = or_else (Some (ev_admission ev)) (eval N ev e)"
| "eval N ev (CHasEq a v) =
    and_then (Some (ev_bool ev a \<noteq> None)) (map_option (\<lambda>w. w = v) (ev_bool ev a))"
| "eval N ev (CMinOs v) =
    and_then (Some (ev_long ev ''os_version_major'' \<noteq> None))
      (or_else (map_option (\<lambda>m. m > fst v) (ev_long ev ''os_version_major''))
        (and_then (map_option (\<lambda>m. m = fst v) (ev_long ev ''os_version_major''))
          (map_option (\<lambda>m. m \<ge> snd v) (ev_long ev ''os_version_minor''))))"
| "eval N ev (CHours h) =
    and_then (Some (ev_long ev ''hours_since_update'' \<noteq> None))
      (map_option (\<lambda>x. x \<le> int (unat h)) (ev_long ev ''hours_since_update''))"
| "eval N ev CAttested = map_option (\<lambda>a. a = ascii ''verified'') (ev_attestation ev)"
| "eval N ev (CRisk r) = map_option (\<lambda>x. x \<le> int (unat r)) (ev_long ev ''risk_score'')"
| "eval N ev (CAlt es) = any_of (map (eval N ev) es)"
| "eval N ev (CAll es) = all_of (map (eval N ev) es)"
| "eval N ev (CWhen a b c d) = and_then (eval N ev a) (and_then (eval N ev b) (and_then (eval N ev c) (eval N ev d)))"

section \<open>What a policy is meant to select\<close>

definition selects_source :: "cenv \<Rightarrow> 'n selector \<Rightarrow> bool" where
  "selects_source ev s =
     (sl_any s \<or> (\<exists>u \<in> set (sl_pods s). ev_in ev Principal ''Pod'' u) \<or>
      (\<exists>u \<in> set (sl_device_classes s). ev_in ev Principal ''DeviceClass'' u) \<or>
      (\<exists>u \<in> set (sl_devices s). ev_in ev Principal ''Device'' u))"

definition selects_destination :: "'n net_lib \<Rightarrow> cenv \<Rightarrow> 'n selector \<Rightarrow> bool" where
  "selects_destination N ev s =
     (sl_any s \<or> (\<exists>u \<in> set (sl_pods s). ev_in ev Resource ''Pod'' u) \<or>
      (\<exists>u \<in> set (sl_device_classes s). ev_in ev Resource ''DeviceClass'' u) \<or>
      (\<exists>u \<in> set (sl_devices s). ev_in ev Resource ''Device'' u) \<or>
      (ev_external ev \<or> ev_is_device ev) \<and> (\<exists>c \<in> set (sl_cidrs s). ipnet_contains N c (ev_dst_ip ev)))"

definition rule_matches :: "cenv \<Rightarrow> l4_rule \<Rightarrow> bool" where
  "rule_matches ev r =
     (ev_admission ev \<or> l4_protocol r = AnyProtocol \<or>
      l4_protocol r = ev_protocol ev \<and> (l4_protocol r = Icmp \<or> port_contains (l4_ports r) (ev_dst_port ev)))"

definition posture_met :: "cenv \<Rightarrow> posture_requirements \<Rightarrow> bool" where
  "posture_met ev p =
     ((\<forall>v. pr_firewall_enabled p = Some v \<longrightarrow> ev_bool ev ''firewall_enabled'' = Some v) \<and>
      (\<forall>v. pr_disk_encrypted p = Some v \<longrightarrow> ev_bool ev ''disk_encrypted'' = Some v) \<and>
      (\<forall>v. pr_screen_lock_enabled p = Some v \<longrightarrow> ev_bool ev ''screen_lock_enabled'' = Some v) \<and>
      (\<forall>os. pr_min_os_version p = Some os \<longrightarrow>
         (\<exists>a b. ev_long ev ''os_version_major'' = Some a \<and> ev_long ev ''os_version_minor'' = Some b \<and>
            (a > fst (parse_os_version os) \<or> a = fst (parse_os_version os) \<and> b \<ge> snd (parse_os_version os)))) \<and>
      (\<forall>h. pr_max_hours_since_update p = Some h \<longrightarrow>
         (\<exists>x. ev_long ev ''hours_since_update'' = Some x \<and> x \<le> int (unat h))))"

definition conditions_met :: "cenv \<Rightarrow> conditions \<Rightarrow> bool" where
  "conditions_met ev c =
     ((\<forall>p. cn_posture c = Some p \<longrightarrow> posture_met ev p) \<and>
      (cn_attestation c = Some AttVerified \<longrightarrow> ev_attestation ev = Some (ascii ''verified'')) \<and>
      (\<forall>r. cn_max_risk_score c = Some r \<longrightarrow>
         (\<exists>x. ev_long ev ''risk_score'' = Some x \<and> x \<le> int (unat r))))"

definition spec_matches :: "'n net_lib \<Rightarrow> cenv \<Rightarrow> 'n policy_spec \<Rightarrow> bool" where
  "spec_matches N ev sp =
     (selects_source ev (sp_source sp) \<and> selects_destination N ev (sp_destination sp) \<and>
      (sp_l4 sp = [] \<or> (\<exists>r \<in> set (sp_l4 sp). rule_matches ev r)) \<and> conditions_met ev (sp_conditions sp))"

text \<open>Every device entity carries these attributes.\<close>

definition env_ok :: "cenv \<Rightarrow> bool" where
  "env_ok ev = (ev_long ev ''risk_score'' \<noteq> None \<and> ev_attestation ev \<noteq> None \<and>
     (ev_long ev ''os_version_major'' \<noteq> None \<longrightarrow> ev_long ev ''os_version_minor'' \<noteq> None))"

section \<open>The syntax behind the text\<close>

definition source_ast :: "'n selector \<Rightarrow> 'n cexpr" where
  "source_ast s =
     (if sl_any s then CTrue
      else CAlt
        ((if sl_pods s \<noteq> [] then [CIn Principal ''Pod'' (sl_pods s)] else []) @
         (if sl_device_classes s \<noteq> [] then [CIn Principal ''DeviceClass'' (sl_device_classes s)] else []) @
         (if sl_devices s \<noteq> [] then [CIn Principal ''Device'' (sl_devices s)] else [])))"

definition dest_ast :: "'n selector \<Rightarrow> 'n cexpr" where
  "dest_ast s =
     (if sl_any s then CTrue
      else CAlt
        ((if sl_pods s \<noteq> [] then [CIn Resource ''Pod'' (sl_pods s)] else []) @
         (if sl_devices s \<noteq> [] then [CIn Resource ''Device'' (sl_devices s)] else []) @
         (if sl_cidrs s \<noteq> []
          then [CExternalIn (CAlt (map CInRange (sl_cidrs s))), CDeviceIn (CAlt (map CInRange (sl_cidrs s)))]
          else [])))"

definition rule_ast :: "l4_rule \<Rightarrow> 'n cexpr" where
  "rule_ast r =
     CAdmissionOr
       (if l4_protocol r = AnyProtocol then CTrue
        else if l4_protocol r = Icmp \<or> port_is_all (l4_ports r) then CProto (l4_protocol r)
        else CProtoPort (l4_protocol r) (CAlt (map CPort (l4_ports r))))"

definition posture_asts :: "posture_requirements \<Rightarrow> 'n cexpr list" where
  "posture_asts p =
     opt_list (CHasEq ''firewall_enabled'') (pr_firewall_enabled p) @
     opt_list (CHasEq ''disk_encrypted'') (pr_disk_encrypted p) @
     opt_list (CHasEq ''screen_lock_enabled'') (pr_screen_lock_enabled p) @
     opt_list (\<lambda>os. CMinOs (parse_os_version os)) (pr_min_os_version p) @
     opt_list CHours (pr_max_hours_since_update p)"

definition cond_ast :: "conditions \<Rightarrow> 'n cexpr" where
  "cond_ast c =
     CAll ((case cn_posture c of None \<Rightarrow> [] | Some p \<Rightarrow> posture_asts p) @
       (if cn_attestation c = Some AttVerified then [CAttested] else []) @
       opt_list CRisk (cn_max_risk_score c))"

definition when_ast :: "'n policy_spec \<Rightarrow> 'n cexpr" where
  "when_ast sp = CWhen (source_ast (sp_source sp)) (dest_ast (sp_destination sp))
     (CAlt (map rule_ast (sp_l4 sp))) (cond_ast (sp_conditions sp))"

lemma render_source: "render U N (source_ast s) = source_expr U s"
  by (simp add: source_ast_def source_expr_def)

lemma render_dest: "render U N (dest_ast s) = dest_expr U N s"
  by (simp add: dest_ast_def dest_expr_def Let_def o_def)

lemma render_rule: "render U N (rule_ast r) = ascii ''(context.admission || '' @ rule_base r @ ascii '')''"
  by (cases "l4_protocol r") (simp_all add: rule_ast_def rule_base_def o_def)

lemma map_opt_list: "map f (opt_list g x) = opt_list (\<lambda>a. f (g a)) x"
  by (cases x) (simp_all add: opt_list_def)

lemma render_posture: "map (render U N) (posture_asts p) = posture_parts p"
  by (simp add: posture_asts_def posture_parts_def map_opt_list)

lemma render_cond: "render U N (cond_ast c) = cond_expr c"
  by (cases "cn_posture c")
    (simp_all add: cond_ast_def cond_expr_def map_opt_list render_posture del: ascii_simps)

lemma render_when: "render U N (when_ast sp) = when_expr U N sp"
  by (simp add: when_ast_def when_expr_def render_source render_dest render_cond render_rule l4_expr_def o_def)

text \<open>Total operands: the connectives are the logical ones.\<close>

lemma and_then_total [simp]: "and_then (Some a) (Some b) = Some (a \<and> b)"
  by (cases a) simp_all

lemma or_else_total [simp]: "or_else (Some a) (Some b) = Some (a \<or> b)"
  by (cases a) simp_all

lemma any_of_total: "any_of (map (\<lambda>x. Some (f x)) xs) = Some (xs = [] \<or> (\<exists>x \<in> set xs. f x))"
proof -
  have "foldr or_else (map (\<lambda>x. Some (f x)) xs) (Some False) = Some (\<exists>x \<in> set xs. f x)"
    by (induction xs) simp_all
  then show ?thesis by (simp add: any_of_def)
qed

lemma and_then_assoc: "and_then (and_then a b) c = and_then a (and_then b c)"
  by (cases "(a, b)" rule: and_then.cases) simp_all

lemma all_of_append: "all_of (xs @ ys) = and_then (all_of xs) (all_of ys)"
  unfolding all_of_def by (induction xs) (simp_all add: and_then_assoc)

lemma all_of_simps [simp]: "all_of [] = Some True" "all_of [Some a] = Some a"
  by (simp_all add: all_of_def)

lemma all_of_opt:
  "(\<And>a. x = Some a \<Longrightarrow> eval N ev (g a) = Some (P a)) \<Longrightarrow>
   all_of (map (eval N ev) (opt_list g x)) = Some (\<forall>a. x = Some a \<longrightarrow> P a)"
  by (cases x) (simp_all add: opt_list_def)

lemma eval_source:
  "\<not> selector_is_empty s \<Longrightarrow> sl_cidrs s = [] \<Longrightarrow> eval N ev (source_ast s) = Some (selects_source ev s)"
  by (auto simp: source_ast_def selects_source_def selector_is_empty_def any_of_def)

lemma eval_ranges:
  "cs \<noteq> [] \<Longrightarrow> any_of (map (eval N ev \<circ> CInRange) cs) = Some (\<exists>c \<in> set cs. ipnet_contains N c (ev_dst_ip ev))"
  using any_of_total[of "\<lambda>c. ipnet_contains N c (ev_dst_ip ev)" cs] by (simp add: o_def)

lemma eval_dest:
  "\<not> selector_is_empty s \<Longrightarrow> sl_any s \<or> sl_device_classes s = [] \<Longrightarrow>
   eval N ev (dest_ast s) = Some (selects_destination N ev s)"
  by (auto simp: dest_ast_def selects_destination_def selector_is_empty_def eval_ranges any_of_def[of "_ # _"])

lemma eval_rule: "eval N ev (rule_ast r) = Some (rule_matches ev r)"
proof -
  have "any_of (map (eval N ev \<circ> CPort) (l4_ports r)) = Some (port_contains (l4_ports r) (ev_dst_port ev))"
    using any_of_total[of "\<lambda>r. fst r \<le> ev_dst_port ev \<and> ev_dst_port ev \<le> snd r" "l4_ports r"]
    by (simp add: o_def port_contains_def case_prod_beta)
  then show ?thesis
    by (auto simp: rule_ast_def rule_matches_def port_is_all_def port_contains_def)
qed

lemma eval_rules: "eval N ev (CAlt (map rule_ast rs)) = Some (rs = [] \<or> (\<exists>r \<in> set rs. rule_matches ev r))"
  using any_of_total[of "rule_matches ev" rs] by (simp add: o_def eval_rule)

lemma eval_has_eq: "eval N ev (CHasEq a v) = Some (ev_bool ev a = Some v)"
  by (cases "ev_bool ev a") simp_all

lemma eval_posture:
  assumes "env_ok ev"
  shows "all_of (map (eval N ev) (posture_asts p)) = Some (posture_met ev p)"
proof -
  have os: "eval N ev (CMinOs v) = Some (\<exists>a b. ev_long ev ''os_version_major'' = Some a \<and>
      ev_long ev ''os_version_minor'' = Some b \<and> (a > fst v \<or> a = fst v \<and> b \<ge> snd v))" for v
    using assms by (cases "ev_long ev ''os_version_major''") (auto simp: env_ok_def)
  have hours: "eval N ev (CHours h) = Some (\<exists>x. ev_long ev ''hours_since_update'' = Some x \<and> x \<le> int (unat h))" for h
    by (cases "ev_long ev ''hours_since_update''") auto
  show ?thesis unfolding posture_asts_def posture_met_def map_append all_of_append
    by (simp add: all_of_opt[OF eval_has_eq] all_of_opt[OF os] all_of_opt[OF hours] del: eval.simps)
qed

lemma eval_cond:
  assumes "env_ok ev"
  shows "eval N ev (cond_ast c) = Some (conditions_met ev c)"
proof -
  have risk: "eval N ev (CRisk r) = Some (\<exists>x. ev_long ev ''risk_score'' = Some x \<and> x \<le> int (unat r))" for r
    using assms by (auto simp: env_ok_def)
  have att: "all_of (map (eval N ev) (if b then [CAttested] else [])) =
      Some (b \<longrightarrow> ev_attestation ev = Some (ascii ''verified''))" for b
    using assms by (auto simp: env_ok_def)
  have pos: "all_of (map (eval N ev) (case x of None \<Rightarrow> [] | Some p \<Rightarrow> posture_asts p)) =
      Some (\<forall>p. x = Some p \<longrightarrow> posture_met ev p)" for x
    using eval_posture[OF assms] by (cases x) simp_all
  show ?thesis unfolding cond_ast_def conditions_met_def eval.simps map_append all_of_append att pos
    by (simp add: all_of_opt[OF risk] del: eval.simps)
qed

section \<open>Properties\<close>


text \<open>C18. A destination selected by device class only is not restricted at all.  Such a policy passes
  validation, but its Cedar text is the text of the policy that allows every destination.\<close>

theorem class_destination_widened:
  assumes "sl_pods d = []" and "sl_devices d = []" and "sl_cidrs d = []" and "\<not> sl_any d" and "sl_device_classes d \<noteq> []"
    and "validate T (sp\<lparr>sp_destination := selector_default\<lparr>sl_any := True\<rparr>\<rparr>) = Inr ()"
  shows "is_ok (cedar_source T U N \<lparr>en_id = i, en_name = n, en_spec = sp\<lparr>sp_destination := d\<rparr>\<rparr>) \<and>
    cedar_source T U N \<lparr>en_id = i, en_name = n, en_spec = sp\<lparr>sp_destination := d\<rparr>\<rparr> =
    cedar_source T U N \<lparr>en_id = i, en_name = n, en_spec = sp\<lparr>sp_destination := selector_default\<lparr>sl_any := True\<rparr>\<rparr>\<rparr>"
proof -
  have "validate T (sp\<lparr>sp_destination := d\<rparr>) = Inr ()"
    using assms by (auto simp: validate_def selector_is_empty_def selector_default_def split: if_splits)
  with assms show ?thesis
    by (simp add: cedar_source_def when_expr_def dest_expr_def alternatives_def selector_default_def del: ascii_simps)
qed

section \<open>Witnesses\<close>

definition sample_env :: cenv where
  "sample_env = \<lparr>ev_in = (\<lambda>_ _ _. False), ev_external = True, ev_is_device = False, ev_dst_ip = V4 0,
     ev_protocol = Tcp, ev_dst_port = 443, ev_admission = False, ev_bool = Map.empty,
     ev_long = [''risk_score'' \<mapsto> 0], ev_attestation = Some []\<rparr>"

lemma sample_facts:
  "env_ok sample_env" "sl_any (sp_destination sample_spec)"
  "validate utc_lib ((sample_spec :: 'n policy_spec)\<lparr>sp_destination := selector_default\<lparr>sl_any := True\<rparr>\<rparr>) = Inr ()"
proof -
  have "(sample_spec :: 'n policy_spec)\<lparr>sp_destination := selector_default\<lparr>sl_any := True\<rparr>\<rparr> = sample_spec"
    by (simp add: sample_spec_def)
  then show "validate utc_lib ((sample_spec :: 'n policy_spec)\<lparr>sp_destination := selector_default\<lparr>sl_any := True\<rparr>\<rparr>) = Inr ()"
    by (simp only: sample_spec_valid)
qed (simp_all add: sample_env_def env_ok_def sample_spec_def)


theorem class_destination_widened_witness:
  "cedar_source utc_lib (\<lambda>u. u) toy_net \<lparr>en_id = [], en_name = [],
      en_spec = sample_spec\<lparr>sp_destination := selector_default\<lparr>sl_device_classes := [[1]]\<rparr>\<rparr>\<rparr> =
   cedar_source utc_lib (\<lambda>u. u) toy_net \<lparr>en_id = [], en_name = [],
      en_spec = sample_spec\<lparr>sp_destination := selector_default\<lparr>sl_any := True\<rparr>\<rparr>\<rparr>"
  by (rule conjunct2[OF class_destination_widened[OF _ _ _ _ _ sample_facts(3)]]) (simp_all add: selector_default_def)

end
