(* ===== verification/Policy_Engine.thy ===== *)
theory Policy_Engine
  imports Policy_Compile
begin

text \<open>
  \<open>avon-policy/src/compile.rs\<close> (\<open>compile\<close>), \<open>entities.rs\<close> (\<open>build_entities\<close>) and \<open>engine.rs\<close>: loading a
  snapshot, patching a device, and deciding a request.  The Cedar crate is the record \<open>cedar_lib\<close>, all
  of whose values have type \<open>'c\<close>; a Cedar error is its text.  The atomic swap of the loaded snapshot is
  the update of the engine record.
\<close>

section \<open>The Cedar crate\<close>

record cedar_response =
  rs_allow :: bool
  rs_reason :: "bytes list"
  rs_errors :: "bytes list"

record 'c cedar_lib =
  cd_schema :: "bytes \<Rightarrow> bytes + 'c"
  cd_uid :: "bytes \<Rightarrow> 'c option"
  cd_restricted :: "bytes \<Rightarrow> bytes + 'c"
  cd_entity :: "'c \<Rightarrow> (bytes \<times> 'c) list \<Rightarrow> 'c list \<Rightarrow> bytes + 'c"
  cd_entities :: "'c list \<Rightarrow> 'c \<Rightarrow> bytes + 'c"
  cd_policy :: "bytes \<Rightarrow> bytes \<Rightarrow> bytes + 'c"
  cd_no_policies :: 'c
  cd_add :: "'c \<Rightarrow> 'c \<Rightarrow> bytes + 'c"
  cd_context :: "bytes \<Rightarrow> u16 \<Rightarrow> bytes \<Rightarrow> bool \<Rightarrow> bytes + 'c"
  cd_request :: "'c \<Rightarrow> 'c \<Rightarrow> 'c \<Rightarrow> 'c \<Rightarrow> bytes + 'c"
  cd_authorize :: "'c \<Rightarrow> 'c \<Rightarrow> 'c \<Rightarrow> cedar_response"

text \<open>The libraries the engine is built on: calendar, networks, UUID text, Cedar.\<close>

record ('z, 'n, 'c) policy_libs =
  pl_time :: "'z time_lib"
  pl_net :: "'n net_lib"
  pl_uuid_show :: "uuid \<Rightarrow> bytes"
  pl_uuid_parse :: "bytes \<Rightarrow> uuid option"
  pl_cedar :: "'c cedar_lib"

section \<open>Compilation\<close>

definition CEDAR_SCHEMA :: bytes where
  "CEDAR_SCHEMA = join [10] (map ascii
    ['''',
     ''namespace Avon {'',
     ''  entity Pod in [Pod];'',
     ''  entity DeviceClass;'',
     ''  entity Device in [Pod, DeviceClass] = {'',
     ''    status: String,'',
     ''    attestation: String,'',
     ''    risk_score: Long,'',
     ''    firewall_enabled?: Bool,'',
     ''    disk_encrypted?: Bool,'',
     ''    screen_lock_enabled?: Bool,'',
     ''    os_version_major?: Long,'',
     ''    os_version_minor?: Long,'',
     ''    hours_since_update?: Long,'',
     ''  };'',
     ''  entity Network;'',
     ''  action connect appliesTo {'',
     ''    principal: [Device],'',
     ''    resource: [Device, Network],'',
     ''    context: {'',
     ''      protocol: String,'',
     ''      dst_port: Long,'',
     ''      dst_ip: ipaddr,'',
     ''      admission: Bool'',
     ''    }'',
     ''  };'',
     ''}'',
     ''''])"

definition cedar_schema :: "'c cedar_lib \<Rightarrow> compile_error + 'c" where
  "cedar_schema C = map_err ESchema (cd_schema C CEDAR_SCHEMA)"

record 'c compiled =
  cp_policies :: 'c
  cp_schema :: 'c
  cp_active_ids :: "uuid list"
  cp_next_window_change :: "int option"

text \<open>The loop of \<open>compile\<close>, with the policy set, the active ids and the next change so far.\<close>

fun compile_entries ::
  "('z, 'n, 'c) policy_libs \<Rightarrow> int \<Rightarrow> 'n policy_entry list \<Rightarrow> 'c \<Rightarrow> uuid list \<Rightarrow> int option \<Rightarrow>
   compile_error + 'c \<times> uuid list \<times> int option" where
  "compile_entries L now [] policies ids change = Inr (policies, ids, change)"
| "compile_entries L now (en # ens) policies ids change =
    bind_res (map_err ESpec (validate (pl_time L) (en_spec en))) (\<lambda>_.
    bind_res
      (case cn_time_window (sp_conditions (en_spec en)) of
         None \<Rightarrow> Inr (True, change)
       | Some tw \<Rightarrow>
           bind_res (map_err ESpec (window_active (pl_time L) tw now)) (\<lambda>active.
           bind_res (map_err ESpec (next_window_change (pl_time L) tw now)) (\<lambda>nc.
           Inr (active, Some (case change of Some existing \<Rightarrow> min existing nc | None \<Rightarrow> nc)))))
      (\<lambda>(active, change).
    if \<not> active then compile_entries L now ens policies ids change
    else
      bind_res (cedar_source (pl_time L) (pl_uuid_show L) (pl_net L) en) (\<lambda>src.
      bind_res (map_err ECedar (cd_policy (pl_cedar L) (pl_uuid_show L (en_id en)) src)) (\<lambda>policy.
      bind_res (map_err ECedar (cd_add (pl_cedar L) policies policy)) (\<lambda>policies.
      compile_entries L now ens policies (ids @ [en_id en]) change)))))"

definition compile :: "('z, 'n, 'c) policy_libs \<Rightarrow> 'n snapshot_data \<Rightarrow> int \<Rightarrow> compile_error + 'c compiled" where
  "compile L data now =
     bind_res (cedar_schema (pl_cedar L)) (\<lambda>schema.
     bind_res (compile_entries L now (sd_policies data) (cd_no_policies (pl_cedar L)) [] None)
       (\<lambda>(policies, ids, change).
     Inr \<lparr>cp_policies = policies, cp_schema = schema, cp_active_ids = ids, cp_next_window_change = change\<rparr>))"

section \<open>Entities\<close>

definition unicode_escape :: "nat \<Rightarrow> bytes" where
  "unicode_escape n = [92, 117, 123] @ hex_text n @ [125]"

definition escape_ascii :: "nat \<Rightarrow> bytes" where
  "escape_ascii n =
     (if n = 9 then [92, 116] else if n = 13 then [92, 114] else if n = 10 then [92, 110]
      else if n = 39 \<or> n = 34 \<or> n = 92 then [92, word_of_nat n]
      else if 32 \<le> n \<and> n \<le> 126 then [word_of_nat n] else unicode_escape n)"

text \<open>\<open>str::escape_default\<close>, on valid UTF-8.\<close>

fun escape_default :: "bytes \<Rightarrow> bytes" where
  "escape_default [] = []"
| "escape_default (b # bs) =
    (if b < 0x80 then escape_ascii (unat b) @ escape_default bs
     else if b < 0xE0 then
       (case bs of c1 # r \<Rightarrow>
          unicode_escape ((unat b - 0xC0) * 64 + (unat c1 - 0x80)) @ escape_default r | _ \<Rightarrow> [])
     else if b < 0xF0 then
       (case bs of c1 # c2 # r \<Rightarrow>
          unicode_escape ((unat b - 0xE0) * 4096 + (unat c1 - 0x80) * 64 + (unat c2 - 0x80)) @ escape_default r | _ \<Rightarrow> [])
     else
       (case bs of c1 # c2 # c3 # r \<Rightarrow>
          unicode_escape ((unat b - 0xF0) * 262144 + (unat c1 - 0x80) * 4096 + (unat c2 - 0x80) * 64 + (unat c3 - 0x80)) @
          escape_default r | _ \<Rightarrow> []))"

definition quoted :: "bytes \<Rightarrow> bytes" where
  "quoted s = [QUOTE] @ escape_default s @ [QUOTE]"

definition uid :: "('z, 'n, 'c) policy_libs \<Rightarrow> string \<Rightarrow> uuid \<Rightarrow> compile_error + 'c" where
  "uid L ty i = ok_or EUid (cd_uid (pl_cedar L) (uid_text (pl_uuid_show L) ty i))"

definition restricted :: "'c cedar_lib \<Rightarrow> bytes \<Rightarrow> compile_error + 'c" where
  "restricted C s = map_err ECedar (cd_restricted C s)"

text \<open>A loop that stops at the first error.\<close>

fun collect :: "('a \<Rightarrow> 'e + 'b) \<Rightarrow> 'a list \<Rightarrow> 'e + 'b list" where
  "collect f [] = Inr []"
| "collect f (x # xs) = bind_res (f x) (\<lambda>y. bind_res (collect f xs) (\<lambda>ys. Inr (y # ys)))"

definition pod_entity_of :: "('z, 'n, 'c) policy_libs \<Rightarrow> pod_entity \<Rightarrow> compile_error + 'c" where
  "pod_entity_of L pod =
     (let parents = (case pe_parent pod of
                       None \<Rightarrow> []
                     | Some p \<Rightarrow> (case uid L ''Pod'' p of Inl _ \<Rightarrow> [] | Inr u \<Rightarrow> [u]))
      in bind_res (uid L ''Pod'' (pe_id pod)) (\<lambda>u. map_err ECedar (cd_entity (pl_cedar L) u [] parents)))"

definition class_entity_of :: "('z, 'n, 'c) policy_libs \<Rightarrow> uuid \<Rightarrow> compile_error + 'c" where
  "class_entity_of L c =
     bind_res (uid L ''DeviceClass'' c) (\<lambda>u. map_err ECedar (cd_entity (pl_cedar L) u [] []))"

text \<open>The attributes of a device in insertion order: name and Cedar literal.\<close>

definition attr_texts :: "device_attrs \<Rightarrow> int \<Rightarrow> (bytes \<times> bytes) list" where
  "attr_texts a now =
     [(ascii ''status'', quoted (da_status a)), (ascii ''attestation'', quoted (da_attestation a)),
      (ascii ''risk_score'', dec (unat (da_risk_score a)))] @
     opt_list (\<lambda>v. (ascii ''firewall_enabled'', bool_text v)) (da_firewall_enabled a) @
     opt_list (\<lambda>v. (ascii ''disk_encrypted'', bool_text v)) (da_disk_encrypted a) @
     opt_list (\<lambda>v. (ascii ''screen_lock_enabled'', bool_text v)) (da_screen_lock_enabled a) @
     (case da_os_version a of
        None \<Rightarrow> []
      | Some os \<Rightarrow> [(ascii ''os_version_major'', dec_int (fst (parse_os_version os))),
                    (ascii ''os_version_minor'', dec_int (snd (parse_os_version os)))]) @
     opt_list (\<lambda>ts. (ascii ''hours_since_update'',
        dec_int (max 0 (sint (word_of_int (now - ts) :: i64) sdiv 3600)))) (da_last_update_unix a)"

definition device_entity_of :: "('z, 'n, 'c) policy_libs \<Rightarrow> int \<Rightarrow> device_entity \<Rightarrow> compile_error + 'c" where
  "device_entity_of L now dev =
     bind_res (collect (uid L ''Pod'') (de_pods dev)) (\<lambda>pods.
     bind_res (collect (uid L ''DeviceClass'') (opt_list (\<lambda>c. c) (da_class (de_attrs dev)))) (\<lambda>classes.
     bind_res (collect (\<lambda>(k, t). bind_res (restricted (pl_cedar L) t) (\<lambda>x. Inr (k, x)))
         (attr_texts (de_attrs dev) now)) (\<lambda>attrs.
     bind_res (uid L ''Device'' (de_id dev)) (\<lambda>u.
     map_err ECedar (cd_entity (pl_cedar L) u attrs (pods @ classes))))))"

definition build_entities :: "('z, 'n, 'c) policy_libs \<Rightarrow> 'n snapshot_data \<Rightarrow> int \<Rightarrow> compile_error + 'c" where
  "build_entities L data now =
     bind_res (cedar_schema (pl_cedar L)) (\<lambda>schema.
     bind_res (collect (pod_entity_of L) (sd_pods data)) (\<lambda>pods.
     bind_res (collect (class_entity_of L) (sd_device_classes data)) (\<lambda>classes.
     bind_res (ok_or EUid (cd_uid (pl_cedar L)
         (ascii ''Avon::Network::'' @ [QUOTE] @ ascii ''external'' @ [QUOTE]))) (\<lambda>nu.
     bind_res (map_err ECedar (cd_entity (pl_cedar L) nu [] [])) (\<lambda>network.
     bind_res (collect (device_entity_of L now) (sd_devices data)) (\<lambda>devices.
     map_err ECedar (cd_entities (pl_cedar L) (pods @ classes @ [network] @ devices) schema)))))))"

section \<open>The engine\<close>

datatype destination = ToDevice uuid | ToIp ip_addr

record decision_request =
  rq_device :: uuid
  rq_destination :: destination
  rq_dst_ip :: ip_addr
  rq_protocol :: protocol
  rq_dst_port :: u16
  rq_admission :: bool

record decision_result =
  dr_allow :: bool
  dr_policy_ids :: "uuid list"
  dr_reason :: bytes
  dr_snapshot_version :: u64

record ('n, 'c) loaded =
  ld_data :: "'n snapshot_data"
  ld_compiled :: "'c compiled"
  ld_entities :: 'c
  ld_compiled_at :: int

record ('n, 'c) engine =
  eg_tenant :: uuid
  eg_inner :: "('n, 'c) loaded option"

definition deny :: "bytes \<Rightarrow> u64 \<Rightarrow> decision_result" where
  "deny reason version =
     \<lparr>dr_allow = False, dr_policy_ids = [], dr_reason = reason, dr_snapshot_version = version\<rparr>"

definition engine_empty :: "uuid \<Rightarrow> ('n, 'c) engine" where
  "engine_empty tenant = \<lparr>eg_tenant = tenant, eg_inner = None\<rparr>"

definition engine_version :: "('n, 'c) engine \<Rightarrow> u64" where
  "engine_version e = (case eg_inner e of None \<Rightarrow> 0 | Some l \<Rightarrow> sd_version (ld_data l))"

definition has_policies :: "('n, 'c) engine \<Rightarrow> bool" where
  "has_policies e = (case eg_inner e of None \<Rightarrow> False | Some l \<Rightarrow> sd_policies (ld_data l) \<noteq> [])"

definition engine_load ::
  "('z, 'n, 'c) policy_libs \<Rightarrow> ('n, 'c) engine \<Rightarrow> 'n snapshot_data \<Rightarrow> int \<Rightarrow> (compile_error + unit) \<times> ('n, 'c) engine" where
  "engine_load L e data now =
     (if sd_tenant_id data \<noteq> eg_tenant e then (Inl ETenant, e)
      else case compile L data now of
        Inl err \<Rightarrow> (Inl err, e)
      | Inr compiled \<Rightarrow>
         (case build_entities L data now of
            Inl err \<Rightarrow> (Inl err, e)
          | Inr entities \<Rightarrow>
              (Inr (), e\<lparr>eg_inner := Some \<lparr>ld_data = data, ld_compiled = compiled, ld_entities = entities,
                 ld_compiled_at = now\<rparr>\<rparr>)))"

fun patch_devices :: "uuid \<Rightarrow> device_attrs \<Rightarrow> device_entity list \<Rightarrow> device_entity list" where
  "patch_devices i attrs [] = [\<lparr>de_id = i, de_pods = [], de_attrs = attrs\<rparr>]"
| "patch_devices i attrs (d # ds) =
    (if de_id d = i then d\<lparr>de_attrs := attrs\<rparr> # ds else d # patch_devices i attrs ds)"

definition patch_device ::
  "('z, 'n, 'c) policy_libs \<Rightarrow> ('n, 'c) engine \<Rightarrow> uuid \<Rightarrow> device_attrs \<Rightarrow> int \<Rightarrow> (compile_error + unit) \<times> ('n, 'c) engine" where
  "patch_device L e i attrs now =
     (case eg_inner e of
        None \<Rightarrow> (Inl ENotLoaded, e)
      | Some l \<Rightarrow>
          let data = (ld_data l)\<lparr>sd_devices := patch_devices i attrs (sd_devices (ld_data l))\<rparr>
          in case build_entities L data now of
            Inl err \<Rightarrow> (Inl err, e)
          | Inr entities \<Rightarrow>
             (case compile L data now of
                Inl err \<Rightarrow> (Inl err, e)
              | Inr compiled \<Rightarrow>
                  (Inr (), e\<lparr>eg_inner := Some \<lparr>ld_data = data, ld_compiled = compiled, ld_entities = entities,
                     ld_compiled_at = now\<rparr>\<rparr>)))"

definition needs_recompile :: "('n, 'c) engine \<Rightarrow> int \<Rightarrow> bool" where
  "needs_recompile e now =
     (case eg_inner e of
        None \<Rightarrow> False
      | Some l \<Rightarrow> (case cp_next_window_change (ld_compiled l) of None \<Rightarrow> False | Some t \<Rightarrow> now \<ge> t))"

definition recompile ::
  "('z, 'n, 'c) policy_libs \<Rightarrow> ('n, 'c) engine \<Rightarrow> int \<Rightarrow> (compile_error + unit) \<times> ('n, 'c) engine" where
  "recompile L e now =
     (case eg_inner e of None \<Rightarrow> (Inr (), e) | Some l \<Rightarrow> engine_load L e (ld_data l) now)"

definition engine_request ::
  "('z, 'n, 'c) policy_libs \<Rightarrow> decision_request \<Rightarrow> compile_error + 'c" where
  "engine_request L req =
     bind_res (uid L ''Device'' (rq_device req)) (\<lambda>principal.
     bind_res (case rq_destination req of
         ToDevice d \<Rightarrow> uid L ''Device'' d
       | ToIp _ \<Rightarrow> ok_or EUid (cd_uid (pl_cedar L)
           (ascii ''Avon::Network::'' @ [QUOTE] @ ascii ''external'' @ [QUOTE]))) (\<lambda>resource.
     bind_res (map_err ECedar (cd_context (pl_cedar L) (proto_text (rq_protocol req)) (rq_dst_port req)
         (addr_show (pl_net L) (rq_dst_ip req)) (rq_admission req))) (\<lambda>ctx.
     bind_res (ok_or EUid (cd_uid (pl_cedar L)
         (ascii ''Avon::Action::'' @ [QUOTE] @ ascii ''connect'' @ [QUOTE]))) (\<lambda>action.
     map_err ECedar (cd_request (pl_cedar L) principal action resource ctx)))))"

fun spec_error_text :: "spec_error \<Rightarrow> bytes" where
  "spec_error_text (EVersion v) = ascii ''unsupported policy version '' @ dec (unat v) @ ascii '' (expected 2)''"
| "spec_error_text (EmptySelector s) = ascii s @ ascii '' selector is empty; set `any: true` to match everything''"
| "spec_error_text CidrInSource = ascii ''cidrs are only allowed in the destination selector''"
| "spec_error_text PortsWithoutL4Protocol = ascii ''ports are only meaningful for tcp or udp''"
| "spec_error_text (EPort s) = ascii ''invalid port spec: '' @ s"
| "spec_error_text (ETimezone s) = ascii ''unknown timezone '' @ s"
| "spec_error_text (ETime s) = ascii ''invalid time '' @ s @ ascii '' (expected HH:MM)''"
| "spec_error_text NoDays = ascii ''time window needs at least one day''"
| "spec_error_text EPriority = ascii ''priority must be within 0..=10000''"

fun compile_error_text :: "compile_error \<Rightarrow> bytes" where
  "compile_error_text (ESchema s) = ascii ''cedar schema: '' @ s"
| "compile_error_text (ECedar s) = ascii ''cedar: '' @ s"
| "compile_error_text EUid = ascii ''invalid entity uid''"
| "compile_error_text ETenant = ascii ''unknown tenant''"
| "compile_error_text ENotLoaded = ascii ''no snapshot loaded''"
| "compile_error_text (ESpec e) = ascii ''policy validation: '' @ spec_error_text e"

definition decide :: "('z, 'n, 'c) policy_libs \<Rightarrow> ('n, 'c) engine \<Rightarrow> decision_request \<Rightarrow> decision_result" where
  "decide L e req =
     (case eg_inner e of
        None \<Rightarrow> deny (ascii ''no policy snapshot loaded'') 0
      | Some l \<Rightarrow>
          let version = sd_version (ld_data l)
          in case find (\<lambda>d. de_id d = rq_device req) (sd_devices (ld_data l)) of
            None \<Rightarrow> deny (ascii ''unknown device'') version
          | Some device \<Rightarrow>
              if da_status (de_attrs device) \<noteq> ascii ''active''
              then deny (ascii ''device status '' @ da_status (de_attrs device)) version
              else case engine_request L req of
                Inl err \<Rightarrow> deny (ascii ''request build failed: '' @ compile_error_text err) version
              | Inr request \<Rightarrow>
                  let response = cd_authorize (pl_cedar L) request (cp_policies (ld_compiled l)) (ld_entities l);
                      ids = List.map_filter (pl_uuid_parse L) (rs_reason response);
                      errors = rs_errors response
                  in if rs_allow response then
                       (if errors = []
                        then \<lparr>dr_allow = True, dr_policy_ids = ids, dr_reason = ascii ''permit'',
                               dr_snapshot_version = version\<rparr>
                        else deny (ascii ''evaluation errors: '' @ join (ascii ''; '') errors) version)
                     else if ids = [] then deny (ascii ''no matching permit'') version
                     else \<lparr>dr_allow = False, dr_policy_ids = ids, dr_reason = ascii ''forbid'',
                            dr_snapshot_version = version\<rparr>)"

section \<open>The engine decides by the snapshot it holds\<close>

datatype 'n engine_op = OpLoad "'n snapshot_data" int | OpPatch uuid device_attrs int | OpRecompile int

fun engine_step :: "('z, 'n, 'c) policy_libs \<Rightarrow> ('n, 'c) engine \<Rightarrow> 'n engine_op \<Rightarrow> ('n, 'c) engine" where
  "engine_step L e (OpLoad data now) = snd (engine_load L e data now)"
| "engine_step L e (OpPatch i attrs now) = snd (patch_device L e i attrs now)"
| "engine_step L e (OpRecompile now) = snd (recompile L e now)"

definition engine_ok :: "('z, 'n, 'c) policy_libs \<Rightarrow> uuid \<Rightarrow> ('n, 'c) engine \<Rightarrow> bool" where
  "engine_ok L tenant e =
     (eg_tenant e = tenant \<and>
      (case eg_inner e of
         None \<Rightarrow> True
       | Some l \<Rightarrow> sd_tenant_id (ld_data l) = tenant \<and>
           compile L (ld_data l) (ld_compiled_at l) = Inr (ld_compiled l) \<and>
           build_entities L (ld_data l) (ld_compiled_at l) = Inr (ld_entities l)))"

lemma engine_ok_empty: "engine_ok L tenant (engine_empty tenant)"
  by (simp add: engine_ok_def engine_empty_def)

lemma engine_ok_load: "engine_ok L tenant e \<Longrightarrow> engine_ok L tenant (snd (engine_load L e data now))"
  by (auto simp: engine_load_def engine_ok_def split: sum.splits)

lemma engine_ok_patch: "engine_ok L tenant e \<Longrightarrow> engine_ok L tenant (snd (patch_device L e i attrs now))"
  by (auto simp: patch_device_def engine_ok_def Let_def split: sum.splits option.splits)

lemma engine_ok_recompile: "engine_ok L tenant e \<Longrightarrow> engine_ok L tenant (snd (recompile L e now))"
  by (auto simp: recompile_def engine_ok_load split: option.splits)

lemma engine_ok_step: "engine_ok L tenant e \<Longrightarrow> engine_ok L tenant (engine_step L e op)"
  by (cases op) (simp_all add: engine_ok_load engine_ok_patch engine_ok_recompile)

lemma engine_ok_run: "engine_ok L tenant e \<Longrightarrow> engine_ok L tenant (foldl (engine_step L) e ops)"
  by (induction ops arbitrary: e) (simp_all add: engine_ok_step)

text \<open>Every policy in force was valid and inside its time window, and its text is the translation
  of its specification.\<close>

inductive set_of :: "('z, 'n, 'c) policy_libs \<Rightarrow> 'n policy_entry list \<Rightarrow> 'c \<Rightarrow> bool"
  for L :: "('z, 'n, 'c) policy_libs" where
  none: "set_of L [] (cd_no_policies (pl_cedar L))"
| more: "set_of L ens ps \<Longrightarrow> cedar_source (pl_time L) (pl_uuid_show L) (pl_net L) en = Inr src \<Longrightarrow>
    cd_policy (pl_cedar L) (pl_uuid_show L (en_id en)) src = Inr p \<Longrightarrow> cd_add (pl_cedar L) ps p = Inr ps' \<Longrightarrow>
    set_of L (ens @ [en]) ps'"

definition in_force :: "'z time_lib \<Rightarrow> int \<Rightarrow> 'n policy_entry \<Rightarrow> bool" where
  "in_force T now en =
     (case cn_time_window (sp_conditions (en_spec en)) of
        None \<Rightarrow> True
      | Some tw \<Rightarrow> window_active T tw now = Inr True)"

lemma compile_entries_set:
  "compile_entries L now ens ps ids ch = Inr (ps', ids', ch') \<Longrightarrow> set_of L before ps \<Longrightarrow>
   set_of L (before @ filter (in_force (pl_time L) now) ens) ps' \<and>
   ids' = ids @ map en_id (filter (in_force (pl_time L) now) ens)"
proof (induction ens arbitrary: before ps ids ch)
  case (Cons en ens)
  from Cons.prems(1) obtain active ch1 where
    a: "(case cn_time_window (sp_conditions (en_spec en)) of
         None \<Rightarrow> Inr (True, ch)
       | Some tw \<Rightarrow>
           bind_res (map_err ESpec (window_active (pl_time L) tw now)) (\<lambda>active.
           bind_res (map_err ESpec (next_window_change (pl_time L) tw now)) (\<lambda>nc.
           Inr (active, Some (case ch of Some existing \<Rightarrow> min existing nc | None \<Rightarrow> nc))))) = Inr (active, ch1)"
      (is "?w = _")
    by (auto simp: res_simps)
  then have f: "active = in_force (pl_time L) now en"
    by (auto simp: in_force_def res_simps split: option.splits)
  show ?case
  proof (cases active)
    case False
    then have "compile_entries L now ens ps ids ch1 = Inr (ps', ids', ch')"
      using Cons.prems(1) a by (auto simp: res_simps)
    from Cons.IH[OF this Cons.prems(2)] f False show ?thesis by simp
  next
    case True
    then obtain src p ps1 where
      s: "cedar_source (pl_time L) (pl_uuid_show L) (pl_net L) en = Inr src"
        "cd_policy (pl_cedar L) (pl_uuid_show L (en_id en)) src = Inr p" "cd_add (pl_cedar L) ps p = Inr ps1"
        "compile_entries L now ens ps1 (ids @ [en_id en]) ch1 = Inr (ps', ids', ch')"
      using Cons.prems(1) a by (auto simp: res_simps)
    from Cons.IH[OF s(4) set_of.more[OF Cons.prems(2) s(1-3)]] f True show ?thesis by simp
  qed
qed simp

section \<open>A concrete library\<close>

text \<open>A Cedar crate with one value that permits every request.\<close>

definition toy_libs :: "(unit, ip_addr \<times> nat, unit) policy_libs" where
  "toy_libs = \<lparr>pl_time = utc_lib, pl_net = toy_net, pl_uuid_show = (\<lambda>u. u), pl_uuid_parse = Some,
     pl_cedar = \<lparr>cd_schema = (\<lambda>_. Inr ()), cd_uid = (\<lambda>_. Some ()), cd_restricted = (\<lambda>_. Inr ()),
       cd_entity = (\<lambda>_ _ _. Inr ()), cd_entities = (\<lambda>_ _. Inr ()), cd_policy = (\<lambda>_ _. Inr ()),
       cd_no_policies = (), cd_add = (\<lambda>_ _. Inr ()), cd_context = (\<lambda>_ _ _ _. Inr ()),
       cd_request = (\<lambda>_ _ _ _. Inr ()),
       cd_authorize = (\<lambda>_ _ _. \<lparr>rs_allow = True, rs_reason = [], rs_errors = []\<rparr>)\<rparr>\<rparr>"

definition sample_attrs :: device_attrs where
  "sample_attrs = \<lparr>da_status = ascii ''active'', da_class = None, da_firewall_enabled = None,
     da_disk_encrypted = None, da_screen_lock_enabled = None, da_os_version = None,
     da_last_update_unix = None, da_attestation = [], da_risk_score = 0, da_overlay_v4 = None, da_overlay_v6 = None\<rparr>"

definition sample_snapshot :: "'n policy_entry list \<Rightarrow> 'n snapshot_data" where
  "sample_snapshot ps = \<lparr>sd_tenant_id = [], sd_version = 1, sd_generated_at = 0, sd_pods = [], sd_device_classes = [],
     sd_devices = [\<lparr>de_id = [1], de_pods = [], de_attrs = sample_attrs\<rparr>], sd_policies = ps\<rparr>"

definition sample_entry :: "'n policy_entry" where
  "sample_entry = \<lparr>en_id = [2], en_name = [],
     en_spec = sample_spec\<lparr>sp_conditions := conditions_default\<rparr>\<rparr>"

definition sample_request :: decision_request where
  "sample_request = \<lparr>rq_device = [1], rq_destination = ToIp (V4 0), rq_dst_ip = V4 0, rq_protocol = Tcp,
     rq_dst_port = 443, rq_admission = False\<rparr>"

lemma toy_load:
  "eg_inner (snd (engine_load toy_libs (engine_empty []) (sample_snapshot [sample_entry]) 0)) =
     Some \<lparr>ld_data = sample_snapshot [sample_entry], ld_compiled = \<lparr>cp_policies = (), cp_schema = (),
        cp_active_ids = [[2]], cp_next_window_change = None\<rparr>, ld_entities = (), ld_compiled_at = 0\<rparr>"
  by (simp add: engine_load_def engine_empty_def sample_snapshot_def compile_def build_entities_def toy_libs_def
      cedar_schema_def device_entity_of_def uid_def restricted_def sample_attrs_def attr_texts_def opt_list_def
      sample_entry_def sample_spec_def conditions_default_def selector_default_def validate_def
      selector_is_empty_def cedar_source_def del: ascii_simps)

lemma toy_answers:
  "engine_request toy_libs sample_request = Inr ()"
  "cd_authorize (pl_cedar toy_libs) a b c = \<lparr>rs_allow = True, rs_reason = [], rs_errors = []\<rparr>"
  by (simp_all add: engine_request_def uid_def toy_libs_def sample_request_def del: ascii_simps)

lemma toy_device:
  "find (\<lambda>d. de_id d = rq_device sample_request) (sd_devices (sample_snapshot ps)) =
     Some \<lparr>de_id = [1], de_pods = [], de_attrs = sample_attrs\<rparr>"
  "da_status sample_attrs = ascii ''active''"
  by (simp_all add: sample_request_def sample_snapshot_def sample_attrs_def)

section \<open>Properties\<close>

text \<open>C19. The engine fails closed and decides by what it was given.  After any sequence of loads,
  device patches and recompilations, successful or not, a request is allowed only if a snapshot of the
  engine's own tenant is loaded in which the device is listed as active, and Cedar, asked without any
  evaluation error, permits it with exactly the policies of that snapshot that are valid and inside
  their time window at the time of compilation.\<close>

theorem engine_fails_closed:
  assumes "dr_allow (decide L (foldl (engine_step L) (engine_empty tenant) ops) req)"
  shows "\<exists>l ps request. eg_inner (foldl (engine_step L) (engine_empty tenant) ops) = Some l \<and>
     sd_tenant_id (ld_data l) = tenant \<and>
     (\<exists>d \<in> set (sd_devices (ld_data l)). de_id d = rq_device req \<and> da_status (de_attrs d) = ascii ''active'') \<and>
     engine_request L req = Inr request \<and>
     set_of L (filter (in_force (pl_time L) (ld_compiled_at l)) (sd_policies (ld_data l))) ps \<and>
     build_entities L (ld_data l) (ld_compiled_at l) = Inr (ld_entities l) \<and>
     rs_allow (cd_authorize (pl_cedar L) request ps (ld_entities l)) \<and>
     rs_errors (cd_authorize (pl_cedar L) request ps (ld_entities l)) = []"
proof -
  let ?e = "foldl (engine_step L) (engine_empty tenant) ops"
  have ok: "engine_ok L tenant ?e" by (rule engine_ok_run[OF engine_ok_empty])
  from assms obtain l d request where
    l: "eg_inner ?e = Some l" "find (\<lambda>d. de_id d = rq_device req) (sd_devices (ld_data l)) = Some d"
      "da_status (de_attrs d) = ascii ''active''" "engine_request L req = Inr request"
      "rs_allow (cd_authorize (pl_cedar L) request (cp_policies (ld_compiled l)) (ld_entities l))"
      "rs_errors (cd_authorize (pl_cedar L) request (cp_policies (ld_compiled l)) (ld_entities l)) = []"
    by (auto simp: decide_def deny_def Let_def split: option.splits if_splits sum.splits)
  from ok l(1) have c: "sd_tenant_id (ld_data l) = tenant"
    "compile L (ld_data l) (ld_compiled_at l) = Inr (ld_compiled l)"
    "build_entities L (ld_data l) (ld_compiled_at l) = Inr (ld_entities l)"
    by (simp_all add: engine_ok_def)
  from c(2) obtain ids ch where "compile_entries L (ld_compiled_at l) (sd_policies (ld_data l))
      (cd_no_policies (pl_cedar L)) [] None = Inr (cp_policies (ld_compiled l), ids, ch)"
    by (cases "ld_compiled l") (auto simp: compile_def res_simps)
  from compile_entries_set[OF this set_of.none]
  have "set_of L (filter (in_force (pl_time L) (ld_compiled_at l)) (sd_policies (ld_data l))) (cp_policies (ld_compiled l))"
    by simp
  with l c show ?thesis by (auto simp: find_Some_iff)
qed

theorem engine_fails_closed_witness:
  "\<exists>l ps request. eg_inner (foldl (engine_step toy_libs) (engine_empty []) [OpLoad (sample_snapshot [sample_entry]) 0]) = Some l \<and>
     sd_tenant_id (ld_data l) = [] \<and>
     (\<exists>d \<in> set (sd_devices (ld_data l)). de_id d = rq_device sample_request \<and> da_status (de_attrs d) = ascii ''active'') \<and>
     engine_request toy_libs sample_request = Inr request \<and>
     set_of toy_libs (filter (in_force (pl_time toy_libs) (ld_compiled_at l)) (sd_policies (ld_data l))) ps \<and>
     build_entities toy_libs (ld_data l) (ld_compiled_at l) = Inr (ld_entities l) \<and>
     rs_allow (cd_authorize (pl_cedar toy_libs) request ps (ld_entities l)) \<and>
     rs_errors (cd_authorize (pl_cedar toy_libs) request ps (ld_entities l)) = []"
proof (rule engine_fails_closed)
  show "dr_allow (decide toy_libs (foldl (engine_step toy_libs) (engine_empty []) [OpLoad (sample_snapshot [sample_entry]) 0]) sample_request)"
    by (simp add: decide_def toy_load toy_answers toy_device del: ascii_simps)
qed

end
