(* ===== verification/Flow_Policy.thy ===== *)
theory Flow_Policy
  imports Policy_Engine
begin

text \<open>
  \<open>avon-gateway/src/policy_hook.rs\<close>: reading a flow out of an IP packet, and the per-flow policy with
  its decision cache.  \<open>allow\<close> reads the engine and the cache, decides, and then writes the cache; these
  are two steps (\<open>allow_check\<close>, \<open>allow_commit\<close>), since the policy is shared with the control link.
  The decision records offered to the log are returned.
\<close>

section \<open>Flows\<close>

unbundle bit_operations_syntax

record flow =
  fl_session :: bytes
  fl_src :: ip_addr
  fl_dst :: ip_addr
  fl_protocol :: byte
  fl_dst_port :: "u16 option"

definition parse_flow :: "bytes \<Rightarrow> bytes \<Rightarrow> flow option" where
  "parse_flow session packet =
     (case packet of
        [] \<Rightarrow> None
      | b0 # _ \<Rightarrow>
          let version = drop_bit 4 b0
          in if version = 4 then
               (if length packet < 20 then None
                else
                  let ihl = unat (b0 AND 0x0F) * 4
                  in if ihl < 20 \<or> length packet < ihl then None
                     else
                       let protocol = packet ! 9
                       in Some \<lparr>fl_session = session,
                            fl_src = V4 (from_be_bytes [packet ! 12, packet ! 13, packet ! 14, packet ! 15]),
                            fl_dst = V4 (from_be_bytes [packet ! 16, packet ! 17, packet ! 18, packet ! 19]),
                            fl_protocol = protocol,
                            fl_dst_port =
                              (if (protocol = 6 \<or> protocol = 17) \<and> length packet \<ge> ihl + 4
                               then Some (from_be_bytes [packet ! (ihl + 2), packet ! (ihl + 3)]) else None)\<rparr>)
             else if version = 6 then
               (if length packet < 40 then None
                else
                  let protocol = packet ! 6
                  in Some \<lparr>fl_session = session,
                       fl_src = V6 (from_be_bytes (slice packet 8 24)),
                       fl_dst = V6 (from_be_bytes (slice packet 24 40)),
                       fl_protocol = protocol,
                       fl_dst_port =
                         (if (protocol = 6 \<or> protocol = 17) \<and> length packet \<ge> 44
                          then Some (from_be_bytes [packet ! 42, packet ! 43]) else None)\<rparr>)
             else None)"

record flow_decision =
  fd_allow :: bool
  fd_reason :: string

record flow_context =
  fc_session :: bytes
  fc_tenant :: uuid
  fc_device :: uuid
  fc_destination_device :: "uuid option"
  fc_flow :: flow

section \<open>The policy with its cache\<close>

record flow_key =
  fk_session :: bytes
  fk_dst :: ip_addr
  fk_protocol :: byte
  fk_dst_port :: u16

record cached_decision =
  ca_allow :: bool
  ca_reason :: bytes
  ca_version :: u64

record ('n, 'c) flow_policy =
  fp_engines :: "uuid \<Rightarrow> ('n, 'c) engine option"
  fp_cache :: "flow_key \<Rightarrow> cached_decision option"

record decision_record =
  dc_tenant_id :: uuid
  dc_device_id :: uuid
  dc_session_id :: bytes
  dc_destination :: bytes
  dc_allow :: bool
  dc_policy_ids :: "bytes list"
  dc_reason :: bytes
  dc_decided_at :: int

definition policy_new :: "('n, 'c) flow_policy" where
  "policy_new = \<lparr>fp_engines = Map.empty, fp_cache = Map.empty\<rparr>"

definition policy_apply_snapshot ::
  "('z, 'n, 'c) policy_libs \<Rightarrow> ('n, 'c) flow_policy \<Rightarrow> uuid \<Rightarrow> 'n snapshot_data \<Rightarrow> int \<Rightarrow>
   (compile_error + unit) \<times> ('n, 'c) flow_policy" where
  "policy_apply_snapshot L fp tenant data now =
     (let engine = (case fp_engines fp tenant of Some e \<Rightarrow> e | None \<Rightarrow> engine_empty tenant);
          (res, engine') = engine_load L engine data now;
          fp' = fp\<lparr>fp_engines := (fp_engines fp)(tenant \<mapsto> engine')\<rparr>
      in case res of
           Inl e \<Rightarrow> (Inl e, fp')
         | Inr _ \<Rightarrow> (Inr (), fp'\<lparr>fp_cache := Map.empty\<rparr>))"

definition policy_patch_device ::
  "('z, 'n, 'c) policy_libs \<Rightarrow> ('n, 'c) flow_policy \<Rightarrow> uuid \<Rightarrow> uuid \<Rightarrow> device_attrs \<Rightarrow> int \<Rightarrow> ('n, 'c) flow_policy" where
  "policy_patch_device L fp tenant device attrs now =
     (case fp_engines fp tenant of
        None \<Rightarrow> fp
      | Some e \<Rightarrow> fp\<lparr>fp_engines := (fp_engines fp)(tenant \<mapsto> snd (patch_device L e device attrs now))\<rparr>)
     \<lparr>fp_cache := Map.empty\<rparr>"

definition policy_version :: "('n, 'c) flow_policy \<Rightarrow> uuid \<Rightarrow> u64" where
  "policy_version fp tenant = (case fp_engines fp tenant of None \<Rightarrow> 0 | Some e \<Rightarrow> engine_version e)"

definition flow_protocol :: "byte \<Rightarrow> protocol" where
  "flow_protocol p =
     (if p = 6 then Tcp else if p = 17 then Udp else if p = 1 \<or> p = 58 then Icmp else AnyProtocol)"

definition protocol_name :: "byte \<Rightarrow> bytes" where
  "protocol_name p =
     (if p = 6 then ascii ''tcp'' else if p = 17 then ascii ''udp'' else if p = 1 then ascii ''icmp''
      else if p = 58 then ascii ''icmpv6'' else ascii ''other'')"

definition port_or_zero :: "u16 option \<Rightarrow> u16" where
  "port_or_zero p = (case p of Some x \<Rightarrow> x | None \<Rightarrow> 0)"

definition context_key :: "flow_context \<Rightarrow> flow_key" where
  "context_key ctx = \<lparr>fk_session = fc_session ctx, fk_dst = fl_dst (fc_flow ctx),
     fk_protocol = fl_protocol (fc_flow ctx), fk_dst_port = port_or_zero (fl_dst_port (fc_flow ctx))\<rparr>"

definition context_request :: "flow_context \<Rightarrow> decision_request" where
  "context_request ctx =
     \<lparr>rq_device = fc_device ctx,
      rq_destination = (case fc_destination_device ctx of Some d \<Rightarrow> ToDevice d | None \<Rightarrow> ToIp (fl_dst (fc_flow ctx))),
      rq_dst_ip = fl_dst (fc_flow ctx), rq_protocol = flow_protocol (fl_protocol (fc_flow ctx)),
      rq_dst_port = port_or_zero (fl_dst_port (fc_flow ctx)), rq_admission = False\<rparr>"

text \<open>Up to \<open>engine.decide\<close>: either the answer, or the decision and version to be cached.\<close>

definition allow_check ::
  "('z, 'n, 'c) policy_libs \<Rightarrow> ('n, 'c) flow_policy \<Rightarrow> flow_context \<Rightarrow> flow_decision + decision_result \<times> u64" where
  "allow_check L fp ctx =
     (case fp_engines fp (fc_tenant ctx) of
        None \<Rightarrow> Inl \<lparr>fd_allow = True, fd_reason = ''no-policy-permissive''\<rparr>
      | Some engine \<Rightarrow>
          if \<not> has_policies engine then Inl \<lparr>fd_allow = True, fd_reason = ''no-policy-permissive''\<rparr>
          else
            let version = engine_version engine;
                fresh = Inr (decide L engine (context_request ctx), version)
            in case fp_cache fp (context_key ctx) of
              Some cached \<Rightarrow>
                if ca_version cached = version then Inl \<lparr>fd_allow = ca_allow cached, fd_reason = ''cached''\<rparr> else fresh
            | None \<Rightarrow> fresh)"

text \<open>From the cache insertion on.\<close>

definition allow_commit ::
  "('z, 'n, 'c) policy_libs \<Rightarrow> ('n, 'c) flow_policy \<Rightarrow> flow_context \<Rightarrow> decision_result \<times> u64 \<Rightarrow> int \<Rightarrow>
   flow_decision \<times> ('n, 'c) flow_policy \<times> decision_record" where
  "allow_commit L fp ctx rv now =
     (let (result, version) = rv
      in (\<lparr>fd_allow = dr_allow result, fd_reason = (if dr_allow result then ''permit'' else ''deny'')\<rparr>,
          fp\<lparr>fp_cache := (fp_cache fp)(context_key ctx \<mapsto>
            \<lparr>ca_allow = dr_allow result, ca_reason = dr_reason result, ca_version = version\<rparr>)\<rparr>,
          \<lparr>dc_tenant_id = fc_tenant ctx, dc_device_id = fc_device ctx, dc_session_id = fc_session ctx,
           dc_destination = addr_show (pl_net L) (fl_dst (fc_flow ctx)) @ [58] @
             dec (unat (port_or_zero (fl_dst_port (fc_flow ctx)))) @ [47] @ protocol_name (fl_protocol (fc_flow ctx)),
           dc_allow = dr_allow result, dc_policy_ids = map (pl_uuid_show L) (dr_policy_ids result),
           dc_reason = dr_reason result, dc_decided_at = now\<rparr>))"

definition policy_allow ::
  "('z, 'n, 'c) policy_libs \<Rightarrow> ('n, 'c) flow_policy \<Rightarrow> flow_context \<Rightarrow> int \<Rightarrow>
   flow_decision \<times> ('n, 'c) flow_policy \<times> decision_record option" where
  "policy_allow L fp ctx now =
     (case allow_check L fp ctx of
        Inl d \<Rightarrow> (d, fp, None)
      | Inr rv \<Rightarrow> (case allow_commit L fp ctx rv now of (d, fp', rec) \<Rightarrow> (d, fp', Some rec)))"

section \<open>The cache answers like the engine\<close>

text \<open>The policy without its cache.\<close>

definition allow_fresh :: "('z, 'n, 'c) policy_libs \<Rightarrow> ('n, 'c) flow_policy \<Rightarrow> flow_context \<Rightarrow> bool" where
  "allow_fresh L fp ctx =
     (case fp_engines fp (fc_tenant ctx) of
        None \<Rightarrow> True
      | Some e \<Rightarrow> \<not> has_policies e \<or> dr_allow (decide L e (context_request ctx)))"

datatype 'n policy_op =
    PoAllow flow_context int
  | PoSnapshot uuid "'n snapshot_data" int
  | PoPatch uuid uuid device_attrs int

fun policy_step :: "('z, 'n, 'c) policy_libs \<Rightarrow> ('n, 'c) flow_policy \<Rightarrow> 'n policy_op \<Rightarrow> ('n, 'c) flow_policy" where
  "policy_step L fp (PoAllow ctx now) = fst (snd (policy_allow L fp ctx now))"
| "policy_step L fp (PoSnapshot tenant data now) = snd (policy_apply_snapshot L fp tenant data now)"
| "policy_step L fp (PoPatch tenant device attrs now) = policy_patch_device L fp tenant device attrs now"

text \<open>A session belongs to one tenant and one device, and \<open>dest\<close> says which device an address
  leads to for a session.\<close>

definition context_fits ::
  "(bytes \<Rightarrow> uuid) \<Rightarrow> (bytes \<Rightarrow> uuid) \<Rightarrow> (bytes \<Rightarrow> ip_addr \<Rightarrow> uuid option) \<Rightarrow> flow_context \<Rightarrow> bool" where
  "context_fits ten dev dest ctx =
     (fc_tenant ctx = ten (fc_session ctx) \<and> fc_device ctx = dev (fc_session ctx) \<and>
      fc_destination_device ctx = dest (fc_session ctx) (fl_dst (fc_flow ctx)))"

fun op_fits ::
  "(bytes \<Rightarrow> uuid) \<Rightarrow> (bytes \<Rightarrow> uuid) \<Rightarrow> (bytes \<Rightarrow> ip_addr \<Rightarrow> uuid option) \<Rightarrow> 'n policy_op \<Rightarrow> bool" where
  "op_fits ten dev dest (PoAllow ctx now) = context_fits ten dev dest ctx"
| "op_fits ten dev dest _ = True"

definition key_request ::
  "(bytes \<Rightarrow> uuid) \<Rightarrow> (bytes \<Rightarrow> ip_addr \<Rightarrow> uuid option) \<Rightarrow> flow_key \<Rightarrow> decision_request" where
  "key_request dev dest k =
     \<lparr>rq_device = dev (fk_session k),
      rq_destination = (case dest (fk_session k) (fk_dst k) of Some d \<Rightarrow> ToDevice d | None \<Rightarrow> ToIp (fk_dst k)),
      rq_dst_ip = fk_dst k, rq_protocol = flow_protocol (fk_protocol k),
      rq_dst_port = fk_dst_port k, rq_admission = False\<rparr>"

definition cache_ok ::
  "('z, 'n, 'c) policy_libs \<Rightarrow> (bytes \<Rightarrow> uuid) \<Rightarrow> (bytes \<Rightarrow> uuid) \<Rightarrow> (bytes \<Rightarrow> ip_addr \<Rightarrow> uuid option) \<Rightarrow>
   ('n, 'c) flow_policy \<Rightarrow> bool" where
  "cache_ok L ten dev dest fp =
     (\<forall>k c. fp_cache fp k = Some c \<longrightarrow>
        (\<exists>e. fp_engines fp (ten (fk_session k)) = Some e \<and> ca_version c = engine_version e \<and>
             ca_allow c = dr_allow (decide L e (key_request dev dest k))))"

lemma context_key_request:
  "context_fits ten dev dest ctx \<Longrightarrow> key_request dev dest (context_key ctx) = context_request ctx"
  by (simp add: context_fits_def key_request_def context_key_def context_request_def split: option.splits)

lemma key_session: "fk_session (context_key ctx) = fc_session ctx"
  by (simp add: context_key_def)

lemma allow_matches_fresh:
  assumes "cache_ok L ten dev dest fp" and "context_fits ten dev dest ctx"
  shows "fd_allow (fst (policy_allow L fp ctx now)) = allow_fresh L fp ctx"
proof -
  have "dr_allow (decide L e (context_request ctx)) = ca_allow c"
    if "fp_cache fp (context_key ctx) = Some c" "fp_engines fp (fc_tenant ctx) = Some e" for c e
    using assms that context_key_request[OF assms(2)]
    by (fastforce simp: cache_ok_def key_session context_fits_def)
  then show ?thesis
    by (auto simp: policy_allow_def allow_check_def allow_fresh_def allow_commit_def Let_def split: option.splits)
qed

lemma cache_ok_allow:
  assumes "cache_ok L ten dev dest fp" and "context_fits ten dev dest ctx"
  shows "cache_ok L ten dev dest (fst (snd (policy_allow L fp ctx now)))"
proof (cases "allow_check L fp ctx")
  case (Inr rv)
  then obtain e where e: "fp_engines fp (fc_tenant ctx) = Some e"
    "rv = (decide L e (context_request ctx), engine_version e)"
    by (auto simp: allow_check_def Let_def split: option.splits if_splits)
  show ?thesis
    using assms e Inr context_key_request[OF assms(2)]
    by (auto simp: cache_ok_def policy_allow_def allow_commit_def key_session context_fits_def)
qed (use assms in \<open>simp add: policy_allow_def\<close>)

lemma cache_ok_snapshot:
  assumes "cache_ok L ten dev dest fp"
  shows "cache_ok L ten dev dest (snd (policy_apply_snapshot L fp tenant data now))"
proof (cases "fst (engine_load L (case fp_engines fp tenant of Some e \<Rightarrow> e | None \<Rightarrow> engine_empty tenant) data now)")
  case (Inl err)
  then have "snd (engine_load L (case fp_engines fp tenant of Some e \<Rightarrow> e | None \<Rightarrow> engine_empty tenant) data now) =
      (case fp_engines fp tenant of Some e \<Rightarrow> e | None \<Rightarrow> engine_empty tenant)"
    by (auto simp: engine_load_def split: if_splits sum.splits)
  with Inl assms show ?thesis
    by (fastforce simp: cache_ok_def policy_apply_snapshot_def Let_def case_prod_beta split: option.splits)
next
  case (Inr u)
  then show ?thesis by (simp add: cache_ok_def policy_apply_snapshot_def Let_def case_prod_beta)
qed

lemma cache_ok_step:
  assumes "cache_ok L ten dev dest fp" and "op_fits ten dev dest op"
  shows "cache_ok L ten dev dest (policy_step L fp op)"
proof (cases op)
  case (PoPatch t d a n)
  then show ?thesis by (simp add: cache_ok_def policy_patch_device_def)
qed (use assms in \<open>simp_all add: cache_ok_allow cache_ok_snapshot\<close>)

lemma cache_ok_run:
  "cache_ok L ten dev dest fp \<Longrightarrow> list_all (op_fits ten dev dest) ops \<Longrightarrow>
   cache_ok L ten dev dest (foldl (policy_step L) fp ops)"
  by (induction ops arbitrary: fp) (simp_all add: cache_ok_step)

section \<open>Properties\<close>


text \<open>C21. Two ways a cached decision outlives its reason.  The cache key does not contain the
  destination device: a decision made for an address is repeated when the address leads to another
  device.  And a device patch keeps the snapshot version: a decision that was computed before the
  patch and is written to the cache after it is repeated from then on.\<close>

theorem cached_decision_outlives:
  assumes "allow_check L fp ctx = Inr rv"
    and "fp_engines (fst (snd (policy_allow L fp ctx now))) (fc_tenant ctx) = Some e"
    and "patch_device L e device attrs now' = (Inr (), e')" and "has_policies e'"
  shows "fst (policy_allow L (fst (snd (policy_allow L fp ctx now))) (ctx\<lparr>fc_destination_device := d\<rparr>) t) =
       \<lparr>fd_allow = dr_allow (fst rv), fd_reason = ''cached''\<rparr> \<and>
     fst (policy_allow L
        (fst (snd (allow_commit L (policy_patch_device L fp (fc_tenant ctx) device attrs now') ctx rv now))) ctx t) =
       \<lparr>fd_allow = dr_allow (fst rv), fd_reason = ''cached''\<rparr>"
proof -
  have e: "fp_engines fp (fc_tenant ctx) = Some e" using assms(1,2)
    by (cases rv) (simp add: policy_allow_def allow_commit_def)
  have v: "engine_version e' = engine_version e" using assms(3)
    by (auto simp: patch_device_def engine_version_def Let_def split: option.splits sum.splits)
  have rv: "rv = (decide L e (context_request ctx), engine_version e)" "has_policies e"
    using assms(1) e by (auto simp: allow_check_def Let_def split: option.splits if_splits)
  show ?thesis using assms e v rv
    by (simp add: policy_allow_def allow_commit_def allow_check_def policy_patch_device_def context_key_def)
qed

section \<open>Witnesses\<close>

definition sample_flow :: flow_context where
  "sample_flow = \<lparr>fc_session = [7], fc_tenant = [], fc_device = [1], fc_destination_device = None,
     fc_flow = \<lparr>fl_session = [7], fl_src = V4 1, fl_dst = V4 0, fl_protocol = 6, fl_dst_port = Some 443\<rparr>\<rparr>"

definition sample_policy :: "(ip_addr \<times> nat, unit) flow_policy" where
  "sample_policy = snd (policy_apply_snapshot toy_libs policy_new [] (sample_snapshot [sample_entry]) 0)"

definition sample_engine :: "(ip_addr \<times> nat, unit) engine" where
  "sample_engine = snd (engine_load toy_libs (engine_empty []) (sample_snapshot [sample_entry]) 0)"

lemma sample_policy_facts:
  "fp_engines sample_policy [] = Some sample_engine" "fp_cache sample_policy = Map.empty"
  "has_policies sample_engine" "eg_inner sample_engine \<noteq> None"
proof -
  have ok: "fst (engine_load toy_libs (engine_empty []) (sample_snapshot [sample_entry]) 0) = Inr ()"
    using toy_load by (auto simp: engine_load_def engine_empty_def split: if_splits sum.splits)
  show "fp_engines sample_policy [] = Some sample_engine" "fp_cache sample_policy = Map.empty"
    using ok by (simp_all add: sample_policy_def sample_engine_def policy_apply_snapshot_def policy_new_def
        Let_def case_prod_beta)
  show "has_policies sample_engine" "eg_inner sample_engine \<noteq> None"
    unfolding sample_engine_def has_policies_def toy_load by (simp_all add: sample_snapshot_def)
qed


lemma toy_patch:
  "\<exists>e'. patch_device toy_libs sample_engine [1] sample_attrs 0 = (Inr (), e') \<and> has_policies e'"
  unfolding patch_device_def sample_engine_def toy_load
  by (simp add: sample_snapshot_def compile_def build_entities_def toy_libs_def
      cedar_schema_def device_entity_of_def uid_def restricted_def sample_attrs_def attr_texts_def opt_list_def
      sample_entry_def sample_spec_def conditions_default_def selector_default_def validate_def
      selector_is_empty_def cedar_source_def has_policies_def Let_def del: ascii_simps)

theorem cached_decision_outlives_witness:
  "\<exists>rv. allow_check toy_libs sample_policy sample_flow = Inr rv \<and>
     fst (policy_allow toy_libs (fst (snd (policy_allow toy_libs sample_policy sample_flow 0)))
        (sample_flow\<lparr>fc_destination_device := Some [9]\<rparr>) 1) = \<lparr>fd_allow = dr_allow (fst rv), fd_reason = ''cached''\<rparr>"
proof -
  have t: "fc_tenant sample_flow = []" by (simp add: sample_flow_def)
  obtain rv where rv: "allow_check toy_libs sample_policy sample_flow = Inr rv"
    using sample_policy_facts by (simp add: allow_check_def t)
  obtain e' where e': "patch_device toy_libs sample_engine [1] sample_attrs 0 = (Inr (), e')" "has_policies e'"
    using toy_patch by blast
  have "fp_engines (fst (snd (policy_allow toy_libs sample_policy sample_flow 0))) (fc_tenant sample_flow) = Some sample_engine"
    using rv sample_policy_facts by (cases rv) (simp add: policy_allow_def allow_commit_def t)
  from cached_decision_outlives[OF rv this e'] rv show ?thesis by blast
qed

end
