(* ===== verification/Replay_Window.thy ===== *)
theory Replay_Window
  imports Avon_Prelude
begin

text \<open>
  \<open>avon-crypto/src/session/replay.rs\<close>: the sliding anti-replay window and the monotonic send
  counter.  The window is specified by the set of counters ever accepted; the counter's
  compare-and-exchange loop is a step relation in which any number of calls interleave.
\<close>

section \<open>The window\<close>

record replay_window =
  seen :: "u64 set"
  highest :: "u64 option"

datatype replay_error = Replayed | TooOld

definition SIZE :: u64 where
  "SIZE = 2048"

definition window_new :: replay_window where
  "window_new = \<lparr>seen = {}, highest = None\<rparr>"

definition check_and_update :: "replay_window \<Rightarrow> u64 \<Rightarrow> (replay_error + unit) \<times> replay_window" where
  "check_and_update w counter =
    (case highest w of
       None \<Rightarrow> (Inr (), \<lparr>seen = insert counter (seen w), highest = Some counter\<rparr>)
     | Some h \<Rightarrow>
        if counter > h then
          (let diff = counter - h;
               kept = (if diff \<ge> SIZE then {} else Set.filter (\<lambda>c. counter - c < SIZE) (seen w))
           in (Inr (), \<lparr>seen = insert counter kept, highest = Some counter\<rparr>))
        else if h - counter \<ge> SIZE then (Inl TooOld, w)
        else if counter \<in> seen w then (Inl Replayed, w)
        else (Inr (), w\<lparr>seen := insert counter (seen w)\<rparr>))"

subsection \<open>The window's own invariant\<close>

definition window_wf :: "replay_window \<Rightarrow> bool" where
  "window_wf w = (case highest w of
      None \<Rightarrow> seen w = {}
    | Some h \<Rightarrow> h \<in> seen w \<and> (\<forall>c \<in> seen w. c \<le> h \<and> h - c < SIZE))"

lemma window_wf_new [simp]: "window_wf window_new"
  by (simp add: window_wf_def window_new_def)

lemma word_diff_less_iff:
  fixes a b c :: "'a::len word"
  shows "b \<le> a \<Longrightarrow> a - b < c \<longleftrightarrow> unat a < unat c + unat b"
  by (metis (no_types) add.commute less_diff_conv2 unat_sub word_le_nat_alt word_less_nat_alt)

lemma unat_SIZE [simp]: "unat SIZE = 2048"
  by (simp add: SIZE_def)

lemma check_wf: "window_wf w \<Longrightarrow> window_wf (snd (check_and_update w c))"
  by (auto simp: check_and_update_def window_wf_def Let_def SIZE_def not_less
      split: option.splits if_splits)

lemma seen_range: "window_wf w \<Longrightarrow> highest w = Some h \<Longrightarrow>
  seen w \<subseteq> (\<lambda>n. h - word_of_nat n) ` {..<2048}"
proof
  fix c assume wf: "window_wf w" "highest w = Some h" and c: "c \<in> seen w"
  then have "h - c < SIZE" by (simp add: window_wf_def)
  then have "unat (h - c) < 2048" by (simp add: word_less_nat_alt)
  moreover have "c = h - word_of_nat (unat (h - c))" by simp
  ultimately show "c \<in> (\<lambda>n. h - word_of_nat n) ` {..<2048}" by blast
qed

section \<open>The abstract filter: every counter ever accepted\<close>

record filter_spec =
  ever :: "u64 set"
  top :: "u64 option"

definition spec_check :: "filter_spec \<Rightarrow> u64 \<Rightarrow> (replay_error + unit) \<times> filter_spec" where
  "spec_check s c =
    (case top s of
       None \<Rightarrow> (Inr (), \<lparr>ever = {c}, top = Some c\<rparr>)
     | Some t \<Rightarrow>
        if c \<le> t \<and> 2048 \<le> unat t - unat c then (Inl TooOld, s)
        else if c \<in> ever s then (Inl Replayed, s)
        else (Inr (), \<lparr>ever = insert c (ever s), top = Some (max c t)\<rparr>))"

definition window_rel :: "replay_window \<Rightarrow> filter_spec \<Rightarrow> bool" where
  "window_rel w s = (highest w = top s \<and>
     (case top s of
        None \<Rightarrow> seen w = {} \<and> ever s = {}
      | Some t \<Rightarrow> t \<in> ever s \<and> (\<forall>c \<in> ever s. c \<le> t) \<and>
                   seen w = {c \<in> ever s. unat t - unat c < 2048}))"

lemma word_diff_SIZE: "c \<le> t \<Longrightarrow> (t - c < SIZE) = (unat t - unat c < 2048)"
  by (simp add: word_diff_less_iff SIZE_def word_le_nat_alt) arith

lemma window_rel_new: "window_rel window_new \<lparr>ever = {}, top = None\<rparr>"
  by (simp add: window_rel_def window_new_def)

lemma window_refines:
  assumes "window_rel w s"
  shows "fst (check_and_update w c) = fst (spec_check s c)"
    and "window_rel (snd (check_and_update w c)) (snd (spec_check s c))"
proof -
  have "fst (check_and_update w c) = fst (spec_check s c) \<and>
        window_rel (snd (check_and_update w c)) (snd (spec_check s c))"
  proof (cases "top s")
    case None
    with assms show ?thesis
      by (auto simp: window_rel_def check_and_update_def spec_check_def)
  next
    case (Some t)
    with assms have rel: "highest w = Some t" "t \<in> ever s" "\<And>c. c \<in> ever s \<Longrightarrow> c \<le> t"
      "seen w = {c \<in> ever s. unat t - unat c < 2048}"
      by (auto simp: window_rel_def)
    show ?thesis
    proof (cases "t < c")
      case True
      then have fresh: "c \<notin> ever s" and le: "\<And>d. d \<in> ever s \<Longrightarrow> d \<le> c"
        using rel(3) by (fastforce, fastforce)
      have old: "\<And>d. d \<in> ever s \<Longrightarrow> unat d \<le> unat t" "unat t < unat c"
        using rel(3) True by (auto simp: word_le_nat_alt word_less_nat_alt)
      have diff: "(SIZE \<le> c - t) = (2048 \<le> unat c - unat t)"
        using True word_diff_SIZE[of t c] by (auto simp: not_less[symmetric])
      have kept: "d \<in> ever s \<Longrightarrow> (c - d < SIZE) = (unat c - unat d < 2048)" for d
        using le word_diff_SIZE by simp
      have "\<not> c \<le> t" using True by simp
      then show ?thesis
        using rel True fresh le old Some kept
        by (fastforce simp: window_rel_def check_and_update_def spec_check_def Let_def diff max_def)
    next
      case False
      then have le: "c \<le> t" by simp
      have "(SIZE \<le> t - c) = (2048 \<le> unat t - unat c)"
        using word_diff_SIZE[OF le] by (auto simp: not_less[symmetric])
      then show ?thesis
        using rel le Some False
        by (auto simp: window_rel_def check_and_update_def spec_check_def Let_def max_def)
    qed
  qed
  then show "fst (check_and_update w c) = fst (spec_check s c)"
    and "window_rel (snd (check_and_update w c)) (snd (spec_check s c))" by auto
qed

section \<open>The filter's contract\<close>

text \<open>
  A receiver hands counters to the filter one after the other; a packet that fails authentication
  never reaches it (the flag of a run's entry).  \<open>burned\<close> says that a counter can no longer be
  accepted.
\<close>

fun accept_run ::
  "('w \<Rightarrow> u64 \<Rightarrow> ('e + unit) \<times> 'w) \<Rightarrow> 'w \<Rightarrow> (bool \<times> u64) list \<Rightarrow> u64 list" where
  "accept_run check w [] = []"
| "accept_run check w ((reached, c) # cs) =
    (if reached
     then (case check w c of (Inr _, w') \<Rightarrow> c # accept_run check w' cs
                           | (Inl _, w') \<Rightarrow> accept_run check w' cs)
     else accept_run check w cs)"

locale replay_filter =
  fixes check :: "'w \<Rightarrow> u64 \<Rightarrow> ('e + unit) \<times> 'w"
    and wf :: "'w \<Rightarrow> bool"
    and burned :: "'w \<Rightarrow> u64 \<Rightarrow> bool"
  assumes check_keeps_wf: "wf w \<Longrightarrow> wf (snd (check w c))"
    and accept_iff: "wf w \<Longrightarrow> is_ok (fst (check w c)) \<longleftrightarrow> \<not> burned w c"
    and accept_burns: "wf w \<Longrightarrow> is_ok (fst (check w c)) \<Longrightarrow> burned (snd (check w c)) c"
    and burned_stays: "wf w \<Longrightarrow> burned w d \<Longrightarrow> burned (snd (check w c)) d"
    and reject_unchanged: "\<not> is_ok (fst (check w c)) \<Longrightarrow> snd (check w c) = w"
begin

lemma accept_run_not_burned:
  "wf w \<Longrightarrow> c \<in> set (accept_run check w cs) \<Longrightarrow> \<not> burned w c"
proof (induction cs arbitrary: w)
  case (Cons p cs)
  obtain reached d where p: "p = (reached, d)" by fastforce
  obtain r w' where chk: "check w d = (r, w')" by fastforce
  have wf': "wf w'" using check_keeps_wf[OF Cons.prems(1), of d] chk by simp
  have stays: "burned w c \<Longrightarrow> burned w' c"
    using burned_stays[OF Cons.prems(1), of c d] chk by simp
  show ?case
    using Cons.prems Cons.IH[OF wf'] Cons.IH[OF Cons.prems(1)] stays p chk
      accept_iff[OF Cons.prems(1), of d]
    by (cases reached; cases r) auto
qed simp

lemma accept_run_distinct: "wf w \<Longrightarrow> distinct (accept_run check w cs)"
proof (induction cs arbitrary: w)
  case (Cons p cs)
  obtain reached d where p: "p = (reached, d)" by fastforce
  obtain r w' where chk: "check w d = (r, w')" by fastforce
  have wf': "wf w'" using check_keeps_wf[OF Cons.prems, of d] chk by simp
  show ?case
    using Cons.IH[OF wf'] Cons.IH[OF Cons.prems] p chk accept_burns[OF Cons.prems, of d]
      accept_run_not_burned[OF wf', of d cs]
    by (cases reached; cases r) auto
qed simp

end

definition window_burned :: "replay_window \<Rightarrow> u64 \<Rightarrow> bool" where
  "window_burned w c = (c \<in> seen w \<or>
     (case highest w of None \<Rightarrow> False | Some h \<Rightarrow> c \<le> h \<and> SIZE \<le> h - c))"

lemma window_burned_mono:
  assumes wf: "window_wf w" and b: "window_burned w d"
  shows "window_burned (snd (check_and_update w c)) d"
proof (cases "highest w")
  case None
  with wf b show ?thesis by (auto simp: window_burned_def check_and_update_def window_wf_def)
next
  case (Some h)
  have dh: "d \<le> h" using wf b Some by (auto simp: window_burned_def window_wf_def)
  show ?thesis
  proof (cases "h < c")
    case True
    then have dc: "d \<le> c" using dh by simp
    have sz: "(SIZE \<le> c - x) = (2048 + unat x \<le> unat c)" if "x \<le> c" for x
      using word_diff_less_iff[OF that, of SIZE] by (simp add: not_less[symmetric])
    have szh: "(SIZE \<le> h - d) = (2048 + unat d \<le> unat h)"
      using word_diff_less_iff[OF dh, of SIZE] by (simp add: not_less[symmetric])
    have lt: "unat h < unat c" "unat d \<le> unat h"
      using True dh by (simp_all add: word_less_nat_alt word_le_nat_alt)
    show ?thesis
      using b Some True dc lt sz[OF dc] sz[of h] szh
      by (auto simp: window_burned_def check_and_update_def Let_def not_less)
  next
    case False
    with b Some show ?thesis by (auto simp: window_burned_def check_and_update_def)
  qed
qed

interpretation rw: replay_filter check_and_update window_wf window_burned
proof
  show "window_wf w \<Longrightarrow> window_wf (snd (check_and_update w c))" for w c by (rule check_wf)
  show "window_wf w \<Longrightarrow> is_ok (fst (check_and_update w c)) = (\<not> window_burned w c)" for w c
    by (auto simp: check_and_update_def window_burned_def window_wf_def Let_def split: option.splits)
  show "window_wf w \<Longrightarrow> is_ok (fst (check_and_update w c)) \<Longrightarrow>
      window_burned (snd (check_and_update w c)) c" for w c
    by (auto simp: check_and_update_def window_burned_def Let_def split: option.splits)
  show "window_wf w \<Longrightarrow> window_burned w d \<Longrightarrow> window_burned (snd (check_and_update w c)) d" for w c d
    by (rule window_burned_mono)
  show "\<not> is_ok (fst (check_and_update w c)) \<Longrightarrow> snd (check_and_update w c) = w" for w c
    by (auto simp: check_and_update_def Let_def split: option.splits if_splits)
qed

lemma window_card: "window_wf w \<Longrightarrow> finite (seen w) \<and> card (seen w) \<le> 2048"
proof (cases "highest w")
  case (Some h)
  assume wf: "window_wf w"
  let ?img = "(\<lambda>n. h - word_of_nat n :: u64) ` {..<2048::nat}"
  have sub: "seen w \<subseteq> ?img" using seen_range[OF wf Some] .
  have "card ?img \<le> 2048" using card_image_le[of "{..<2048::nat}"] by simp
  with sub show ?thesis
    by (meson card_mono finite_imageI finite_lessThan finite_subset le_trans)
qed (simp add: window_wf_def)

fun results_run :: "('w \<Rightarrow> u64 \<Rightarrow> ('e + unit) \<times> 'w) \<Rightarrow> 'w \<Rightarrow> u64 list \<Rightarrow> ('e + unit) list" where
  "results_run check w [] = []"
| "results_run check w (c # cs) = (case check w c of (r, w') \<Rightarrow> r # results_run check w' cs)"

lemma results_run_refines:
  "window_rel w s \<Longrightarrow> results_run check_and_update w cs = results_run spec_check s cs"
proof (induction cs arbitrary: w s)
  case (Cons c cs)
  show ?case
    using window_refines[OF Cons.prems, of c] Cons.IH[of "snd (check_and_update w c)" "snd (spec_check s c)"]
    by (auto split: prod.splits)
qed simp

section \<open>The send counter\<close>

definition LIMIT :: u64 where
  "LIMIT = (- 1) - 1"

definition counter_new :: u64 where
  "counter_new = 0"

definition starting_at :: "u64 \<Rightarrow> u64" where
  "starting_at v = v"

text \<open>One call with no other call in between: the loop body runs once.\<close>

definition next_counter :: "u64 \<Rightarrow> (unit + u64) \<times> u64" where
  "next_counter current = (if current \<ge> LIMIT then (Inl (), current) else (Inr current, current + 1))"

definition remaining :: "u64 \<Rightarrow> u64" where
  "remaining current = (if current \<le> LIMIT then LIMIT - current else 0)"

text \<open>
  Interleaved calls.  Call \<open>i\<close> is before its load, inside the loop with the value it read, or has
  returned; every atomic access of the shared cell is one step.
\<close>

datatype next_pc = Start | Looping u64 | Returned u64 | Exhausted

record counter_sys =
  cell :: u64
  pcs :: "nat \<Rightarrow> next_pc"

inductive counter_step :: "counter_sys \<Rightarrow> counter_sys \<Rightarrow> bool" where
  load: "pcs s i = Start \<Longrightarrow> counter_step s (s\<lparr>pcs := (pcs s)(i := Looping (cell s))\<rparr>)"
| limit: "\<lbrakk>pcs s i = Looping cur; cur \<ge> LIMIT\<rbrakk> \<Longrightarrow>
    counter_step s (s\<lparr>pcs := (pcs s)(i := Exhausted)\<rparr>)"
| exchange: "\<lbrakk>pcs s i = Looping cur; cur < LIMIT; cell s = cur\<rbrakk> \<Longrightarrow>
    counter_step s (s\<lparr>cell := cur + 1, pcs := (pcs s)(i := Returned cur)\<rparr>)"
| retry: "\<lbrakk>pcs s i = Looping cur; cur < LIMIT; cell s \<noteq> cur\<rbrakk> \<Longrightarrow>
    counter_step s (s\<lparr>pcs := (pcs s)(i := Looping (cell s))\<rparr>)"

inductive_cases counter_stepE: "counter_step s s'"

definition counter_init :: "u64 \<Rightarrow> counter_sys" where
  "counter_init v = \<lparr>cell = v, pcs = (\<lambda>_. Start)\<rparr>"

definition counter_inv :: "u64 \<Rightarrow> counter_sys \<Rightarrow> bool" where
  "counter_inv v0 s = (v0 \<le> cell s \<and>
     (\<forall>i v. pcs s i = Returned v \<longrightarrow> v0 \<le> v \<and> v < cell s \<and> v < LIMIT) \<and>
     (\<forall>i j v. pcs s i = Returned v \<longrightarrow> pcs s j = Returned v \<longrightarrow> i = j))"

lemma unat_LIMIT [simp]: "unat LIMIT = 18446744073709551614"
  by (simp add: LIMIT_def unat_word_ariths)

lemma unat_succ_below_LIMIT: "v < LIMIT \<Longrightarrow> unat (v + 1) = unat v + 1"
  by (simp add: word_less_nat_alt unat_word_ariths)

lemma below_LIMIT_succ: "v < LIMIT \<Longrightarrow> v < v + 1"
  by (simp add: word_less_nat_alt unat_succ_below_LIMIT)

lemma counter_inv_step:
  assumes "counter_inv v0 s" and "counter_step s s'"
  shows "counter_inv v0 s'"
  using assms(2)
proof cases
  case (exchange i cur)
  have up: "cur < cur + 1" using exchange by (simp add: below_LIMIT_succ)
  have "v < cur + 1" if "pcs s j = Returned v" for j v
    using assms(1) that exchange up unfolding counter_inv_def by fastforce
  moreover have "v \<noteq> cur" if "pcs s j = Returned v" for j v
    using assms(1) that exchange unfolding counter_inv_def by fastforce
  ultimately show ?thesis
    using assms(1) exchange up unfolding counter_inv_def
    by (auto split: if_splits)
qed (use assms(1) in \<open>auto simp: counter_inv_def split: if_splits\<close>)

lemma counter_inv_reach: "counter_step\<^sup>*\<^sup>* (counter_init v0) s \<Longrightarrow> counter_inv v0 s"
proof (induction rule: rtranclp_induct)
  case base
  show ?case by (simp add: counter_inv_def counter_init_def)
qed (rule counter_inv_step)

lemma counter_solo:
  assumes "pcs s i = Start"
  shows "\<exists>s'. counter_step\<^sup>*\<^sup>* s s' \<and> cell s' = snd (next_counter (cell s)) \<and>
     pcs s' i = (case fst (next_counter (cell s)) of Inl _ \<Rightarrow> Exhausted | Inr v \<Rightarrow> Returned v)"
proof -
  let ?s1 = "s\<lparr>pcs := (pcs s)(i := Looping (cell s))\<rparr>"
  have 1: "counter_step s ?s1" by (rule counter_step.load[OF assms])
  show ?thesis
  proof (cases "cell s \<ge> LIMIT")
    case True
    then have "counter_step ?s1 (?s1\<lparr>pcs := (pcs ?s1)(i := Exhausted)\<rparr>)"
      by (intro counter_step.limit[of _ _ "cell s"]) simp_all
    with 1 True show ?thesis
      by (intro exI[of _ "?s1\<lparr>pcs := (pcs ?s1)(i := Exhausted)\<rparr>"]) (auto simp: next_counter_def)
  next
    case False
    let ?s2 = "?s1\<lparr>cell := cell s + 1, pcs := (pcs ?s1)(i := Returned (cell s))\<rparr>"
    have "counter_step ?s1 ?s2"
      using False by (intro counter_step.exchange) simp_all
    with 1 False show ?thesis
      by (intro exI[of _ ?s2]) (auto simp: next_counter_def)
  qed
qed

section \<open>Properties\<close>

text \<open>C1. Whatever counters arrive, in whatever order and however often, and whichever of them
  belong to packets that fail authentication first, the window accepts each counter at most once.\<close>

theorem replay_accept_once: "distinct (accept_run check_and_update window_new cs)"
  by (rule rw.accept_run_distinct) simp

text \<open>C2. The window, which keeps only the last 2048 counters, answers every sequence of counters
  exactly as the filter that remembers every counter it ever accepted: it never forgets a counter
  it would still let in, and it turns away nothing fresh inside the window.\<close>

theorem replay_refines_history:
  "results_run check_and_update window_new cs = results_run spec_check \<lparr>ever = {}, top = None\<rparr> cs"
  by (rule results_run_refines[OF window_rel_new])

text \<open>C3. Over any interleaving of concurrent calls of \<open>SendCounter::next\<close>, two calls that return
  return different values, all of them at least the starting value and below the limit.\<close>

theorem next_values_unique:
  assumes "counter_step\<^sup>*\<^sup>* (counter_init v0) s"
    and "pcs s i = Returned v" and "pcs s j = Returned w" and "i \<noteq> j"
  shows "v \<noteq> w \<and> v0 \<le> v \<and> v < LIMIT"
  using counter_inv_reach[OF assms(1)] assms(2-4) unfolding counter_inv_def by blast

lemma two_calls_reach:
  "\<exists>s. counter_step\<^sup>*\<^sup>* (counter_init 5) s \<and> pcs s 0 = Returned 5 \<and> pcs s (Suc 0) = Returned 6"
proof -
  have lim: "(5::u64) < LIMIT" "(6::u64) < LIMIT" by (simp_all add: word_less_nat_alt)
  let ?a = "counter_init 5"
  let ?b = "\<lparr>cell = 5, pcs = (\<lambda>_. Start)(0 := Looping 5)\<rparr>"
  let ?c = "\<lparr>cell = 5, pcs = (\<lambda>_. Start)(0 := Looping 5, Suc 0 := Looping 5)\<rparr>"
  let ?d = "\<lparr>cell = 6, pcs = (\<lambda>_. Start)(0 := Returned 5, Suc 0 := Looping 5)\<rparr>"
  let ?e = "\<lparr>cell = 6, pcs = (\<lambda>_. Start)(0 := Returned 5, Suc 0 := Looping 6)\<rparr>"
  let ?f = "\<lparr>cell = 7, pcs = (\<lambda>_. Start)(0 := Returned 5, Suc 0 := Returned 6)\<rparr>"
  have "counter_step ?a ?b"
    using counter_step.load[of ?a 0] by (simp add: counter_init_def)
  moreover have "counter_step ?b ?c"
    using counter_step.load[of ?b "Suc 0"] by simp
  moreover have "counter_step ?c ?d"
    using counter_step.exchange[of ?c 0 5] lim by (simp add: fun_upd_twist)
  moreover have "counter_step ?d ?e"
    using counter_step.retry[of ?d "Suc 0" 5] lim by simp
  moreover have "counter_step ?e ?f"
    using counter_step.exchange[of ?e "Suc 0" 6] lim by simp
  ultimately have "counter_step\<^sup>*\<^sup>* ?a ?f" by (meson converse_rtranclp_into_rtranclp rtranclp.rtrancl_refl)
  then show ?thesis by (intro exI[of _ ?f]) simp
qed

theorem next_values_unique_witness:
  "\<exists>s. counter_step\<^sup>*\<^sup>* (counter_init 5) s \<and> pcs s 0 = Returned 5 \<and> pcs s (Suc 0) = Returned 6 \<and>
    (5::u64) \<noteq> 6 \<and> (5::u64) \<le> 5 \<and> (5::u64) < LIMIT"
proof -
  obtain s where s: "counter_step\<^sup>*\<^sup>* (counter_init 5) s" "pcs s 0 = Returned 5"
    "pcs s (Suc 0) = Returned 6"
    using two_calls_reach by blast
  show ?thesis using s next_values_unique[OF s] by auto
qed

end
