(* ===== verification/Crypto_Prims.thy ===== *)
theory Crypto_Prims
  imports Replay_Window
begin

text \<open>
  The primitives AVON takes from third-party crates (\<open>sha2\<close>, \<open>hkdf\<close>, \<open>hmac\<close>, \<open>aes-gcm\<close>,
  \<open>chacha20poly1305\<close>, \<open>ed25519-dalek\<close>, \<open>x25519-dalek\<close>, \<open>pqcrypto-mlkem\<close>, \<open>pqcrypto-mldsa\<close>) are the
  fields of one record, the parameter \<open>P\<close> of every definition that uses them; randomness the
  crates draw is an argument.  What the code relies on is stated by the named predicates
  \<open>aead_correct\<close>, \<open>aead_seals\<close>, \<open>digest_sized\<close>, \<open>hkdf_sized\<close>, \<open>ed25519_correct\<close>,
  \<open>mldsa_correct\<close>, \<open>x25519_commutes\<close> and \<open>mlkem_correct\<close>; \<open>toy\<close> is a concrete record that satisfies
  all of them.  The theory also models the thin wrappers of \<open>avon-crypto\<close> around the primitives:
  \<open>aead.rs\<close>, \<open>kdf.rs\<close>, \<open>hmac.rs\<close>, \<open>ecdh.rs\<close>, \<open>signature.rs\<close>, \<open>pqc/mlkem.rs\<close> and \<open>pqc/mldsa.rs\<close>.
  Arguments keep the crates' order; a fixed-size array is a byte string of that length.
\<close>

section \<open>The primitives\<close>

record prims =
  p_sha256 :: "bytes \<Rightarrow> bytes"
  p_hkdf :: "bytes option \<Rightarrow> bytes \<Rightarrow> bytes \<Rightarrow> nat \<Rightarrow> string + bytes"
  p_hmac :: "bytes \<Rightarrow> bytes \<Rightarrow> bytes"
  p_aes_encrypt :: "bytes \<Rightarrow> bytes \<Rightarrow> bytes \<Rightarrow> bytes \<Rightarrow> bytes option"
  p_aes_decrypt :: "bytes \<Rightarrow> bytes \<Rightarrow> bytes \<Rightarrow> bytes \<Rightarrow> bytes option"
  p_chacha_encrypt :: "bytes \<Rightarrow> bytes \<Rightarrow> bytes \<Rightarrow> bytes \<Rightarrow> bytes option"
  p_chacha_decrypt :: "bytes \<Rightarrow> bytes \<Rightarrow> bytes \<Rightarrow> bytes \<Rightarrow> bytes option"
  p_ed_valid :: "bytes \<Rightarrow> bool"
  p_ed_public :: "bytes \<Rightarrow> bytes"
  p_ed_sign :: "bytes \<Rightarrow> bytes \<Rightarrow> bytes"
  p_ed_verify :: "bytes \<Rightarrow> bytes \<Rightarrow> bytes \<Rightarrow> bool"
  p_mldsa_pk_ok :: "bytes \<Rightarrow> bool"
  p_mldsa_sk_ok :: "bytes \<Rightarrow> bool"
  p_mldsa_sig_ok :: "bytes \<Rightarrow> bool"
  p_mldsa_keypair :: "bytes \<Rightarrow> bytes \<times> bytes"
  p_mldsa_sign :: "bytes \<Rightarrow> bytes \<Rightarrow> bytes \<Rightarrow> bytes"
  p_mldsa_verify :: "bytes \<Rightarrow> bytes \<Rightarrow> bytes \<Rightarrow> bool"
  p_x25519_public :: "bytes \<Rightarrow> bytes"
  p_x25519 :: "bytes \<Rightarrow> bytes \<Rightarrow> bytes"
  p_mlkem_pk_ok :: "bytes \<Rightarrow> bool"
  p_mlkem_sk_ok :: "bytes \<Rightarrow> bool"
  p_mlkem_ct_ok :: "bytes \<Rightarrow> bool"
  p_mlkem_keypair :: "bytes \<Rightarrow> bytes \<times> bytes"
  p_mlkem_encaps :: "bytes \<Rightarrow> bytes \<Rightarrow> bytes \<times> bytes"
  p_mlkem_decaps :: "bytes \<Rightarrow> bytes \<Rightarrow> bytes"

datatype crypto_error =
    InvalidKeyLength nat nat
  | EncryptionFailed string
  | DecryptionFailed string
  | AuthenticationFailed
  | KeyDerivationFailed string
  | InvalidSignature
  | RandomGenerationFailed string
  | Replay replay_error
  | CounterExhausted

section \<open>AEAD suites\<close>

datatype suite = Aes256Gcm | ChaCha20Poly1305

definition TAG_LEN :: nat where "TAG_LEN = 16"

fun suite_id :: "suite \<Rightarrow> byte" where
  "suite_id Aes256Gcm = 1"
| "suite_id ChaCha20Poly1305 = 2"

definition suite_from_id :: "byte \<Rightarrow> suite option" where
  "suite_from_id i = (if i = 1 then Some Aes256Gcm else if i = 2 then Some ChaCha20Poly1305 else None)"

record aead_key =
  ak_suite :: suite
  ak_raw :: bytes

definition aead_new :: "suite \<Rightarrow> bytes \<Rightarrow> aead_key" where
  "aead_new s key = \<lparr>ak_suite = s, ak_raw = key\<rparr>"

definition seal_in_place :: "prims \<Rightarrow> aead_key \<Rightarrow> bytes \<Rightarrow> bytes \<Rightarrow> bytes \<Rightarrow> crypto_error + bytes" where
  "seal_in_place P k nonce aad buf =
     ok_or (EncryptionFailed ''aead seal'')
       (case ak_suite k of
          Aes256Gcm \<Rightarrow> p_aes_encrypt P (ak_raw k) nonce aad buf
        | ChaCha20Poly1305 \<Rightarrow> p_chacha_encrypt P (ak_raw k) nonce aad buf)"

definition open_in_place :: "prims \<Rightarrow> aead_key \<Rightarrow> bytes \<Rightarrow> bytes \<Rightarrow> bytes \<Rightarrow> crypto_error + bytes" where
  "open_in_place P k nonce aad buf =
     (if length buf < TAG_LEN then Inl AuthenticationFailed
      else ok_or AuthenticationFailed
       (case ak_suite k of
          Aes256Gcm \<Rightarrow> p_aes_decrypt P (ak_raw k) nonce aad buf
        | ChaCha20Poly1305 \<Rightarrow> p_chacha_decrypt P (ak_raw k) nonce aad buf))"

text \<open>What AES-256-GCM and ChaCha20-Poly1305 document: decryption inverts encryption, and the
  ciphertext is the plaintext's length plus the 16-byte tag.  Encryption of a packet-sized buffer
  does not fail.\<close>

definition aead_correct :: "prims \<Rightarrow> bool" where
  "aead_correct P = (\<forall>key nonce aad pt ct.
     (p_aes_encrypt P key nonce aad pt = Some ct \<longrightarrow>
        p_aes_decrypt P key nonce aad ct = Some pt \<and> length ct = length pt + 16) \<and>
     (p_chacha_encrypt P key nonce aad pt = Some ct \<longrightarrow>
        p_chacha_decrypt P key nonce aad ct = Some pt \<and> length ct = length pt + 16))"

definition aead_seals :: "prims \<Rightarrow> bool" where
  "aead_seals P = (\<forall>key nonce aad pt. length pt \<le> 65536 \<longrightarrow>
     p_aes_encrypt P key nonce aad pt \<noteq> None \<and> p_chacha_encrypt P key nonce aad pt \<noteq> None)"

lemma open_seal:
  assumes "aead_correct P" and "seal_in_place P k nonce aad pt = Inr ct"
  shows "open_in_place P k nonce aad ct = Inr pt" and "length ct = length pt + 16"
  using assms
  by (auto simp: aead_correct_def seal_in_place_def open_in_place_def TAG_LEN_def res_simps
      split: suite.splits)

lemma seal_succeeds:
  "\<lbrakk>aead_seals P; length pt \<le> 65536\<rbrakk> \<Longrightarrow> \<exists>ct. seal_in_place P k nonce aad pt = Inr ct"
  by (fastforce simp: aead_seals_def seal_in_place_def res_simps split: suite.splits)

lemma suite_from_id_inverse: "suite_from_id i = Some s \<longleftrightarrow> i = suite_id s"
  by (cases s) (auto simp: suite_from_id_def)

lemma suite_id_inj [simp]: "suite_id s = suite_id t \<longleftrightarrow> s = t"
  by (cases s; cases t) auto

section \<open>Key derivation and MAC\<close>

definition hkdf_sha256 :: "prims \<Rightarrow> bytes \<Rightarrow> bytes option \<Rightarrow> bytes \<Rightarrow> nat \<Rightarrow> crypto_error + bytes" where
  "hkdf_sha256 P ikm salt info output_len =
     map_err KeyDerivationFailed (p_hkdf P salt ikm info output_len)"

definition hmac_sha256 :: "prims \<Rightarrow> bytes \<Rightarrow> bytes \<Rightarrow> bytes" where
  "hmac_sha256 P key data = p_hmac P key data"

definition hmac_sha256_verify :: "prims \<Rightarrow> bytes \<Rightarrow> bytes \<Rightarrow> bytes \<Rightarrow> bool" where
  "hmac_sha256_verify P key data tag = (tag = p_hmac P key data)"

definition digest_sized :: "prims \<Rightarrow> bool" where
  "digest_sized P = ((\<forall>x. length (p_sha256 P x) = 32) \<and> (\<forall>k x. length (p_hmac P k x) = 32))"

definition hkdf_sized :: "prims \<Rightarrow> bool" where
  "hkdf_sized P = (\<forall>salt ikm info n. n \<le> 8160 \<longrightarrow>
     (\<exists>okm. p_hkdf P salt ikm info n = Inr okm \<and> length okm = n))"

lemma hkdf_ok:
  "\<lbrakk>hkdf_sized P; n \<le> 8160\<rbrakk> \<Longrightarrow> \<exists>okm. p_hkdf P salt ikm info n = Inr okm \<and> length okm = n"
  by (simp add: hkdf_sized_def)

section \<open>X25519\<close>

record x25519_keypair =
  xk_private :: bytes
  xk_public :: bytes

definition x25519_pk_from_bytes :: "bytes \<Rightarrow> crypto_error + bytes" where
  "x25519_pk_from_bytes bs = (if length bs \<noteq> 32 then Inl (InvalidKeyLength 32 (length bs)) else Inr bs)"

definition x25519_generate :: "prims \<Rightarrow> bytes \<Rightarrow> x25519_keypair" where
  "x25519_generate P rnd = \<lparr>xk_private = rnd, xk_public = p_x25519_public P rnd\<rparr>"

definition x25519_from_private_key :: "prims \<Rightarrow> bytes \<Rightarrow> x25519_keypair" where
  "x25519_from_private_key P private = \<lparr>xk_private = private, xk_public = p_x25519_public P private\<rparr>"

definition diffie_hellman :: "prims \<Rightarrow> x25519_keypair \<Rightarrow> bytes \<Rightarrow> crypto_error + bytes" where
  "diffie_hellman P kp peer_public =
     (let shared = p_x25519 P (xk_private kp) peer_public
      in if list_all (\<lambda>b. b = 0) shared then Inl AuthenticationFailed else Inr shared)"

definition x25519_commutes :: "prims \<Rightarrow> bool" where
  "x25519_commutes P = ((\<forall>a b. p_x25519 P a (p_x25519_public P b) = p_x25519 P b (p_x25519_public P a)) \<and>
     (\<forall>a. length (p_x25519_public P a) = 32))"

section \<open>Ed25519\<close>

record ed25519_keypair =
  ed_seed :: bytes
  ed_verifying :: bytes

definition ed_vk_from_bytes :: "prims \<Rightarrow> bytes \<Rightarrow> crypto_error + bytes" where
  "ed_vk_from_bytes P bs =
     (if length bs \<noteq> 32 then Inl (InvalidKeyLength 32 (length bs))
      else if \<not> p_ed_valid P bs then Inl InvalidSignature else Inr bs)"

definition ed_sig_from_bytes :: "bytes \<Rightarrow> crypto_error + bytes" where
  "ed_sig_from_bytes bs = (if length bs \<noteq> 64 then Inl (InvalidKeyLength 64 (length bs)) else Inr bs)"

definition ed_verify :: "prims \<Rightarrow> bytes \<Rightarrow> bytes \<Rightarrow> bytes \<Rightarrow> crypto_error + unit" where
  "ed_verify P vk message sig =
     (if \<not> p_ed_valid P vk then Inl InvalidSignature
      else if p_ed_verify P vk message sig then Inr () else Inl InvalidSignature)"

definition ed_from_seed :: "prims \<Rightarrow> bytes \<Rightarrow> ed25519_keypair" where
  "ed_from_seed P seed = \<lparr>ed_seed = seed, ed_verifying = p_ed_public P seed\<rparr>"

definition ed_sign :: "prims \<Rightarrow> ed25519_keypair \<Rightarrow> bytes \<Rightarrow> bytes" where
  "ed_sign P kp message = p_ed_sign P (ed_seed kp) message"

definition ed25519_correct :: "prims \<Rightarrow> bool" where
  "ed25519_correct P = (\<forall>seed m. length seed = 32 \<longrightarrow>
     length (p_ed_public P seed) = 32 \<and> p_ed_valid P (p_ed_public P seed) \<and>
     length (p_ed_sign P seed m) = 64 \<and>
     p_ed_verify P (p_ed_public P seed) m (p_ed_sign P seed m))"

section \<open>ML-DSA-65\<close>

definition check_len :: "nat \<Rightarrow> nat \<Rightarrow> crypto_error + unit" where
  "check_len expected actual = (if expected = actual then Inr () else Inl (InvalidKeyLength expected actual))"

definition MLDSA65_PUBLIC_KEY_BYTES :: nat where "MLDSA65_PUBLIC_KEY_BYTES = 1952"
definition MLDSA65_SECRET_KEY_BYTES :: nat where "MLDSA65_SECRET_KEY_BYTES = 4032"
definition MLDSA65_SIGNATURE_BYTES :: nat where "MLDSA65_SIGNATURE_BYTES = 3309"

record mldsa_keypair =
  md_signing :: bytes
  md_verifying :: bytes

definition mldsa_vk_from_bytes :: "bytes \<Rightarrow> crypto_error + bytes" where
  "mldsa_vk_from_bytes bs = bind_res (check_len MLDSA65_PUBLIC_KEY_BYTES (length bs)) (\<lambda>_. Inr bs)"

definition mldsa_sk_from_bytes :: "bytes \<Rightarrow> crypto_error + bytes" where
  "mldsa_sk_from_bytes bs = bind_res (check_len MLDSA65_SECRET_KEY_BYTES (length bs)) (\<lambda>_. Inr bs)"

definition mldsa_sig_from_bytes :: "bytes \<Rightarrow> crypto_error + bytes" where
  "mldsa_sig_from_bytes bs = bind_res (check_len MLDSA65_SIGNATURE_BYTES (length bs)) (\<lambda>_. Inr bs)"

definition mldsa_generate :: "prims \<Rightarrow> bytes \<Rightarrow> mldsa_keypair" where
  "mldsa_generate P rnd = (case p_mldsa_keypair P rnd of (pk, sk) \<Rightarrow> \<lparr>md_signing = sk, md_verifying = pk\<rparr>)"

definition mldsa_sign :: "prims \<Rightarrow> bytes \<Rightarrow> mldsa_keypair \<Rightarrow> bytes \<Rightarrow> crypto_error + bytes" where
  "mldsa_sign P rnd kp message =
     (if \<not> p_mldsa_sk_ok P (md_signing kp) then Inl (EncryptionFailed ''invalid ML-DSA secret key'')
      else Inr (p_mldsa_sign P rnd message (md_signing kp)))"

definition mldsa_verify :: "prims \<Rightarrow> bytes \<Rightarrow> bytes \<Rightarrow> bytes \<Rightarrow> crypto_error + unit" where
  "mldsa_verify P vk message sig =
     (if \<not> p_mldsa_pk_ok P vk then Inl InvalidSignature
      else if \<not> p_mldsa_sig_ok P sig then Inl InvalidSignature
      else if p_mldsa_verify P sig message vk then Inr () else Inl InvalidSignature)"

definition mldsa_correct :: "prims \<Rightarrow> bool" where
  "mldsa_correct P = (\<forall>r pk sk. p_mldsa_keypair P r = (pk, sk) \<longrightarrow>
     length pk = 1952 \<and> length sk = 4032 \<and> p_mldsa_pk_ok P pk \<and> p_mldsa_sk_ok P sk \<and>
     (\<forall>r' m. length (p_mldsa_sign P r' m sk) = 3309 \<and> p_mldsa_sig_ok P (p_mldsa_sign P r' m sk) \<and>
        p_mldsa_verify P (p_mldsa_sign P r' m sk) m pk))"

section \<open>ML-KEM-768\<close>

definition MLKEM768_PUBLIC_KEY_BYTES :: nat where "MLKEM768_PUBLIC_KEY_BYTES = 1184"
definition MLKEM768_SECRET_KEY_BYTES :: nat where "MLKEM768_SECRET_KEY_BYTES = 2400"
definition MLKEM768_CIPHERTEXT_BYTES :: nat where "MLKEM768_CIPHERTEXT_BYTES = 1088"
definition EMBEDDED_PK_OFFSET :: nat where "EMBEDDED_PK_OFFSET = 1152"

record mlkem_keypair =
  mk_public :: bytes
  mk_secret :: bytes

definition mlkem_pk_from_bytes :: "bytes \<Rightarrow> crypto_error + bytes" where
  "mlkem_pk_from_bytes bs = bind_res (check_len MLKEM768_PUBLIC_KEY_BYTES (length bs)) (\<lambda>_. Inr bs)"

definition mlkem_sk_from_bytes :: "bytes \<Rightarrow> crypto_error + bytes" where
  "mlkem_sk_from_bytes bs = bind_res (check_len MLKEM768_SECRET_KEY_BYTES (length bs)) (\<lambda>_. Inr bs)"

definition mlkem_ct_from_bytes :: "bytes \<Rightarrow> crypto_error + bytes" where
  "mlkem_ct_from_bytes bs = bind_res (check_len MLKEM768_CIPHERTEXT_BYTES (length bs)) (\<lambda>_. Inr bs)"

definition mlkem_generate :: "prims \<Rightarrow> bytes \<Rightarrow> mlkem_keypair" where
  "mlkem_generate P rnd = (case p_mlkem_keypair P rnd of (pk, sk) \<Rightarrow> \<lparr>mk_public = pk, mk_secret = sk\<rparr>)"

definition mlkem_from_secret_key :: "bytes \<Rightarrow> crypto_error + mlkem_keypair" where
  "mlkem_from_secret_key secret =
     (if length secret \<noteq> MLKEM768_SECRET_KEY_BYTES
      then Inl (InvalidKeyLength MLKEM768_SECRET_KEY_BYTES (length secret))
      else Inr \<lparr>mk_public = slice secret EMBEDDED_PK_OFFSET (EMBEDDED_PK_OFFSET + MLKEM768_PUBLIC_KEY_BYTES),
                mk_secret = secret\<rparr>)"

definition mlkem_encapsulate :: "prims \<Rightarrow> bytes \<Rightarrow> bytes \<Rightarrow> crypto_error + (bytes \<times> bytes)" where
  "mlkem_encapsulate P rnd pk =
     (if \<not> p_mlkem_pk_ok P pk then Inl (EncryptionFailed ''invalid ML-KEM public key'')
      else (case p_mlkem_encaps P rnd pk of (ss, ct) \<Rightarrow> Inr (ct, ss)))"

definition mlkem_decapsulate :: "prims \<Rightarrow> mlkem_keypair \<Rightarrow> bytes \<Rightarrow> crypto_error + bytes" where
  "mlkem_decapsulate P kp ct =
     (if \<not> p_mlkem_sk_ok P (mk_secret kp) then Inl (DecryptionFailed ''invalid ML-KEM secret key'')
      else if \<not> p_mlkem_ct_ok P ct then Inl (DecryptionFailed ''invalid ML-KEM ciphertext'')
      else Inr (p_mlkem_decaps P ct (mk_secret kp)))"

definition mlkem_correct :: "prims \<Rightarrow> bool" where
  "mlkem_correct P = (\<forall>r pk sk. p_mlkem_keypair P r = (pk, sk) \<longrightarrow>
     length pk = 1184 \<and> length sk = 2400 \<and> p_mlkem_pk_ok P pk \<and> p_mlkem_sk_ok P sk \<and>
     slice sk 1152 2336 = pk \<and>
     (\<forall>r' ss ct. p_mlkem_encaps P r' pk = (ss, ct) \<longrightarrow>
        length ss = 32 \<and> length ct = 1088 \<and> p_mlkem_ct_ok P ct \<and> p_mlkem_decaps P ct sk = ss))"

lemmas key_sizes =
  MLDSA65_PUBLIC_KEY_BYTES_def MLDSA65_SECRET_KEY_BYTES_def MLDSA65_SIGNATURE_BYTES_def
  MLKEM768_PUBLIC_KEY_BYTES_def MLKEM768_SECRET_KEY_BYTES_def MLKEM768_CIPHERTEXT_BYTES_def
  EMBEDDED_PK_OFFSET_def

section \<open>A concrete instance\<close>

text \<open>Not secure, and not meant to be: a record that satisfies every named hypothesis, so that the
  hypotheses are jointly satisfiable and the theorems that use them can be evaluated.\<close>

definition pad :: "nat \<Rightarrow> bytes \<Rightarrow> bytes" where
  "pad n x = take n (x @ replicate n 0)"

lemma length_pad [simp]: "length (pad n x) = n"
  by (simp add: pad_def)

lemma pad_same: "length x = n \<Longrightarrow> pad n x = x"
  by (simp add: pad_def)

lemma pad_pad [simp]: "pad n (pad n x) = pad n x"
  by (simp add: pad_same)

definition toy_encrypt :: "bytes \<Rightarrow> bytes \<Rightarrow> bytes \<Rightarrow> bytes \<Rightarrow> bytes option" where
  "toy_encrypt key nonce aad pt = Some (pt @ pad 16 (take 2 key @ drop 8 nonce @ aad))"

definition toy_decrypt :: "bytes \<Rightarrow> bytes \<Rightarrow> bytes \<Rightarrow> bytes \<Rightarrow> bytes option" where
  "toy_decrypt key nonce aad ct =
     (if length ct < 16 then None
      else if drop (length ct - 16) ct = pad 16 (take 2 key @ drop 8 nonce @ aad)
      then Some (take (length ct - 16) ct) else None)"

definition toy :: prims where
  "toy = \<lparr>p_sha256 = pad 32,
     p_hkdf = (\<lambda>salt ikm info n. if n \<le> 8160 then Inr (pad n (info @ ikm))
                                 else Inl ''invalid number of blocks, too large output''),
     p_hmac = (\<lambda>k x. pad 32 (k @ x)),
     p_aes_encrypt = toy_encrypt, p_aes_decrypt = toy_decrypt,
     p_chacha_encrypt = toy_encrypt, p_chacha_decrypt = toy_decrypt,
     p_ed_valid = (\<lambda>_. True), p_ed_public = pad 32,
     p_ed_sign = (\<lambda>seed m. pad 64 (pad 32 seed @ m)),
     p_ed_verify = (\<lambda>pk m sig. sig = pad 64 (pad 32 pk @ m)),
     p_mldsa_pk_ok = (\<lambda>x. length x = 1952), p_mldsa_sk_ok = (\<lambda>x. length x = 4032),
     p_mldsa_sig_ok = (\<lambda>x. length x = 3309),
     p_mldsa_keypair = (\<lambda>r. (pad 1952 r, pad 4032 (pad 1952 r))),
     p_mldsa_sign = (\<lambda>r m sk. pad 3309 (take 1952 sk @ m)),
     p_mldsa_verify = (\<lambda>sig m pk. sig = pad 3309 (take 1952 pk @ m)),
     p_x25519_public = pad 32, p_x25519 = (\<lambda>a b. map2 (+) (pad 32 a) (pad 32 b)),
     p_mlkem_pk_ok = (\<lambda>x. length x = 1184), p_mlkem_sk_ok = (\<lambda>x. length x = 2400),
     p_mlkem_ct_ok = (\<lambda>x. length x = 1088),
     p_mlkem_keypair = (\<lambda>r. (pad 1184 r, replicate 1152 0 @ pad 1184 r @ replicate 64 0)),
     p_mlkem_encaps = (\<lambda>r pk. (pad 32 pk, pad 1088 pk)),
     p_mlkem_decaps = (\<lambda>ct sk. pad 32 (slice sk 1152 2336))\<rparr>"

lemma toy_aead: "aead_correct toy" "aead_seals toy"
  by (simp_all add: aead_correct_def aead_seals_def toy_def toy_encrypt_def toy_decrypt_def)

lemma toy_sizes: "digest_sized toy" "hkdf_sized toy"
  by (simp_all add: digest_sized_def hkdf_sized_def toy_def)

lemma toy_ed25519: "ed25519_correct toy"
  by (simp add: ed25519_correct_def toy_def)

lemma take_pad: "m \<le> n \<Longrightarrow> length x = m \<Longrightarrow> take m (pad n x) = x"
  by (simp add: pad_def)

lemma toy_mldsa: "mldsa_correct toy"
  by (simp add: mldsa_correct_def toy_def take_pad pad_same)

lemma map2_add_commute: "map2 (+) xs ys = map2 (+) ys (xs :: bytes)"
  by (induction xs ys rule: list_induct2') (simp_all add: add.commute)

lemma toy_x25519: "x25519_commutes toy"
  by (simp add: x25519_commutes_def toy_def map2_add_commute)

lemma toy_mlkem: "mlkem_correct toy"
  by (simp add: mlkem_correct_def toy_def slice_def)

lemmas toy_correct = toy_aead toy_sizes toy_ed25519 toy_mldsa toy_x25519 toy_mlkem

end
