(* ===== verification/Avon_Codec.thy ===== *)
theory Avon_Codec
  imports Avon_Prelude
begin

text \<open>
  The contract of an encoder and its decoder.  A decoder takes a whole byte string; it accepts
  every encoding of an acceptable value, and whatever it accepts is the encoding of the value it
  returns, so that encodings are canonical.  Clients get injectivity and re-encoding from the
  contract; every wire format of the development interprets it.
\<close>

locale byte_codec =
  fixes to_b :: "'a \<Rightarrow> bytes"
    and from_b :: "bytes \<Rightarrow> 'e + 'a"
    and ok :: "'a \<Rightarrow> bool"
  assumes from_to: "ok x \<Longrightarrow> from_b (to_b x) = Inr x"
    and to_from: "from_b bs = Inr x \<Longrightarrow> ok x \<and> to_b x = bs"
begin

lemma to_b_inj: "ok x \<Longrightarrow> ok y \<Longrightarrow> to_b x = to_b y \<Longrightarrow> x = y"
  using from_to[of x] from_to[of y] by (metis sum.inject(2))

lemma from_b_iff: "from_b bs = Inr x \<longleftrightarrow> ok x \<and> bs = to_b x"
  using from_to to_from by metis

lemma from_b_inj: "from_b bs = Inr x \<Longrightarrow> from_b cs = Inr x \<Longrightarrow> bs = cs"
  using to_from by metis

lemma accepts_iff: "is_ok (from_b bs) \<longleftrightarrow> (\<exists>x. ok x \<and> bs = to_b x)"
  unfolding is_ok_iff from_b_iff by blast

end

text \<open>A decoder that reads one value off the front of its input and returns what is left.\<close>

locale prefix_codec =
  fixes enc :: "'a \<Rightarrow> bytes"
    and dec :: "bytes \<Rightarrow> 'e + 'a \<times> bytes"
    and ok :: "'a \<Rightarrow> bool"
  assumes dec_enc: "ok x \<Longrightarrow> dec (enc x @ rest) = Inr (x, rest)"
    and dec_sound: "dec bs = Inr (x, rest) \<Longrightarrow> ok x \<and> bs = enc x @ rest"
begin

lemma dec_iff: "dec bs = Inr (x, rest) \<longleftrightarrow> ok x \<and> bs = enc x @ rest"
  using dec_enc dec_sound by metis

lemma prefix_free: "\<lbrakk>ok x; ok y; enc x @ r = enc y @ s\<rbrakk> \<Longrightarrow> x = y \<and> r = s"
  using dec_enc[of x r] dec_enc[of y s] by (metis prod.inject sum.inject(2))

end

text \<open>Reading to the end of the input turns the second contract into the first.\<close>

definition whole :: "'e \<Rightarrow> (bytes \<Rightarrow> 'e + 'a \<times> bytes) \<Rightarrow> bytes \<Rightarrow> 'e + 'a" where
  "whole trailing dec bs = bind_res (dec bs) (\<lambda>(x, rest). if rest = [] then Inr x else Inl trailing)"

sublocale prefix_codec \<subseteq> whole_codec: byte_codec enc "whole trailing dec" ok for trailing
proof
  show "ok x \<Longrightarrow> whole trailing dec (enc x) = Inr x" for x
    using dec_enc[of x "[]"] by (simp add: whole_def)
  show "whole trailing dec bs = Inr x \<Longrightarrow> ok x \<and> enc x = bs" for bs x
    using dec_sound[of bs] by (auto simp: whole_def res_simps split: prod.splits if_splits)
qed

end
