(* ===== verification/Hybrid_Crypto.thy ===== *)
theory Hybrid_Crypto
  imports Crypto_Prims Avon_Codec
begin

text \<open>
  \<open>avon-crypto/src/hybrid\<close>: composite Ed25519 + ML-DSA-65 signatures with domain separation, and
  the X25519 + ML-KEM-768 KEM with its combiner.
\<close>

section \<open>Composite signatures\<close>

definition HYBRID_SIGNATURE_BYTES :: nat where
  "HYBRID_SIGNATURE_BYTES = 64 + MLDSA65_SIGNATURE_BYTES"

definition HYBRID_VERIFYING_KEY_BYTES :: nat where
  "HYBRID_VERIFYING_KEY_BYTES = 32 + MLDSA65_PUBLIC_KEY_BYTES"

definition HYBRID_SECRET_BYTES :: nat where
  "HYBRID_SECRET_BYTES = 32 + MLDSA65_SECRET_KEY_BYTES"

datatype domain = Cert | Csr | Auth | Session | Crl | Offer

fun domain_label :: "domain \<Rightarrow> bytes" where
  "domain_label Cert = ascii ''AVON-CERT-V2''"
| "domain_label Csr = ascii ''AVON-CSR-V2''"
| "domain_label Auth = ascii ''AVON-AUTH-V2''"
| "domain_label Session = ascii ''AVON-SESSION-V2''"
| "domain_label Crl = ascii ''AVON-CRL-V2''"
| "domain_label Offer = ascii ''AVON-OFFER-V2''"

definition framed_message :: "domain \<Rightarrow> bytes \<Rightarrow> bytes" where
  "framed_message d msg = domain_label d @ to_be_bytes (word_of_nat (length msg) :: u32) @ msg"

record hybrid_signing_keypair =
  hs_ed25519 :: ed25519_keypair
  hs_mldsa :: mldsa_keypair

record hybrid_verifying_key =
  hv_ed25519 :: bytes
  hv_mldsa :: bytes

record hybrid_signature =
  sg_ed25519 :: bytes
  sg_mldsa :: bytes

definition signing_generate :: "prims \<Rightarrow> bytes \<Rightarrow> bytes \<Rightarrow> hybrid_signing_keypair" where
  "signing_generate P rnd_ed rnd_ml =
     \<lparr>hs_ed25519 = ed_from_seed P rnd_ed, hs_mldsa = mldsa_generate P rnd_ml\<rparr>"

definition verifying_key :: "hybrid_signing_keypair \<Rightarrow> hybrid_verifying_key" where
  "verifying_key kp = \<lparr>hv_ed25519 = ed_verifying (hs_ed25519 kp), hv_mldsa = md_verifying (hs_mldsa kp)\<rparr>"

definition hybrid_sign ::
  "prims \<Rightarrow> bytes \<Rightarrow> hybrid_signing_keypair \<Rightarrow> domain \<Rightarrow> bytes \<Rightarrow> crypto_error + hybrid_signature" where
  "hybrid_sign P rnd kp d msg =
     (let framed = framed_message d msg
      in bind_res (mldsa_sign P rnd (hs_mldsa kp) framed)
           (\<lambda>ml. Inr \<lparr>sg_ed25519 = ed_sign P (hs_ed25519 kp) framed, sg_mldsa = ml\<rparr>))"

definition signing_to_secret_bytes :: "hybrid_signing_keypair \<Rightarrow> bytes" where
  "signing_to_secret_bytes kp =
     ed_seed (hs_ed25519 kp) @ md_signing (hs_mldsa kp) @ md_verifying (hs_mldsa kp)"

definition signing_from_secret_bytes :: "prims \<Rightarrow> bytes \<Rightarrow> crypto_error + hybrid_signing_keypair" where
  "signing_from_secret_bytes P bs =
     (let expected = HYBRID_SECRET_BYTES + MLDSA65_PUBLIC_KEY_BYTES
      in if length bs \<noteq> expected then Inl (InvalidKeyLength expected (length bs))
         else bind_res (mldsa_sk_from_bytes (slice bs 32 (32 + MLDSA65_SECRET_KEY_BYTES)))
           (\<lambda>signing. bind_res (mldsa_vk_from_bytes (drop (32 + MLDSA65_SECRET_KEY_BYTES) bs))
             (\<lambda>verifying. Inr \<lparr>hs_ed25519 = ed_from_seed P (take 32 bs),
                hs_mldsa = \<lparr>md_signing = signing, md_verifying = verifying\<rparr>\<rparr>)))"

definition hybrid_verify ::
  "prims \<Rightarrow> hybrid_verifying_key \<Rightarrow> domain \<Rightarrow> bytes \<Rightarrow> hybrid_signature \<Rightarrow> crypto_error + unit" where
  "hybrid_verify P vk d msg sig =
     (let framed = framed_message d msg
      in bind_res (ed_verify P (hv_ed25519 vk) framed (sg_ed25519 sig))
           (\<lambda>_. mldsa_verify P (hv_mldsa vk) framed (sg_mldsa sig)))"

definition vk_to_bytes :: "hybrid_verifying_key \<Rightarrow> bytes" where
  "vk_to_bytes vk = hv_ed25519 vk @ hv_mldsa vk"

definition vk_from_bytes :: "prims \<Rightarrow> bytes \<Rightarrow> crypto_error + hybrid_verifying_key" where
  "vk_from_bytes P bs =
     (if length bs \<noteq> HYBRID_VERIFYING_KEY_BYTES
      then Inl (InvalidKeyLength HYBRID_VERIFYING_KEY_BYTES (length bs))
      else bind_res (ed_vk_from_bytes P (take 32 bs))
        (\<lambda>ed. bind_res (mldsa_vk_from_bytes (drop 32 bs))
          (\<lambda>ml. Inr \<lparr>hv_ed25519 = ed, hv_mldsa = ml\<rparr>)))"

definition key_id :: "prims \<Rightarrow> hybrid_verifying_key \<Rightarrow> bytes" where
  "key_id P vk = p_sha256 P (vk_to_bytes vk)"

definition sig_to_bytes :: "hybrid_signature \<Rightarrow> bytes" where
  "sig_to_bytes s = sg_ed25519 s @ sg_mldsa s"

definition sig_from_bytes :: "bytes \<Rightarrow> crypto_error + hybrid_signature" where
  "sig_from_bytes bs =
     (if length bs \<noteq> HYBRID_SIGNATURE_BYTES
      then Inl (InvalidKeyLength HYBRID_SIGNATURE_BYTES (length bs))
      else bind_res (ed_sig_from_bytes (take 64 bs))
        (\<lambda>ed. bind_res (mldsa_sig_from_bytes (drop 64 bs))
          (\<lambda>ml. Inr \<lparr>sg_ed25519 = ed, sg_mldsa = ml\<rparr>)))"

subsection \<open>Encodings\<close>

definition vk_wf :: "prims \<Rightarrow> hybrid_verifying_key \<Rightarrow> bool" where
  "vk_wf P vk = (length (hv_ed25519 vk) = 32 \<and> p_ed_valid P (hv_ed25519 vk) \<and> length (hv_mldsa vk) = 1952)"

definition sig_wf :: "hybrid_signature \<Rightarrow> bool" where
  "sig_wf s = (length (sg_ed25519 s) = 64 \<and> length (sg_mldsa s) = 3309)"

lemmas hybrid_from_defs =
  check_len_def ed_vk_from_bytes_def mldsa_vk_from_bytes_def ed_sig_from_bytes_def
  mldsa_sig_from_bytes_def mldsa_sk_from_bytes_def x25519_pk_from_bytes_def mlkem_pk_from_bytes_def
  mlkem_ct_from_bytes_def mlkem_sk_from_bytes_def key_sizes

interpretation vk: byte_codec vk_to_bytes "vk_from_bytes P" "vk_wf P" for P
proof
  show "vk_wf P x \<Longrightarrow> vk_from_bytes P (vk_to_bytes x) = Inr x" for x
    by (simp add: vk_wf_def vk_from_bytes_def vk_to_bytes_def HYBRID_VERIFYING_KEY_BYTES_def
        hybrid_from_defs)
  show "vk_from_bytes P bs = Inr x \<Longrightarrow> vk_wf P x \<and> vk_to_bytes x = bs" for bs x
    by (auto simp: vk_wf_def vk_from_bytes_def vk_to_bytes_def HYBRID_VERIFYING_KEY_BYTES_def
        hybrid_from_defs res_simps split: if_splits)
qed

interpretation sig: byte_codec sig_to_bytes sig_from_bytes sig_wf
proof
  show "sig_wf x \<Longrightarrow> sig_from_bytes (sig_to_bytes x) = Inr x" for x
    by (simp add: sig_wf_def sig_from_bytes_def sig_to_bytes_def HYBRID_SIGNATURE_BYTES_def
        hybrid_from_defs)
  show "sig_from_bytes bs = Inr x \<Longrightarrow> sig_wf x \<and> sig_to_bytes x = bs" for bs x
    by (auto simp: sig_wf_def sig_from_bytes_def sig_to_bytes_def HYBRID_SIGNATURE_BYTES_def
        hybrid_from_defs res_simps split: if_splits)
qed

subsection \<open>Framing\<close>

lemma label_prefix_free:
  "domain_label d @ x = domain_label e @ y \<Longrightarrow> d = e \<and> x = y"
  by (cases d; cases e; simp)

lemma framed_message_inj:
  assumes "framed_message d m = framed_message e n"
  shows "d = e \<and> m = n"
  using label_prefix_free[OF assms[unfolded framed_message_def]] by simp

subsection \<open>Signing and verifying\<close>

lemma verify_iff:
  "hybrid_verify P vk d msg s = Inr () \<longleftrightarrow>
     ed_verify P (hv_ed25519 vk) (framed_message d msg) (sg_ed25519 s) = Inr () \<and>
     mldsa_verify P (hv_mldsa vk) (framed_message d msg) (sg_mldsa s) = Inr ()"
  by (auto simp: hybrid_verify_def Let_def res_simps)

lemma verify_error:
  "hybrid_verify P vk d msg s = Inl e \<Longrightarrow> e = InvalidSignature"
  by (auto simp: hybrid_verify_def Let_def res_simps ed_verify_def mldsa_verify_def split: if_splits)

lemma sign_generated:
  assumes ed: "ed25519_correct P" and ml: "mldsa_correct P" and len: "length r1 = 32"
    and kp: "kp = signing_generate P r1 r2"
  shows "\<exists>s. hybrid_sign P r kp d msg = Inr s \<and> sig_wf s \<and>
           hybrid_verify P (verifying_key kp) d msg s = Inr ()"
proof -
  obtain pk sk where keys: "p_mldsa_keypair P r2 = (pk, sk)" by fastforce
  have mlk: "p_mldsa_sk_ok P sk" "p_mldsa_pk_ok P pk"
    "\<And>m. length (p_mldsa_sign P r m sk) = 3309" "\<And>m. p_mldsa_sig_ok P (p_mldsa_sign P r m sk)"
    "\<And>m. p_mldsa_verify P (p_mldsa_sign P r m sk) m pk"
    using ml keys by (auto simp: mldsa_correct_def)
  have edk: "p_ed_valid P (p_ed_public P r1)" "\<And>m. length (p_ed_sign P r1 m) = 64"
    "\<And>m. p_ed_verify P (p_ed_public P r1) m (p_ed_sign P r1 m)"
    using ed len by (auto simp: ed25519_correct_def)
  show ?thesis
    using kp keys mlk edk
    by (simp add: hybrid_sign_def hybrid_verify_def signing_generate_def verifying_key_def
        mldsa_generate_def ed_from_seed_def mldsa_sign_def ed_sign_def mldsa_verify_def
        ed_verify_def Let_def sig_wf_def)
qed

lemma generated_vk_wf:
  assumes ed: "ed25519_correct P" and ml: "mldsa_correct P" and len: "length r1 = 32"
  shows "vk_wf P (verifying_key (signing_generate P r1 r2))"
proof -
  obtain pk sk where keys: "p_mldsa_keypair P r2 = (pk, sk)" by fastforce
  have "length pk = 1952" using ml keys by (simp add: mldsa_correct_def)
  then show ?thesis
    using ed len keys
    by (simp add: vk_wf_def verifying_key_def signing_generate_def mldsa_generate_def
        ed_from_seed_def ed25519_correct_def)
qed

section \<open>The hybrid KEM\<close>

definition HYBRID_KEM_PUBLIC_KEY_BYTES :: nat where
  "HYBRID_KEM_PUBLIC_KEY_BYTES = 32 + MLKEM768_PUBLIC_KEY_BYTES"

definition HYBRID_KEM_CIPHERTEXT_BYTES :: nat where
  "HYBRID_KEM_CIPHERTEXT_BYTES = 32 + MLKEM768_CIPHERTEXT_BYTES"

definition HYBRID_KEM_SECRET_BYTES :: nat where
  "HYBRID_KEM_SECRET_BYTES = 32 + MLKEM768_SECRET_KEY_BYTES"

definition KEM_LABEL :: bytes where
  "KEM_LABEL = ascii ''AVON-HYBRID-KEM-V2''"

record kem_public_key =
  kp_x25519 :: bytes
  kp_mlkem :: bytes

record kem_ciphertext =
  kc_eph_x25519 :: bytes
  kc_mlkem :: bytes

record kem_keypair =
  kk_x25519 :: x25519_keypair
  kk_mlkem :: mlkem_keypair

definition combine_input :: "bytes \<Rightarrow> bytes \<Rightarrow> bytes \<Rightarrow> bytes \<Rightarrow> bytes \<Rightarrow> bytes \<Rightarrow> bytes" where
  "combine_input ss_x25519 ss_mlkem eph_x25519_pk x25519_pk mlkem_ct mlkem_pk =
     KEM_LABEL @ ss_x25519 @ ss_mlkem @ eph_x25519_pk @ x25519_pk @ mlkem_ct @ mlkem_pk"

definition combine :: "prims \<Rightarrow> bytes \<Rightarrow> bytes \<Rightarrow> bytes \<Rightarrow> bytes \<Rightarrow> bytes \<Rightarrow> bytes \<Rightarrow> bytes" where
  "combine P ss_x25519 ss_mlkem eph_x25519_pk x25519_pk mlkem_ct mlkem_pk =
     p_sha256 P (combine_input ss_x25519 ss_mlkem eph_x25519_pk x25519_pk mlkem_ct mlkem_pk)"

definition kem_pk_to_bytes :: "kem_public_key \<Rightarrow> bytes" where
  "kem_pk_to_bytes pk = kp_x25519 pk @ kp_mlkem pk"

definition kem_pk_from_bytes :: "bytes \<Rightarrow> crypto_error + kem_public_key" where
  "kem_pk_from_bytes bs =
     (if length bs \<noteq> HYBRID_KEM_PUBLIC_KEY_BYTES
      then Inl (InvalidKeyLength HYBRID_KEM_PUBLIC_KEY_BYTES (length bs))
      else bind_res (x25519_pk_from_bytes (take 32 bs))
        (\<lambda>x. bind_res (mlkem_pk_from_bytes (drop 32 bs))
          (\<lambda>m. Inr \<lparr>kp_x25519 = x, kp_mlkem = m\<rparr>)))"

text \<open>The ephemeral X25519 secret and the coins of ML-KEM are the two random arguments.\<close>

definition encapsulate ::
  "prims \<Rightarrow> bytes \<Rightarrow> bytes \<Rightarrow> kem_public_key \<Rightarrow> crypto_error + (kem_ciphertext \<times> bytes)" where
  "encapsulate P rnd_x rnd_m pk =
     (let eph = x25519_generate P rnd_x
      in bind_res (diffie_hellman P eph (kp_x25519 pk))
        (\<lambda>ss_x. bind_res (mlkem_encapsulate P rnd_m (kp_mlkem pk))
          (\<lambda>(ct_m, ss_m).
             Inr (\<lparr>kc_eph_x25519 = xk_public eph, kc_mlkem = ct_m\<rparr>,
                  combine P ss_x ss_m (xk_public eph) (kp_x25519 pk) ct_m (kp_mlkem pk)))))"

definition kem_ct_to_bytes :: "kem_ciphertext \<Rightarrow> bytes" where
  "kem_ct_to_bytes ct = kc_eph_x25519 ct @ kc_mlkem ct"

definition kem_ct_from_bytes :: "bytes \<Rightarrow> crypto_error + kem_ciphertext" where
  "kem_ct_from_bytes bs =
     (if length bs \<noteq> HYBRID_KEM_CIPHERTEXT_BYTES
      then Inl (InvalidKeyLength HYBRID_KEM_CIPHERTEXT_BYTES (length bs))
      else bind_res (x25519_pk_from_bytes (take 32 bs))
        (\<lambda>x. bind_res (mlkem_ct_from_bytes (drop 32 bs))
          (\<lambda>m. Inr \<lparr>kc_eph_x25519 = x, kc_mlkem = m\<rparr>)))"

definition kem_generate :: "prims \<Rightarrow> bytes \<Rightarrow> bytes \<Rightarrow> kem_keypair" where
  "kem_generate P rnd_x rnd_m =
     \<lparr>kk_x25519 = x25519_generate P rnd_x, kk_mlkem = mlkem_generate P rnd_m\<rparr>"

definition kem_public :: "kem_keypair \<Rightarrow> kem_public_key" where
  "kem_public kp = \<lparr>kp_x25519 = xk_public (kk_x25519 kp), kp_mlkem = mk_public (kk_mlkem kp)\<rparr>"

definition decapsulate :: "prims \<Rightarrow> kem_keypair \<Rightarrow> kem_ciphertext \<Rightarrow> crypto_error + bytes" where
  "decapsulate P kp ct =
     bind_res (diffie_hellman P (kk_x25519 kp) (kc_eph_x25519 ct))
       (\<lambda>ss_x. bind_res (mlkem_decapsulate P (kk_mlkem kp) (kc_mlkem ct))
         (\<lambda>ss_m. let pk = kem_public kp
                  in Inr (combine P ss_x ss_m (kc_eph_x25519 ct) (kp_x25519 pk) (kc_mlkem ct) (kp_mlkem pk))))"

definition kem_to_secret_bytes :: "kem_keypair \<Rightarrow> bytes" where
  "kem_to_secret_bytes kp = xk_private (kk_x25519 kp) @ mk_secret (kk_mlkem kp)"

definition kem_from_secret_bytes :: "prims \<Rightarrow> bytes \<Rightarrow> crypto_error + kem_keypair" where
  "kem_from_secret_bytes P bs =
     (if length bs \<noteq> HYBRID_KEM_SECRET_BYTES
      then Inl (InvalidKeyLength HYBRID_KEM_SECRET_BYTES (length bs))
      else let x25519 = x25519_from_private_key P (take 32 bs)
           in bind_res (mlkem_sk_from_bytes (drop 32 bs))
             (\<lambda>sk. bind_res (mlkem_from_secret_key sk)
               (\<lambda>mlkem. Inr \<lparr>kk_x25519 = x25519, kk_mlkem = mlkem\<rparr>)))"

subsection \<open>Encodings and agreement\<close>

definition kem_pk_wf :: "kem_public_key \<Rightarrow> bool" where
  "kem_pk_wf pk = (length (kp_x25519 pk) = 32 \<and> length (kp_mlkem pk) = 1184)"

definition kem_ct_wf :: "kem_ciphertext \<Rightarrow> bool" where
  "kem_ct_wf ct = (length (kc_eph_x25519 ct) = 32 \<and> length (kc_mlkem ct) = 1088)"

interpretation kem_pk: byte_codec kem_pk_to_bytes kem_pk_from_bytes kem_pk_wf
proof
  show "kem_pk_wf x \<Longrightarrow> kem_pk_from_bytes (kem_pk_to_bytes x) = Inr x" for x
    by (simp add: kem_pk_wf_def kem_pk_from_bytes_def kem_pk_to_bytes_def
        HYBRID_KEM_PUBLIC_KEY_BYTES_def hybrid_from_defs)
  show "kem_pk_from_bytes bs = Inr x \<Longrightarrow> kem_pk_wf x \<and> kem_pk_to_bytes x = bs" for bs x
    by (auto simp: kem_pk_wf_def kem_pk_from_bytes_def kem_pk_to_bytes_def
        HYBRID_KEM_PUBLIC_KEY_BYTES_def hybrid_from_defs res_simps split: if_splits)
qed

interpretation kem_ct: byte_codec kem_ct_to_bytes kem_ct_from_bytes kem_ct_wf
proof
  show "kem_ct_wf x \<Longrightarrow> kem_ct_from_bytes (kem_ct_to_bytes x) = Inr x" for x
    by (simp add: kem_ct_wf_def kem_ct_from_bytes_def kem_ct_to_bytes_def
        HYBRID_KEM_CIPHERTEXT_BYTES_def hybrid_from_defs)
  show "kem_ct_from_bytes bs = Inr x \<Longrightarrow> kem_ct_wf x \<and> kem_ct_to_bytes x = bs" for bs x
    by (auto simp: kem_ct_wf_def kem_ct_from_bytes_def kem_ct_to_bytes_def
        HYBRID_KEM_CIPHERTEXT_BYTES_def hybrid_from_defs res_simps split: if_splits)
qed

lemma length_kem_pk_bytes: "kem_pk_wf pk \<Longrightarrow> length (kem_pk_to_bytes pk) = 1216"
  by (simp add: kem_pk_wf_def kem_pk_to_bytes_def)

lemma length_kem_ct_bytes: "kem_ct_wf ct \<Longrightarrow> length (kem_ct_to_bytes ct) = 1120"
  by (simp add: kem_ct_wf_def kem_ct_to_bytes_def)

lemma generated_kem_pk_wf:
  assumes "x25519_commutes P" and "mlkem_correct P"
  shows "kem_pk_wf (kem_public (kem_generate P rx rm))"
  using assms by (cases "p_mlkem_keypair P rm")
    (auto simp: kem_pk_wf_def kem_public_def kem_generate_def x25519_generate_def
      mlkem_generate_def x25519_commutes_def mlkem_correct_def)

lemma kem_agree:
  assumes dh: "x25519_commutes P" and ml: "mlkem_correct P"
    and kp: "kp = kem_generate P rx rm"
    and enc: "encapsulate P r1 r2 (kem_public kp) = Inr (ct, ss)"
  shows "decapsulate P kp ct = Inr ss" and "kem_ct_wf ct"
proof -
  obtain pk sk where keys: "p_mlkem_keypair P rm = (pk, sk)" by fastforce
  obtain s c where out: "p_mlkem_encaps P r2 pk = (s, c)" by fastforce
  have ml': "p_mlkem_sk_ok P sk" "p_mlkem_pk_ok P pk" "p_mlkem_ct_ok P c" "p_mlkem_decaps P c sk = s"
    "length c = 1088"
    using ml keys out by (auto simp: mlkem_correct_def)
  have comm: "p_x25519 P rx (p_x25519_public P r1) = p_x25519 P r1 (p_x25519_public P rx)"
    "length (p_x25519_public P r1) = 32"
    using dh by (simp_all add: x25519_commutes_def)
  show "decapsulate P kp ct = Inr ss"
    using enc kp keys out ml' comm
    by (auto simp: encapsulate_def decapsulate_def kem_public_def kem_generate_def
        x25519_generate_def mlkem_generate_def mlkem_encapsulate_def mlkem_decapsulate_def
        diffie_hellman_def Let_def res_simps split: if_splits)
  show "kem_ct_wf ct"
    using enc kp keys out ml' comm
    by (auto simp: encapsulate_def kem_ct_wf_def kem_public_def kem_generate_def
        x25519_generate_def mlkem_generate_def mlkem_encapsulate_def diffie_hellman_def
        Let_def res_simps split: if_splits)
qed

lemma encapsulate_secret_sized:
  "digest_sized P \<Longrightarrow> encapsulate P r1 r2 pk = Inr (ct, ss) \<Longrightarrow> length ss = 32"
  by (auto simp: encapsulate_def Let_def res_simps combine_def digest_sized_def split: prod.splits)

section \<open>Properties\<close>

text \<open>The bytes that are signed determine the domain and the message: a signature made for one
  purpose (a certificate, say) covers no message of another purpose.\<close>

theorem domain_separation:
  "framed_message d m = framed_message e n \<longleftrightarrow> d = e \<and> m = n"
  using framed_message_inj by blast

text \<open>A key pair generated by the code signs every message in every domain, the signature's
  bytes parse back to it, and it verifies under the published key after that key, too, has gone
  over the wire.\<close>

theorem sign_verify_round_trip:
  assumes "ed25519_correct P" and "mldsa_correct P" and "length r1 = 32"
  shows "\<exists>s vk. hybrid_sign P r (signing_generate P r1 r2) d msg = Inr s \<and>
           sig_from_bytes (sig_to_bytes s) = Inr s \<and>
           vk_from_bytes P (vk_to_bytes (verifying_key (signing_generate P r1 r2))) = Inr vk \<and>
           hybrid_verify P vk d msg s = Inr ()"
proof -
  obtain s where s: "hybrid_sign P r (signing_generate P r1 r2) d msg = Inr s" "sig_wf s"
    "hybrid_verify P (verifying_key (signing_generate P r1 r2)) d msg s = Inr ()"
    using sign_generated[OF assms refl] by blast
  with sig.from_to[OF s(2)] vk.from_to[OF generated_vk_wf[OF assms]] show ?thesis by blast
qed

theorem sign_verify_round_trip_witness:
  "ed25519_correct toy \<and> mldsa_correct toy \<and> length (replicate 32 (7::byte)) = 32 \<and>
   (\<exists>s vk. hybrid_sign toy [] (signing_generate toy (replicate 32 7) [1]) Cert (ascii ''tbs'') = Inr s \<and>
      sig_from_bytes (sig_to_bytes s) = Inr s \<and>
      vk_from_bytes toy (vk_to_bytes (verifying_key (signing_generate toy (replicate 32 7) [1]))) = Inr vk \<and>
      hybrid_verify toy vk Cert (ascii ''tbs'') s = Inr ())"
  using sign_verify_round_trip[OF toy_ed25519 toy_mldsa, of "replicate 32 7"] toy_ed25519 toy_mldsa
  by simp

text \<open>Verification accepts only when both component signatures verify over the same framed
  message; whatever fails, the error is \<open>InvalidSignature\<close>.\<close>

theorem verify_needs_both:
  "(hybrid_verify P vk d msg s = Inr () \<longleftrightarrow>
      p_ed_valid P (hv_ed25519 vk) \<and> p_ed_verify P (hv_ed25519 vk) (framed_message d msg) (sg_ed25519 s) \<and>
      p_mldsa_pk_ok P (hv_mldsa vk) \<and> p_mldsa_sig_ok P (sg_mldsa s) \<and>
      p_mldsa_verify P (sg_mldsa s) (framed_message d msg) (hv_mldsa vk)) \<and>
   hybrid_verify P vk d msg s \<in> {Inr (), Inl InvalidSignature}"
proof -
  have "hybrid_verify P vk d msg s \<in> {Inr (), Inl InvalidSignature}"
    using verify_error[of P vk d msg s] by (cases "hybrid_verify P vk d msg s") auto
  then show ?thesis by (auto simp: verify_iff ed_verify_def mldsa_verify_def split: if_splits)
qed

text \<open>Whoever encapsulates to a generated key and the key's owner end with the same secret:
  the ciphertext survives the wire and decapsulates to it.\<close>

theorem kem_round_trip:
  assumes "x25519_commutes P" and "mlkem_correct P"
    and "encapsulate P r1 r2 (kem_public (kem_generate P rx rm)) = Inr (ct, ss)"
  shows "\<exists>ct'. kem_ct_from_bytes (kem_ct_to_bytes ct) = Inr ct' \<and>
     decapsulate P (kem_generate P rx rm) ct' = Inr ss"
  using kem_agree[OF assms(1,2) refl assms(3)] kem_ct.from_to by blast

lemma toy_encapsulates:
  "\<exists>ct ss. encapsulate toy [1] [] (kem_public (kem_generate toy [1] [])) = Inr (ct, ss)"
  by (simp add: encapsulate_def kem_public_def kem_generate_def x25519_generate_def
      mlkem_generate_def mlkem_encapsulate_def diffie_hellman_def toy_def Let_def pad_def)

theorem kem_round_trip_witness:
  "\<exists>ct ss ct'. encapsulate toy [1] [] (kem_public (kem_generate toy [1] [])) = Inr (ct, ss) \<and>
     x25519_commutes toy \<and> mlkem_correct toy \<and>
     kem_ct_from_bytes (kem_ct_to_bytes ct) = Inr ct' \<and>
     decapsulate toy (kem_generate toy [1] []) ct' = Inr ss"
proof -
  obtain ct ss where e: "encapsulate toy [1] [] (kem_public (kem_generate toy [1] [])) = Inr (ct, ss)"
    using toy_encapsulates by blast
  from kem_round_trip[OF toy_x25519 toy_mlkem e] e show ?thesis
    using toy_x25519 toy_mlkem by blast
qed

end
