(* ===== verification/Session_Cipher.thy ===== *)
theory Session_Cipher
  imports Hybrid_Crypto
begin

text \<open>
  \<open>avon-crypto/src/session/keys.rs\<close> and \<open>cipher.rs\<close>: the transcript hash, the key schedule and one
  epoch of a session (a send key with its counter, a receive key with its window);
  \<open>session_token.rs\<close>: sealing of control-plane tokens under a one-time key.  A poisoned
  window lock is not modelled: nothing that runs under it can panic.
\<close>

section \<open>Key schedule\<close>

definition ATP_LABEL :: bytes where
  "ATP_LABEL = ascii ''AVON-ATP2''"

record transcript =
  tr_session_id :: bytes
  tr_initiator_cert_id :: bytes
  tr_responder_cert_id :: bytes
  tr_eph_kem_pk :: bytes
  tr_ct_e :: bytes
  tr_ct_s :: bytes
  tr_suite :: suite

definition put32 :: "bytes \<Rightarrow> bytes" where
  "put32 bs = to_be_bytes (word_of_nat (length bs) :: u32) @ bs"

definition transcript_bytes :: "transcript \<Rightarrow> bytes" where
  "transcript_bytes t =
     ATP_LABEL @ tr_session_id t @ tr_initiator_cert_id t @ tr_responder_cert_id t @
     put32 (tr_eph_kem_pk t) @ put32 (tr_ct_e t) @ put32 (tr_ct_s t) @ [suite_id (tr_suite t)]"

definition transcript_hash :: "prims \<Rightarrow> transcript \<Rightarrow> bytes" where
  "transcript_hash P t = p_sha256 P (transcript_bytes t)"

record session_keys =
  k_i2r :: bytes
  k_r2i :: bytes
  rekey_secret :: bytes
  sk_epoch :: u32

text \<open>\<open>Hkdf::new(Some(salt), ikm)\<close> followed by \<open>expand\<close>; the extracted key is the pair it came from.\<close>

definition expand :: "prims \<Rightarrow> bytes \<times> bytes \<Rightarrow> bytes \<Rightarrow> u32 \<Rightarrow> crypto_error + bytes" where
  "expand P prk label epoch =
     map_err KeyDerivationFailed (p_hkdf P (Some (fst prk)) (snd prk) (label @ to_be_bytes epoch) 32)"

definition from_prk :: "prims \<Rightarrow> bytes \<times> bytes \<Rightarrow> u32 \<Rightarrow> crypto_error + session_keys" where
  "from_prk P prk epoch =
     bind_res (expand P prk (ascii ''i2r'') epoch) (\<lambda>i2r.
     bind_res (expand P prk (ascii ''r2i'') epoch) (\<lambda>r2i.
     bind_res (expand P prk (ascii ''rekey'') epoch) (\<lambda>rk.
       Inr \<lparr>k_i2r = i2r, k_r2i = r2i, rekey_secret = rk, sk_epoch = epoch\<rparr>)))"

definition derive_keys :: "prims \<Rightarrow> transcript \<Rightarrow> bytes \<Rightarrow> bytes \<Rightarrow> crypto_error + session_keys" where
  "derive_keys P t ss_e ss_s = from_prk P (transcript_hash P t, ss_e @ ss_s) 0"

definition rekey :: "prims \<Rightarrow> session_keys \<Rightarrow> bytes \<Rightarrow> crypto_error + session_keys" where
  "rekey P ks ss_new = from_prk P (rekey_secret ks, ss_new) (sk_epoch ks + 1)"

definition transcript_wf :: "transcript \<Rightarrow> bool" where
  "transcript_wf t = (length (tr_session_id t) = 16 \<and> length (tr_initiator_cert_id t) = 32 \<and>
     length (tr_responder_cert_id t) = 32 \<and> length (tr_eph_kem_pk t) < 2 ^ 32 \<and>
     length (tr_ct_e t) < 2 ^ 32 \<and> length (tr_ct_s t) < 2 ^ 32)"

lemma put32_prefix:
  assumes "put32 a @ x = put32 b @ y" and "length a < 2 ^ 32" and "length b < 2 ^ 32"
  shows "a = b \<and> x = y"
proof -
  have w: "(word_of_nat (length a) :: u32) = word_of_nat (length b)" and rest: "a @ x = b @ y"
    using assms(1) by (simp_all add: put32_def append_eq_same_length)
  have "unat (word_of_nat (length a) :: u32) = length a" "unat (word_of_nat (length b) :: u32) = length b"
    using assms(2,3) by (auto intro: unat_word_of_nat32)
  with w have "length a = length b" by metis
  with rest show ?thesis by simp
qed

lemma from_prk_ok:
  assumes "hkdf_sized P"
  shows "\<exists>ks. from_prk P prk e = Inr ks \<and> sk_epoch ks = e \<and> length (k_i2r ks) = 32 \<and>
           length (k_r2i ks) = 32 \<and> length (rekey_secret ks) = 32"
proof -
  have "\<exists>k. expand P prk l e = Inr k \<and> length k = 32" for l
    using hkdf_ok[OF assms, of 32 "Some (fst prk)" "snd prk" "l @ to_be_bytes e"]
    by (auto simp: expand_def)
  then show ?thesis unfolding from_prk_def by (metis bind_res.simps(2) session_keys.select_convs)
qed

section \<open>One epoch's cipher\<close>

datatype role = Initiator | Responder

definition nonce_for :: "u64 \<Rightarrow> bytes" where
  "nonce_for counter = replicate 4 0 @ to_be_bytes counter"

record session_cipher =
  sc_send :: aead_key
  sc_recv :: aead_key
  sc_counter :: u64
  sc_window :: replay_window
  sc_epoch :: u32

definition cipher_new :: "session_keys \<Rightarrow> role \<Rightarrow> suite \<Rightarrow> session_cipher" where
  "cipher_new keys r s =
     (let (send_key, recv_key) = (case r of Initiator \<Rightarrow> (k_i2r keys, k_r2i keys)
                                          | Responder \<Rightarrow> (k_r2i keys, k_i2r keys))
      in \<lparr>sc_send = aead_new s send_key, sc_recv = aead_new s recv_key, sc_counter = counter_new,
          sc_window = window_new, sc_epoch = sk_epoch keys\<rparr>)"

definition packets_sent :: "session_cipher \<Rightarrow> u64" where
  "packets_sent c = (- 1) - 1 - remaining (sc_counter c)"

definition seal_with ::
  "prims \<Rightarrow> session_cipher \<Rightarrow> (u64 \<Rightarrow> bytes) \<Rightarrow> bytes \<Rightarrow> (crypto_error + u64 \<times> bytes) \<times> session_cipher" where
  "seal_with P c aad_for plaintext =
     (case next_counter (sc_counter c) of
        (Inl _, n) \<Rightarrow> (Inl CounterExhausted, c\<lparr>sc_counter := n\<rparr>)
      | (Inr counter, n) \<Rightarrow>
          (bind_res (seal_in_place P (sc_send c) (nonce_for counter) (aad_for counter) plaintext)
             (\<lambda>buf. Inr (counter, buf)),
           c\<lparr>sc_counter := n\<rparr>))"

definition cipher_seal ::
  "prims \<Rightarrow> session_cipher \<Rightarrow> bytes \<Rightarrow> bytes \<Rightarrow> (crypto_error + u64 \<times> bytes) \<times> session_cipher" where
  "cipher_seal P c aad plaintext = seal_with P c (\<lambda>_. aad) plaintext"

definition too_old :: "replay_window \<Rightarrow> u64 \<Rightarrow> bool" where
  "too_old w counter = (case highest w of
     None \<Rightarrow> False | Some h \<Rightarrow> h \<ge> counter \<and> h - counter \<ge> SIZE)"

definition cipher_open ::
  "prims \<Rightarrow> session_cipher \<Rightarrow> u64 \<Rightarrow> bytes \<Rightarrow> bytes \<Rightarrow> (crypto_error + bytes) \<times> session_cipher" where
  "cipher_open P c counter aad buf =
     (if too_old (sc_window c) counter then (Inl (Replay TooOld), c)
      else case open_in_place P (sc_recv c) (nonce_for counter) aad buf of
        Inl e \<Rightarrow> (Inl e, c)
      | Inr pt \<Rightarrow>
          (case check_and_update (sc_window c) counter of
             (Inl e, w) \<Rightarrow> (Inl (Replay e), c\<lparr>sc_window := w\<rparr>)
           | (Inr _, w) \<Rightarrow> (Inr pt, c\<lparr>sc_window := w\<rparr>)))"

section \<open>Session tokens\<close>

definition key_from :: "prims \<Rightarrow> bytes \<Rightarrow> crypto_error + bytes" where
  "key_from P ss = map_err KeyDerivationFailed (p_hkdf P None ss (ascii ''AVON-SESSION-TOKEN'') 32)"

definition seal_session_token :: "prims \<Rightarrow> bytes \<Rightarrow> bytes \<Rightarrow> bytes \<Rightarrow> crypto_error + bytes" where
  "seal_session_token P token ss aad =
     bind_res (key_from P ss) (\<lambda>key. seal_in_place P (aead_new Aes256Gcm key) (replicate 12 0) aad token)"

definition open_session_token :: "prims \<Rightarrow> bytes \<Rightarrow> bytes \<Rightarrow> bytes \<Rightarrow> crypto_error + bytes" where
  "open_session_token P sealed ss aad =
     bind_res (key_from P ss) (\<lambda>key.
     bind_res (open_in_place P (aead_new Aes256Gcm key) (replicate 12 0) aad sealed) (\<lambda>buf.
       if length buf = 32 then Inr buf else Inl AuthenticationFailed))"

section \<open>Sending\<close>

lemma nonce_for_inj [simp]: "nonce_for a = nonce_for b \<longleftrightarrow> a = b"
  by (simp add: nonce_for_def)

lemma length_nonce_for [simp]: "length (nonce_for a) = 12"
  by (simp add: nonce_for_def)

fun seal_list ::
  "prims \<Rightarrow> session_cipher \<Rightarrow> (u64 \<Rightarrow> bytes) \<Rightarrow> bytes list \<Rightarrow> (crypto_error + u64 \<times> bytes) list" where
  "seal_list P c aad_for [] = []"
| "seal_list P c aad_for (pt # pts) =
    (case seal_with P c aad_for pt of (r, c') \<Rightarrow> r # seal_list P c' aad_for pts)"

definition sent_counters :: "(crypto_error + u64 \<times> bytes) list \<Rightarrow> u64 list" where
  "sent_counters rs = concat (map (\<lambda>r. case r of Inl _ \<Rightarrow> [] | Inr (n, _) \<Rightarrow> [n]) rs)"

lemma sent_counters_simps [simp]:
  "sent_counters [] = []" "sent_counters (Inl e # rs) = sent_counters rs"
  "sent_counters (Inr (n, b) # rs) = n # sent_counters rs"
  by (simp_all add: sent_counters_def)

lemma seal_with_counter:
  "seal_with P c aad_for pt = (r, c') \<Longrightarrow>
     (r = Inl CounterExhausted \<and> c' = c \<and> LIMIT \<le> sc_counter c) \<or>
     (sc_counter c < LIMIT \<and> c' = c\<lparr>sc_counter := sc_counter c + 1\<rparr> \<and>
      (case r of Inl _ \<Rightarrow> True | Inr (n, _) \<Rightarrow> n = sc_counter c))"
  by (auto simp: seal_with_def next_counter_def bind_res_Inl bind_res_Inr not_le
      split: if_splits sum.splits)

lemma sent_counters_increase:
  "sorted_wrt (<) (sent_counters (seal_list P c aad_for pts)) \<and>
   (\<forall>n \<in> set (sent_counters (seal_list P c aad_for pts)). sc_counter c \<le> n \<and> n < LIMIT)"
proof (induction pts arbitrary: c)
  case (Cons pt pts)
  obtain r c' where s: "seal_with P c aad_for pt = (r, c')" by fastforce
  note IH = Cons[of c']
  from seal_with_counter[OF s] show ?case
  proof (elim disjE conjE)
    assume "r = Inl CounterExhausted" "c' = c"
    then show ?thesis using IH s by simp
  next
    assume lt: "sc_counter c < LIMIT" and c': "c' = c\<lparr>sc_counter := sc_counter c + 1\<rparr>"
      and r: "case r of Inl _ \<Rightarrow> True | Inr (n, _) \<Rightarrow> n = sc_counter c"
    have up: "sc_counter c < sc_counter c + 1" using below_LIMIT_succ[OF lt] .
    then have above: "\<forall>n \<in> set (sent_counters (seal_list P c' aad_for pts)). sc_counter c < n \<and> n < LIMIT"
      using IH c' by fastforce
    then show ?thesis using IH s r lt by (cases r) (auto simp: less_imp_le)
  qed
qed simp

lemma packets_sent_counter: "sc_counter c \<le> LIMIT \<Longrightarrow> packets_sent c = sc_counter c"
  by (simp add: packets_sent_def remaining_def LIMIT_def)

section \<open>Receiving\<close>

fun open_run :: "prims \<Rightarrow> session_cipher \<Rightarrow> (u64 \<times> bytes \<times> bytes) list \<Rightarrow> (u64 \<times> bytes) list" where
  "open_run P c [] = []"
| "open_run P c ((n, aad, buf) # pkts) =
    (case cipher_open P c n aad buf of
       (Inr pt, c') \<Rightarrow> (n, pt) # open_run P c' pkts
     | (Inl _, c') \<Rightarrow> open_run P c' pkts)"

lemma too_old_check: "too_old w n \<Longrightarrow> check_and_update w n = (Inl TooOld, w)"
  by (auto simp: too_old_def check_and_update_def split: option.splits)

text \<open>The receiver is a client of the replay filter: what it delivers is what the filter accepts of
  the packets that authenticate.\<close>

lemma open_run_accept:
  "map fst (open_run P c pkts) =
   accept_run check_and_update (sc_window c)
     (map (\<lambda>(n, aad, buf). (is_ok (open_in_place P (sc_recv c) (nonce_for n) aad buf), n)) pkts)"
proof (induction pkts arbitrary: c)
  case (Cons p pkts)
  obtain n aad buf where p: "p = (n, aad, buf)" by (cases p)
  show ?case
  proof (cases "too_old (sc_window c) n")
    case True
    then show ?thesis using Cons[of c] p too_old_check[OF True] by (simp add: cipher_open_def)
  next
    case False
    obtain r w where chk: "check_and_update (sc_window c) n = (r, w)" by fastforce
    show ?thesis
      using False chk p Cons[of c] Cons[of "c\<lparr>sc_window := w\<rparr>"]
      by (cases "open_in_place P (sc_recv c) (nonce_for n) aad buf"; cases r)
        (simp_all add: cipher_open_def)
  qed
qed simp

lemma forged_unchanged:
  "open_in_place P (sc_recv c) (nonce_for n) aad buf = Inl e \<Longrightarrow> snd (cipher_open P c n aad buf) = c"
  by (simp add: cipher_open_def)

lemma cipher_open_frame:
  "cipher_open P c n aad buf = (r, c') \<Longrightarrow> \<exists>w. c' = c\<lparr>sc_window := w\<rparr>"
proof -
  assume "cipher_open P c n aad buf = (r, c')"
  then have "c' = c \<or> (\<exists>w. c' = c\<lparr>sc_window := w\<rparr>)"
    by (auto simp: cipher_open_def split: if_splits sum.splits prod.splits)
  then show ?thesis by (metis session_cipher.surjective session_cipher.update_convs(4) old.unit.exhaust)
qed

lemma cipher_open_wf:
  "window_wf (sc_window c) \<Longrightarrow> window_wf (sc_window (snd (cipher_open P c n aad buf)))"
  using check_wf[of "sc_window c" n]
  by (auto simp: cipher_open_def split: sum.splits prod.splits)

lemma cipher_open_ok:
  "cipher_open P c n aad buf = (Inr pt, c') \<Longrightarrow>
     open_in_place P (sc_recv c) (nonce_for n) aad buf = Inr pt \<and>
     check_and_update (sc_window c) n = (Inr (), sc_window c') \<and> \<not> too_old (sc_window c) n"
  by (auto simp: cipher_open_def split: if_splits sum.splits prod.splits)

lemma roles_pair:
  "sc_send (cipher_new ks Initiator s) = sc_recv (cipher_new ks Responder s)"
  "sc_send (cipher_new ks Responder s) = sc_recv (cipher_new ks Initiator s)"
  by (simp_all add: cipher_new_def)

section \<open>A pair of peers\<close>

fun peer_role :: "role \<Rightarrow> role" where
  "peer_role Initiator = Responder"
| "peer_role Responder = Initiator"

lemma peer_keys: "sc_send (cipher_new ks r s) = sc_recv (cipher_new ks (peer_role r) s)"
  by (cases r) (simp_all add: roles_pair)

fun first_seen :: "nat set \<Rightarrow> nat list \<Rightarrow> nat list" where
  "first_seen S [] = []"
| "first_seen S (i # is) = (if i \<in> S then first_seen S is else i # first_seen (insert i S) is)"

lemma seal_list_nth:
  assumes "i < length pts" and "sc_counter c = word_of_nat k" and "k + length pts \<le> 18446744073709551614"
  shows "seal_list P c aad_for pts ! i =
    bind_res (seal_in_place P (sc_send c) (nonce_for (word_of_nat (k + i))) (aad_for (word_of_nat (k + i))) (pts ! i))
      (\<lambda>b. Inr (word_of_nat (k + i), b))"
  using assms
proof (induction pts arbitrary: c k i)
  case (Cons pt pts)
  have lt: "sc_counter c < LIMIT"
    using Cons.prems by (simp add: word_less_nat_alt unat_of_nat)
  let ?c' = "c\<lparr>sc_counter := sc_counter c + 1\<rparr>"
  have step: "seal_with P c aad_for pt =
      (bind_res (seal_in_place P (sc_send c) (nonce_for (sc_counter c)) (aad_for (sc_counter c)) pt)
        (\<lambda>b. Inr (sc_counter c, b)), ?c')"
    using lt by (auto simp: seal_with_def next_counter_def)
  show ?case
  proof (cases i)
    case 0
    then show ?thesis using step Cons.prems by simp
  next
    case (Suc j)
    have "sc_counter ?c' = word_of_nat (Suc k)" using Cons.prems by simp
    then show ?thesis using step Suc Cons.IH[of j ?c' "Suc k"] Cons.prems by simp
  qed
qed simp

lemma small_window_check:
  assumes wf: "window_wf w" and small: "\<forall>c \<in> seen w. unat c < 2048" and n: "unat n < 2048"
  shows "check_and_update w n = (if n \<in> seen w then (Inl Replayed, w)
     else (Inr (), \<lparr>seen = insert n (seen w), highest = Some (case highest w of None \<Rightarrow> n | Some h \<Rightarrow> max n h)\<rparr>))"
    and "\<not> too_old w n"
proof -
  have diff: "b \<le> a \<Longrightarrow> unat a < 2048 \<Longrightarrow> a - b < SIZE" for a b :: u64
    by (simp add: word_diff_SIZE)
  show "\<not> too_old w n"
    using wf small diff[of n] by (force simp: too_old_def window_wf_def split: option.splits)
  show "check_and_update w n = (if n \<in> seen w then (Inl Replayed, w)
     else (Inr (), \<lparr>seen = insert n (seen w), highest = Some (case highest w of None \<Rightarrow> n | Some h \<Rightarrow> max n h)\<rparr>))"
  proof (cases "highest w")
    case None
    then show ?thesis using wf by (simp add: check_and_update_def window_wf_def)
  next
    case (Some h)
    then have h: "h \<in> seen w" "unat h < 2048" and le: "\<And>c. c \<in> seen w \<Longrightarrow> c \<le> h"
      using wf small by (auto simp: window_wf_def)
    show ?thesis
    proof (cases "h < n")
      case True
      then have "c \<le> n" if "c \<in> seen w" for c using le[OF that] by simp
      then have "Set.filter (\<lambda>c. n - c < SIZE) (seen w) = seen w" "n \<notin> seen w"
        using diff[OF _ n] le True by (auto simp: not_less[symmetric])
      then show ?thesis
        using True Some diff[of h n] n by (simp add: check_and_update_def max_def not_le[symmetric])
    next
      case False
      then show ?thesis
        using Some diff[of n h] h by (auto simp: check_and_update_def max_def not_less)
    qed
  qed
qed

lemma open_run_first_seen:
  assumes "window_wf (sc_window c)" and "seen (sc_window c) = word_of_nat ` S" and "S \<subseteq> {..<m}"
    and "m \<le> 2048" and "set is \<subseteq> {..<m}"
    and "\<And>i. i < m \<Longrightarrow> open_in_place P (sc_recv c) (nonce_for (word_of_nat i)) (aad i) (ct i) = Inr (pt i)"
  shows "open_run P c (map (\<lambda>i. (word_of_nat i, aad i, ct i)) is) =
         map (\<lambda>i. (word_of_nat i, pt i)) (first_seen S is)"
  using assms
proof (induction "is" arbitrary: c S)
  case (Cons i "is")
  let ?w = "sc_window c" and ?n = "word_of_nat i :: u64"
  have small: "\<forall>x \<in> seen ?w. unat x < 2048"
    using Cons.prems by (auto simp: unat_of_nat)
  have n: "unat ?n < 2048" using Cons.prems by (simp add: unat_of_nat)
  have mem: "?n \<in> seen ?w \<longleftrightarrow> i \<in> S"
  proof
    assume "?n \<in> seen ?w"
    then obtain j where j: "j \<in> S" "?n = word_of_nat j" using Cons.prems(2) by auto
    then have "unat ?n = unat (word_of_nat j :: u64)" by simp
    then have "i = j" using Cons.prems j(1) by (auto simp: unat_of_nat)
    with j show "i \<in> S" by simp
  qed (use Cons.prems in auto)
  note chk = small_window_check[OF Cons.prems(1) small n]
  have op: "open_in_place P (sc_recv c) (nonce_for ?n) (aad i) (ct i) = Inr (pt i)"
    using Cons.prems by simp
  show ?case
  proof (cases "i \<in> S")
    case True
    then have "cipher_open P c ?n (aad i) (ct i) = (Inl (Replay Replayed), c)"
      using chk op mem by (simp add: cipher_open_def)
    then show ?thesis using True Cons by simp
  next
    case False
    let ?w' = "snd (check_and_update ?w ?n)"
    let ?c' = "c\<lparr>sc_window := ?w'\<rparr>"
    have "cipher_open P c ?n (aad i) (ct i) = (Inr (pt i), ?c')"
      using chk op mem False by (simp add: cipher_open_def)
    moreover have "seen ?w' = word_of_nat ` insert i S" using chk mem False Cons.prems by simp
    moreover have "window_wf ?w'" using check_wf[OF Cons.prems(1)] .
    ultimately show ?thesis
      using False Cons.IH[of ?c' "insert i S"] Cons.prems by simp
  qed
qed simp

section \<open>Properties\<close>

text \<open>The transcript hash commits to every field: two well-formed transcripts with the same
  hashed bytes are equal, so no field can be moved into another.\<close>

theorem transcript_bytes_inj:
  assumes "transcript_wf t" and "transcript_wf u" and "transcript_bytes t = transcript_bytes u"
  shows "t = u"
proof -
  from assms(3) have heads: "tr_session_id t = tr_session_id u"
    "tr_initiator_cert_id t = tr_initiator_cert_id u" "tr_responder_cert_id t = tr_responder_cert_id u"
    and tail: "put32 (tr_eph_kem_pk t) @ put32 (tr_ct_e t) @ put32 (tr_ct_s t) @ [suite_id (tr_suite t)] =
       put32 (tr_eph_kem_pk u) @ put32 (tr_ct_e u) @ put32 (tr_ct_s u) @ [suite_id (tr_suite u)]"
    using assms(1,2) by (auto simp: transcript_bytes_def transcript_wf_def append_eq_same_length)
  from put32_prefix[OF tail] assms have 1: "tr_eph_kem_pk t = tr_eph_kem_pk u"
    and tail: "put32 (tr_ct_e t) @ put32 (tr_ct_s t) @ [suite_id (tr_suite t)] =
       put32 (tr_ct_e u) @ put32 (tr_ct_s u) @ [suite_id (tr_suite u)]"
    by (auto simp: transcript_wf_def)
  from put32_prefix[OF tail] assms have 2: "tr_ct_e t = tr_ct_e u"
    and tail: "put32 (tr_ct_s t) @ [suite_id (tr_suite t)] = put32 (tr_ct_s u) @ [suite_id (tr_suite u)]"
    by (auto simp: transcript_wf_def)
  from put32_prefix[OF tail] assms have "tr_ct_s t = tr_ct_s u" "tr_suite t = tr_suite u"
    by (auto simp: transcript_wf_def)
  with heads 1 2 show ?thesis by simp
qed

definition sample_transcript :: transcript where
  "sample_transcript = \<lparr>tr_session_id = replicate 16 1, tr_initiator_cert_id = replicate 32 2,
     tr_responder_cert_id = replicate 32 3, tr_eph_kem_pk = [4, 5], tr_ct_e = [6], tr_ct_s = [],
     tr_suite = ChaCha20Poly1305\<rparr>"

theorem transcript_bytes_inj_witness:
  "transcript_wf sample_transcript \<and> sample_transcript = sample_transcript\<lparr>tr_ct_s := []\<rparr>"
proof -
  have wf: "transcript_wf sample_transcript" "transcript_wf (sample_transcript\<lparr>tr_ct_s := []\<rparr>)"
    by (simp_all add: transcript_wf_def sample_transcript_def)
  have eq: "transcript_bytes sample_transcript = transcript_bytes (sample_transcript\<lparr>tr_ct_s := []\<rparr>)"
    by (simp add: transcript_bytes_def sample_transcript_def)
  show ?thesis using transcript_bytes_inj[OF wf eq] wf(1) by simp
qed


text \<open>A receiving cipher delivers no counter twice, over any sequence of packets an attacker
  may assemble, and a packet that does not authenticate leaves the cipher as it was.\<close>

theorem open_delivers_once:
  "distinct (map fst (open_run P (cipher_new ks r s) pkts)) \<and>
   (\<forall>c n aad buf. \<not> is_ok (open_in_place P (sc_recv c) (nonce_for n) aad buf) \<longrightarrow>
      snd (cipher_open P c n aad buf) = c)"
proof
  have "sc_window (cipher_new ks r s) = window_new" by (cases r) (simp_all add: cipher_new_def)
  then show "distinct (map fst (open_run P (cipher_new ks r s) pkts))"
    unfolding open_run_accept by (simp add: rw.accept_run_distinct)
  show "\<forall>c n aad buf. \<not> is_ok (open_in_place P (sc_recv c) (nonce_for n) aad buf) \<longrightarrow>
      snd (cipher_open P c n aad buf) = c"
    using forged_unchanged by (metis is_ok_iff sum.exhaust)
qed

theorem open_delivers_once_witness:
  "snd (cipher_open toy (cipher_new \<lparr>k_i2r = [1], k_r2i = [2], rekey_secret = [3], sk_epoch = 0\<rparr>
     Responder Aes256Gcm) 9 [] [0]) =
   cipher_new \<lparr>k_i2r = [1], k_r2i = [2], rekey_secret = [3], sk_epoch = 0\<rparr> Responder Aes256Gcm"
  by (rule open_delivers_once[THEN conjunct2, rule_format])
    (simp add: open_in_place_def TAG_LEN_def)

text \<open>C6. Two peers with the same keys: up to 2048 packets sealed by one, then lost, reordered and
  duplicated at will, are delivered by the other exactly once each, in the order in which they
  first arrive, with the plaintext that was sealed.\<close>

theorem any_order_delivery:
  assumes "aead_correct P" and "aead_seals P" and "length pts \<le> 2048"
    and "\<forall>pt \<in> set pts. length pt \<le> 65536" and "set is \<subseteq> {..<length pts}"
  shows "\<exists>pkts. seal_list P (cipher_new ks r s) aad_for pts = map Inr pkts \<and>
     open_run P (cipher_new ks (peer_role r) s)
       (map (\<lambda>i. (fst (pkts ! i), aad_for (fst (pkts ! i)), snd (pkts ! i))) is) =
     map (\<lambda>i. (word_of_nat i, pts ! i)) (first_seen {} is)"
proof -
  let ?c = "cipher_new ks r s" and ?d = "cipher_new ks (peer_role r) s"
  have new: "sc_counter ?c = word_of_nat 0" "sc_window ?d = window_new"
    by (cases r; simp add: cipher_new_def counter_new_def)+
  define ct where "ct i = (SOME b. seal_in_place P (sc_send ?c) (nonce_for (word_of_nat i))
     (aad_for (word_of_nat i)) (pts ! i) = Inr b)" for i
  have ct: "seal_in_place P (sc_send ?c) (nonce_for (word_of_nat i)) (aad_for (word_of_nat i)) (pts ! i) = Inr (ct i)"
    if "i < length pts" for i
    unfolding ct_def by (rule someI_ex) (use that assms seal_succeeds in auto)
  define pkts where "pkts = map (\<lambda>i. (word_of_nat i :: u64, ct i)) [0..<length pts]"
  have len: "length (seal_list P c aad_for pts) = length pts" for c
    by (induction pts arbitrary: c) (auto split: prod.splits)
  have nth: "seal_list P ?c aad_for pts ! i = Inr (word_of_nat i, ct i)" if "i < length pts" for i
    using seal_list_nth[OF that new(1)] ct[OF that] assms(3) by simp
  have sealed: "seal_list P ?c aad_for pts = map Inr pkts"
    by (rule nth_equalityI) (simp_all add: len nth pkts_def)
  have op: "open_in_place P (sc_recv ?d) (nonce_for (word_of_nat i)) (aad_for (word_of_nat i)) (ct i) = Inr (pts ! i)"
    if "i < length pts" for i
    using open_seal(1)[OF assms(1) ct[OF that]] by (simp add: peer_keys)
  have eq: "map (\<lambda>i. (fst (pkts ! i), aad_for (fst (pkts ! i)), snd (pkts ! i))) is =
      map (\<lambda>i. (word_of_nat i, aad_for (word_of_nat i), ct i)) is"
    using assms(5) by (auto simp: pkts_def)
  have run: "open_run P ?d (map (\<lambda>i. (word_of_nat i, aad_for (word_of_nat i), ct i)) is) =
      map (\<lambda>i. (word_of_nat i, pts ! i)) (first_seen {} is)"
    by (rule open_run_first_seen[where m = "length pts"])
      (use assms op new in \<open>simp_all add: window_new_def window_wf_def\<close>)
  show ?thesis by (rule exI[of _ pkts]) (simp only: sealed eq run)
qed

theorem any_order_delivery_witness:
  "\<exists>pkts. seal_list toy (cipher_new \<lparr>k_i2r = [1], k_r2i = [2], rekey_secret = [3], sk_epoch = 0\<rparr>
       Initiator Aes256Gcm) to_be_bytes [[65], [66]] = map Inr pkts \<and>
     open_run toy (cipher_new \<lparr>k_i2r = [1], k_r2i = [2], rekey_secret = [3], sk_epoch = 0\<rparr>
       Responder Aes256Gcm)
       (map (\<lambda>i. (fst (pkts ! i), to_be_bytes (fst (pkts ! i)), snd (pkts ! i))) [1, 0, 1]) =
     [(1, [66]), (0, [65])]"
  using any_order_delivery[OF toy_aead, of "[[65], [66]]" "[1, 0, 1]" _ Initiator Aes256Gcm to_be_bytes]
  by simp

end
