(* ===== verification/Tunnel_Wire.thy ===== *)
theory Tunnel_Wire
  imports Session_Cipher
begin

text \<open>
  \<open>avon-tunnel/src/header.rs\<close>, \<open>inner.rs\<close>, \<open>timers.rs\<close> and the error type of \<open>lib.rs\<close>: the clear
  16-byte packet header and the typed plaintext inside a data packet.
\<close>

unbundle bit_operations_syntax

datatype tunnel_error =
    Short
  | BadType byte
  | BadInner byte
  | Trailing nat
  | Crypto crypto_error
  | UnknownIndex u32
  | TunnelReplay
  | Closed
  | Protocol string
  | Io string
  | Frame string

section \<open>Header\<close>

definition HEADER_LEN :: nat where "HEADER_LEN = 16"
definition TYPE_DATA :: byte where "TYPE_DATA = 1"
definition FLAG_EPOCH_OVERLAP :: byte where "FLAG_EPOCH_OVERLAP = 1"

record header =
  h_kind :: byte
  h_flags :: byte
  h_receiver_index :: u32
  h_counter :: u64

definition header_encode :: "header \<Rightarrow> bytes" where
  "header_encode h = [h_kind h, h_flags h, 0, 0] @ to_be_bytes (h_receiver_index h) @ to_be_bytes (h_counter h)"

definition header_decode :: "bytes \<Rightarrow> tunnel_error + header \<times> bytes" where
  "header_decode bs =
     (if length bs < HEADER_LEN then Inl Short
      else if bs ! 0 \<noteq> TYPE_DATA then Inl (BadType (bs ! 0))
      else if bs ! 2 \<noteq> 0 \<or> bs ! 3 \<noteq> 0 \<or> (bs ! 1) AND NOT FLAG_EPOCH_OVERLAP \<noteq> 0
        then Inl (Protocol ''reserved bits set'')
      else Inr (\<lparr>h_kind = bs ! 0, h_flags = bs ! 1,
                 h_receiver_index = from_be_bytes (slice bs 4 8),
                 h_counter = from_be_bytes (slice bs 8 16)\<rparr>, drop HEADER_LEN bs))"

definition max_udp_payload :: "u16 \<Rightarrow> nat" where
  "max_udp_payload overlay_mtu = HEADER_LEN + 1 + unat overlay_mtu + TAG_LEN"

definition header_ok :: "header \<Rightarrow> bool" where
  "header_ok h = (h_kind h = TYPE_DATA \<and> h_flags h \<in> {0, FLAG_EPOCH_OVERLAP})"

lemma flag_bits: "(f :: byte) AND NOT 1 = 0 \<longleftrightarrow> f \<in> {0, 1}"
proof
  assume "f AND NOT 1 = 0"
  moreover have "f = (f AND 1) OR (f AND NOT 1)"
    by (simp flip: bit.conj_disj_distrib)
  ultimately have "f = f mod 2" by (simp add: and_one_eq mod_2_eq_odd)
  moreover have "f mod 2 = 0 \<or> f mod 2 = 1" by (simp add: mod_2_eq_odd)
  ultimately show "f \<in> {0, 1}" by force
qed auto

lemma length_header_encode [simp]: "length (header_encode h) = 16"
  by (simp add: header_encode_def)

lemma header_split:
  assumes "16 \<le> length bs"
  shows "[bs ! 0, bs ! 1, bs ! 2, bs ! 3] @ slice bs 4 8 @ slice bs 8 16 @ drop 16 bs = bs"
proof -
  have "take 4 bs = [bs ! 0, bs ! 1, bs ! 2, bs ! 3]"
    using assms by (intro nth_equalityI) (auto simp: nth_Cons less_Suc_eq numeral_eq_Suc)
  moreover have "drop 4 bs = slice bs 4 8 @ drop 8 bs" "drop 8 bs = slice bs 8 16 @ drop 16 bs"
    using append_take_drop_id[of 4 "drop 4 bs"] append_take_drop_id[of 8 "drop 8 bs"]
    by (simp_all add: slice_def del: append_take_drop_id)
  moreover have "bs = take 4 bs @ drop 4 bs" by simp
  ultimately show ?thesis by metis
qed

interpretation hdr: prefix_codec header_encode header_decode header_ok
proof
  show "header_ok x \<Longrightarrow> header_decode (header_encode x @ rest) = Inr (x, rest)" for x rest
    by (simp add: header_ok_def header_decode_def header_encode_def HEADER_LEN_def TYPE_DATA_def
        FLAG_EPOCH_OVERLAP_def slice_def) auto
  show "header_decode bs = Inr (x, rest) \<Longrightarrow> header_ok x \<and> bs = header_encode x @ rest" for bs x rest
    using header_split[of bs] flag_bits[of "bs ! 1", simplified]
    by (auto simp: header_ok_def header_decode_def header_encode_def HEADER_LEN_def TYPE_DATA_def
        FLAG_EPOCH_OVERLAP_def be_bytes_round split: if_splits)
qed

section \<open>Inner payload\<close>

datatype inner = Ip bytes | Control bytes | Keepalive

definition inner_IP :: byte where "inner_IP = 0"
definition inner_CONTROL :: byte where "inner_CONTROL = 1"
definition inner_KEEPALIVE :: byte where "inner_KEEPALIVE = 2"

fun inner_encode :: "inner \<Rightarrow> bytes" where
  "inner_encode (Ip p) = inner_IP # p"
| "inner_encode (Control f) = inner_CONTROL # f"
| "inner_encode Keepalive = [inner_KEEPALIVE]"

fun inner_decode :: "bytes \<Rightarrow> tunnel_error + inner" where
  "inner_decode [] = Inl Short"
| "inner_decode (t # rest) =
    (if t = inner_IP then Inr (Ip rest)
     else if t = inner_CONTROL then Inr (Control rest)
     else if t = inner_KEEPALIVE then (if rest = [] then Inr Keepalive else Inl (Trailing (length rest)))
     else Inl (BadInner t))"

lemmas inner_types = inner_IP_def inner_CONTROL_def inner_KEEPALIVE_def

interpretation inn: byte_codec inner_encode inner_decode "\<lambda>_. True"
proof
  show "True \<Longrightarrow> inner_decode (inner_encode x) = Inr x" for x
    by (cases x) (simp_all add: inner_types)
  show "inner_decode bs = Inr x \<Longrightarrow> True \<and> inner_encode x = bs" for bs x
    by (cases bs) (auto simp: inner_types split: if_splits)
qed

section \<open>Timers\<close>

record timer_config =
  tc_keepalive :: nat
  tc_rekey_after :: nat
  tc_rekey_after_packets :: u64
  tc_epoch_overlap :: nat
  tc_idle_timeout :: nat

text \<open>Durations in milliseconds.\<close>

definition timer_default :: timer_config where
  "timer_default = \<lparr>tc_keepalive = 25 * 1000, tc_rekey_after = 120 * 1000,
     tc_rekey_after_packets = push_bit 32 1, tc_epoch_overlap = 30 * 1000, tc_idle_timeout = 180 * 1000\<rparr>"

section \<open>Properties\<close>

text \<open>The packet header: decoding an encoded header followed by any body gives the header and
  the body back, and everything the decoder accepts is the encoding of what it returns, so the
  bytes authenticated as associated data are the bytes that were on the wire.\<close>

theorem header_round_trip:
  "header_decode bs = Inr (h, body) \<longleftrightarrow> header_ok h \<and> bs = header_encode h @ body"
  by (rule hdr.dec_iff)

text \<open>The inner plaintext: every payload survives encoding, and every plaintext that decodes
  re-encodes to itself.\<close>

theorem inner_round_trip: "inner_decode bs = Inr i \<longleftrightarrow> bs = inner_encode i"
  using inn.from_b_iff by simp

end
