(* ===== verification/Tunnel_Session.thy ===== *)
theory Tunnel_Session
  imports Tunnel_Wire
begin

text \<open>
  \<open>avon-tunnel/src/session.rs\<close>: one tunnel session with its current and previous epoch.  Every
  method that takes the epoch lock is one atomic operation on the session record.  Time is an
  argument: \<open>ck_instant\<close> is the monotonic clock in milliseconds, \<open>ck_ms\<close> the wall clock; the clock
  reads of one call return the same reading.  The stateful operations are gathered in \<open>session_op\<close>,
  and the invariant \<open>session_inv\<close> relates the two windows to everything the session ever delivered.
\<close>

section \<open>State\<close>

datatype socket_addr = SockV4 u32 u16 | SockV6 u128 u16 u32 u32

record clock =
  ck_instant :: nat
  ck_ms :: u64

record session_stats =
  st_bytes_tx :: u64
  st_bytes_rx :: u64
  st_packets_tx :: u64
  st_packets_rx :: u64
  st_replays_dropped :: u64

record epoch =
  ep_local_index :: u32
  ep_remote_index :: u32
  ep_cipher :: session_cipher
  ep_keys :: session_keys
  ep_started :: nat

record epochs =
  es_current :: epoch
  es_previous :: "(epoch \<times> nat) option"

record session =
  se_id :: bytes
  se_role :: role
  se_suite :: suite
  se_peer_cert_id :: bytes
  se_epochs :: epochs
  se_epoch :: u32
  se_peer_endpoint :: "socket_addr option"
  se_last_rx_ms :: u64
  se_last_tx_ms :: u64
  se_closed :: bool
  se_rekey_pending :: bool
  se_stats :: session_stats

definition stats_default :: session_stats where
  "stats_default = \<lparr>st_bytes_tx = 0, st_bytes_rx = 0, st_packets_tx = 0, st_packets_rx = 0,
     st_replays_dropped = 0\<rparr>"

definition session_new ::
  "clock \<Rightarrow> bytes \<Rightarrow> role \<Rightarrow> suite \<Rightarrow> bytes \<Rightarrow> session_keys \<Rightarrow> u32 \<Rightarrow> u32 \<Rightarrow> socket_addr option \<Rightarrow> session" where
  "session_new ck i r s peer keys local remote ep =
     \<lparr>se_id = i, se_role = r, se_suite = s, se_peer_cert_id = peer,
      se_epochs = \<lparr>es_current = \<lparr>ep_local_index = local, ep_remote_index = remote,
                     ep_cipher = cipher_new keys r s, ep_keys = keys, ep_started = ck_instant ck\<rparr>,
                   es_previous = None\<rparr>,
      se_epoch = sk_epoch keys, se_peer_endpoint = ep, se_last_rx_ms = ck_ms ck, se_last_tx_ms = ck_ms ck,
      se_closed = False, se_rekey_pending = False, se_stats = stats_default\<rparr>"

abbreviation "se_current s \<equiv> es_current (se_epochs s)"
abbreviation "se_previous s \<equiv> es_previous (se_epochs s)"

section \<open>Accessors\<close>

definition local_index :: "session \<Rightarrow> u32" where
  "local_index s = ep_local_index (se_current s)"

definition remote_index :: "session \<Rightarrow> u32" where
  "remote_index s = ep_remote_index (se_current s)"

definition epoch_age :: "clock \<Rightarrow> session \<Rightarrow> nat" where
  "epoch_age ck s = ck_instant ck - ep_started (se_current s)"

definition packets_sent_this_epoch :: "session \<Rightarrow> u64" where
  "packets_sent_this_epoch s = packets_sent (ep_cipher (se_current s))"

definition current_rekey_secret :: "session \<Rightarrow> bytes" where
  "current_rekey_secret s = rekey_secret (ep_keys (se_current s))"

definition indexes :: "session \<Rightarrow> u32 list" where
  "indexes s = ep_local_index (se_current s) #
     (case se_previous s of None \<Rightarrow> [] | Some (p, _) \<Rightarrow> [ep_local_index p])"

definition set_peer_endpoint :: "session \<Rightarrow> socket_addr \<Rightarrow> session" where
  "set_peer_endpoint s addr = s\<lparr>se_peer_endpoint := Some addr\<rparr>"

definition session_close :: "session \<Rightarrow> session" where
  "session_close s = s\<lparr>se_closed := True\<rparr>"

definition set_rekey_pending :: "session \<Rightarrow> bool \<Rightarrow> session" where
  "set_rekey_pending s p = s\<lparr>se_rekey_pending := p\<rparr>"

text \<open>Saturating differences of wall-clock milliseconds.\<close>

definition idle_for :: "clock \<Rightarrow> session \<Rightarrow> nat" where
  "idle_for ck s = unat (ck_ms ck) - unat (se_last_rx_ms s)"

definition since_last_tx :: "clock \<Rightarrow> session \<Rightarrow> nat" where
  "since_last_tx ck s = unat (ck_ms ck) - unat (se_last_tx_ms s)"

section \<open>Rekey halves\<close>

definition answer_rekey ::
  "prims \<Rightarrow> bytes \<Rightarrow> bytes \<Rightarrow> session \<Rightarrow> bytes \<Rightarrow> tunnel_error + (bytes \<times> session_keys)" where
  "answer_rekey P rnd_x rnd_m s eph_pk = map_err Crypto
     (bind_res (kem_pk_from_bytes eph_pk) (\<lambda>pk.
      bind_res (encapsulate P rnd_x rnd_m pk) (\<lambda>(ct, ss).
      bind_res (rekey P (ep_keys (se_current s)) ss) (\<lambda>next.
        Inr (kem_ct_to_bytes ct, next)))))"

definition complete_rekey ::
  "prims \<Rightarrow> session \<Rightarrow> kem_keypair \<Rightarrow> bytes \<Rightarrow> tunnel_error + session_keys" where
  "complete_rekey P s eph ct = map_err Crypto
     (bind_res (kem_ct_from_bytes ct) (\<lambda>ct.
      bind_res (decapsulate P eph ct) (\<lambda>ss. rekey P (ep_keys (se_current s)) ss)))"

section \<open>Sealing, opening, rotating\<close>

definition data_header :: "byte \<Rightarrow> u32 \<Rightarrow> u64 \<Rightarrow> header" where
  "data_header flags receiver_index counter =
     \<lparr>h_kind = TYPE_DATA, h_flags = flags, h_receiver_index = receiver_index, h_counter = counter\<rparr>"

definition set_current_cipher :: "session \<Rightarrow> session_cipher \<Rightarrow> session" where
  "set_current_cipher s c =
     s\<lparr>se_epochs := (se_epochs s)\<lparr>es_current := (se_current s)\<lparr>ep_cipher := c\<rparr>\<rparr>\<rparr>"

definition session_seal :: "prims \<Rightarrow> clock \<Rightarrow> session \<Rightarrow> inner \<Rightarrow> (tunnel_error + bytes) \<times> session" where
  "session_seal P ck s inner =
     (if se_closed s then (Inl Closed, s)
      else
        let flags = (if se_previous s \<noteq> None then FLAG_EPOCH_OVERLAP else 0);
            receiver_index = ep_remote_index (se_current s);
            (r, c) = seal_with P (ep_cipher (se_current s))
                       (\<lambda>counter. header_encode (data_header flags receiver_index counter))
                       (inner_encode inner);
            s1 = set_current_cipher s c
        in case r of
             Inl e \<Rightarrow> (Inl (Crypto e), s1)
           | Inr (counter, body) \<Rightarrow>
               let out = header_encode (data_header flags receiver_index counter) @ body
               in (Inr out,
                   s1\<lparr>se_stats := (se_stats s1)\<lparr>
                         st_packets_tx := st_packets_tx (se_stats s1) + 1,
                         st_bytes_tx := st_bytes_tx (se_stats s1) + word_of_nat (length out)\<rparr>,
                      se_last_tx_ms := ck_ms ck\<rparr>))"

text \<open>Which epoch a receiver index selects, with the session after its cipher is replaced.\<close>

definition select_cipher :: "session \<Rightarrow> u32 \<Rightarrow> (session_cipher \<times> (session_cipher \<Rightarrow> session)) option" where
  "select_cipher s idx =
     (if ep_local_index (se_current s) = idx
      then Some (ep_cipher (se_current s), set_current_cipher s)
      else case se_previous s of
        Some (p, since) \<Rightarrow>
          if ep_local_index p = idx
          then Some (ep_cipher p, \<lambda>c. s\<lparr>se_epochs := (se_epochs s)\<lparr>es_previous := Some (p\<lparr>ep_cipher := c\<rparr>, since)\<rparr>\<rparr>)
          else None
      | None \<Rightarrow> None)"

definition session_open ::
  "prims \<Rightarrow> clock \<Rightarrow> session \<Rightarrow> header \<Rightarrow> bytes \<Rightarrow> (tunnel_error + inner) \<times> session" where
  "session_open P ck s h body =
     (if se_closed s then (Inl Closed, s)
      else case select_cipher s (h_receiver_index h) of
        None \<Rightarrow> (Inl (UnknownIndex (h_receiver_index h)), s)
      | Some (c, put) \<Rightarrow>
          (case cipher_open P c (h_counter h) (header_encode h) body of
             (Inr scratch, c') \<Rightarrow>
               let s1 = put c' in
               (inner_decode scratch,
                s1\<lparr>se_stats := (se_stats s1)\<lparr>
                      st_packets_rx := st_packets_rx (se_stats s1) + 1,
                      st_bytes_rx := st_bytes_rx (se_stats s1) + word_of_nat (length body)\<rparr>,
                   se_last_rx_ms := ck_ms ck\<rparr>)
           | (Inl (Replay _), c') \<Rightarrow>
               let s1 = put c' in
               (Inl TunnelReplay,
                s1\<lparr>se_stats := (se_stats s1)\<lparr>
                      st_replays_dropped := st_replays_dropped (se_stats s1) + 1\<rparr>\<rparr>)
           | (Inl e, c') \<Rightarrow> (Inl (Crypto e), put c')))"

definition rotate :: "clock \<Rightarrow> session \<Rightarrow> session_keys \<Rightarrow> u32 \<Rightarrow> u32 \<Rightarrow> session" where
  "rotate ck s new_keys new_local_index new_remote_index =
     s\<lparr>se_epochs :=
         \<lparr>es_current = \<lparr>ep_local_index = new_local_index, ep_remote_index = new_remote_index,
            ep_cipher = cipher_new new_keys (se_role s) (se_suite s), ep_keys = new_keys,
            ep_started = ck_instant ck\<rparr>,
          es_previous = Some (se_current s, ck_instant ck)\<rparr>,
       se_epoch := se_epoch s + 1, se_rekey_pending := False\<rparr>"

definition expire_previous_epoch :: "clock \<Rightarrow> session \<Rightarrow> nat \<Rightarrow> u32 option \<times> session" where
  "expire_previous_epoch ck s overlap =
     (case se_previous s of
        Some (p, since) \<Rightarrow>
          if ck_instant ck - since \<ge> overlap
          then (Some (ep_local_index p), s\<lparr>se_epochs := (se_epochs s)\<lparr>es_previous := None\<rparr>\<rparr>)
          else (None, s)
      | None \<Rightarrow> (None, s))"

section \<open>At most once, across epochs\<close>

datatype session_op =
    OpSeal clock inner
  | OpOpen clock header bytes
  | OpRotate clock session_keys u32 u32
  | OpExpire clock nat
  | OpEndpoint socket_addr
  | OpPending bool
  | OpClose

definition session_step :: "prims \<Rightarrow> session \<Rightarrow> session_op \<Rightarrow> session" where
  "session_step P s op = (case op of
      OpSeal ck i \<Rightarrow> snd (session_seal P ck s i)
    | OpOpen ck h body \<Rightarrow> snd (session_open P ck s h body)
    | OpRotate ck keys li ri \<Rightarrow> rotate ck s keys li ri
    | OpExpire ck overlap \<Rightarrow> snd (expire_previous_epoch ck s overlap)
    | OpEndpoint a \<Rightarrow> set_peer_endpoint s a
    | OpPending b \<Rightarrow> set_rekey_pending s b
    | OpClose \<Rightarrow> session_close s)"

text \<open>Epochs are numbered by the rotations before them: generation \<open>g\<close> is current, \<open>g - 1\<close> previous.\<close>

definition opened_by :: "session \<Rightarrow> nat \<Rightarrow> header \<Rightarrow> nat" where
  "opened_by s g h = (if ep_local_index (se_current s) = h_receiver_index h then g else g - 1)"

fun deliveries :: "prims \<Rightarrow> nat \<Rightarrow> session \<Rightarrow> session_op list \<Rightarrow> (nat \<times> u64) list" where
  "deliveries P g s [] = []"
| "deliveries P g s (op # ops) =
    (case op of
       OpOpen ck h body \<Rightarrow>
         if is_ok (fst (session_open P ck s h body))
         then (opened_by s g h, h_counter h) # deliveries P g (session_step P s op) ops
         else deliveries P g (session_step P s op) ops
     | OpRotate ck keys li ri \<Rightarrow> deliveries P (Suc g) (session_step P s op) ops
     | _ \<Rightarrow> deliveries P g (session_step P s op) ops)"

definition epoch_log :: "nat \<Rightarrow> (nat \<times> u64) set \<Rightarrow> session_cipher \<Rightarrow> bool" where
  "epoch_log g L c = (window_wf (sc_window c) \<and> (\<forall>n. (g, n) \<in> L \<longrightarrow> window_burned (sc_window c) n))"

definition session_inv :: "nat \<Rightarrow> (nat \<times> u64) set \<Rightarrow> session \<Rightarrow> bool" where
  "session_inv g L s =
     ((\<forall>(k, n) \<in> L. k \<le> g) \<and> epoch_log g L (ep_cipher (se_current s)) \<and>
      (case se_previous s of None \<Rightarrow> True | Some (p, _) \<Rightarrow> 0 < g \<and> epoch_log (g - 1) L (ep_cipher p)))"

lemma window_burned_new [simp]: "\<not> window_burned window_new n"
  by (simp add: window_burned_def window_new_def)

lemma cipher_new_window [simp]: "sc_window (cipher_new ks r s) = window_new"
  by (cases r) (simp_all add: cipher_new_def)

lemma epoch_log_new: "(\<forall>(k, n) \<in> L. k < g) \<Longrightarrow> epoch_log g L (cipher_new ks r s)"
  by (auto simp: epoch_log_def)

lemma epoch_log_window: "sc_window c' = sc_window c \<Longrightarrow> epoch_log g L c' = epoch_log g L c"
  by (simp add: epoch_log_def)

lemma epoch_log_open:
  assumes log: "epoch_log g L c" and op: "cipher_open P c n aad buf = (r, c')"
  shows "epoch_log g L c'"
    and "is_ok r \<Longrightarrow> (g, n) \<notin> L" and "is_ok r \<Longrightarrow> epoch_log g (insert (g, n) L) c'"
proof -
  let ?w = "sc_window c" and ?w' = "sc_window c'"
  have wf: "window_wf ?w" using log by (simp add: epoch_log_def)
  have wf': "window_wf ?w'" using cipher_open_wf[OF wf, of P n aad buf] op by simp
  have w': "?w' = ?w \<or> ?w' = snd (check_and_update ?w n)"
    using op by (auto simp: cipher_open_def split: if_splits sum.splits prod.splits)
  have mono: "window_burned ?w d \<Longrightarrow> window_burned ?w' d" for d
    using w' rw.burned_stays[OF wf] by auto
  show log': "epoch_log g L c'" using log wf' mono by (auto simp: epoch_log_def)
  assume "is_ok r"
  then have chk: "check_and_update ?w n = (Inr (), ?w')"
    using op cipher_open_ok by (auto simp: is_ok_iff)
  then show "(g, n) \<notin> L"
    using rw.accept_iff[OF wf, of n] log by (auto simp: epoch_log_def)
  have "window_burned ?w' n" using rw.accept_burns[OF wf, of n] chk by simp
  then show "epoch_log g (insert (g, n) L) c'" using log' by (auto simp: epoch_log_def)
qed

lemma epoch_log_other: "k \<noteq> g \<Longrightarrow> epoch_log g (insert (k, n) L) c = epoch_log g L c"
  by (auto simp: epoch_log_def)

lemma session_inv_rotate:
  "session_inv g L s \<Longrightarrow> session_inv (Suc g) L (rotate ck s keys li ri)"
  by (auto simp: session_inv_def rotate_def intro!: epoch_log_new)

lemma seal_window:
  "sc_window (snd (seal_with P c f pt)) = sc_window c"
  by (auto simp: seal_with_def split: prod.splits sum.splits)

lemma session_seal_epochs:
  "\<exists>c. sc_window c = sc_window (ep_cipher (se_current s)) \<and>
     se_epochs (snd (session_seal P ck s i)) =
       (se_epochs s)\<lparr>es_current := (se_current s)\<lparr>ep_cipher := c\<rparr>\<rparr>"
proof (cases "se_closed s")
  case True
  then show ?thesis by (intro exI[of _ "ep_cipher (se_current s)"]) (simp add: session_seal_def)
next
  case False
  let ?f = "if se_previous s \<noteq> None then FLAG_EPOCH_OVERLAP else 0"
  obtain r c where rc: "seal_with P (ep_cipher (se_current s))
      (\<lambda>n. header_encode (data_header ?f (ep_remote_index (se_current s)) n)) (inner_encode i) = (r, c)"
    by fastforce
  then have "sc_window c = sc_window (ep_cipher (se_current s))"
    using seal_window by (metis snd_conv)
  moreover have "se_epochs (snd (session_seal P ck s i)) =
      (se_epochs s)\<lparr>es_current := (se_current s)\<lparr>ep_cipher := c\<rparr>\<rparr>"
    using False rc by (cases r) (auto simp: session_seal_def Let_def set_current_cipher_def)
  ultimately show ?thesis by blast
qed

lemma session_inv_seal:
  assumes "session_inv g L s"
  shows "session_inv g L (snd (session_seal P ck s i))"
proof -
  obtain c where c: "sc_window c = sc_window (ep_cipher (se_current s))"
    "se_epochs (snd (session_seal P ck s i)) = (se_epochs s)\<lparr>es_current := (se_current s)\<lparr>ep_cipher := c\<rparr>\<rparr>"
    using session_seal_epochs by blast
  then show ?thesis using assms epoch_log_window[OF c(1)] by (simp add: session_inv_def)
qed

lemma session_inv_expire: "session_inv g L s \<Longrightarrow> session_inv g L (snd (expire_previous_epoch ck s ov))"
  by (auto simp: expire_previous_epoch_def session_inv_def split: option.splits)

lemma session_open_cases:
  obtains (rejected) "snd (session_open P ck s h body) = s" "\<not> is_ok (fst (session_open P ck s h body))"
  | (current) r c where "\<not> se_closed s" "ep_local_index (se_current s) = h_receiver_index h"
      "cipher_open P (ep_cipher (se_current s)) (h_counter h) (header_encode h) body = (r, c)"
      "se_epochs (snd (session_open P ck s h body)) = (se_epochs s)\<lparr>es_current := (se_current s)\<lparr>ep_cipher := c\<rparr>\<rparr>"
      "fst (session_open P ck s h body) =
         (case r of Inr pt \<Rightarrow> inner_decode pt | Inl (Replay _) \<Rightarrow> Inl TunnelReplay | Inl e \<Rightarrow> Inl (Crypto e))"
  | (previous) p since r c where "\<not> se_closed s" "ep_local_index (se_current s) \<noteq> h_receiver_index h"
      "se_previous s = Some (p, since)" "ep_local_index p = h_receiver_index h"
      "cipher_open P (ep_cipher p) (h_counter h) (header_encode h) body = (r, c)"
      "se_epochs (snd (session_open P ck s h body)) = (se_epochs s)\<lparr>es_previous := Some (p\<lparr>ep_cipher := c\<rparr>, since)\<rparr>"
      "fst (session_open P ck s h body) =
         (case r of Inr pt \<Rightarrow> inner_decode pt | Inl (Replay _) \<Rightarrow> Inl TunnelReplay | Inl e \<Rightarrow> Inl (Crypto e))"
proof (cases "se_closed s \<or> select_cipher s (h_receiver_index h) = None")
  case True
  then show ?thesis by (intro rejected) (auto simp: session_open_def)
next
  case False
  then obtain c0 put where sel: "select_cipher s (h_receiver_index h) = Some (c0, put)" "\<not> se_closed s"
    by auto
  obtain r c where op: "cipher_open P c0 (h_counter h) (header_encode h) body = (r, c)" by fastforce
  have res: "fst (session_open P ck s h body) =
      (case r of Inr pt \<Rightarrow> inner_decode pt | Inl (Replay _) \<Rightarrow> Inl TunnelReplay | Inl e \<Rightarrow> Inl (Crypto e))"
    "se_epochs (snd (session_open P ck s h body)) = se_epochs (put c)"
    using sel op by (auto simp: session_open_def Let_def split: sum.splits crypto_error.splits)
  show ?thesis
  proof (cases "ep_local_index (se_current s) = h_receiver_index h")
    case True
    with sel have "c0 = ep_cipher (se_current s)" "put = set_current_cipher s"
      by (auto simp: select_cipher_def)
    with True op res sel show ?thesis by (intro current[of r c]) (auto simp: set_current_cipher_def)
  next
    case other: False
    with sel obtain p since where "se_previous s = Some (p, since)" "ep_local_index p = h_receiver_index h"
      "c0 = ep_cipher p"
      "put = (\<lambda>c. s\<lparr>se_epochs := (se_epochs s)\<lparr>es_previous := Some (p\<lparr>ep_cipher := c\<rparr>, since)\<rparr>\<rparr>)"
      by (auto simp: select_cipher_def split: option.splits if_splits)
    with other op res sel show ?thesis by (intro previous[of p since r c]) auto
  qed
qed

lemma session_inv_open:
  assumes inv: "session_inv g L s"
  shows "session_inv g L (snd (session_open P ck s h body))"
    and "is_ok (fst (session_open P ck s h body)) \<Longrightarrow> (opened_by s g h, h_counter h) \<notin> L"
    and "is_ok (fst (session_open P ck s h body)) \<Longrightarrow>
      session_inv g (insert (opened_by s g h, h_counter h) L) (snd (session_open P ck s h body))"
proof -
  have "session_inv g L (snd (session_open P ck s h body)) \<and>
    (is_ok (fst (session_open P ck s h body)) \<longrightarrow> (opened_by s g h, h_counter h) \<notin> L \<and>
      session_inv g (insert (opened_by s g h, h_counter h) L) (snd (session_open P ck s h body)))"
  proof (cases rule: session_open_cases[of P ck s h body])
    case rejected
    then show ?thesis using inv by simp
  next
    case (current r c)
    have "epoch_log g L (ep_cipher (se_current s))" using inv by (simp add: session_inv_def)
    note eo = epoch_log_open[OF this current(3)]
    have "is_ok (fst (session_open P ck s h body)) \<Longrightarrow> is_ok r"
      using current(5) by (auto split: sum.splits crypto_error.splits)
    with eo inv current show ?thesis
      by (auto simp: session_inv_def opened_by_def epoch_log_other split: option.splits)
  next
    case (previous p since r c)
    have log: "epoch_log (g - 1) L (ep_cipher p)" "0 < g" using inv previous by (simp_all add: session_inv_def)
    note eo = epoch_log_open[OF log(1) previous(5)]
    have "is_ok (fst (session_open P ck s h body)) \<Longrightarrow> is_ok r"
      using previous(7) by (auto split: sum.splits crypto_error.splits)
    with eo inv previous log(2) show ?thesis
      by (auto simp: session_inv_def opened_by_def epoch_log_other)
  qed
  then show "session_inv g L (snd (session_open P ck s h body))"
    and "is_ok (fst (session_open P ck s h body)) \<Longrightarrow> (opened_by s g h, h_counter h) \<notin> L"
    and "is_ok (fst (session_open P ck s h body)) \<Longrightarrow>
      session_inv g (insert (opened_by s g h, h_counter h) L) (snd (session_open P ck s h body))"
    by auto
qed

lemma session_inv_new: "session_inv g {} (session_new ck i r s peer keys li ri ep)"
  by (simp add: session_inv_def session_new_def epoch_log_def)

lemma session_inv_flags:
  "session_inv g L (set_peer_endpoint s a) = session_inv g L s"
  "session_inv g L (set_rekey_pending s b) = session_inv g L s"
  "session_inv g L (session_close s) = session_inv g L s"
  by (simp_all add: session_inv_def set_peer_endpoint_def set_rekey_pending_def session_close_def)

lemma deliveries_fresh:
  "session_inv g L s \<Longrightarrow> distinct (deliveries P g s ops) \<and> set (deliveries P g s ops) \<inter> L = {}"
proof (induction ops arbitrary: g L s)
  case (Cons op ops)
  show ?case
  proof (cases op)
    case (OpOpen ck h body)
    note inv = session_inv_open[OF Cons.prems, of P ck h body]
    show ?thesis
    proof (cases "is_ok (fst (session_open P ck s h body))")
      case True
      from Cons.IH[OF inv(3)[OF True]] inv(2)[OF True] show ?thesis
        using OpOpen True by (simp add: session_step_def)
    next
      case False
      with Cons.IH[OF inv(1)] OpOpen show ?thesis by (simp add: session_step_def)
    qed
  qed (use Cons.IH[OF session_inv_seal[OF Cons.prems]] Cons.IH[OF session_inv_rotate[OF Cons.prems]]
        Cons.IH[OF session_inv_expire[OF Cons.prems]] Cons.IH[of g L] Cons.prems
      in \<open>simp_all add: session_step_def session_inv_flags\<close>)
qed simp

section \<open>Two ends of a session\<close>

lemma session_seal_ok:
  assumes "\<not> se_closed s" and "session_seal P ck s i = (Inr out, s')"
  shows "\<exists>h body. out = header_encode h @ body \<and> header_ok h \<and>
     h_receiver_index h = ep_remote_index (se_current s) \<and> h_counter h = sc_counter (ep_cipher (se_current s)) \<and>
     seal_in_place P (sc_send (ep_cipher (se_current s))) (nonce_for (h_counter h)) (header_encode h)
       (inner_encode i) = Inr body"
proof -
  let ?f = "if se_previous s \<noteq> None then FLAG_EPOCH_OVERLAP else 0"
  let ?hdr = "\<lambda>n. data_header ?f (ep_remote_index (se_current s)) n"
  obtain r c where rc: "seal_with P (ep_cipher (se_current s)) (\<lambda>n. header_encode (?hdr n)) (inner_encode i) = (r, c)"
    by fastforce
  with assms obtain n body where r: "r = Inr (n, body)" and out: "out = header_encode (?hdr n) @ body"
    by (auto simp: session_seal_def Let_def split: sum.splits)
  have n: "n = sc_counter (ep_cipher (se_current s))"
    using seal_with_counter[OF rc] r by auto
  have body: "seal_in_place P (sc_send (ep_cipher (se_current s))) (nonce_for n) (header_encode (?hdr n))
      (inner_encode i) = Inr body"
    using rc r by (auto simp: seal_with_def next_counter_def res_simps split: if_splits)
  show ?thesis
    by (rule exI[of _ "?hdr n"], rule exI[of _ body])
      (use out n body in \<open>auto simp: data_header_def header_ok_def\<close>)
qed

lemma session_open_seal:
  assumes "aead_correct P" and "\<not> se_closed t"
    and sel: "select_cipher t (h_receiver_index h) = Some (c, put)"
    and wf: "window_wf (sc_window c)" and fresh: "\<not> window_burned (sc_window c) (h_counter h)"
    and sealed: "seal_in_place P (sc_recv c) (nonce_for (h_counter h)) (header_encode h) (inner_encode i) = Inr body"
  shows "fst (session_open P ck t h body) = Inr i"
proof -
  have op: "open_in_place P (sc_recv c) (nonce_for (h_counter h)) (header_encode h) body = Inr (inner_encode i)"
    by (rule open_seal(1)[OF assms(1) sealed])
  have "\<not> too_old (sc_window c) (h_counter h)"
    using fresh by (auto simp: too_old_def window_burned_def split: option.splits)
  moreover obtain w where "check_and_update (sc_window c) (h_counter h) = (Inr (), w)"
    using rw.accept_iff[OF wf] fresh by (metis is_ok_iff old.unit.exhaust prod.collapse)
  ultimately have "cipher_open P c (h_counter h) (header_encode h) body = (Inr (inner_encode i), c\<lparr>sc_window := w\<rparr>)"
    using op by (simp add: cipher_open_def)
  then show ?thesis using assms(2) sel inn.from_to[of i] by (simp add: session_open_def Let_def)
qed

lemma session_seal_succeeds:
  assumes "aead_seals P" and "\<not> se_closed s" and "length (inner_encode i) \<le> 65536"
    and "sc_counter (ep_cipher (se_current s)) < LIMIT"
  shows "\<exists>out s'. session_seal P ck s i = (Inr out, s')"
proof -
  let ?f = "if se_previous s \<noteq> None then FLAG_EPOCH_OVERLAP else 0"
  let ?hdr = "\<lambda>n. header_encode (data_header ?f (ep_remote_index (se_current s)) n)"
  let ?c = "ep_cipher (se_current s)"
  obtain body where "seal_in_place P (sc_send ?c) (nonce_for (sc_counter ?c)) (?hdr (sc_counter ?c))
      (inner_encode i) = Inr body"
    using seal_succeeds[OF assms(1,3)] by blast
  then have "\<exists>c. seal_with P ?c ?hdr (inner_encode i) = (Inr (sc_counter ?c, body), c)"
    using assms(4) by (simp add: seal_with_def next_counter_def)
  then show ?thesis using assms(2) by (auto simp: session_seal_def Let_def)
qed

lemma rekey_agree:
  assumes "x25519_commutes P" and "mlkem_correct P"
    and "answer_rekey P r1 r2 s (kem_pk_to_bytes (kem_public (kem_generate P rx rm))) = Inr (ct, keys)"
    and "ep_keys (se_current t) = ep_keys (se_current s)"
  shows "complete_rekey P t (kem_generate P rx rm) ct = Inr keys"
proof -
  let ?pk = "kem_public (kem_generate P rx rm)"
  have "kem_pk_from_bytes (kem_pk_to_bytes ?pk) = Inr ?pk"
    by (rule kem_pk.from_to[OF generated_kem_pk_wf[OF assms(1,2)]])
  with assms(3) obtain c ss where enc: "encapsulate P r1 r2 ?pk = Inr (c, ss)"
    and ct: "ct = kem_ct_to_bytes c" and keys: "rekey P (ep_keys (se_current s)) ss = Inr keys"
    by (auto simp: answer_rekey_def res_simps)
  note agree = kem_agree[OF assms(1,2) refl enc]
  show ?thesis
    using kem_ct.from_to[OF agree(2)] agree(1) ct keys assms(4) by (simp add: complete_rekey_def)
qed

section \<open>Properties\<close>

text \<open>C7. Over any interleaving of sending, receiving, rekeying, epoch expiry, roaming and closing,
  a session never delivers the same counter of the same epoch twice, even while two epochs are
  open at once.\<close>

theorem session_delivers_once:
  "distinct (deliveries P 0 (session_new ck i r s peer keys li ri ep) ops)"
  using deliveries_fresh[OF session_inv_new] by blast


definition demo_keys :: session_keys where
  "demo_keys = \<lparr>k_i2r = [1], k_r2i = [2], rekey_secret = [3], sk_epoch = 0\<rparr>"

definition demo_clock :: "nat \<Rightarrow> clock" where
  "demo_clock n = \<lparr>ck_instant = n, ck_ms = word_of_nat n\<rparr>"


text \<open>Both halves of a rekey derive the same next keys, one epoch on, from the answer that
  travels between them.\<close>

theorem rekey_halves_agree:
  assumes "x25519_commutes P" and "mlkem_correct P"
    and "answer_rekey P r1 r2 s (kem_pk_to_bytes (kem_public (kem_generate P rx rm))) = Inr (ct, keys)"
    and "ep_keys (se_current t) = ep_keys (se_current s)"
  shows "complete_rekey P t (kem_generate P rx rm) ct = Inr keys \<and>
    sk_epoch keys = sk_epoch (ep_keys (se_current s)) + 1"
proof
  show "complete_rekey P t (kem_generate P rx rm) ct = Inr keys" by (rule rekey_agree[OF assms])
  show "sk_epoch keys = sk_epoch (ep_keys (se_current s)) + 1"
    using assms(3) by (auto simp: answer_rekey_def rekey_def from_prk_def res_simps)
qed

lemma demo_answer:
  "\<exists>ct keys. answer_rekey toy [1] [] (session_new (demo_clock 0) [7] Responder Aes256Gcm [] demo_keys 6 5 None)
     (kem_pk_to_bytes (kem_public (kem_generate toy [1] []))) = Inr (ct, keys)"
proof -
  let ?pk = "kem_public (kem_generate toy [1] [])"
  obtain ct ss where enc: "encapsulate toy [1] [] ?pk = Inr (ct, ss)"
    using toy_encapsulates by blast
  obtain keys where "rekey toy demo_keys ss = Inr keys"
    using from_prk_ok[OF toy_sizes(2)] unfolding rekey_def by blast
  with enc kem_pk.from_to[OF generated_kem_pk_wf[OF toy_x25519 toy_mlkem]] show ?thesis
    by (auto simp: answer_rekey_def session_new_def)
qed

theorem rekey_halves_agree_witness:
  "\<exists>ct keys. answer_rekey toy [1] [] (session_new (demo_clock 0) [7] Responder Aes256Gcm [] demo_keys 6 5 None)
       (kem_pk_to_bytes (kem_public (kem_generate toy [1] []))) = Inr (ct, keys) \<and>
     complete_rekey toy (session_new (demo_clock 0) [7] Initiator Aes256Gcm [] demo_keys 5 6 None)
       (kem_generate toy [1] []) ct = Inr keys \<and> sk_epoch keys = 1"
proof -
  let ?s = "session_new (demo_clock 0) [7] Responder Aes256Gcm [] demo_keys 6 5 None"
  let ?t = "session_new (demo_clock 0) [7] Initiator Aes256Gcm [] demo_keys 5 6 None"
  obtain ct keys where a: "answer_rekey toy [1] [] ?s (kem_pk_to_bytes (kem_public (kem_generate toy [1] []))) = Inr (ct, keys)"
    using demo_answer by blast
  have "ep_keys (se_current ?t) = ep_keys (se_current ?s)" by (simp add: session_new_def)
  from rekey_halves_agree[OF toy_x25519 toy_mlkem a this] a show ?thesis
    by (auto simp: session_new_def demo_keys_def)
qed

end
