(* ===== verification/Session_Table.thy ===== *)
theory Session_Table
  imports Tunnel_Session
begin

text \<open>
  \<open>avon-tunnel/src/table.rs\<close> and \<open>endpoint.rs\<close>: the table of sessions by receiver index and by id,
  and the endpoint's receive and timer loops.  Sessions are shared (\<open>Arc<Session>\<close>), so the table
  holds references into a store.  One datagram, and one timer tick, is one step; the protobuf
  decoder of control frames is a parameter, and datagrams to send are returned.
\<close>

section \<open>The table\<close>

type_synonym sref = nat

record table =
  tb_store :: "sref \<Rightarrow> session option"
  tb_by_index :: "u32 \<Rightarrow> sref option"
  tb_by_id :: "bytes \<Rightarrow> sref option"

definition table_new :: table where
  "table_new = \<lparr>tb_store = Map.empty, tb_by_index = Map.empty, tb_by_id = Map.empty\<rparr>"

text \<open>The random draws of the loop, in order; each may fail.  \<open>None\<close>: the draws ran out.\<close>

fun allocate_index :: "table \<Rightarrow> (crypto_error + bytes) list \<Rightarrow> (tunnel_error + u32) option" where
  "allocate_index t [] = None"
| "allocate_index t (draw # draws) =
    (case draw of
       Inl e \<Rightarrow> Some (Inl (Crypto e))
     | Inr b \<Rightarrow>
        (let idx = from_be_bytes b :: u32
         in if idx \<noteq> 0 \<and> tb_by_index t idx = None then Some (Inr idx) else allocate_index t draws))"

definition table_insert :: "table \<Rightarrow> sref \<Rightarrow> session \<Rightarrow> table" where
  "table_insert t r s =
     t\<lparr>tb_store := (tb_store t)(r \<mapsto> s),
       tb_by_index := fold (\<lambda>idx m. m(idx \<mapsto> r)) (indexes s) (tb_by_index t),
       tb_by_id := (tb_by_id t)(se_id s \<mapsto> r)\<rparr>"

definition rebind_index :: "table \<Rightarrow> sref \<Rightarrow> u32 \<Rightarrow> table" where
  "rebind_index t r new_idx = t\<lparr>tb_by_index := (tb_by_index t)(new_idx \<mapsto> r)\<rparr>"

definition release_index :: "table \<Rightarrow> u32 \<Rightarrow> table" where
  "release_index t idx = t\<lparr>tb_by_index := (tb_by_index t)(idx := None)\<rparr>"

definition by_index :: "table \<Rightarrow> u32 \<Rightarrow> sref option" where
  "by_index t idx = tb_by_index t idx"

definition by_id :: "table \<Rightarrow> bytes \<Rightarrow> sref option" where
  "by_id t i = tb_by_id t i"

text \<open>Updating a session in place, through any of the references to it.\<close>

definition put_session :: "table \<Rightarrow> sref \<Rightarrow> session \<Rightarrow> table" where
  "put_session t r s = t\<lparr>tb_store := (tb_store t)(r \<mapsto> s)\<rparr>"

definition table_remove :: "table \<Rightarrow> bytes \<Rightarrow> sref option \<times> table" where
  "table_remove t i =
     (case tb_by_id t i of
        None \<Rightarrow> (None, t)
      | Some r \<Rightarrow>
         (case tb_store t r of
            None \<Rightarrow> (None, t)
          | Some s \<Rightarrow>
              (Some r,
               t\<lparr>tb_by_id := (tb_by_id t)(i := None),
                 tb_by_index := fold (\<lambda>idx m. m(idx := None)) (indexes s) (tb_by_index t),
                 tb_store := (tb_store t)(r \<mapsto> session_close s)\<rparr>)))"

section \<open>The endpoint\<close>

datatype 'f endpoint_event =
    EvControl sref 'f
  | EvIp sref bytes
  | EvRekeyDue sref
  | EvIdle sref
  | EvPeerEndpointChanged sref socket_addr

definition send_inner_to ::
  "prims \<Rightarrow> clock \<Rightarrow> session \<Rightarrow> socket_addr \<Rightarrow> inner \<Rightarrow> (tunnel_error + socket_addr \<times> bytes) \<times> session" where
  "send_inner_to P ck s peer inner =
     (case session_seal P ck s inner of
        (Inl e, s') \<Rightarrow> (Inl e, s')
      | (Inr dgram, s') \<Rightarrow> (Inr (peer, dgram), s'))"

definition send_inner ::
  "prims \<Rightarrow> clock \<Rightarrow> session \<Rightarrow> inner \<Rightarrow> (tunnel_error + socket_addr \<times> bytes) \<times> session" where
  "send_inner P ck s inner =
     (case se_peer_endpoint s of
        None \<Rightarrow> (Inl (Protocol ''peer endpoint unknown''), s)
      | Some peer \<Rightarrow> send_inner_to P ck s peer inner)"

text \<open>One iteration of \<open>recv_loop\<close>: the datagram \<open>dgram\<close> arrived from \<open>from\<close>.\<close>

definition recv_datagram ::
  "prims \<Rightarrow> (bytes \<Rightarrow> 'f option) \<Rightarrow> clock \<Rightarrow> table \<Rightarrow> socket_addr \<Rightarrow> bytes \<Rightarrow> table \<times> 'f endpoint_event list" where
  "recv_datagram P decode_frame ck t from dgram =
     (case header_decode dgram of
        Inl _ \<Rightarrow> (t, [])
      | Inr (h, body) \<Rightarrow>
         (case by_index t (h_receiver_index h) of
            None \<Rightarrow> (t, [])
          | Some r \<Rightarrow>
             (case tb_store t r of
                None \<Rightarrow> (t, [])
              | Some s \<Rightarrow>
                 (case session_open P ck s h body of
                    (Inl _, s1) \<Rightarrow> (put_session t r s1, [])
                  | (Inr inner, s1) \<Rightarrow>
                      let moved = se_peer_endpoint s1 \<noteq> Some from;
                          s2 = (if moved then set_peer_endpoint s1 from else s1);
                          ev1 = (if moved then [EvPeerEndpointChanged r from] else []);
                          ev2 = (case inner of
                                   Ip p \<Rightarrow> [EvIp r p]
                                 | Control f \<Rightarrow> (case decode_frame f of Some fr \<Rightarrow> [EvControl r fr] | None \<Rightarrow> [])
                                 | Keepalive \<Rightarrow> [])
                      in (put_session t r s2, ev1 @ ev2)))))"

text \<open>The body of \<open>timer_loop\<close> for one session.\<close>

definition timer_session ::
  "prims \<Rightarrow> clock \<Rightarrow> timer_config \<Rightarrow> table \<Rightarrow> sref \<Rightarrow>
     table \<times> 'f endpoint_event list \<times> (socket_addr \<times> bytes) list" where
  "timer_session P ck tc t r =
     (case tb_store t r of
        None \<Rightarrow> (t, [], [])
      | Some s \<Rightarrow>
         if se_closed s then (t, [], [])
         else
           let (expired, s1) = expire_previous_epoch ck s (tc_epoch_overlap tc);
               t1 = put_session t r s1;
               t2 = (case expired of Some idx \<Rightarrow> release_index t1 idx | None \<Rightarrow> t1)
           in if idle_for ck s1 \<ge> tc_idle_timeout tc then (t2, [EvIdle r], [])
              else
                let due = se_role s1 = Initiator \<and> \<not> se_rekey_pending s1 \<and>
                      (epoch_age ck s1 \<ge> tc_rekey_after tc \<or>
                       packets_sent_this_epoch s1 \<ge> tc_rekey_after_packets tc);
                    s2 = (if due then set_rekey_pending s1 True else s1);
                    ev = (if due then [EvRekeyDue r] else [])
                in if se_peer_endpoint s2 \<noteq> None \<and> since_last_tx ck s2 \<ge> tc_keepalive tc
                   then (case send_inner P ck s2 Keepalive of
                           (Inl _, s3) \<Rightarrow> (put_session t2 r s3, ev, [])
                         | (Inr out, s3) \<Rightarrow> (put_session t2 r s3, ev, [out]))
                   else (put_session t2 r s2, ev, []))"

text \<open>One tick visits the sessions \<open>table.iter()\<close> collected, in the order it returned them.\<close>

fun timer_tick ::
  "prims \<Rightarrow> clock \<Rightarrow> timer_config \<Rightarrow> table \<Rightarrow> sref list \<Rightarrow>
     table \<times> 'f endpoint_event list \<times> (socket_addr \<times> bytes) list" where
  "timer_tick P ck tc t [] = (t, [], [])"
| "timer_tick P ck tc t (r # rs) =
    (let (t1, ev1, out1) = timer_session P ck tc t r;
         (t2, ev2, out2) = timer_tick P ck tc t1 rs
     in (t2, ev1 @ ev2, out1 @ out2))"

section \<open>Every live session is addressable\<close>

definition bound :: "table \<Rightarrow> bool" where
  "bound t = (\<forall>i r. tb_by_id t i = Some r \<longrightarrow>
     (\<exists>s. tb_store t r = Some s \<and> se_id s = i \<and> distinct (indexes s) \<and>
        (\<forall>idx \<in> set (indexes s). tb_by_index t idx = Some r)))"

lemma fold_bind: "fold (\<lambda>idx m. m(idx \<mapsto> r)) xs m = (\<lambda>i. if i \<in> set xs then Some r else m i)"
  by (induction xs arbitrary: m) auto

lemma fold_unbind: "fold (\<lambda>idx m. m(idx := None)) xs m = (\<lambda>i. if i \<in> set xs then None else m i)"
  by (induction xs arbitrary: m) auto

lemma boundD:
  assumes "bound t" and "tb_by_id t i = Some r"
  obtains s where "tb_store t r = Some s" "se_id s = i" "distinct (indexes s)"
    "\<And>idx. idx \<in> set (indexes s) \<Longrightarrow> tb_by_index t idx = Some r"
  using assms unfolding bound_def by blast

lemma bound_new [simp]: "bound table_new"
  by (simp add: bound_def table_new_def)

lemma bound_put:
  assumes "bound t" and "tb_store t r = Some s" and "se_id s' = se_id s" and "indexes s' = indexes s"
  shows "bound (put_session t r s')"
  using assms unfolding bound_def put_session_def by fastforce

lemma bound_insert:
  assumes "bound t" and "tb_store t r = None" and "tb_by_id t (se_id s) = None" and "distinct (indexes s)"
    and "\<And>idx. idx \<in> set (indexes s) \<Longrightarrow> tb_by_index t idx = None"
  shows "bound (table_insert t r s)"
  unfolding bound_def
proof (intro allI impI)
  fix i q assume q: "tb_by_id (table_insert t r s) i = Some q"
  show "\<exists>s'. tb_store (table_insert t r s) q = Some s' \<and> se_id s' = i \<and> distinct (indexes s') \<and>
      (\<forall>idx \<in> set (indexes s'). tb_by_index (table_insert t r s) idx = Some q)"
  proof (cases "i = se_id s")
    case True
    then show ?thesis using q assms by (auto simp: table_insert_def fold_bind)
  next
    case False
    then have "tb_by_id t i = Some q" using q by (simp add: table_insert_def)
    from boundD[OF assms(1) this] obtain s' where s': "tb_store t q = Some s'" "se_id s' = i"
      "distinct (indexes s')" "\<And>idx. idx \<in> set (indexes s') \<Longrightarrow> tb_by_index t idx = Some q" by blast
    moreover have "q \<noteq> r" using s'(1) assms(2) by auto
    moreover have "idx \<notin> set (indexes s)" if "idx \<in> set (indexes s')" for idx
      using s'(4)[OF that] assms(5) by force
    ultimately show ?thesis by (auto simp: table_insert_def fold_bind)
  qed
qed

lemma bound_remove:
  assumes "bound t"
  shows "bound (snd (table_remove t i))"
proof (cases "tb_by_id t i")
  case (Some r)
  from boundD[OF assms Some] obtain s where s: "tb_store t r = Some s" "se_id s = i"
    "\<And>idx. idx \<in> set (indexes s) \<Longrightarrow> tb_by_index t idx = Some r" by blast
  let ?t = "snd (table_remove t i)"
  show ?thesis unfolding bound_def
  proof (intro allI impI)
    fix j q assume q: "tb_by_id ?t j = Some q"
    then have j: "j \<noteq> i" "tb_by_id t j = Some q"
      using Some s by (auto simp: table_remove_def split: if_splits)
    from boundD[OF assms j(2)] obtain s' where s': "tb_store t q = Some s'" "se_id s' = j"
      "distinct (indexes s')" "\<And>idx. idx \<in> set (indexes s') \<Longrightarrow> tb_by_index t idx = Some q" by blast
    then have qr: "q \<noteq> r" using s j by auto
    have "idx \<notin> set (indexes s)" if "idx \<in> set (indexes s')" for idx
      using s'(4)[OF that] s(3)[of idx] qr by auto
    then show "\<exists>s'. tb_store ?t q = Some s' \<and> se_id s' = j \<and> distinct (indexes s') \<and>
        (\<forall>idx \<in> set (indexes s'). tb_by_index ?t idx = Some q)"
      using s s' qr Some by (auto simp: table_remove_def fold_unbind)
  qed
qed (use assms in \<open>simp add: table_remove_def\<close>)

lemma bound_rotate:
  assumes "bound t" and "tb_store t r = Some s" and "tb_by_id t (se_id s) = Some r"
    and "tb_by_index t new = None"
  shows "bound (rebind_index (put_session t r (rotate ck s keys new ri)) r new)"
  unfolding bound_def
proof (intro allI impI)
  let ?t = "rebind_index (put_session t r (rotate ck s keys new ri)) r new"
  have cur: "tb_by_index t (ep_local_index (se_current s)) = Some r"
    using boundD[OF assms(1,3)] assms(2) by (metis indexes_def list.set_intros(1) option.inject)
  fix i q assume "tb_by_id ?t i = Some q"
  then have i: "tb_by_id t i = Some q" by (simp add: rebind_index_def put_session_def)
  from boundD[OF assms(1) i] obtain s' where s': "tb_store t q = Some s'" "se_id s' = i"
    "distinct (indexes s')" "\<And>idx. idx \<in> set (indexes s') \<Longrightarrow> tb_by_index t idx = Some q" by blast
  show "\<exists>s'. tb_store ?t q = Some s' \<and> se_id s' = i \<and> distinct (indexes s') \<and>
      (\<forall>idx \<in> set (indexes s'). tb_by_index ?t idx = Some q)"
  proof (cases "q = r")
    case True
    then show ?thesis using s' assms cur
      by (auto simp: rebind_index_def put_session_def rotate_def indexes_def)
  next
    case False
    then show ?thesis using s' assms(4) by (auto simp: rebind_index_def put_session_def)
  qed
qed

lemma set_current_cipher_frame [simp]:
  "se_id (set_current_cipher s c) = se_id s" "indexes (set_current_cipher s c) = indexes s"
  "se_peer_endpoint (set_current_cipher s c) = se_peer_endpoint s"
  by (simp_all add: set_current_cipher_def indexes_def)

lemma select_cipher_frame:
  assumes "select_cipher s idx = Some (c, put)"
  shows "se_id (put c') = se_id s" "indexes (put c') = indexes s"
    "se_peer_endpoint (put c') = se_peer_endpoint s" "idx \<in> set (indexes s)"
  using assms
  by (auto simp: select_cipher_def indexes_def set_current_cipher_def split: if_splits option.splits)

lemma indexes_frame:
  "indexes (s\<lparr>se_stats := st\<rparr>) = indexes s" "indexes (s\<lparr>se_last_rx_ms := x\<rparr>) = indexes s"
  "indexes (s\<lparr>se_last_tx_ms := x\<rparr>) = indexes s" "indexes (s\<lparr>se_peer_endpoint := e\<rparr>) = indexes s"
  "indexes (s\<lparr>se_rekey_pending := b\<rparr>) = indexes s"
  by (simp_all add: indexes_def)

lemma session_open_frame:
  "se_id (snd (session_open P ck s h body)) = se_id s"
  "indexes (snd (session_open P ck s h body)) = indexes s"
  "se_peer_endpoint (snd (session_open P ck s h body)) = se_peer_endpoint s"
  by (auto simp: session_open_def Let_def indexes_frame select_cipher_frame
      split: option.splits prod.splits sum.splits crypto_error.splits)

lemma session_open_addressed:
  "is_ok (fst (session_open P ck s h body)) \<Longrightarrow> \<not> se_closed s \<and> h_receiver_index h \<in> set (indexes s)"
  by (auto simp: session_open_def select_cipher_frame(4) split: option.splits if_splits)

lemma session_seal_frame:
  "se_id (snd (session_seal P ck s i)) = se_id s"
  "indexes (snd (session_seal P ck s i)) = indexes s"
  "se_peer_endpoint (snd (session_seal P ck s i)) = se_peer_endpoint s"
  by (auto simp: session_seal_def Let_def indexes_frame split: prod.splits sum.splits)

lemma send_inner_frame:
  "se_id (snd (send_inner P ck s i)) = se_id s" "indexes (snd (send_inner P ck s i)) = indexes s"
  using session_seal_frame[of P ck s i]
  by (auto simp: send_inner_def send_inner_to_def split: option.splits prod.splits sum.splits)

lemma bound_recv:
  assumes "bound t"
  shows "bound (fst (recv_datagram P df ck t from dgram))"
proof -
  have put: "bound (put_session t r s')"
    if "tb_store t r = Some s" "session_open P ck s h body = (res, s1)"
      "s' = s1 \<or> s' = set_peer_endpoint s1 from" for r s s' s1 h body res
    using that bound_put[OF assms that(1), of s'] session_open_frame[of P ck s h body]
    by (auto simp: set_peer_endpoint_def indexes_frame)
  show ?thesis
    using assms by (auto simp: recv_datagram_def Let_def intro: put
        split: sum.splits prod.splits option.splits inner.splits)
qed

lemma bound_expire:
  assumes "bound t" and st: "tb_store t r = Some s" and id: "tb_by_id t (se_id s) = Some r"
    and ex: "expire_previous_epoch ck s ov = (e, s1)"
  shows "bound (case e of Some idx \<Rightarrow> release_index (put_session t r s1) idx | None \<Rightarrow> put_session t r s1)"
    and "se_id s1 = se_id s"
proof -
  show id1: "se_id s1 = se_id s"
    using ex by (auto simp: expire_previous_epoch_def split: option.splits if_splits)
  show "bound (case e of Some idx \<Rightarrow> release_index (put_session t r s1) idx | None \<Rightarrow> put_session t r s1)"
  proof (cases e)
    case None
    then have "s1 = s" using ex by (auto simp: expire_previous_epoch_def split: option.splits if_splits)
    then show ?thesis using None bound_put[OF assms(1) st] by simp
  next
    case (Some idx)
    then have ix: "indexes s = [ep_local_index (se_current s), idx]" "indexes s1 = [ep_local_index (se_current s)]"
      using ex by (auto simp: expire_previous_epoch_def indexes_def split: option.splits if_splits)
    show ?thesis unfolding bound_def Some option.case
    proof (intro allI impI)
      fix i q assume "tb_by_id (release_index (put_session t r s1) idx) i = Some q"
      then have i: "tb_by_id t i = Some q" by (simp add: release_index_def put_session_def)
      from boundD[OF assms(1) i] obtain s' where s': "tb_store t q = Some s'" "se_id s' = i"
        "distinct (indexes s')" "\<And>x. x \<in> set (indexes s') \<Longrightarrow> tb_by_index t x = Some q" by blast
      have own: "tb_by_index t idx = Some r" "distinct (indexes s)"
        using boundD[OF assms(1) id] st ix by (metis list.set_intros option.inject)+
      show "\<exists>s'. tb_store (release_index (put_session t r s1) idx) q = Some s' \<and> se_id s' = i \<and>
          distinct (indexes s') \<and>
          (\<forall>x \<in> set (indexes s'). tb_by_index (release_index (put_session t r s1) idx) x = Some q)"
        using s' own ix st id1 by (cases "q = r") (auto simp: release_index_def put_session_def)
    qed
  qed
qed

lemma bound_timer_session:
  assumes "bound t" and "tb_store t r = Some s" and "tb_by_id t (se_id s) = Some r"
  shows "bound (fst (timer_session P ck tc t r))"
proof (cases "se_closed s")
  case False
  obtain e s1 where ex: "expire_previous_epoch ck s (tc_epoch_overlap tc) = (e, s1)" by fastforce
  define t2 where "t2 = (case e of Some idx \<Rightarrow> release_index (put_session t r s1) idx | None \<Rightarrow> put_session t r s1)"
  have b2: "bound t2" "se_id s1 = se_id s" using bound_expire[OF assms ex] by (simp_all add: t2_def)
  have st2: "tb_store t2 r = Some s1"
    by (cases e) (simp_all add: t2_def release_index_def put_session_def)
  have put: "se_id s' = se_id s1 \<Longrightarrow> indexes s' = indexes s1 \<Longrightarrow> bound (put_session t2 r s')" for s'
    by (rule bound_put[OF b2(1) st2])
  define due where "due = (se_role s1 = Initiator \<and> \<not> se_rekey_pending s1 \<and>
      (epoch_age ck s1 \<ge> tc_rekey_after tc \<or> packets_sent_this_epoch s1 \<ge> tc_rekey_after_packets tc))"
  define s2 where "s2 = (if due then set_rekey_pending s1 True else s1)"
  have s2: "se_id s2 = se_id s1" "indexes s2 = indexes s1"
    by (simp_all add: s2_def set_rekey_pending_def indexes_frame)
  obtain res s3 where send: "send_inner P ck s2 Keepalive = (res, s3)" by fastforce
  have "fst (timer_session P ck tc t r) \<in> {t2, put_session t2 r s2, put_session t2 r s3}"
    using assms(2) False ex send
    by (simp add: timer_session_def Let_def t2_def[symmetric] due_def[symmetric] s2_def[symmetric])
      (cases res; simp add: t2_def)
  then show ?thesis using b2(1) put s2 send send_inner_frame[of P ck s2 Keepalive] by auto
qed (use assms in \<open>simp add: timer_session_def\<close>)

subsection \<open>Runs of the endpoint\<close>

text \<open>What a process does to its table: it installs sessions under unused indexes, receives, ticks,
  sends, rekeys onto an unused index, and removes sessions.\<close>

inductive table_step :: "prims \<Rightarrow> table \<Rightarrow> table \<Rightarrow> bool" for P where
  install: "\<lbrakk>tb_store t r = None; tb_by_id t (se_id s) = None; distinct (indexes s);
      \<forall>idx \<in> set (indexes s). tb_by_index t idx = None\<rbrakk> \<Longrightarrow> table_step P t (table_insert t r s)"
| receive: "table_step P t (fst (recv_datagram P (df :: bytes \<Rightarrow> bytes option) ck t from dgram))"
| tick: "\<lbrakk>tb_by_id t (se_id s) = Some r; tb_store t r = Some s\<rbrakk> \<Longrightarrow>
    table_step P t (fst (timer_session P ck tc t r ::
      table \<times> bytes endpoint_event list \<times> (socket_addr \<times> bytes) list))"
| send: "tb_store t r = Some s \<Longrightarrow> table_step P t (put_session t r (snd (send_inner P ck s i)))"
| rekeyed: "\<lbrakk>tb_by_id t (se_id s) = Some r; tb_store t r = Some s; tb_by_index t new = None\<rbrakk> \<Longrightarrow>
    table_step P t (rebind_index (put_session t r (rotate ck s keys new ri)) r new)"
| remove: "table_step P t (snd (table_remove t i))"

lemma bound_step: "table_step P t t' \<Longrightarrow> bound t \<Longrightarrow> bound t'"
proof (induction rule: table_step.induct)
  case (install t r s) then show ?case by (intro bound_insert) auto
next
  case (receive t df ck "from" dgram) then show ?case by (rule bound_recv)
next
  case (tick t s r ck tc) then show ?case by (intro bound_timer_session) auto
next
  case (send t r s ck i) then show ?case by (intro bound_put[of t r s]) (simp_all add: send_inner_frame)
next
  case (rekeyed t s r new ck keys ri) then show ?case by (intro bound_rotate) auto
next
  case (remove t i) then show ?case by (intro bound_remove)
qed

lemma bound_reach: "(table_step P)\<^sup>*\<^sup>* table_new t \<Longrightarrow> bound t"
  by (induction rule: rtranclp_induct) (auto intro: bound_step)

section \<open>Properties\<close>

text \<open>C9. However a process installs, rekeys, expires and removes sessions, as long as it takes
  indexes that are unused, every session still in the table is found under every index its peer
  may address it by.\<close>

theorem live_sessions_addressable:
  assumes "(table_step P)\<^sup>*\<^sup>* table_new t" and "by_id t i = Some r"
  shows "\<exists>s. tb_store t r = Some s \<and> se_id s = i \<and> (\<forall>idx \<in> set (indexes s). by_index t idx = Some r)"
  using bound_reach[OF assms(1)] assms(2) unfolding bound_def by_index_def by_id_def by blast

definition demo_table :: table where
  "demo_table = table_insert table_new 0 (session_new (demo_clock 0) [7] Initiator Aes256Gcm [] demo_keys 5 6 None)"

theorem live_sessions_addressable_witness:
  "(table_step toy)\<^sup>*\<^sup>* table_new demo_table \<and> by_id demo_table [7] = Some 0 \<and>
   (\<exists>s. tb_store demo_table 0 = Some s \<and> se_id s = [7] \<and>
      (\<forall>idx \<in> set (indexes s). by_index demo_table idx = Some 0))"
proof -
  have "table_step toy table_new demo_table"
    unfolding demo_table_def
    by (rule table_step.install) (simp_all add: table_new_def session_new_def indexes_def)
  then have r: "(table_step toy)\<^sup>*\<^sup>* table_new demo_table" by blast
  have i: "by_id demo_table [7] = Some 0"
    by (simp add: demo_table_def by_id_def table_insert_def session_new_def)
  show ?thesis using live_sessions_addressable[OF r i] r i by blast
qed

text \<open>C10. A datagram moves a session's peer endpoint only if it authenticates under that session and
  was addressed to it, and then to the sender's address; every other session is left as it was.\<close>

theorem roaming_needs_authentication:
  assumes "tb_store t r = Some s"
    and "tb_store (fst (recv_datagram P df ck t from dgram)) r \<noteq> Some s"
  shows "\<exists>h body s'. header_decode dgram = Inr (h, body) \<and> by_index t (h_receiver_index h) = Some r \<and>
     tb_store (fst (recv_datagram P df ck t from dgram)) r = Some s' \<and>
     (if is_ok (fst (session_open P ck s h body)) then se_peer_endpoint s' = Some from
      else se_peer_endpoint s' = se_peer_endpoint s)"
proof -
  obtain h body where hb: "header_decode dgram = Inr (h, body)"
    using assms by (cases "header_decode dgram") (auto simp: recv_datagram_def)
  obtain q where q: "by_index t (h_receiver_index h) = Some q"
    using assms hb by (cases "by_index t (h_receiver_index h)") (auto simp: recv_datagram_def)
  obtain u where u: "tb_store t q = Some u"
    using assms hb q by (cases "tb_store t q") (auto simp: recv_datagram_def)
  obtain res s1 where op: "session_open P ck u h body = (res, s1)" by fastforce
  have qr: "q = r" using assms hb q u op
    by (cases "q = r"; cases res) (auto simp: recv_datagram_def Let_def put_session_def)
  have peer: "se_peer_endpoint s1 = se_peer_endpoint u"
    using session_open_frame(3)[of P ck u h body] op by simp
  show ?thesis
    using assms hb q u op qr peer
    by (cases res) (auto simp: recv_datagram_def Let_def put_session_def set_peer_endpoint_def)
qed

abbreviation "demo_session \<equiv> session_new (demo_clock 0) [7] Initiator Aes256Gcm [] demo_keys 5 6 None"
abbreviation "no_frames \<equiv> (\<lambda>_ :: bytes. None :: bytes option)"

lemma demo_roams:
  "\<exists>body. header_decode (header_encode (data_header 0 5 0) @ body) = Inr (data_header 0 5 0, body) \<and>
     tb_store (fst (recv_datagram toy no_frames (demo_clock 1) demo_table (SockV4 1 2)
       (header_encode (data_header 0 5 0) @ body))) 0 \<noteq> Some demo_session"
proof -
  let ?h = "data_header 0 5 0" and ?c = "cipher_new demo_keys Initiator Aes256Gcm"
  have hdr: "header_decode (header_encode ?h @ body) = Inr (?h, body)" for body
    by (rule hdr.dec_enc) (simp add: header_ok_def data_header_def)
  obtain body where sealed: "seal_in_place toy (sc_recv ?c) (nonce_for (h_counter ?h)) (header_encode ?h)
      (inner_encode Keepalive) = Inr body"
    using seal_succeeds[OF toy_aead(2), of "inner_encode Keepalive" "sc_recv ?c" "nonce_for (h_counter ?h)"
      "header_encode ?h"] by auto
  have sel: "\<exists>put. select_cipher demo_session (h_receiver_index ?h) = Some (?c, put)"
    by (simp add: select_cipher_def session_new_def data_header_def)
  have op: "fst (session_open toy (demo_clock 1) demo_session ?h body) = Inr Keepalive"
    using sel session_open_seal[OF toy_aead(1) _ _ _ _ sealed]
    by (auto simp: session_new_def)
  then obtain s1 where s1: "session_open toy (demo_clock 1) demo_session ?h body = (Inr Keepalive, s1)"
    by (metis prod.collapse)
  have "se_peer_endpoint s1 = None"
    using session_open_frame(3)[of toy "demo_clock 1" demo_session ?h body] s1 by (simp add: session_new_def)
  moreover have "by_index demo_table (h_receiver_index ?h) = Some 0" "tb_store demo_table 0 = Some demo_session"
    by (simp_all add: demo_table_def by_index_def table_insert_def indexes_def session_new_def data_header_def)
  moreover have "s1\<lparr>se_peer_endpoint := Some (SockV4 1 2)\<rparr> \<noteq> demo_session"
  proof
    assume "s1\<lparr>se_peer_endpoint := Some (SockV4 1 2)\<rparr> = demo_session"
    from arg_cong[OF this, of se_peer_endpoint] show False by (simp add: session_new_def)
  qed
  ultimately have "tb_store (fst (recv_datagram toy no_frames (demo_clock 1) demo_table (SockV4 1 2)
       (header_encode ?h @ body))) 0 \<noteq> Some demo_session"
    using hdr s1 by (auto simp: recv_datagram_def put_session_def set_peer_endpoint_def Let_def)
  with hdr show ?thesis by blast
qed

theorem roaming_needs_authentication_witness:
  "\<exists>dgram h body s'. tb_store demo_table 0 = Some demo_session \<and>
     tb_store (fst (recv_datagram toy no_frames (demo_clock 1) demo_table (SockV4 1 2) dgram)) 0 \<noteq> Some demo_session \<and>
     header_decode dgram = Inr (h, body) \<and> by_index demo_table (h_receiver_index h) = Some 0 \<and>
     tb_store (fst (recv_datagram toy no_frames (demo_clock 1) demo_table (SockV4 1 2) dgram)) 0 = Some s' \<and>
     (if is_ok (fst (session_open toy (demo_clock 1) demo_session h body)) then se_peer_endpoint s' = Some (SockV4 1 2)
      else se_peer_endpoint s' = se_peer_endpoint demo_session)"
proof -
  have st: "tb_store demo_table 0 = Some demo_session" by (simp add: demo_table_def table_insert_def)
  obtain body where "tb_store (fst (recv_datagram toy no_frames (demo_clock 1) demo_table (SockV4 1 2)
       (header_encode (data_header 0 5 0) @ body))) 0 \<noteq> Some demo_session"
    using demo_roams by blast
  from roaming_needs_authentication[OF st this] this st show ?thesis by blast
qed

text \<open>Rekeying twice within the overlap forgets the oldest epoch without releasing its index: the
  entry stays in the table, and it stays even when the session is removed, pointing at a closed
  session that cannot open anything under it.\<close>

theorem double_rotate_leaks_index:
  "let s0 = session_new ck i r su pc keys 5 ri ep;
       t1 = table_insert table_new 0 s0;
       s1 = rotate ck1 s0 keys1 6 ri1;
       t2 = rebind_index (put_session t1 0 s1) 0 6;
       s2 = rotate ck2 s1 keys2 7 ri2;
       t3 = rebind_index (put_session t2 0 s2) 0 7;
       t4 = snd (table_remove t3 i)
   in by_id t4 i = None \<and> by_index t4 5 = Some 0 \<and> by_index t4 6 = None \<and> by_index t4 7 = None \<and>
      5 \<notin> set (indexes s2) \<and> tb_store t4 0 = Some (session_close s2)"
  by (simp add: Let_def session_new_def table_insert_def table_new_def rotate_def rebind_index_def
      put_session_def table_remove_def by_id_def by_index_def indexes_def)

end
