(* ===== verification/Cert_Reader.thy ===== *)
theory Cert_Reader
  imports Hybrid_Crypto
begin

text \<open>
  The cursor \<open>avon-crypto/src/cert/encode.rs\<close> parses certificates with, its length-prefixed writer,
  and the contract of a field: a reader that consumes exactly one encoded value.  A proof names a
  cursor by the bytes behind it and the bytes ahead of it (\<open>cursor\<close>).
\<close>

section \<open>Errors\<close>

datatype subject_kind = RootCa | IssuingCa | Device | Gateway | Service

datatype cert_error =
    Encoding string
  | Signature
  | Expired
  | NotYetValid
  | UnknownIssuer
  | WrongKind string subject_kind
  | Chain string

text \<open>\<open>CryptoError\<close>'s \<open>Display\<close>.\<close>

fun crypto_display :: "crypto_error \<Rightarrow> string" where
  "crypto_display (InvalidKeyLength e a) =
     ''invalid key length: expected '' @ show_nat e @ '', got '' @ show_nat a"
| "crypto_display (EncryptionFailed s) = ''encryption failed: '' @ s"
| "crypto_display (DecryptionFailed s) = ''decryption failed: '' @ s"
| "crypto_display AuthenticationFailed = ''authentication failed''"
| "crypto_display (KeyDerivationFailed s) = ''key derivation failed: '' @ s"
| "crypto_display InvalidSignature = ''invalid signature''"
| "crypto_display (RandomGenerationFailed s) = ''random generation failed: '' @ s"
| "crypto_display (Replay r) = ''replay check failed: '' @ (case r of Replayed \<Rightarrow> ''Replayed'' | TooOld \<Rightarrow> ''TooOld'')"
| "crypto_display CounterExhausted = ''send counter exhausted''"

section \<open>The cursor\<close>

record reader =
  rd_buf :: bytes
  rd_pos :: nat

definition rd_take :: "nat \<Rightarrow> reader \<Rightarrow> cert_error + bytes \<times> reader" where
  "rd_take n r =
     (if rd_pos r + n \<ge> 2 ^ 64 then Inl (Encoding ''overflow'')
      else if rd_pos r + n > length (rd_buf r) then Inl (Encoding ''truncated'')
      else Inr (slice (rd_buf r) (rd_pos r) (rd_pos r + n), r\<lparr>rd_pos := rd_pos r + n\<rparr>))"

definition rd_u8 :: "reader \<Rightarrow> cert_error + byte \<times> reader" where
  "rd_u8 r = bind_res (rd_take 1 r) (\<lambda>(b, r). Inr (b ! 0, r))"

definition rd_u16 :: "reader \<Rightarrow> cert_error + u16 \<times> reader" where
  "rd_u16 r = bind_res (rd_take 2 r) (\<lambda>(b, r). Inr (from_be_bytes [b ! 0, b ! 1], r))"

definition rd_i64 :: "reader \<Rightarrow> cert_error + i64 \<times> reader" where
  "rd_i64 r = bind_res (rd_take 8 r) (\<lambda>(b, r). Inr (from_be_bytes b, r))"

definition rd_array :: "nat \<Rightarrow> reader \<Rightarrow> cert_error + bytes \<times> reader" where
  "rd_array n r = rd_take n r"

definition rd_bytes16 :: "nat \<Rightarrow> reader \<Rightarrow> cert_error + bytes \<times> reader" where
  "rd_bytes16 maxlen r = bind_res (rd_u16 r) (\<lambda>(len, r).
     if unat len > maxlen then Inl (Encoding (''field too long: '' @ show_nat (unat len)))
     else rd_take (unat len) r)"

definition MAX_STRING :: nat where "MAX_STRING = 512"

definition rd_string16 :: "reader \<Rightarrow> cert_error + bytes \<times> reader" where
  "rd_string16 r = bind_res (rd_bytes16 MAX_STRING r) (\<lambda>(b, r).
     if utf8_valid b then Inr (b, r) else Inl (Encoding ''invalid utf-8''))"

definition rd_done :: "reader \<Rightarrow> cert_error + unit" where
  "rd_done r = (if rd_pos r = length (rd_buf r) then Inr () else Inl (Encoding ''trailing bytes''))"

text \<open>The loop \<open>for _ in 0..n { v.push(read()?) }\<close>.\<close>

fun rd_repeat :: "nat \<Rightarrow> (reader \<Rightarrow> 'e + 'a \<times> reader) \<Rightarrow> reader \<Rightarrow> 'e + 'a list \<times> reader" where
  "rd_repeat 0 rd r = Inr ([], r)"
| "rd_repeat (Suc n) rd r =
    bind_res (rd r) (\<lambda>(x, r). bind_res (rd_repeat n rd r) (\<lambda>(xs, r). Inr (x # xs, r)))"

definition put16 :: "bytes \<Rightarrow> bytes" where
  "put16 bs = to_be_bytes (word_of_nat (length bs) :: u16) @ bs"

section \<open>Fields\<close>

definition cursor :: "bytes \<Rightarrow> bytes \<Rightarrow> reader" where
  "cursor pre rest = \<lparr>rd_buf = pre @ rest, rd_pos = length pre\<rparr>"

lemma cursor_start: "\<lparr>rd_buf = bs, rd_pos = 0\<rparr> = cursor [] bs"
  by (simp add: cursor_def)

locale field_codec =
  fixes enc :: "'a \<Rightarrow> bytes"
    and rd :: "reader \<Rightarrow> 'e + 'a \<times> reader"
    and ok :: "'a \<Rightarrow> bool"
  assumes read: "\<lbrakk>ok x; length (pre @ enc x @ rest) < 2 ^ 64\<rbrakk> \<Longrightarrow>
      rd (cursor pre (enc x @ rest)) = Inr (x, cursor (pre @ enc x) rest)"
    and read_sound: "rd (cursor pre bs) = Inr (x, r) \<Longrightarrow>
      \<exists>rest. ok x \<and> bs = enc x @ rest \<and> r = cursor (pre @ enc x) rest"
begin

lemma read_end: "\<lbrakk>ok x; length (pre @ enc x) < 2 ^ 64\<rbrakk> \<Longrightarrow>
    rd (cursor pre (enc x)) = Inr (x, cursor (pre @ enc x) [])"
  using read[of x pre "[]"] by simp

lemma read_repeat:
  "\<lbrakk>list_all ok xs; length (pre @ concat (map enc xs) @ rest) < 2 ^ 64; n = length xs\<rbrakk> \<Longrightarrow>
   rd_repeat n rd (cursor pre (concat (map enc xs) @ rest)) = Inr (xs, cursor (pre @ concat (map enc xs)) rest)"
proof (induction xs arbitrary: pre n)
  case (Cons x xs)
  have "rd (cursor pre (enc x @ concat (map enc xs) @ rest)) =
      Inr (x, cursor (pre @ enc x) (concat (map enc xs) @ rest))"
    using Cons.prems by (intro read) auto
  with Cons.IH[of "pre @ enc x"] Cons.prems show ?case by simp
qed simp

lemma read_repeat_sound:
  "rd_repeat n rd (cursor pre bs) = Inr (xs, r) \<Longrightarrow>
   \<exists>rest. length xs = n \<and> list_all ok xs \<and> bs = concat (map enc xs) @ rest \<and>
     r = cursor (pre @ concat (map enc xs)) rest"
proof (induction n arbitrary: pre bs xs)
  case (Suc n)
  from Suc.prems obtain x r1 ys where x: "rd (cursor pre bs) = Inr (x, r1)"
    and ys: "rd_repeat n rd r1 = Inr (ys, r)" "xs = x # ys"
    by (auto simp: res_simps)
  from read_sound[OF x] obtain bs' where bs': "ok x" "bs = enc x @ bs'" "r1 = cursor (pre @ enc x) bs'" by blast
  from Suc.IH[OF ys(1)[unfolded bs'(3)]] bs' ys(2) show ?case by auto
qed simp

end

lemma take_cursor:
  "length a = n \<Longrightarrow> length (pre @ a @ rest) < 2 ^ 64 \<Longrightarrow>
   rd_take n (cursor pre (a @ rest)) = Inr (a, cursor (pre @ a) rest)"
  by (auto simp: rd_take_def cursor_def slice_def)

lemma take_cursor_sound:
  assumes "rd_take n (cursor pre bs) = Inr (a, r)"
  shows "\<exists>rest. length a = n \<and> bs = a @ rest \<and> r = cursor (pre @ a) rest"
proof -
  from assms have len: "n \<le> length bs" and a: "a = take n bs"
    and r: "r = \<lparr>rd_buf = pre @ bs, rd_pos = length pre + n\<rparr>"
    by (auto simp: rd_take_def cursor_def slice_def split: if_splits)
  show ?thesis
    by (rule exI[of _ "drop n bs"]) (use len a r in \<open>simp add: cursor_def\<close>)
qed

interpretation f_array: field_codec id "rd_array n" "\<lambda>bs. length bs = n" for n
  by unfold_locales (use take_cursor take_cursor_sound in \<open>auto simp: rd_array_def\<close>)

interpretation f_u8: field_codec "\<lambda>b. [b]" rd_u8 "\<lambda>_. True"
proof
  show "rd_u8 (cursor pre ([x] @ rest)) = Inr (x, cursor (pre @ [x]) rest)"
    if "length (pre @ [x] @ rest) < 2 ^ 64" for x pre rest
    using take_cursor[of "[x]" 1, OF _ that] by (simp add: rd_u8_def)
  show "\<exists>rest. True \<and> bs = [x] @ rest \<and> r = cursor (pre @ [x]) rest"
    if "rd_u8 (cursor pre bs) = Inr (x, r)" for pre bs x r
    using that take_cursor_sound[of 1 pre bs] by (fastforce simp: rd_u8_def res_simps length_Suc_conv)
qed

lemma two_bytes: "length b = 2 \<Longrightarrow> [b ! 0, b ! 1] = b"
  by (auto simp: numeral_2_eq_2 length_Suc_conv)

interpretation f_u16: field_codec to_be_bytes rd_u16 "\<lambda>_. True"
proof
  show "rd_u16 (cursor pre (to_be_bytes x @ rest)) = Inr (x, cursor (pre @ to_be_bytes x) rest)"
    if "length (pre @ to_be_bytes x @ rest) < 2 ^ 64" for x :: u16 and pre rest
    using take_cursor[of "to_be_bytes x" 2, OF _ that] two_bytes[of "to_be_bytes x"]
    by (simp add: rd_u16_def)
  show "\<exists>rest. True \<and> bs = to_be_bytes x @ rest \<and> r = cursor (pre @ to_be_bytes x) rest"
    if "rd_u16 (cursor pre bs) = Inr (x, r)" for pre bs x r
  proof -
    from that obtain b where b: "rd_take 2 (cursor pre bs) = Inr (b, r)" "x = from_be_bytes [b ! 0, b ! 1]"
      by (auto simp: rd_u16_def res_simps)
    from take_cursor_sound[OF b(1)] b(2) two_bytes[of b] show ?thesis by (auto simp: be_bytes_round)
  qed
qed

interpretation f_i64: field_codec to_be_bytes rd_i64 "\<lambda>_. True"
proof
  show "rd_i64 (cursor pre (to_be_bytes x @ rest)) = Inr (x, cursor (pre @ to_be_bytes x) rest)"
    if "length (pre @ to_be_bytes x @ rest) < 2 ^ 64" for x :: i64 and pre rest
    using take_cursor[of "to_be_bytes x" 8, OF _ that] by (simp add: rd_i64_def)
  show "\<exists>rest. True \<and> bs = to_be_bytes x @ rest \<and> r = cursor (pre @ to_be_bytes x) rest"
    if "rd_i64 (cursor pre bs) = Inr (x, r)" for pre bs x r
    using that take_cursor_sound[of 8 pre bs] by (fastforce simp: rd_i64_def res_simps be_bytes_round)
qed

definition fits16 :: "nat \<Rightarrow> bytes \<Rightarrow> bool" where
  "fits16 m bs = (length bs \<le> m \<and> length bs < 65536)"

interpretation f_bytes16: field_codec put16 "rd_bytes16 m" "fits16 m" for m
proof
  show "rd_bytes16 m (cursor pre (put16 x @ rest)) = Inr (x, cursor (pre @ put16 x) rest)"
    if ok: "fits16 m x" and len: "length (pre @ put16 x @ rest) < 2 ^ 64" for x pre rest
  proof -
    let ?w = "word_of_nat (length x) :: u16"
    have w: "unat ?w = length x" using ok by (intro unat_word_of_nat16) (simp add: fits16_def)
    have 1: "rd_u16 (cursor pre (to_be_bytes ?w @ x @ rest)) = Inr (?w, cursor (pre @ to_be_bytes ?w) (x @ rest))"
      using len by (intro f_u16.read) (simp_all add: put16_def)
    have 2: "rd_take (length x) (cursor (pre @ to_be_bytes ?w) (x @ rest)) =
        Inr (x, cursor ((pre @ to_be_bytes ?w) @ x) rest)"
      using len by (intro take_cursor) (simp_all add: put16_def)
    show ?thesis using 1 2 w ok by (simp add: rd_bytes16_def put16_def fits16_def)
  qed
  show "\<exists>rest. fits16 m x \<and> bs = put16 x @ rest \<and> r = cursor (pre @ put16 x) rest"
    if "rd_bytes16 m (cursor pre bs) = Inr (x, r)" for pre bs x r
  proof -
    from that obtain len r1 where len: "rd_u16 (cursor pre bs) = Inr (len, r1)" "unat len \<le> m"
      and x: "rd_take (unat len) r1 = Inr (x, r)"
      by (auto simp: rd_bytes16_def res_simps not_less split: if_splits)
    from f_u16.read_sound[OF len(1)] obtain b where b: "bs = to_be_bytes len @ b"
      "r1 = cursor (pre @ to_be_bytes len) b" by blast
    from take_cursor_sound[OF x[unfolded b(2)]] obtain rest where
      rest: "length x = unat len" "b = x @ rest" "r = cursor ((pre @ to_be_bytes len) @ x) rest" by blast
    have "length x < 65536" using rest(1) unsigned_less[of len] by simp
    moreover have "word_of_nat (length x) = len" using rest(1) by simp
    ultimately show ?thesis using b rest len(2) by (simp add: put16_def fits16_def)
  qed
qed

definition string_ok :: "bytes \<Rightarrow> bool" where
  "string_ok s = (length s \<le> 512 \<and> utf8_valid s)"

interpretation f_string16: field_codec put16 rd_string16 string_ok
proof
  show "rd_string16 (cursor pre (put16 x @ rest)) = Inr (x, cursor (pre @ put16 x) rest)"
    if "string_ok x" "length (pre @ put16 x @ rest) < 2 ^ 64" for x pre rest
    using f_bytes16.read[of MAX_STRING x pre rest] that
    by (simp add: rd_string16_def string_ok_def fits16_def MAX_STRING_def)
  show "\<exists>rest. string_ok x \<and> bs = put16 x @ rest \<and> r = cursor (pre @ put16 x) rest"
    if "rd_string16 (cursor pre bs) = Inr (x, r)" for pre bs x r
    using that f_bytes16.read_sound[of MAX_STRING pre bs x r]
    by (auto simp: rd_string16_def string_ok_def fits16_def MAX_STRING_def res_simps split: if_splits)
qed

lemma done_cursor: "rd_done (cursor pre rest) = Inr () \<longleftrightarrow> rest = []"
  by (auto simp: rd_done_def cursor_def)

end
