(* ===== verification/Cert_Binding.thy ===== *)
theory Cert_Binding
  imports Cert_Reader
begin

text \<open>
  \<open>avon-crypto/src/cert/binding.rs\<close>: the hardware binding a certificate may carry, and its encoding.
\<close>

datatype provider_kind = Software | Tpm2 | Keychain | Cng

fun provider_u8 :: "provider_kind \<Rightarrow> byte" where
  "provider_u8 Software = 1"
| "provider_u8 Tpm2 = 2"
| "provider_u8 Keychain = 3"
| "provider_u8 Cng = 4"

fun provider_as_str :: "provider_kind \<Rightarrow> string" where
  "provider_as_str Software = ''software''"
| "provider_as_str Tpm2 = ''tpm2''"
| "provider_as_str Keychain = ''keychain''"
| "provider_as_str Cng = ''cng''"

definition is_hardware :: "provider_kind \<Rightarrow> bool" where
  "is_hardware p = (p \<noteq> Software)"

definition provider_from_u8 :: "byte \<Rightarrow> cert_error + provider_kind" where
  "provider_from_u8 v =
     (if v = 1 then Inr Software else if v = 2 then Inr Tpm2 else if v = 3 then Inr Keychain
      else if v = 4 then Inr Cng else Inl (Encoding (''unknown provider '' @ show_nat (unat v))))"

definition provider_from_str :: "string \<Rightarrow> string + provider_kind" where
  "provider_from_str s =
     (if s = ''software'' then Inr Software else if s = ''tpm2'' then Inr Tpm2
      else if s = ''keychain'' then Inr Keychain else if s = ''cng'' then Inr Cng
      else Inl (''unknown provider '' @ s))"

definition MAX_BINDING_BYTES :: nat where "MAX_BINDING_BYTES = 12 * 1024"

record hardware_binding =
  hb_provider :: provider_kind
  hb_algorithm :: bytes
  hb_public_key :: bytes
  hb_signature :: bytes
  hb_attestation :: "bytes option"

definition binding_encode :: "hardware_binding \<Rightarrow> bytes" where
  "binding_encode b = [provider_u8 (hb_provider b)] @ put16 (hb_algorithm b) @ put16 (hb_public_key b) @
     put16 (hb_signature b) @ (case hb_attestation b of Some a \<Rightarrow> put16 a | None \<Rightarrow> put16 [])"

definition take16 :: "bytes \<Rightarrow> nat \<Rightarrow> cert_error + bytes \<times> nat" where
  "take16 buf pos =
     (if pos + 2 > length buf then Inl (Encoding ''truncated binding'')
      else let len = unat (from_be_bytes [buf ! pos, buf ! (pos + 1)] :: u16)
           in if pos + 2 + len > length buf then Inl (Encoding ''truncated binding'')
              else Inr (slice buf (pos + 2) (pos + 2 + len), 2 + len))"

definition binding_decode :: "bytes \<Rightarrow> cert_error + hardware_binding" where
  "binding_decode bs =
     (if length bs > MAX_BINDING_BYTES then Inl (Encoding ''binding too large'')
      else if bs = [] then Inl (Encoding ''empty binding'')
      else
        bind_res (provider_from_u8 (bs ! 0)) (\<lambda>provider.
        let pos = 1 in bind_res (take16 bs pos) (\<lambda>(algorithm, n).
        let pos = pos + n in
        if \<not> utf8_valid algorithm then Inl (Encoding ''invalid utf-8 algorithm'') else
        bind_res (take16 bs pos) (\<lambda>(public_key, n).
        let pos = pos + n in bind_res (take16 bs pos) (\<lambda>(signature, n).
        let pos = pos + n in bind_res (take16 bs pos) (\<lambda>(attestation_bytes, n).
        let pos = pos + n in
        if pos \<noteq> length bs then Inl (Encoding ''trailing bytes in binding'')
        else Inr \<lparr>hb_provider = provider, hb_algorithm = algorithm, hb_public_key = public_key,
                  hb_signature = signature,
                  hb_attestation = (if attestation_bytes = [] then None else Some attestation_bytes)\<rparr>))))))"

definition binding_ok :: "hardware_binding \<Rightarrow> bool" where
  "binding_ok b = (utf8_valid (hb_algorithm b) \<and> length (hb_algorithm b) < 65536 \<and>
     length (hb_public_key b) < 65536 \<and> length (hb_signature b) < 65536 \<and>
     (case hb_attestation b of None \<Rightarrow> True | Some a \<Rightarrow> a \<noteq> [] \<and> length a < 65536) \<and>
     length (binding_encode b) \<le> 12288)"

lemma provider_from_u8_iff: "provider_from_u8 v = Inr p \<longleftrightarrow> v = provider_u8 p"
  by (cases p) (auto simp: provider_from_u8_def)

lemma provider_from_str_iff: "provider_from_str s = Inr p \<longleftrightarrow> s = provider_as_str p"
  by (cases p) (auto simp: provider_from_str_def)

lemma length_put16 [simp]: "length (put16 bs) = 2 + length bs"
  by (simp add: put16_def)

lemma take16_at:
  assumes "length x < 65536" and "pos = length pre"
  shows "take16 (pre @ put16 x @ rest) pos = Inr (x, 2 + length x)"
proof -
  let ?w = "to_be_bytes (word_of_nat (length x) :: u16)"
  have "[(pre @ put16 x @ rest) ! pos, (pre @ put16 x @ rest) ! (pos + 1)] = [?w ! 0, ?w ! 1]"
    using assms(2) by (simp add: put16_def nth_append)
  moreover have "[?w ! 0, ?w ! 1] = ?w" by (rule two_bytes) simp
  ultimately have "from_be_bytes [(pre @ put16 x @ rest) ! pos, (pre @ put16 x @ rest) ! (pos + 1)] =
      (word_of_nat (length x) :: u16)" by simp
  then show ?thesis
    using assms unat_word_of_nat16[OF assms(1)] by (simp add: take16_def slice_def put16_def)
qed

lemma take16_sound:
  assumes "take16 (pre @ bs) pos = Inr (x, n)" and "pos = length pre"
  shows "\<exists>rest. bs = put16 x @ rest \<and> n = 2 + length x \<and> length x < 65536"
proof -
  let ?len = "unat (from_be_bytes [bs ! 0, bs ! 1] :: u16)"
  from assms have len: "2 + ?len \<le> length bs" and x: "x = take ?len (drop 2 bs)" and n: "n = 2 + ?len"
    by (auto simp: take16_def slice_def nth_append Let_def split: if_splits)
  have two: "[bs ! 0, bs ! 1] = take 2 bs"
    using two_bytes[of "take 2 bs"] len by simp
  have lx: "length x = ?len" using x len by simp
  have "to_be_bytes (word_of_nat (length x) :: u16) = take 2 bs"
    unfolding lx two using len by (simp add: be_bytes_round)
  then have "bs = put16 x @ drop (2 + ?len) bs"
    using x append_take_drop_id[of ?len "drop 2 bs"] by (simp add: put16_def add.commute)
  moreover have "length x < 65536" using lx unsigned_less[of "from_be_bytes [bs ! 0, bs ! 1] :: u16"] by simp
  ultimately show ?thesis using n lx by metis
qed

lemma binding_decode_encode:
  assumes "binding_ok b"
  shows "binding_decode (binding_encode b) = Inr b"
proof -
  let ?p = "[provider_u8 (hb_provider b)]" and ?a = "put16 (hb_algorithm b)"
    and ?k = "put16 (hb_public_key b)" and ?s = "put16 (hb_signature b)"
  define att where "att = (case hb_attestation b of Some a \<Rightarrow> a | None \<Rightarrow> [])"
  have enc: "binding_encode b = ?p @ ?a @ ?k @ ?s @ put16 att"
    by (simp add: binding_encode_def att_def split: option.split)
  note ok = assms[unfolded binding_ok_def]
  have att: "length att < 65536" "(if att = [] then None else Some att) = hb_attestation b"
    using ok by (auto simp: att_def split: option.splits)
  have 1: "take16 (?p @ ?a @ ?k @ ?s @ put16 att) 1 = Inr (hb_algorithm b, 2 + length (hb_algorithm b))"
    using ok by (intro take16_at) auto
  have 2: "take16 (?p @ ?a @ ?k @ ?s @ put16 att) (1 + (2 + length (hb_algorithm b))) =
      Inr (hb_public_key b, 2 + length (hb_public_key b))"
    using ok take16_at[of "hb_public_key b" _ "?p @ ?a" "?s @ put16 att"] by simp
  have 3: "take16 (?p @ ?a @ ?k @ ?s @ put16 att)
      (1 + (2 + length (hb_algorithm b)) + (2 + length (hb_public_key b))) = Inr (hb_signature b, 2 + length (hb_signature b))"
    using ok take16_at[of "hb_signature b" _ "?p @ ?a @ ?k" "put16 att"] by simp
  have 4: "take16 (?p @ ?a @ ?k @ ?s @ put16 att)
      (1 + (2 + length (hb_algorithm b)) + (2 + length (hb_public_key b)) + (2 + length (hb_signature b))) =
      Inr (att, 2 + length att)"
    using att take16_at[of att _ "?p @ ?a @ ?k @ ?s" "[]"] by (simp add: add.assoc)
  have prov: "provider_from_u8 (binding_encode b ! 0) = Inr (hb_provider b)"
    by (simp add: enc provider_from_u8_iff)
  have "length (binding_encode b) \<le> 12288" "binding_encode b \<noteq> []" using ok by (simp_all add: enc)
  then show ?thesis
    unfolding binding_decode_def prov
    using ok 1 2 3 4 att unfolding enc by (simp add: MAX_BINDING_BYTES_def Let_def)
qed

lemma binding_decode_sound:
  assumes "binding_decode bs = Inr b"
  shows "binding_ok b \<and> binding_encode b = bs"
proof -
  from assms obtain pr al n1 pk n2 sg n3 at n4 where max: "length bs \<le> 12288" and ne: "bs \<noteq> []"
    and pr: "provider_from_u8 (bs ! 0) = Inr pr" and al: "take16 bs 1 = Inr (al, n1)" and u: "utf8_valid al"
    and pk: "take16 bs (1 + n1) = Inr (pk, n2)" and sg: "take16 bs (1 + n1 + n2) = Inr (sg, n3)"
    and at: "take16 bs (1 + n1 + n2 + n3) = Inr (at, n4)" and fin: "1 + n1 + n2 + n3 + n4 = length bs"
    and b: "b = \<lparr>hb_provider = pr, hb_algorithm = al, hb_public_key = pk, hb_signature = sg,
                hb_attestation = (if at = [] then None else Some at)\<rparr>"
    by (auto simp: binding_decode_def MAX_BINDING_BYTES_def Let_def res_simps split: if_splits)
  let ?p = "[provider_u8 pr]"
  obtain r0 where r0: "bs = ?p @ r0" using ne pr by (cases bs) (auto simp: provider_from_u8_iff)
  obtain r1 where r1: "r0 = put16 al @ r1" "n1 = 2 + length al" "length al < 65536"
    using take16_sound[of ?p r0 1] al r0 by auto
  obtain r2 where r2: "r1 = put16 pk @ r2" "n2 = 2 + length pk" "length pk < 65536"
    using take16_sound[of "?p @ put16 al" r1 "1 + n1"] pk r0 r1 by auto
  obtain r3 where r3: "r2 = put16 sg @ r3" "n3 = 2 + length sg" "length sg < 65536"
    using take16_sound[of "?p @ put16 al @ put16 pk" r2 "1 + n1 + n2"] sg r0 r1 r2 by auto
  obtain r4 where r4: "r3 = put16 at @ r4" "n4 = 2 + length at" "length at < 65536"
    using take16_sound[of "?p @ put16 al @ put16 pk @ put16 sg" r3 "1 + n1 + n2 + n3"] at r0 r1 r2 r3 by auto
  have bs: "bs = ?p @ put16 al @ put16 pk @ put16 sg @ put16 at @ r4" using r0 r1 r2 r3 r4 by simp
  then have "r4 = []" using fin r1 r2 r3 r4 by simp
  with bs have enc: "binding_encode b = bs" by (simp add: b binding_encode_def)
  with b max u r1 r2 r3 r4 show ?thesis by (simp add: binding_ok_def)
qed

interpretation hb: byte_codec binding_encode binding_decode binding_ok
  by unfold_locales (rule binding_decode_encode, assumption, erule binding_decode_sound)

lemma binding_encode_nonempty [simp]: "binding_encode b \<noteq> []"
  by (simp add: binding_encode_def)

end
