(* ===== verification/Cert_Codec.thy ===== *)
theory Cert_Codec
  imports Cert_Binding
begin

text \<open>
  \<open>avon-crypto/src/cert/encode.rs\<close>: the to-be-signed certificate, its deterministic encoding, and the
  certificate around it.  Each field of \<open>TbsCertificate::decode\<close> is a reader of its own, composed in
  the order of the source.
\<close>

section \<open>Data\<close>

fun kind_u8 :: "subject_kind \<Rightarrow> byte" where
  "kind_u8 RootCa = 1"
| "kind_u8 IssuingCa = 2"
| "kind_u8 Device = 3"
| "kind_u8 Gateway = 4"
| "kind_u8 Service = 5"

definition kind_from_u8 :: "byte \<Rightarrow> cert_error + subject_kind" where
  "kind_from_u8 v =
     (if v = 1 then Inr RootCa else if v = 2 then Inr IssuingCa else if v = 3 then Inr Device
      else if v = 4 then Inr Gateway else if v = 5 then Inr Service
      else Inl (Encoding (''unknown subject kind '' @ show_nat (unat v))))"

record tbs_certificate =
  tb_version :: byte
  tb_serial :: bytes
  tb_tenant_id :: bytes
  tb_subject_id :: bytes
  tb_kind :: subject_kind
  tb_signing_key :: hybrid_verifying_key
  tb_kem_key :: "kem_public_key option"
  tb_not_before :: i64
  tb_not_after :: i64
  tb_issuer_key_id :: bytes
  tb_sans :: "bytes list"
  tb_tls_cert_sha256 :: "bytes option"
  tb_hardware_binding :: "hardware_binding option"

definition MAX_TBS_LEN :: nat where "MAX_TBS_LEN = 16 * 1024"
definition MAX_SANS :: nat where "MAX_SANS = 32"

section \<open>Encoding\<close>

definition put_kem :: "kem_public_key option \<Rightarrow> bytes" where
  "put_kem o' = (case o' of Some k \<Rightarrow> put16 (kem_pk_to_bytes k) | None \<Rightarrow> put16 [])"

definition put_sans :: "bytes list \<Rightarrow> bytes" where
  "put_sans sans = to_be_bytes (word_of_nat (length sans) :: u16) @ concat (map put16 sans)"

definition put_tls :: "bytes option \<Rightarrow> bytes" where
  "put_tls o' = (case o' of Some h \<Rightarrow> put16 h | None \<Rightarrow> put16 [])"

definition put_hw :: "hardware_binding option \<Rightarrow> bytes" where
  "put_hw o' = (case o' of Some b \<Rightarrow> put16 (binding_encode b) | None \<Rightarrow> put16 [])"

definition tbs_encode :: "tbs_certificate \<Rightarrow> bytes" where
  "tbs_encode t =
     [tb_version t] @ tb_serial t @ put16 (tb_tenant_id t) @ tb_subject_id t @ [kind_u8 (tb_kind t)] @
     vk_to_bytes (tb_signing_key t) @ put_kem (tb_kem_key t) @
     to_be_bytes (tb_not_before t) @ to_be_bytes (tb_not_after t) @ tb_issuer_key_id t @
     put_sans (tb_sans t) @ put_tls (tb_tls_cert_sha256 t) @ put_hw (tb_hardware_binding t)"

section \<open>Decoding\<close>

definition rd_kind :: "reader \<Rightarrow> cert_error + subject_kind \<times> reader" where
  "rd_kind r = bind_res (rd_u8 r) (\<lambda>(v, r). bind_res (kind_from_u8 v) (\<lambda>k. Inr (k, r)))"

definition rd_signing_key :: "prims \<Rightarrow> reader \<Rightarrow> cert_error + hybrid_verifying_key \<times> reader" where
  "rd_signing_key P r = bind_res (rd_take HYBRID_VERIFYING_KEY_BYTES r) (\<lambda>(b, r).
     bind_res (map_err (\<lambda>e. Encoding (crypto_display e)) (vk_from_bytes P b)) (\<lambda>k. Inr (k, r)))"

definition rd_kem_key :: "reader \<Rightarrow> cert_error + kem_public_key option \<times> reader" where
  "rd_kem_key r = bind_res (rd_bytes16 HYBRID_KEM_PUBLIC_KEY_BYTES r) (\<lambda>(kem_bytes, r).
     if length kem_bytes = 0 then Inr (None, r)
     else if length kem_bytes = HYBRID_KEM_PUBLIC_KEY_BYTES then
       bind_res (map_err (\<lambda>e. Encoding (crypto_display e)) (kem_pk_from_bytes kem_bytes))
         (\<lambda>k. Inr (Some k, r))
     else Inl (Encoding (''bad kem key length '' @ show_nat (length kem_bytes))))"

definition rd_sans :: "reader \<Rightarrow> cert_error + bytes list \<times> reader" where
  "rd_sans r = bind_res (rd_u16 r) (\<lambda>(n_sans, r).
     if unat n_sans > MAX_SANS then Inl (Encoding ''too many sans'')
     else rd_repeat (unat n_sans) rd_string16 r)"

definition rd_tls :: "reader \<Rightarrow> cert_error + bytes option \<times> reader" where
  "rd_tls r = bind_res (rd_bytes16 32 r) (\<lambda>(tls, r).
     if length tls = 0 then Inr (None, r)
     else if length tls = 32 then Inr (Some tls, r)
     else Inl (Encoding (''bad tls hash length '' @ show_nat (length tls))))"

definition rd_hw :: "reader \<Rightarrow> cert_error + hardware_binding option \<times> reader" where
  "rd_hw r = bind_res (rd_bytes16 MAX_BINDING_BYTES r) (\<lambda>(hw_bytes, r).
     if hw_bytes = [] then Inr (None, r)
     else bind_res (binding_decode hw_bytes) (\<lambda>b. Inr (Some b, r)))"

definition tbs_decode :: "prims \<Rightarrow> bytes \<Rightarrow> cert_error + tbs_certificate" where
  "tbs_decode P bs =
     (if length bs > MAX_TBS_LEN then Inl (Encoding ''tbs too large'')
      else
        let r = \<lparr>rd_buf = bs, rd_pos = 0\<rparr> in
        bind_res (rd_u8 r) (\<lambda>(version, r).
        if version \<noteq> 2 then Inl (Encoding (''unsupported version '' @ show_nat (unat version))) else
        bind_res (rd_array 16 r) (\<lambda>(serial, r).
        bind_res (rd_string16 r) (\<lambda>(tenant_id, r).
        bind_res (rd_array 16 r) (\<lambda>(subject_id, r).
        bind_res (rd_kind r) (\<lambda>(kind, r).
        bind_res (rd_signing_key P r) (\<lambda>(signing_key, r).
        bind_res (rd_kem_key r) (\<lambda>(kem_key, r).
        bind_res (rd_i64 r) (\<lambda>(not_before, r).
        bind_res (rd_i64 r) (\<lambda>(not_after, r).
        bind_res (rd_array 32 r) (\<lambda>(issuer_key_id, r).
        bind_res (rd_sans r) (\<lambda>(sans, r).
        bind_res (rd_tls r) (\<lambda>(tls_cert_sha256, r).
        bind_res (rd_hw r) (\<lambda>(hardware_binding, r).
        bind_res (rd_done r) (\<lambda>_.
          Inr \<lparr>tb_version = version, tb_serial = serial, tb_tenant_id = tenant_id,
               tb_subject_id = subject_id, tb_kind = kind, tb_signing_key = signing_key,
               tb_kem_key = kem_key, tb_not_before = not_before, tb_not_after = not_after,
               tb_issuer_key_id = issuer_key_id, tb_sans = sans,
               tb_tls_cert_sha256 = tls_cert_sha256, tb_hardware_binding = hardware_binding\<rparr>)))))))))))))))"

section \<open>The certificate\<close>

record certificate =
  ce_tbs :: tbs_certificate
  ce_signature :: hybrid_signature

definition cert_sign :: "prims \<Rightarrow> bytes \<Rightarrow> tbs_certificate \<Rightarrow> hybrid_signing_keypair \<Rightarrow> crypto_error + certificate" where
  "cert_sign P rnd tbs issuer =
     bind_res (hybrid_sign P rnd issuer Cert (tbs_encode tbs)) (\<lambda>sig. Inr \<lparr>ce_tbs = tbs, ce_signature = sig\<rparr>)"

definition cert_encode :: "certificate \<Rightarrow> bytes" where
  "cert_encode c =
     (let tbs = tbs_encode (ce_tbs c)
      in to_be_bytes (word_of_nat (length tbs) :: u32) @ tbs @ sig_to_bytes (ce_signature c))"

definition cert_decode :: "prims \<Rightarrow> bytes \<Rightarrow> cert_error + certificate" where
  "cert_decode P bs =
     (if length bs < 4 then Inl (Encoding ''truncated'')
      else let len = unat (from_be_bytes (slice bs 0 4) :: u32)
           in if len > MAX_TBS_LEN \<or> length bs \<noteq> 4 + len + HYBRID_SIGNATURE_BYTES
              then Inl (Encoding ''bad length'')
              else bind_res (tbs_decode P (slice bs 4 (4 + len))) (\<lambda>tbs.
                   bind_res (map_err (\<lambda>e. Encoding (crypto_display e)) (sig_from_bytes (drop (4 + len) bs)))
                     (\<lambda>sig. Inr \<lparr>ce_tbs = tbs, ce_signature = sig\<rparr>)))"

definition cert_id :: "prims \<Rightarrow> certificate \<Rightarrow> bytes" where
  "cert_id P c = p_sha256 P (cert_encode c)"

definition verify_signature :: "prims \<Rightarrow> certificate \<Rightarrow> hybrid_verifying_key \<Rightarrow> cert_error + unit" where
  "verify_signature P c issuer =
     map_err (\<lambda>_. Signature) (hybrid_verify P issuer Cert (tbs_encode (ce_tbs c)) (ce_signature c))"

definition is_valid_at :: "certificate \<Rightarrow> int \<Rightarrow> bool" where
  "is_valid_at c now = (sint (tb_not_before (ce_tbs c)) \<le> now \<and> now \<le> sint (tb_not_after (ce_tbs c)))"

section \<open>Fields\<close>

lemma kind_from_u8_iff: "kind_from_u8 v = Inr k \<longleftrightarrow> v = kind_u8 k"
  by (cases k) (auto simp: kind_from_u8_def)

interpretation f_kind: field_codec "\<lambda>k. [kind_u8 k]" rd_kind "\<lambda>_. True"
proof
  show "rd_kind (cursor pre ([kind_u8 x] @ rest)) = Inr (x, cursor (pre @ [kind_u8 x]) rest)"
    if "length (pre @ [kind_u8 x] @ rest) < 2 ^ 64" for x pre rest
  proof -
    have "kind_from_u8 (kind_u8 x) = Inr x" by (simp add: kind_from_u8_iff)
    then show ?thesis using f_u8.read[OF _ that] by (simp add: rd_kind_def)
  qed
  show "\<exists>rest. True \<and> bs = [kind_u8 x] @ rest \<and> r = cursor (pre @ [kind_u8 x]) rest"
    if "rd_kind (cursor pre bs) = Inr (x, r)" for pre bs x r
    using that f_u8.read_sound[of pre bs] by (fastforce simp: rd_kind_def res_simps kind_from_u8_iff)
qed

lemma vk_bytes_length: "vk_wf P vk \<Longrightarrow> length (vk_to_bytes vk) = HYBRID_VERIFYING_KEY_BYTES"
  by (simp add: vk_wf_def vk_to_bytes_def HYBRID_VERIFYING_KEY_BYTES_def key_sizes)

interpretation f_vk: field_codec vk_to_bytes "rd_signing_key P" "vk_wf P" for P
proof
  show "rd_signing_key P (cursor pre (vk_to_bytes x @ rest)) = Inr (x, cursor (pre @ vk_to_bytes x) rest)"
    if "vk_wf P x" "length (pre @ vk_to_bytes x @ rest) < 2 ^ 64" for x pre rest
    using take_cursor[OF vk_bytes_length[OF that(1)] that(2)] vk.from_to[OF that(1)]
    by (simp add: rd_signing_key_def)
  show "\<exists>rest. vk_wf P x \<and> bs = vk_to_bytes x @ rest \<and> r = cursor (pre @ vk_to_bytes x) rest"
    if "rd_signing_key P (cursor pre bs) = Inr (x, r)" for pre bs x r
  proof -
    from that obtain b where b: "rd_take HYBRID_VERIFYING_KEY_BYTES (cursor pre bs) = Inr (b, r)"
      "vk_from_bytes P b = Inr x"
      by (auto simp: rd_signing_key_def res_simps)
    from take_cursor_sound[OF b(1)] vk.to_from[OF b(2)] show ?thesis by auto
  qed
qed

definition kem_opt_ok :: "kem_public_key option \<Rightarrow> bool" where
  "kem_opt_ok o' = (case o' of None \<Rightarrow> True | Some k \<Rightarrow> kem_pk_wf k)"

lemma kem_len: "HYBRID_KEM_PUBLIC_KEY_BYTES = 1216"
  by (simp add: HYBRID_KEM_PUBLIC_KEY_BYTES_def key_sizes)

interpretation f_kem: field_codec put_kem rd_kem_key kem_opt_ok
proof
  show "rd_kem_key (cursor pre (put_kem x @ rest)) = Inr (x, cursor (pre @ put_kem x) rest)"
    if "kem_opt_ok x" "length (pre @ put_kem x @ rest) < 2 ^ 64" for x pre rest
  proof (cases x)
    case None
    then show ?thesis
      using f_bytes16.read[of HYBRID_KEM_PUBLIC_KEY_BYTES "[]" pre rest] that
      by (simp add: rd_kem_key_def put_kem_def fits16_def)
  next
    case (Some k)
    then have k: "kem_pk_wf k" using that by (simp add: kem_opt_ok_def)
    then show ?thesis
      using f_bytes16.read[of HYBRID_KEM_PUBLIC_KEY_BYTES "kem_pk_to_bytes k" pre rest] that Some
        length_kem_pk_bytes[OF k] kem_pk.from_to[OF k]
      by (auto simp: rd_kem_key_def put_kem_def fits16_def kem_len)
  qed
  show "\<exists>rest. kem_opt_ok x \<and> bs = put_kem x @ rest \<and> r = cursor (pre @ put_kem x) rest"
    if "rd_kem_key (cursor pre bs) = Inr (x, r)" for pre bs x r
  proof -
    from that obtain b where b: "rd_bytes16 HYBRID_KEM_PUBLIC_KEY_BYTES (cursor pre bs) = Inr (b, r)"
      and x: "(b = [] \<and> x = None) \<or> (\<exists>k. kem_pk_from_bytes b = Inr k \<and> x = Some k)"
      by (auto simp: rd_kem_key_def res_simps split: if_splits)
    from f_bytes16.read_sound[OF b] x kem_pk.to_from show ?thesis
      by (fastforce simp: put_kem_def kem_opt_ok_def)
  qed
qed

definition sans_ok :: "bytes list \<Rightarrow> bool" where
  "sans_ok sans = (length sans \<le> 32 \<and> list_all string_ok sans)"

interpretation f_sans: field_codec put_sans rd_sans sans_ok
proof
  show "rd_sans (cursor pre (put_sans x @ rest)) = Inr (x, cursor (pre @ put_sans x) rest)"
    if ok: "sans_ok x" and len: "length (pre @ put_sans x @ rest) < 2 ^ 64" for x pre rest
  proof -
    let ?w = "word_of_nat (length x) :: u16"
    have w: "unat ?w = length x" using ok by (intro unat_word_of_nat16) (simp add: sans_ok_def)
    have 1: "rd_u16 (cursor pre (to_be_bytes ?w @ concat (map put16 x) @ rest)) =
        Inr (?w, cursor (pre @ to_be_bytes ?w) (concat (map put16 x) @ rest))"
      using len by (intro f_u16.read) (simp_all add: put_sans_def)
    have 2: "rd_repeat (unat ?w) rd_string16 (cursor (pre @ to_be_bytes ?w) (concat (map put16 x) @ rest)) =
        Inr (x, cursor ((pre @ to_be_bytes ?w) @ concat (map put16 x)) rest)"
      using len ok w by (intro f_string16.read_repeat) (simp_all add: put_sans_def sans_ok_def)
    show ?thesis using 1 2 w ok by (simp add: rd_sans_def put_sans_def sans_ok_def MAX_SANS_def)
  qed
  show "\<exists>rest. sans_ok x \<and> bs = put_sans x @ rest \<and> r = cursor (pre @ put_sans x) rest"
    if "rd_sans (cursor pre bs) = Inr (x, r)" for pre bs x r
  proof -
    from that obtain n r1 where n: "rd_u16 (cursor pre bs) = Inr (n, r1)" "unat n \<le> 32"
      and x: "rd_repeat (unat n) rd_string16 r1 = Inr (x, r)"
      by (auto simp: rd_sans_def res_simps MAX_SANS_def not_less split: if_splits)
    from f_u16.read_sound[OF n(1)] obtain b where b: "bs = to_be_bytes n @ b"
      "r1 = cursor (pre @ to_be_bytes n) b" by blast
    from f_string16.read_repeat_sound[OF x[unfolded b(2)]] obtain rest where
      rest: "length x = unat n" "list_all string_ok x" "b = concat (map put16 x) @ rest"
        "r = cursor ((pre @ to_be_bytes n) @ concat (map put16 x)) rest" by blast
    have "word_of_nat (length x) = n" using rest(1) by simp
    with b rest n(2) show ?thesis by (simp add: put_sans_def sans_ok_def)
  qed
qed

definition tls_ok :: "bytes option \<Rightarrow> bool" where
  "tls_ok o' = (case o' of None \<Rightarrow> True | Some h \<Rightarrow> length h = 32)"

interpretation f_tls: field_codec put_tls rd_tls tls_ok
proof
  show "rd_tls (cursor pre (put_tls x @ rest)) = Inr (x, cursor (pre @ put_tls x) rest)"
    if "tls_ok x" "length (pre @ put_tls x @ rest) < 2 ^ 64" for x pre rest
    using f_bytes16.read[of 32 "case x of None \<Rightarrow> [] | Some h \<Rightarrow> h" pre rest] that
    by (cases x) (auto simp: rd_tls_def put_tls_def tls_ok_def fits16_def)
  show "\<exists>rest. tls_ok x \<and> bs = put_tls x @ rest \<and> r = cursor (pre @ put_tls x) rest"
    if "rd_tls (cursor pre bs) = Inr (x, r)" for pre bs x r
  proof -
    from that obtain b where b: "rd_bytes16 32 (cursor pre bs) = Inr (b, r)"
      and x: "(b = [] \<and> x = None) \<or> (length b = 32 \<and> x = Some b)"
      by (auto simp: rd_tls_def res_simps split: if_splits)
    from f_bytes16.read_sound[OF b] x show ?thesis by (auto simp: put_tls_def tls_ok_def)
  qed
qed

definition hw_ok :: "hardware_binding option \<Rightarrow> bool" where
  "hw_ok o' = (case o' of None \<Rightarrow> True | Some b \<Rightarrow> binding_ok b)"

lemma binding_length: "binding_ok b \<Longrightarrow> length (binding_encode b) \<le> 12288"
  by (simp add: binding_ok_def)

interpretation f_hw: field_codec put_hw rd_hw hw_ok
proof
  show "rd_hw (cursor pre (put_hw x @ rest)) = Inr (x, cursor (pre @ put_hw x) rest)"
    if "hw_ok x" "length (pre @ put_hw x @ rest) < 2 ^ 64" for x pre rest
  proof (cases x)
    case None
    then show ?thesis
      using f_bytes16.read[of MAX_BINDING_BYTES "[]" pre rest] that
      by (simp add: rd_hw_def put_hw_def fits16_def)
  next
    case (Some b)
    then have b: "binding_ok b" using that by (simp add: hw_ok_def)
    then show ?thesis
      using f_bytes16.read[of MAX_BINDING_BYTES "binding_encode b" pre rest] that Some
        binding_length[OF b] hb.from_to[OF b]
      by (simp add: rd_hw_def put_hw_def fits16_def MAX_BINDING_BYTES_def)
  qed
  show "\<exists>rest. hw_ok x \<and> bs = put_hw x @ rest \<and> r = cursor (pre @ put_hw x) rest"
    if "rd_hw (cursor pre bs) = Inr (x, r)" for pre bs x r
  proof -
    from that obtain b where b: "rd_bytes16 MAX_BINDING_BYTES (cursor pre bs) = Inr (b, r)"
      and x: "(b = [] \<and> x = None) \<or> (\<exists>k. binding_decode b = Inr k \<and> x = Some k)"
      by (auto simp: rd_hw_def res_simps split: if_splits)
    from f_bytes16.read_sound[OF b] x hb.to_from show ?thesis
      by (fastforce simp: put_hw_def hw_ok_def)
  qed
qed

section \<open>The whole certificate\<close>

definition tbs_ok :: "prims \<Rightarrow> tbs_certificate \<Rightarrow> bool" where
  "tbs_ok P t = (tb_version t = 2 \<and> length (tb_serial t) = 16 \<and> string_ok (tb_tenant_id t) \<and>
     length (tb_subject_id t) = 16 \<and> vk_wf P (tb_signing_key t) \<and> kem_opt_ok (tb_kem_key t) \<and>
     length (tb_issuer_key_id t) = 32 \<and> sans_ok (tb_sans t) \<and> tls_ok (tb_tls_cert_sha256 t) \<and>
     hw_ok (tb_hardware_binding t) \<and> length (tbs_encode t) \<le> 16384)"

lemma read_u8_Cons: "length (pre @ x # rest) < 2 ^ 64 \<Longrightarrow>
    rd_u8 (cursor pre (x # rest)) = Inr (x, cursor (pre @ [x]) rest)"
  using f_u8.read[of pre x rest] by simp

lemma read_kind_Cons: "length (pre @ kind_u8 x # rest) < 2 ^ 64 \<Longrightarrow>
    rd_kind (cursor pre (kind_u8 x # rest)) = Inr (x, cursor (pre @ [kind_u8 x]) rest)"
  using f_kind.read[of pre x rest] by simp

lemma read_array_append: "\<lbrakk>length x = n; length (pre @ x @ rest) < 2 ^ 64\<rbrakk> \<Longrightarrow>
    rd_array n (cursor pre (x @ rest)) = Inr (x, cursor (pre @ x) rest)"
  using f_array.read[of x n pre rest] by simp

lemmas field_reads =
  read_u8_Cons read_kind_Cons read_array_append f_string16.read f_vk.read f_kem.read f_i64.read
  f_sans.read f_tls.read f_hw.read f_hw.read_end

lemma tbs_decode_encode:
  assumes "tbs_ok P t"
  shows "tbs_decode P (tbs_encode t) = Inr t"
proof -
  have len: "length (tbs_encode t) < 2 ^ 64" "length (tbs_encode t) \<le> MAX_TBS_LEN"
    using assms by (simp_all add: tbs_ok_def MAX_TBS_LEN_def)
  note ok = assms[unfolded tbs_ok_def]
  have fin: "rd_done (cursor pre []) = Inr ()" for pre by (simp add: done_cursor)
  show ?thesis
    using ok len
    by (simp add: tbs_decode_def cursor_start Let_def field_reads fin tbs_encode_def)
qed

lemma tbs_decode_sound:
  assumes "tbs_decode P bs = Inr t"
  shows "tbs_ok P t \<and> tbs_encode t = bs"
proof -
  from assms obtain v r1 se r2 te r3 su r4 ki r5 sk r6 ke r7 nb r8 na r9 isid r10 sa r11 tl r12 hw r13
    where max: "length bs \<le> 16384"
    and 1: "rd_u8 (cursor [] bs) = Inr (v, r1)" and v: "v = 2" and 2: "rd_array 16 r1 = Inr (se, r2)"
    and 3: "rd_string16 r2 = Inr (te, r3)" and 4: "rd_array 16 r3 = Inr (su, r4)"
    and 5: "rd_kind r4 = Inr (ki, r5)" and 6: "rd_signing_key P r5 = Inr (sk, r6)"
    and 7: "rd_kem_key r6 = Inr (ke, r7)" and 8: "rd_i64 r7 = Inr (nb, r8)" and 9: "rd_i64 r8 = Inr (na, r9)"
    and 10: "rd_array 32 r9 = Inr (isid, r10)" and 11: "rd_sans r10 = Inr (sa, r11)"
    and 12: "rd_tls r11 = Inr (tl, r12)" and 13: "rd_hw r12 = Inr (hw, r13)" and fin: "rd_done r13 = Inr ()"
    and t: "t = \<lparr>tb_version = v, tb_serial = se, tb_tenant_id = te, tb_subject_id = su, tb_kind = ki,
       tb_signing_key = sk, tb_kem_key = ke, tb_not_before = nb, tb_not_after = na, tb_issuer_key_id = isid,
       tb_sans = sa, tb_tls_cert_sha256 = tl, tb_hardware_binding = hw\<rparr>"
    by (auto simp: tbs_decode_def cursor_start MAX_TBS_LEN_def Let_def res_simps split: if_splits)
  obtain b1 where b1: "bs = [v] @ b1" "r1 = cursor ([] @ [v]) b1" using f_u8.read_sound[OF 1] by blast
  note 2 = 2[unfolded b1(2)]
  obtain b2 where b2: "b1 = se @ b2" "length se = 16" and c2: "r2 = cursor (([] @ [v]) @ se) b2"
    using f_array.read_sound[OF 2] by auto
  note 3 = 3[unfolded c2]
  obtain b3 where b3: "b2 = put16 te @ b3" "string_ok te" and c3: "r3 = cursor ((([] @ [v]) @ se) @ put16 te) b3"
    using f_string16.read_sound[OF 3] by blast
  obtain b4 where b4: "b3 = su @ b4" "length su = 16" and c4: "\<exists>p. r4 = cursor p b4"
    using f_array.read_sound[OF 4[unfolded c3]] by auto
  then obtain p4 where c4: "r4 = cursor p4 b4" by blast
  obtain b5 p5 where b5: "b4 = [kind_u8 ki] @ b5" and c5: "r5 = cursor p5 b5"
    using f_kind.read_sound[OF 5[unfolded c4]] by blast
  obtain b6 p6 where b6: "b5 = vk_to_bytes sk @ b6" "vk_wf P sk" and c6: "r6 = cursor p6 b6"
    using f_vk.read_sound[OF 6[unfolded c5]] by blast
  obtain b7 p7 where b7: "b6 = put_kem ke @ b7" "kem_opt_ok ke" and c7: "r7 = cursor p7 b7"
    using f_kem.read_sound[OF 7[unfolded c6]] by blast
  obtain b8 p8 where b8: "b7 = to_be_bytes nb @ b8" and c8: "r8 = cursor p8 b8"
    using f_i64.read_sound[OF 8[unfolded c7]] by blast
  obtain b9 p9 where b9: "b8 = to_be_bytes na @ b9" and c9: "r9 = cursor p9 b9"
    using f_i64.read_sound[OF 9[unfolded c8]] by blast
  obtain b10 p10 where b10: "b9 = isid @ b10" "length isid = 32" and c10: "r10 = cursor p10 b10"
    using f_array.read_sound[OF 10[unfolded c9]] by auto
  obtain b11 p11 where b11: "b10 = put_sans sa @ b11" "sans_ok sa" and c11: "r11 = cursor p11 b11"
    using f_sans.read_sound[OF 11[unfolded c10]] by blast
  obtain b12 p12 where b12: "b11 = put_tls tl @ b12" "tls_ok tl" and c12: "r12 = cursor p12 b12"
    using f_tls.read_sound[OF 12[unfolded c11]] by blast
  obtain b13 p13 where b13: "b12 = put_hw hw @ b13" "hw_ok hw" and c13: "r13 = cursor p13 b13"
    using f_hw.read_sound[OF 13[unfolded c12]] by blast
  have "b13 = []" using fin c13 done_cursor by simp
  then have enc: "tbs_encode t = bs"
    using b1(1) b2(1) b3(1) b4(1) b5 b6(1) b7(1) b8 b9 b10(1) b11(1) b12(1) b13(1)
    by (simp add: t tbs_encode_def)
  show ?thesis
    using enc max v b2(2) b3(2) b4(2) b6(2) b7(2) b10(2) b11(2) b12(2) b13(2)
    by (simp add: tbs_ok_def) (simp add: t)
qed

interpretation tbs: byte_codec tbs_encode "tbs_decode P" "tbs_ok P" for P
  by unfold_locales (rule tbs_decode_encode, assumption, erule tbs_decode_sound)

definition cert_ok :: "prims \<Rightarrow> certificate \<Rightarrow> bool" where
  "cert_ok P c = (tbs_ok P (ce_tbs c) \<and> sig_wf (ce_signature c))"

lemma sig_bytes_length: "sig_wf s \<Longrightarrow> length (sig_to_bytes s) = HYBRID_SIGNATURE_BYTES"
  by (simp add: sig_wf_def sig_to_bytes_def HYBRID_SIGNATURE_BYTES_def key_sizes)

interpretation cert: byte_codec cert_encode "cert_decode P" "cert_ok P" for P
proof
  fix x assume ok: "cert_ok P x"
  let ?t = "tbs_encode (ce_tbs x)"
  have len: "length ?t \<le> 16384" using ok by (simp add: cert_ok_def tbs_ok_def)
  have "unat (word_of_nat (length ?t) :: u32) = length ?t"
    using len by (intro unat_word_of_nat32) simp
  then show "cert_decode P (cert_encode x) = Inr x"
    using len ok tbs.from_to[of P "ce_tbs x"] sig.from_to[of "ce_signature x"]
      sig_bytes_length[of "ce_signature x"]
    by (simp add: cert_decode_def cert_encode_def Let_def slice_def MAX_TBS_LEN_def cert_ok_def)
next
  fix bs x assume dec: "cert_decode P bs = Inr x"
  let ?w = "from_be_bytes (slice bs 0 4) :: u32" and ?n = "unat (from_be_bytes (slice bs 0 4) :: u32)"
  from dec have len: "4 \<le> length bs" "?n \<le> 16384" "length bs = 4 + ?n + HYBRID_SIGNATURE_BYTES"
    and tbs: "tbs_decode P (slice bs 4 (4 + ?n)) = Inr (ce_tbs x)"
    and sg: "sig_from_bytes (drop (4 + ?n) bs) = Inr (ce_signature x)"
    by (auto simp: cert_decode_def Let_def MAX_TBS_LEN_def res_simps split: if_splits)
  note t = tbs.to_from[OF tbs] and s = sig.to_from[OF sg]
  have "length (tbs_encode (ce_tbs x)) = ?n" using t len by simp
  then have "to_be_bytes (word_of_nat (length (tbs_encode (ce_tbs x))) :: u32) = slice bs 0 4"
    using len(1) by (simp add: be_bytes_round)
  moreover have "bs = slice bs 0 4 @ slice bs 4 (4 + ?n) @ drop (4 + ?n) bs"
    using append_take_drop_id[of ?n "drop 4 bs"] by (simp add: slice_def add.commute)
  ultimately show "cert_ok P x \<and> cert_encode x = bs"
    using t s by (simp add: cert_ok_def cert_encode_def Let_def)
qed

end
