(* ===== verification/Cert_Chain.thy ===== *)
theory Cert_Chain
  imports Cert_Codec
begin

text \<open>
  \<open>avon-crypto/src/cert/verify.rs\<close> and \<open>crl.rs\<close>: verification of a leaf through an issuing CA to a
  root, and composite-signed revocation lists.  Times are Unix seconds, read as signed integers.
\<close>

section \<open>Chains\<close>

record verified_certificate =
  vc_cert :: certificate
  vc_chain :: "bytes list"

text \<open>A verifier is the list of roots \<open>ChainVerifier::new\<close> accepted.\<close>

definition check_root :: "prims \<Rightarrow> certificate \<Rightarrow> cert_error + unit" where
  "check_root P root =
     (if tb_kind (ce_tbs root) \<noteq> RootCa then Inl (WrongKind ''RootCa'' (tb_kind (ce_tbs root)))
      else if tb_issuer_key_id (ce_tbs root) \<noteq> key_id P (tb_signing_key (ce_tbs root))
        then Inl (Chain ''root is not self-issued'')
      else verify_signature P root (tb_signing_key (ce_tbs root)))"

fun check_roots :: "prims \<Rightarrow> certificate list \<Rightarrow> cert_error + unit" where
  "check_roots P [] = Inr ()"
| "check_roots P (root # roots) = bind_res (check_root P root) (\<lambda>_. check_roots P roots)"

definition verifier_new :: "prims \<Rightarrow> certificate list \<Rightarrow> cert_error + certificate list" where
  "verifier_new P roots = bind_res (check_roots P roots) (\<lambda>_. Inr roots)"

definition check_validity :: "certificate \<Rightarrow> int \<Rightarrow> cert_error + unit" where
  "check_validity c now =
     (if now < sint (tb_not_before (ce_tbs c)) then Inl NotYetValid
      else if now > sint (tb_not_after (ce_tbs c)) then Inl Expired
      else Inr ())"

definition chain_verify ::
  "prims \<Rightarrow> certificate list \<Rightarrow> certificate \<Rightarrow> certificate list \<Rightarrow> int \<Rightarrow> cert_error + verified_certificate" where
  "chain_verify P roots leaf intermediates now =
     (if tb_kind (ce_tbs leaf) \<notin> {Device, Gateway, Service}
      then Inl (WrongKind ''Device|Gateway|Service'' (tb_kind (ce_tbs leaf)))
      else
        bind_res (check_validity leaf now) (\<lambda>_.
        bind_res (ok_or UnknownIssuer
          (find (\<lambda>c. key_id P (tb_signing_key (ce_tbs c)) = tb_issuer_key_id (ce_tbs leaf)) intermediates)) (\<lambda>issuing.
        if tb_kind (ce_tbs issuing) \<noteq> IssuingCa
        then Inl (WrongKind ''IssuingCa'' (tb_kind (ce_tbs issuing)))
        else
          bind_res (check_validity issuing now) (\<lambda>_.
          bind_res (verify_signature P leaf (tb_signing_key (ce_tbs issuing))) (\<lambda>_.
          bind_res (ok_or UnknownIssuer
            (find (\<lambda>r. key_id P (tb_signing_key (ce_tbs r)) = tb_issuer_key_id (ce_tbs issuing)) roots)) (\<lambda>root.
          bind_res (check_validity root now) (\<lambda>_.
          bind_res (verify_signature P issuing (tb_signing_key (ce_tbs root))) (\<lambda>_.
            Inr \<lparr>vc_cert = leaf, vc_chain = [cert_id P root, cert_id P issuing, cert_id P leaf]\<rparr>))))))))"

lemma check_validity_iff: "check_validity c now = Inr () \<longleftrightarrow> is_valid_at c now"
  by (auto simp: check_validity_def is_valid_at_def)

lemma check_roots_iff: "check_roots P roots = Inr () \<longleftrightarrow> (\<forall>r \<in> set roots. check_root P r = Inr ())"
  by (induction roots) (auto simp: res_simps)

lemma find_SomeD: "find p xs = Some x \<Longrightarrow> x \<in> set xs \<and> p x"
  by (metis find_Some_iff nth_mem)

definition signed_by :: "prims \<Rightarrow> certificate \<Rightarrow> hybrid_verifying_key \<Rightarrow> bool" where
  "signed_by P c vk = (hybrid_verify P vk Cert (tbs_encode (ce_tbs c)) (ce_signature c) = Inr ())"

lemma verify_signature_iff: "verify_signature P c vk = Inr () \<longleftrightarrow> signed_by P c vk"
  by (simp add: verify_signature_def signed_by_def res_simps)

section \<open>Revocation lists\<close>

record crl =
  cr_version :: u64
  cr_issued_at :: i64
  cr_serials :: "bytes list"

definition MAX_SERIALS :: nat where "MAX_SERIALS = 1000000"

definition crl_encode_tbs :: "crl \<Rightarrow> bytes" where
  "crl_encode_tbs c = to_be_bytes (cr_version c) @ to_be_bytes (cr_issued_at c) @
     to_be_bytes (word_of_nat (length (cr_serials c)) :: u32) @ concat (cr_serials c)"

text \<open>\<open>chunks_exact(16)\<close>.\<close>

fun chunks16 :: "bytes \<Rightarrow> bytes list" where
  "chunks16 bs = (if length bs < 16 then [] else take 16 bs # chunks16 (drop 16 bs))"

declare chunks16.simps [simp del]

definition crl_decode_tbs :: "bytes \<Rightarrow> cert_error + crl" where
  "crl_decode_tbs bs =
     (if length bs < 20 then Inl (Encoding ''crl truncated'')
      else let count = unat (from_be_bytes (slice bs 16 20) :: u32)
           in if count > MAX_SERIALS \<or> length bs \<noteq> 20 + count * 16 then Inl (Encoding ''crl length'')
              else Inr \<lparr>cr_version = from_be_bytes (slice bs 0 8), cr_issued_at = from_be_bytes (slice bs 8 16),
                        cr_serials = chunks16 (drop 20 bs)\<rparr>)"

definition crl_sign :: "prims \<Rightarrow> bytes \<Rightarrow> crl \<Rightarrow> hybrid_signing_keypair \<Rightarrow> crypto_error + bytes" where
  "crl_sign P rnd c issuer =
     bind_res (hybrid_sign P rnd issuer Crl (crl_encode_tbs c)) (\<lambda>s. Inr (sig_to_bytes s))"

definition crl_verify :: "prims \<Rightarrow> bytes \<Rightarrow> bytes \<Rightarrow> hybrid_verifying_key \<Rightarrow> cert_error + crl" where
  "crl_verify P tbs signature issuer =
     bind_res (map_err (\<lambda>_. Signature) (sig_from_bytes signature)) (\<lambda>sig.
     bind_res (map_err (\<lambda>_. Signature) (hybrid_verify P issuer Crl tbs sig)) (\<lambda>_. crl_decode_tbs tbs))"

definition crl_contains :: "crl \<Rightarrow> bytes \<Rightarrow> bool" where
  "crl_contains c serial = list_ex (\<lambda>s. s = serial) (cr_serials c)"

definition crl_ok :: "crl \<Rightarrow> bool" where
  "crl_ok c = (length (cr_serials c) \<le> 1000000 \<and> list_all (\<lambda>s. length s = 16) (cr_serials c))"

lemma chunks16_concat: "list_all (\<lambda>s. length s = 16) xs \<Longrightarrow> chunks16 (concat xs) = xs"
  by (induction xs) (simp_all add: chunks16.simps[of "[]"] chunks16.simps[of "_ @ _"])

lemma chunks16_sound:
  "length bs = n * 16 \<Longrightarrow>
   concat (chunks16 bs) = bs \<and> length (chunks16 bs) = n \<and> list_all (\<lambda>s. length s = 16) (chunks16 bs)"
proof (induction n arbitrary: bs)
  case (Suc n)
  then show ?case using Suc.IH[of "drop 16 bs"] by (simp add: chunks16.simps[of bs])
qed (simp add: chunks16.simps)

lemma length_concat16: "list_all (\<lambda>s. length s = 16) xs \<Longrightarrow> length (concat xs) = length xs * 16"
  by (induction xs) auto

interpretation crl: byte_codec crl_encode_tbs crl_decode_tbs crl_ok
proof
  fix x assume ok: "crl_ok x"
  then have n: "unat (word_of_nat (length (cr_serials x)) :: u32) = length (cr_serials x)"
    by (intro unat_word_of_nat32) (simp add: crl_ok_def)
  then show "crl_decode_tbs (crl_encode_tbs x) = Inr x"
    using ok length_concat16[of "cr_serials x"] chunks16_concat[of "cr_serials x"]
    by (simp add: crl_decode_tbs_def crl_encode_tbs_def crl_ok_def MAX_SERIALS_def slice_def Let_def)
next
  fix bs x assume dec: "crl_decode_tbs bs = Inr x"
  let ?n = "unat (from_be_bytes (slice bs 16 20) :: u32)"
  from dec have len: "20 \<le> length bs" "?n \<le> 1000000" "length bs = 20 + ?n * 16"
    and x: "x = \<lparr>cr_version = from_be_bytes (slice bs 0 8), cr_issued_at = from_be_bytes (slice bs 8 16),
                 cr_serials = chunks16 (drop 20 bs)\<rparr>"
    by (auto simp: crl_decode_tbs_def MAX_SERIALS_def Let_def split: if_splits)
  have ch: "concat (chunks16 (drop 20 bs)) = drop 20 bs" "length (chunks16 (drop 20 bs)) = ?n"
    "list_all (\<lambda>s. length s = 16) (chunks16 (drop 20 bs))"
    using chunks16_sound[of "drop 20 bs" ?n] len by auto
  have "slice bs 0 8 @ slice bs 8 16 @ slice bs 16 20 @ drop 20 bs = bs"
    using append_take_drop_id[of 8 "drop 8 bs"] append_take_drop_id[of 4 "drop 16 bs"]
      append_take_drop_id[of 8 bs]
    by (simp add: slice_def del: append_take_drop_id)
  then show "crl_ok x \<and> crl_encode_tbs x = bs"
    using x ch len by (simp add: crl_ok_def crl_encode_tbs_def be_bytes_round)
qed

section \<open>A sample chain\<close>

definition sample_kp :: "byte \<Rightarrow> hybrid_signing_keypair" where
  "sample_kp b = signing_generate toy (replicate 32 b) []"

definition sample_tbs :: "subject_kind \<Rightarrow> byte \<Rightarrow> byte \<Rightarrow> tbs_certificate" where
  "sample_tbs k subject issuer =
     \<lparr>tb_version = 2, tb_serial = replicate 16 subject, tb_tenant_id = ascii ''acme'',
      tb_subject_id = replicate 16 subject, tb_kind = k, tb_signing_key = verifying_key (sample_kp subject),
      tb_kem_key = None, tb_not_before = 100, tb_not_after = 200,
      tb_issuer_key_id = key_id toy (verifying_key (sample_kp issuer)), tb_sans = [ascii ''host.acme''],
      tb_tls_cert_sha256 = None, tb_hardware_binding = None\<rparr>"

definition sample_cert :: "subject_kind \<Rightarrow> byte \<Rightarrow> byte \<Rightarrow> certificate" where
  "sample_cert k subject issuer =
     \<lparr>ce_tbs = sample_tbs k subject issuer,
      ce_signature = (case cert_sign toy [] (sample_tbs k subject issuer) (sample_kp issuer) of
         Inr c \<Rightarrow> ce_signature c | Inl _ \<Rightarrow> \<lparr>sg_ed25519 = [], sg_mldsa = []\<rparr>)\<rparr>"

lemma sample_signed:
  "signed_by toy (sample_cert k s i) (verifying_key (sample_kp i))" "sig_wf (ce_signature (sample_cert k s i))"
proof -
  obtain sg where "hybrid_sign toy [] (sample_kp i) Cert (tbs_encode (sample_tbs k s i)) = Inr sg" "sig_wf sg"
    "hybrid_verify toy (verifying_key (sample_kp i)) Cert (tbs_encode (sample_tbs k s i)) sg = Inr ()"
    using sign_generated[OF toy_ed25519 toy_mldsa _ sample_kp_def] by fastforce
  then show "signed_by toy (sample_cert k s i) (verifying_key (sample_kp i))"
    "sig_wf (ce_signature (sample_cert k s i))"
    by (simp_all add: signed_by_def sample_cert_def cert_sign_def)
qed

lemma sample_key_id: "key_id toy (verifying_key (sample_kp b)) = replicate 32 b"
  by (simp add: key_id_def toy_def vk_to_bytes_def verifying_key_def sample_kp_def signing_generate_def
      ed_from_seed_def pad_def)

lemma sample_fields:
  "ce_tbs (sample_cert k s i) = sample_tbs k s i" "tb_kind (sample_tbs k s i) = k"
  "tb_signing_key (sample_tbs k s i) = verifying_key (sample_kp s)"
  "tb_issuer_key_id (sample_tbs k s i) = replicate 32 i"
  "tb_not_before (sample_tbs k s i) = 100" "tb_not_after (sample_tbs k s i) = 200"
  by (simp_all add: sample_cert_def sample_tbs_def sample_key_id)

lemma sample_chain_verifies:
  "verifier_new toy [sample_cert RootCa 1 1] = Inr [sample_cert RootCa 1 1]"
  "chain_verify toy [sample_cert RootCa 1 1] (sample_cert Device 3 2) [sample_cert IssuingCa 2 1] 150 =
     Inr \<lparr>vc_cert = sample_cert Device 3 2,
          vc_chain = [cert_id toy (sample_cert RootCa 1 1), cert_id toy (sample_cert IssuingCa 2 1),
                      cert_id toy (sample_cert Device 3 2)]\<rparr>"
proof -
  have sig: "verify_signature toy (sample_cert k s i) (verifying_key (sample_kp i)) = Inr ()" for k s i
    using sample_signed(1) by (simp add: verify_signature_iff)
  show "verifier_new toy [sample_cert RootCa 1 1] = Inr [sample_cert RootCa 1 1]"
    by (simp add: verifier_new_def check_root_def sample_fields sample_key_id sig)
  have val: "check_validity (sample_cert k s i) 150 = Inr ()" for k s i
    by (simp add: check_validity_def sample_fields)
  show "chain_verify toy [sample_cert RootCa 1 1] (sample_cert Device 3 2) [sample_cert IssuingCa 2 1] 150 =
     Inr \<lparr>vc_cert = sample_cert Device 3 2,
          vc_chain = [cert_id toy (sample_cert RootCa 1 1), cert_id toy (sample_cert IssuingCa 2 1),
                      cert_id toy (sample_cert Device 3 2)]\<rparr>"
    by (simp add: chain_verify_def sample_fields sample_key_id sig val)
qed

section \<open>Properties\<close>

text \<open>C11. Certificates are canonical: a byte string decodes to a certificate exactly when it is that
  certificate's encoding and the certificate is within the format's bounds.  A signature over the
  decoded certificate is therefore a signature over the received bytes.\<close>

theorem cert_round_trip: "cert_decode P bs = Inr c \<longleftrightarrow> cert_ok P c \<and> bs = cert_encode c"
  by (rule cert.from_b_iff)

text \<open>C12. Whatever \<open>verify\<close> accepts is a leaf of a permitted kind, signed by an issuing CA from the
  given intermediates, which is signed by one of the verifier's roots, which is a self-signed root;
  all three are within their validity period, and the chain lists their ids from root to leaf.\<close>

theorem chain_verify_sound:
  assumes "verifier_new P roots0 = Inr roots"
    and "chain_verify P roots leaf intermediates now = Inr v"
  shows "\<exists>issuing root. issuing \<in> set intermediates \<and> root \<in> set roots0 \<and>
     tb_kind (ce_tbs leaf) \<in> {Device, Gateway, Service} \<and> tb_kind (ce_tbs issuing) = IssuingCa \<and>
     tb_kind (ce_tbs root) = RootCa \<and>
     signed_by P leaf (tb_signing_key (ce_tbs issuing)) \<and>
     signed_by P issuing (tb_signing_key (ce_tbs root)) \<and> signed_by P root (tb_signing_key (ce_tbs root)) \<and>
     is_valid_at leaf now \<and> is_valid_at issuing now \<and> is_valid_at root now \<and>
     v = \<lparr>vc_cert = leaf, vc_chain = [cert_id P root, cert_id P issuing, cert_id P leaf]\<rparr>"
proof -
  have roots: "roots = roots0" "\<And>r. r \<in> set roots \<Longrightarrow> check_root P r = Inr ()"
    using assms(1) by (auto simp: verifier_new_def res_simps check_roots_iff)
  from assms(2) obtain issuing root where
    i: "find (\<lambda>c. key_id P (tb_signing_key (ce_tbs c)) = tb_issuer_key_id (ce_tbs leaf)) intermediates = Some issuing"
    and r: "find (\<lambda>c. key_id P (tb_signing_key (ce_tbs c)) = tb_issuer_key_id (ce_tbs issuing)) roots = Some root"
    and rest: "tb_kind (ce_tbs leaf) \<in> {Device, Gateway, Service}" "tb_kind (ce_tbs issuing) = IssuingCa"
      "check_validity leaf now = Inr ()" "check_validity issuing now = Inr ()" "check_validity root now = Inr ()"
      "verify_signature P leaf (tb_signing_key (ce_tbs issuing)) = Inr ()"
      "verify_signature P issuing (tb_signing_key (ce_tbs root)) = Inr ()"
      "v = \<lparr>vc_cert = leaf, vc_chain = [cert_id P root, cert_id P issuing, cert_id P leaf]\<rparr>"
    by (simp add: chain_verify_def res_simps split: if_splits) blast
  have "issuing \<in> set intermediates" "root \<in> set roots" using find_SomeD[OF i] find_SomeD[OF r] by auto
  moreover have "tb_kind (ce_tbs root) = RootCa" "signed_by P root (tb_signing_key (ce_tbs root))"
    using roots(2)[OF \<open>root \<in> set roots\<close>]
    by (auto simp: check_root_def verify_signature_iff split: if_splits)
  ultimately show ?thesis
    using rest roots(1) by (auto simp: check_validity_iff verify_signature_iff)
qed

theorem chain_verify_sound_witness:
  "\<exists>v issuing root. verifier_new toy [sample_cert RootCa 1 1] = Inr [sample_cert RootCa 1 1] \<and>
     chain_verify toy [sample_cert RootCa 1 1] (sample_cert Device 3 2) [sample_cert IssuingCa 2 1] 150 = Inr v \<and>
     issuing \<in> set [sample_cert IssuingCa 2 1] \<and> root \<in> set [sample_cert RootCa 1 1] \<and>
     signed_by toy (sample_cert Device 3 2) (tb_signing_key (ce_tbs issuing)) \<and>
     vc_chain v = [cert_id toy root, cert_id toy issuing, cert_id toy (sample_cert Device 3 2)]"
  using chain_verify_sound[OF sample_chain_verifies] sample_chain_verifies by fastforce

text \<open>A revocation list is accepted only if its bytes are the encoding of the list that is
  returned and carry a valid composite signature in the revocation domain, and whatever is so encoded
  and signed is accepted.\<close>

theorem crl_verify_exact:
  "(crl_verify P tbs sg issuer = Inr c \<longleftrightarrow>
      crl_ok c \<and> tbs = crl_encode_tbs c \<and>
      (\<exists>s. sig_wf s \<and> sg = sig_to_bytes s \<and> hybrid_verify P issuer Crl tbs s = Inr ()))"
  unfolding crl_verify_def res_simps sig.from_b_iff crl.from_b_iff by auto

end
