(* ===== verification/Establish.thy ===== *)
theory Establish
  imports Tunnel_Session Cert_Chain
begin

text \<open>
  \<open>avon-tunnel/src/establish.rs\<close>: session establishment over the control channel and the stand-alone
  rekey functions.  Random draws are arguments; the protobuf message \<open>SessionAnswer\<close> is a record.
\<close>

record session_answer =
  an_session_id :: bytes
  an_ct_e :: bytes
  an_ct_s :: bytes
  an_responder_index :: u32
  an_responder_endpoint :: bytes
  an_suite :: int
  an_signature :: bytes

record pending_offer =
  po_eph :: kem_keypair
  po_eph_pk_bytes :: bytes
  po_suites :: "suite list"

record established =
  eb_keys :: session_keys
  eb_suite :: suite
  eb_transcript_hash :: bytes

definition choose_suite :: "suite list \<Rightarrow> suite list \<Rightarrow> suite option" where
  "choose_suite offered preferred = find (\<lambda>p. p \<in> set offered) preferred"

definition suite_from_pb :: "int \<Rightarrow> tunnel_error + suite" where
  "suite_from_pb v =
     (if v < 0 \<or> v > 255 then Inl (Protocol ''suite'')
      else ok_or (Protocol ''unknown suite'') (suite_from_id (word_of_int v)))"

section \<open>Initiator\<close>

definition initiator_offer :: "prims \<Rightarrow> bytes \<Rightarrow> bytes \<Rightarrow> suite list \<Rightarrow> pending_offer" where
  "initiator_offer P rnd_x rnd_m suites =
     (let eph = kem_generate P rnd_x rnd_m
      in \<lparr>po_eph = eph, po_eph_pk_bytes = kem_pk_to_bytes (kem_public eph), po_suites = suites\<rparr>)"

definition complete_with ::
  "prims \<Rightarrow> pending_offer \<Rightarrow> session_answer \<Rightarrow> bytes \<Rightarrow> bytes \<Rightarrow> (kem_ciphertext \<Rightarrow> tunnel_error + bytes) \<Rightarrow>
   certificate \<Rightarrow> tunnel_error + established" where
  "complete_with P pending answer session_id my_cert_id decapsulate_static responder_cert =
     bind_res (suite_from_pb (an_suite answer)) (\<lambda>suite.
     if suite \<notin> set (po_suites pending)
     then Inl (Protocol ''responder chose a suite we did not offer'')
     else if an_session_id answer \<noteq> session_id then Inl (Protocol ''session id mismatch'')
     else
       let t = \<lparr>tr_session_id = session_id, tr_initiator_cert_id = my_cert_id,
                tr_responder_cert_id = cert_id P responder_cert, tr_eph_kem_pk = po_eph_pk_bytes pending,
                tr_ct_e = an_ct_e answer, tr_ct_s = an_ct_s answer, tr_suite = suite\<rparr>;
           hash = transcript_hash P t
       in
       bind_res (map_err (\<lambda>_. Protocol ''answer signature'') (sig_from_bytes (an_signature answer))) (\<lambda>sig.
       bind_res (map_err (\<lambda>_. Protocol ''answer signature invalid'')
         (hybrid_verify P (tb_signing_key (ce_tbs responder_cert)) Session hash sig)) (\<lambda>_.
       bind_res (map_err Crypto (kem_ct_from_bytes (an_ct_e answer))) (\<lambda>ct_e.
       bind_res (map_err Crypto (kem_ct_from_bytes (an_ct_s answer))) (\<lambda>ct_s.
       bind_res (map_err Crypto (decapsulate P (po_eph pending) ct_e)) (\<lambda>ss_e.
       bind_res (decapsulate_static ct_s) (\<lambda>ss_s.
       bind_res (map_err Crypto (derive_keys P t ss_e ss_s)) (\<lambda>keys.
         Inr \<lparr>eb_keys = keys, eb_suite = suite, eb_transcript_hash = hash\<rparr>))))))))"

definition complete ::
  "prims \<Rightarrow> pending_offer \<Rightarrow> session_answer \<Rightarrow> bytes \<Rightarrow> bytes \<Rightarrow> kem_keypair \<Rightarrow> certificate \<Rightarrow>
   tunnel_error + established" where
  "complete P pending answer session_id my_cert_id my_static_kem responder_cert =
     bind_res (suite_from_pb (an_suite answer)) (\<lambda>suite.
     if suite \<notin> set (po_suites pending)
     then Inl (Protocol ''responder chose a suite we did not offer'')
     else if an_session_id answer \<noteq> session_id then Inl (Protocol ''session id mismatch'')
     else
       let t = \<lparr>tr_session_id = session_id, tr_initiator_cert_id = my_cert_id,
                tr_responder_cert_id = cert_id P responder_cert, tr_eph_kem_pk = po_eph_pk_bytes pending,
                tr_ct_e = an_ct_e answer, tr_ct_s = an_ct_s answer, tr_suite = suite\<rparr>;
           hash = transcript_hash P t
       in
       bind_res (map_err (\<lambda>_. Protocol ''answer signature'') (sig_from_bytes (an_signature answer))) (\<lambda>sig.
       bind_res (map_err (\<lambda>_. Protocol ''answer signature invalid'')
         (hybrid_verify P (tb_signing_key (ce_tbs responder_cert)) Session hash sig)) (\<lambda>_.
       bind_res (map_err Crypto (kem_ct_from_bytes (an_ct_e answer))) (\<lambda>ct_e.
       bind_res (map_err Crypto (kem_ct_from_bytes (an_ct_s answer))) (\<lambda>ct_s.
       bind_res (map_err Crypto (decapsulate P (po_eph pending) ct_e)) (\<lambda>ss_e.
       bind_res (map_err Crypto (decapsulate P my_static_kem ct_s)) (\<lambda>ss_s.
       bind_res (map_err Crypto (derive_keys P t ss_e ss_s)) (\<lambda>keys.
         Inr \<lparr>eb_keys = keys, eb_suite = suite, eb_transcript_hash = hash\<rparr>))))))))"

section \<open>Responder\<close>

text \<open>The draws of the two encapsulations, in order.\<close>

record answer_coins =
  ac_e_x :: bytes
  ac_e_m :: bytes
  ac_s_x :: bytes
  ac_s_m :: bytes

definition answer_with ::
  "prims \<Rightarrow> answer_coins \<Rightarrow> bytes \<Rightarrow> certificate \<Rightarrow> bytes \<Rightarrow> suite \<Rightarrow> bytes \<Rightarrow>
   (domain \<Rightarrow> bytes \<Rightarrow> tunnel_error + hybrid_signature) \<Rightarrow> u32 \<Rightarrow> bytes option \<Rightarrow>
   tunnel_error + session_answer \<times> established" where
  "answer_with P coins session_id initiator_cert eph_pk suite my_cert_id sign_fn my_index my_endpoint =
     bind_res (map_err Crypto (kem_pk_from_bytes eph_pk)) (\<lambda>eph.
     bind_res (ok_or (Protocol ''initiator certificate has no kem key'') (tb_kem_key (ce_tbs initiator_cert))) (\<lambda>static_pk.
     bind_res (map_err Crypto (encapsulate P (ac_e_x coins) (ac_e_m coins) eph)) (\<lambda>(ct_e, ss_e).
     bind_res (map_err Crypto (encapsulate P (ac_s_x coins) (ac_s_m coins) static_pk)) (\<lambda>(ct_s, ss_s).
     let t = \<lparr>tr_session_id = session_id, tr_initiator_cert_id = cert_id P initiator_cert,
              tr_responder_cert_id = my_cert_id, tr_eph_kem_pk = eph_pk,
              tr_ct_e = kem_ct_to_bytes ct_e, tr_ct_s = kem_ct_to_bytes ct_s, tr_suite = suite\<rparr>;
         hash = transcript_hash P t
     in
     bind_res (sign_fn Session hash) (\<lambda>sig.
     bind_res (map_err Crypto (derive_keys P t ss_e ss_s)) (\<lambda>keys.
       Inr (\<lparr>an_session_id = session_id, an_ct_e = kem_ct_to_bytes ct_e, an_ct_s = kem_ct_to_bytes ct_s,
             an_responder_index = my_index,
             an_responder_endpoint = (case my_endpoint of Some e \<Rightarrow> e | None \<Rightarrow> []),
             an_suite = uint (suite_id suite), an_signature = sig_to_bytes sig\<rparr>,
            \<lparr>eb_keys = keys, eb_suite = suite, eb_transcript_hash = hash\<rparr>)))))))"

definition answer ::
  "prims \<Rightarrow> answer_coins \<Rightarrow> bytes \<Rightarrow> bytes \<Rightarrow> certificate \<Rightarrow> bytes \<Rightarrow> suite \<Rightarrow> bytes \<Rightarrow>
   hybrid_signing_keypair \<Rightarrow> u32 \<Rightarrow> bytes option \<Rightarrow> tunnel_error + session_answer \<times> established" where
  "answer P coins rnd_sign session_id initiator_cert eph_pk suite my_cert_id my_signing my_index my_endpoint =
     bind_res (map_err Crypto (kem_pk_from_bytes eph_pk)) (\<lambda>eph.
     bind_res (ok_or (Protocol ''initiator certificate has no kem key'') (tb_kem_key (ce_tbs initiator_cert))) (\<lambda>static_pk.
     bind_res (map_err Crypto (encapsulate P (ac_e_x coins) (ac_e_m coins) eph)) (\<lambda>(ct_e, ss_e).
     bind_res (map_err Crypto (encapsulate P (ac_s_x coins) (ac_s_m coins) static_pk)) (\<lambda>(ct_s, ss_s).
     let t = \<lparr>tr_session_id = session_id, tr_initiator_cert_id = cert_id P initiator_cert,
              tr_responder_cert_id = my_cert_id, tr_eph_kem_pk = eph_pk,
              tr_ct_e = kem_ct_to_bytes ct_e, tr_ct_s = kem_ct_to_bytes ct_s, tr_suite = suite\<rparr>;
         hash = transcript_hash P t
     in
     bind_res (map_err Crypto (hybrid_sign P rnd_sign my_signing Session hash)) (\<lambda>sig.
     bind_res (map_err Crypto (derive_keys P t ss_e ss_s)) (\<lambda>keys.
       Inr (\<lparr>an_session_id = session_id, an_ct_e = kem_ct_to_bytes ct_e, an_ct_s = kem_ct_to_bytes ct_s,
             an_responder_index = my_index,
             an_responder_endpoint = (case my_endpoint of Some e \<Rightarrow> e | None \<Rightarrow> []),
             an_suite = uint (suite_id suite), an_signature = sig_to_bytes sig\<rparr>,
            \<lparr>eb_keys = keys, eb_suite = suite, eb_transcript_hash = hash\<rparr>)))))))"

section \<open>Rekey\<close>

definition rekey_offer :: "prims \<Rightarrow> bytes \<Rightarrow> bytes \<Rightarrow> kem_keypair \<times> bytes" where
  "rekey_offer P rnd_x rnd_m =
     (let eph = kem_generate P rnd_x rnd_m in (eph, kem_pk_to_bytes (kem_public eph)))"

definition rekey_answer ::
  "prims \<Rightarrow> bytes \<Rightarrow> bytes \<Rightarrow> bytes \<Rightarrow> session_keys \<Rightarrow> tunnel_error + bytes \<times> session_keys" where
  "rekey_answer P rnd_x rnd_m eph_pk current = map_err Crypto
     (bind_res (kem_pk_from_bytes eph_pk) (\<lambda>pk.
      bind_res (encapsulate P rnd_x rnd_m pk) (\<lambda>(ct, ss).
      bind_res (rekey P current ss) (\<lambda>next. Inr (kem_ct_to_bytes ct, next)))))"

definition rekey_complete :: "prims \<Rightarrow> kem_keypair \<Rightarrow> bytes \<Rightarrow> session_keys \<Rightarrow> tunnel_error + session_keys" where
  "rekey_complete P eph ct current = map_err Crypto
     (bind_res (kem_ct_from_bytes ct) (\<lambda>ct.
      bind_res (decapsulate P eph ct) (\<lambda>ss. rekey P current ss)))"

section \<open>Lemmas\<close>

lemma complete_delegates:
  "complete P po an sid cid kp rc = complete_with P po an sid cid (\<lambda>ct. map_err Crypto (decapsulate P kp ct)) rc"
  by (simp add: complete_def complete_with_def)

lemma answer_delegates:
  "answer P coins rnd sid ic eph su cid kp idx ep =
   answer_with P coins sid ic eph su cid (\<lambda>d m. map_err Crypto (hybrid_sign P rnd kp d m)) idx ep"
  by (simp add: answer_def answer_with_def)

lemma suite_pb_round: "suite_from_pb (uint (suite_id s)) = Inr s"
  by (cases s) (simp_all add: suite_from_pb_def suite_from_id_def)

lemma choose_suite_sound:
  "choose_suite offered preferred = Some s \<Longrightarrow> s \<in> set offered \<and> s \<in> set preferred"
  unfolding choose_suite_def using find_SomeD by metis

lemma answerD:
  assumes "answer P coins rnd sid ic eph su cid kp idx ep = Inr (an, est)"
  obtains pk spk ct_e ss_e ct_s ss_s sig keys where
    "kem_pk_from_bytes eph = Inr pk" "tb_kem_key (ce_tbs ic) = Some spk"
    "encapsulate P (ac_e_x coins) (ac_e_m coins) pk = Inr (ct_e, ss_e)"
    "encapsulate P (ac_s_x coins) (ac_s_m coins) spk = Inr (ct_s, ss_s)"
    "an_session_id an = sid" "an_ct_e an = kem_ct_to_bytes ct_e" "an_ct_s an = kem_ct_to_bytes ct_s"
    "an_suite an = uint (suite_id su)" "an_signature an = sig_to_bytes sig"
    "hybrid_sign P rnd kp Session (eb_transcript_hash est) = Inr sig"
    "eb_transcript_hash est = transcript_hash P \<lparr>tr_session_id = sid, tr_initiator_cert_id = cert_id P ic,
       tr_responder_cert_id = cid, tr_eph_kem_pk = eph, tr_ct_e = kem_ct_to_bytes ct_e,
       tr_ct_s = kem_ct_to_bytes ct_s, tr_suite = su\<rparr>"
    "derive_keys P \<lparr>tr_session_id = sid, tr_initiator_cert_id = cert_id P ic,
       tr_responder_cert_id = cid, tr_eph_kem_pk = eph, tr_ct_e = kem_ct_to_bytes ct_e,
       tr_ct_s = kem_ct_to_bytes ct_s, tr_suite = su\<rparr> ss_e ss_s = Inr keys"
    "est = \<lparr>eb_keys = keys, eb_suite = su, eb_transcript_hash = eb_transcript_hash est\<rparr>"
  using assms by (auto simp: answer_def res_simps Let_def)

lemma established_agree:
  assumes crypto: "ed25519_correct P" "mldsa_correct P" "x25519_commutes P" "mlkem_correct P"
    and seed: "length r1 = 32" and su: "su \<in> set suites"
    and ic: "tb_kem_key (ce_tbs ic) = Some (kem_public (kem_generate P sx sm))"
    and rc: "tb_signing_key (ce_tbs rc) = verifying_key (signing_generate P r1 r2)"
    and ans: "answer P coins rnd sid ic (po_eph_pk_bytes (initiator_offer P rx rm suites)) su (cert_id P rc)
       (signing_generate P r1 r2) idx ep = Inr (an, est)"
  shows "complete P (initiator_offer P rx rm suites) an sid (cert_id P ic) (kem_generate P sx sm) rc = Inr est"
proof -
  let ?eph = "kem_generate P rx rm"
  have offer: "po_eph_pk_bytes (initiator_offer P rx rm suites) = kem_pk_to_bytes (kem_public ?eph)"
    "po_eph (initiator_offer P rx rm suites) = ?eph" "po_suites (initiator_offer P rx rm suites) = suites"
    by (simp_all add: initiator_offer_def Let_def)
  from ans[unfolded offer] obtain pk spk ct_e ss_e ct_s ss_s sig keys where a:
    "kem_pk_from_bytes (kem_pk_to_bytes (kem_public ?eph)) = Inr pk" "tb_kem_key (ce_tbs ic) = Some spk"
    "encapsulate P (ac_e_x coins) (ac_e_m coins) pk = Inr (ct_e, ss_e)"
    "encapsulate P (ac_s_x coins) (ac_s_m coins) spk = Inr (ct_s, ss_s)"
    "an_session_id an = sid" "an_ct_e an = kem_ct_to_bytes ct_e" "an_ct_s an = kem_ct_to_bytes ct_s"
    "an_suite an = uint (suite_id su)" "an_signature an = sig_to_bytes sig"
    "hybrid_sign P rnd (signing_generate P r1 r2) Session (eb_transcript_hash est) = Inr sig"
    "eb_transcript_hash est = transcript_hash P \<lparr>tr_session_id = sid, tr_initiator_cert_id = cert_id P ic,
       tr_responder_cert_id = cert_id P rc, tr_eph_kem_pk = kem_pk_to_bytes (kem_public ?eph),
       tr_ct_e = kem_ct_to_bytes ct_e, tr_ct_s = kem_ct_to_bytes ct_s, tr_suite = su\<rparr>"
    "derive_keys P \<lparr>tr_session_id = sid, tr_initiator_cert_id = cert_id P ic,
       tr_responder_cert_id = cert_id P rc, tr_eph_kem_pk = kem_pk_to_bytes (kem_public ?eph),
       tr_ct_e = kem_ct_to_bytes ct_e, tr_ct_s = kem_ct_to_bytes ct_s, tr_suite = su\<rparr> ss_e ss_s = Inr keys"
    "est = \<lparr>eb_keys = keys, eb_suite = su, eb_transcript_hash = eb_transcript_hash est\<rparr>"
    by (rule answerD)
  have pk: "pk = kem_public ?eph" "spk = kem_public (kem_generate P sx sm)"
    using a(1,2) ic kem_pk.from_to[OF generated_kem_pk_wf[OF crypto(3,4)], of rx rm] by auto
  note e = kem_agree[OF crypto(3,4) refl a(3)[unfolded pk]]
  note s = kem_agree[OF crypto(3,4) refl a(4)[unfolded pk]]
  obtain sig' where sig': "hybrid_sign P rnd (signing_generate P r1 r2) Session (eb_transcript_hash est) = Inr sig'"
    "sig_wf sig'"
    "hybrid_verify P (verifying_key (signing_generate P r1 r2)) Session (eb_transcript_hash est) sig' = Inr ()"
    using sign_generated[OF crypto(1,2) seed refl] by blast
  have sig: "sig_wf sig"
    "hybrid_verify P (tb_signing_key (ce_tbs rc)) Session (eb_transcript_hash est) sig = Inr ()"
    using sig' a(10) rc by auto
  show ?thesis
    unfolding complete_def offer a(8) suite_pb_round bind_res.simps
    using su sig a(5-7,9,11,12) a(13)[symmetric] e s sig.from_to[OF sig(1)]
      kem_ct.from_to[OF e(2)] kem_ct.from_to[OF s(2)]
    by (simp add: Let_def)
qed

section \<open>Properties\<close>

text \<open>Both ends of an honest establishment hold the same keys, suite and transcript hash: whatever
  the responder answers to an offer, the initiator completes to exactly what the responder holds,
  after keys, ciphertexts and signature have been encoded and parsed on the way.\<close>

theorem establishment_agrees:
  assumes "ed25519_correct P" and "mldsa_correct P" and "x25519_commutes P" and "mlkem_correct P"
    and "length r1 = 32" and "su \<in> set suites"
    and "tb_kem_key (ce_tbs ic) = Some (kem_public (kem_generate P sx sm))"
    and "tb_signing_key (ce_tbs rc) = verifying_key (signing_generate P r1 r2)"
    and "answer P coins rnd sid ic (po_eph_pk_bytes (initiator_offer P rx rm suites)) su (cert_id P rc)
       (signing_generate P r1 r2) idx ep = Inr (an, est)"
  shows "complete P (initiator_offer P rx rm suites) an sid (cert_id P ic) (kem_generate P sx sm) rc = Inr est"
  by (rule established_agree[OF assms])

definition demo_ic :: certificate where
  "demo_ic = (sample_cert Device 3 2)\<lparr>ce_tbs := (sample_tbs Device 3 2)\<lparr>tb_kem_key :=
     Some (kem_public (kem_generate toy [1] []))\<rparr>\<rparr>"

definition demo_coins :: answer_coins where
  "demo_coins = \<lparr>ac_e_x = [1], ac_e_m = [], ac_s_x = [1], ac_s_m = []\<rparr>"

lemma demo_kem: "tb_kem_key (ce_tbs demo_ic) = Some (kem_public (kem_generate toy [1] []))"
  by (simp add: demo_ic_def)

lemma demo_answers:
  assumes "tb_kem_key (ce_tbs ic) = Some (kem_public (kem_generate toy [1] []))"
  shows "\<exists>an est. answer toy demo_coins [] sid ic (po_eph_pk_bytes (initiator_offer toy [1] [] suites))
     su cid (signing_generate toy (replicate 32 b) []) idx ep = Inr (an, est)"
proof -
  let ?pk = "kem_public (kem_generate toy [1] [])"
  obtain ct ss where enc: "encapsulate toy [1] [] ?pk = Inr (ct, ss)" using toy_encapsulates by blast
  let ?t = "\<lparr>tr_session_id = sid, tr_initiator_cert_id = cert_id toy ic, tr_responder_cert_id = cid,
     tr_eph_kem_pk = kem_pk_to_bytes ?pk, tr_ct_e = kem_ct_to_bytes ct, tr_ct_s = kem_ct_to_bytes ct, tr_suite = su\<rparr>"
  obtain keys where "derive_keys toy ?t ss ss = Inr keys"
    using from_prk_ok[OF toy_sizes(2)] unfolding derive_keys_def by blast
  moreover obtain sg where "hybrid_sign toy [] (signing_generate toy (replicate 32 b) []) Session
      (transcript_hash toy ?t) = Inr sg"
    using sign_generated[OF toy_ed25519 toy_mldsa length_replicate refl, of "[]" b "[]"] by blast
  moreover have "kem_pk_from_bytes (kem_pk_to_bytes ?pk) = Inr ?pk"
    by (rule kem_pk.from_to[OF generated_kem_pk_wf[OF toy_x25519 toy_mlkem]])
  ultimately show ?thesis
    using enc assms by (simp add: answer_def demo_coins_def initiator_offer_def Let_def)
qed

theorem establishment_agrees_witness:
  "\<exists>an est. answer toy demo_coins [] [9] demo_ic (po_eph_pk_bytes (initiator_offer toy [1] [] [Aes256Gcm]))
       Aes256Gcm (cert_id toy (sample_cert Gateway 4 2)) (signing_generate toy (replicate 32 4) []) 5 None = Inr (an, est) \<and>
     complete toy (initiator_offer toy [1] [] [Aes256Gcm]) an [9] (cert_id toy demo_ic) (kem_generate toy [1] [])
       (sample_cert Gateway 4 2) = Inr est"
proof -
  obtain an est where a: "answer toy demo_coins [] [9] demo_ic
      (po_eph_pk_bytes (initiator_offer toy [1] [] [Aes256Gcm])) Aes256Gcm (cert_id toy (sample_cert Gateway 4 2))
      (signing_generate toy (replicate 32 4) []) 5 None = Inr (an, est)"
    using demo_answers[OF demo_kem] by blast
  have rc: "tb_signing_key (ce_tbs (sample_cert Gateway 4 2)) = verifying_key (signing_generate toy (replicate 32 4) [])"
    by (simp add: sample_fields sample_kp_def)
  have len: "length (replicate 32 4 :: bytes) = 32" and su: "Aes256Gcm \<in> set [Aes256Gcm]" by simp_all
  from establishment_agrees[OF toy_ed25519 toy_mldsa toy_x25519 toy_mlkem len su demo_kem rc a] a
  show ?thesis by blast
qed

text \<open>C14. The initiator accepts an answer only if it names this session, picks a suite that was
  offered, and carries the responder's composite signature, in the session domain, over the hash of
  the transcript as the initiator saw it; the keys are derived from that transcript and from the two
  secrets the answer's ciphertexts decapsulate to.\<close>

theorem complete_authenticates:
  assumes "complete_with P pending an sid cid dec rc = Inr est"
  shows "an_session_id an = sid \<and> eb_suite est \<in> set (po_suites pending) \<and>
    (\<exists>t sig ct_e ct_s ss_e ss_s. t = \<lparr>tr_session_id = sid, tr_initiator_cert_id = cid, tr_responder_cert_id = cert_id P rc,
        tr_eph_kem_pk = po_eph_pk_bytes pending, tr_ct_e = an_ct_e an, tr_ct_s = an_ct_s an,
        tr_suite = eb_suite est\<rparr> \<and>
      sig_from_bytes (an_signature an) = Inr sig \<and>
      hybrid_verify P (tb_signing_key (ce_tbs rc)) Session (transcript_hash P t) sig = Inr () \<and>
      kem_ct_from_bytes (an_ct_e an) = Inr ct_e \<and> kem_ct_from_bytes (an_ct_s an) = Inr ct_s \<and>
      decapsulate P (po_eph pending) ct_e = Inr ss_e \<and> dec ct_s = Inr ss_s \<and>
      derive_keys P t ss_e ss_s = Inr (eb_keys est))"
  using assms by (auto simp: complete_with_def res_simps Let_def split: if_splits)

theorem complete_authenticates_witness:
  "\<exists>an est. complete_with toy (initiator_offer toy [1] [] [Aes256Gcm]) an [9] (cert_id toy demo_ic)
       (\<lambda>ct. map_err Crypto (decapsulate toy (kem_generate toy [1] []) ct)) (sample_cert Gateway 4 2) = Inr est \<and>
     an_session_id an = [9] \<and> eb_suite est \<in> set (po_suites (initiator_offer toy [1] [] [Aes256Gcm]))"
proof -
  obtain an est where a: "answer toy demo_coins [] [9] demo_ic
      (po_eph_pk_bytes (initiator_offer toy [1] [] [Aes256Gcm])) Aes256Gcm (cert_id toy (sample_cert Gateway 4 2))
      (signing_generate toy (replicate 32 4) []) 5 None = Inr (an, est)"
    using demo_answers[OF demo_kem] by blast
  have "complete toy (initiator_offer toy [1] [] [Aes256Gcm]) an [9] (cert_id toy demo_ic)
      (kem_generate toy [1] []) (sample_cert Gateway 4 2) = Inr est"
    by (rule established_agree[OF toy_ed25519 toy_mldsa toy_x25519 toy_mlkem _ _ _ _ a])
      (simp_all add: demo_ic_def sample_fields sample_kp_def)
  then have c: "complete_with toy (initiator_offer toy [1] [] [Aes256Gcm]) an [9] (cert_id toy demo_ic)
      (\<lambda>ct. map_err Crypto (decapsulate toy (kem_generate toy [1] []) ct)) (sample_cert Gateway 4 2) = Inr est"
    by (simp add: complete_delegates)
  show ?thesis using complete_authenticates[OF c] c by blast
qed

end
