(* ===== verification/Gateway_State.thy ===== *)
theory Gateway_State
  imports Flow_Policy Session_Table Establish
begin

text \<open>
  \<open>avon-tunnel/src/routes.rs\<close> and \<open>avon-gateway/src/state.rs\<close>: the routing table and the state the
  gateway's control link and data plane share.  The metadata map is an association list in the order
  it is iterated; session events are returned to the caller.  The Redis mirror is left out: nothing
  reads it back.
\<close>

section \<open>Routes\<close>

definition to_ipn :: "'n net_lib \<Rightarrow> ('p, 't) lpm_lib \<Rightarrow> 'n \<Rightarrow> 'p option" where
  "to_ipn N R net = ipn_new R (ipnet_network N net) (ipnet_prefix_len N net)"

definition route_insert :: "'n net_lib \<Rightarrow> ('p, 't) lpm_lib \<Rightarrow> 't \<Rightarrow> 'n \<Rightarrow> bytes \<Rightarrow> 't" where
  "route_insert N R t net session =
     (case to_ipn N R net of Some n \<Rightarrow> lpm_insert R t n session | None \<Rightarrow> t)"

definition route_remove :: "'n net_lib \<Rightarrow> ('p, 't) lpm_lib \<Rightarrow> 't \<Rightarrow> 'n \<Rightarrow> 't" where
  "route_remove N R t net = (case to_ipn N R net of Some n \<Rightarrow> lpm_remove R t n | None \<Rightarrow> t)"

definition route_remove_session :: "('p, 't) lpm_lib \<Rightarrow> 't \<Rightarrow> bytes \<Rightarrow> 't" where
  "route_remove_session R t session =
     (let victims = map fst (filter (\<lambda>e. snd e = session) (lpm_iter R t))
      in foldl (lpm_remove R) t victims)"

definition route_lookup :: "('p, 't) lpm_lib \<Rightarrow> 't \<Rightarrow> ip_addr \<Rightarrow> bytes option" where
  "route_lookup R t dst = map_option snd (lpm_longest R t dst)"

section \<open>State\<close>

record chain_cache =
  cc_root :: certificate
  cc_issuing :: certificate
  cc_verifier :: "certificate list"
  cc_crl :: crl

definition is_revoked :: "chain_cache \<Rightarrow> bytes \<Rightarrow> bool" where
  "is_revoked c serial = (serial \<in> set (cr_serials (cc_crl c)))"

record 'n session_meta =
  sm_device_id :: uuid
  sm_tenant :: uuid
  sm_serial :: bytes
  sm_overlay_v4 :: "'n option"
  sm_overlay_v6 :: "'n option"
  sm_advertised :: "'n list"

definition owns_source :: "'n net_lib \<Rightarrow> 'n session_meta \<Rightarrow> ip_addr \<Rightarrow> bool" where
  "owns_source N m src =
     (map_option (ipnet_addr N) (sm_overlay_v4 m) = Some src \<or>
      map_option (ipnet_addr N) (sm_overlay_v6 m) = Some src \<or>
      (\<exists>n \<in> set (sm_advertised m). ipnet_contains N n src))"

definition host_route :: "'n net_lib \<Rightarrow> 'n option \<Rightarrow> nat \<Rightarrow> 'n list" where
  "host_route N net len =
     (case net of
        None \<Rightarrow> []
      | Some n \<Rightarrow> (case ipnet_new N (ipnet_addr N n) len of Some h \<Rightarrow> [h] | None \<Rightarrow> []))"

definition meta_routes :: "'n net_lib \<Rightarrow> 'n session_meta \<Rightarrow> 'n list" where
  "meta_routes N m = host_route N (sm_overlay_v4 m) 32 @ host_route N (sm_overlay_v6 m) 128 @ sm_advertised m"

record ('n, 't, 'c) gateway =
  gw_table :: table
  gw_routes :: 't
  gw_policy :: "('n, 'c) flow_policy"
  gw_signing :: hybrid_signing_keypair
  gw_cert :: certificate
  gw_chain :: chain_cache
  gw_meta :: "(bytes \<times> 'n session_meta) list"
  gw_overlay_prefixes :: "'n list"
  gw_up :: bool

record session_event =
  ev_session_id :: bytes
  ev_event :: string
  ev_reason :: bytes
  ev_endpoint :: "socket_addr option"
  ev_bytes_tx :: u64
  ev_bytes_rx :: u64

definition is_protected_or_external :: "'n net_lib \<Rightarrow> ('n, 't, 'c) gateway \<Rightarrow> ip_addr \<Rightarrow> bool" where
  "is_protected_or_external N gw dst = (\<not> (\<exists>n \<in> set (gw_overlay_prefixes gw). ipnet_contains N n dst))"

definition report :: "('n, 't, 'c) gateway \<Rightarrow> session_event \<Rightarrow> session_event list" where
  "report gw ev = (if gw_up gw then [ev] else [])"

definition close_session ::
  "('p, 't) lpm_lib \<Rightarrow> ('n, 't, 'c) gateway \<Rightarrow> bytes \<Rightarrow> bytes \<Rightarrow> ('n, 't, 'c) gateway \<times> session_event list" where
  "close_session R gw i reason =
     (case table_remove (gw_table gw) i of
        (None, _) \<Rightarrow> (gw, [])
      | (Some r, t) \<Rightarrow>
         (case tb_store t r of
            None \<Rightarrow> (gw, [])
          | Some s \<Rightarrow>
              let s1 = session_close s;
                  gw' = gw\<lparr>gw_table := put_session t r s1,
                           gw_routes := route_remove_session R (gw_routes gw) i,
                           gw_meta := AList.delete i (gw_meta gw)\<rparr>
              in (gw', report gw' \<lparr>ev_session_id = i, ev_event = ''closed'', ev_reason = reason,
                    ev_endpoint = se_peer_endpoint s1, ev_bytes_tx = st_bytes_tx (se_stats s1),
                    ev_bytes_rx = st_bytes_rx (se_stats s1)\<rparr>)))"

fun close_all ::
  "('p, 't) lpm_lib \<Rightarrow> ('n, 't, 'c) gateway \<Rightarrow> bytes list \<Rightarrow> bytes \<Rightarrow> ('n, 't, 'c) gateway \<times> session_event list" where
  "close_all R gw [] reason = (gw, [])"
| "close_all R gw (i # is) reason =
    (let (gw1, ev1) = close_session R gw i reason; (gw2, ev2) = close_all R gw1 is reason in (gw2, ev1 @ ev2))"

section \<open>Lemmas on routes\<close>

lemma route_lookup_longest:
  assumes "lpm_correct R" and "route_lookup R t dst = Some s"
  shows "\<exists>p. lpm_entries R t p = Some s \<and> ipn_contains R p dst \<and>
     (\<forall>q. lpm_entries R t q \<noteq> None \<and> ipn_contains R q dst \<longrightarrow> ipn_prefix_len R q \<le> ipn_prefix_len R p)"
proof -
  from assms(2) obtain p where "lpm_longest R t dst = Some (p, s)" by (auto simp: route_lookup_def)
  from lpm_longest_Some[OF assms(1) this] show ?thesis by blast
qed

lemma route_lookup_none:
  assumes "lpm_correct R" and "route_lookup R t dst = None"
  shows "lpm_entries R t p \<noteq> None \<Longrightarrow> \<not> ipn_contains R p dst"
  using lpm_longest_None[OF assms(1)] assms(2) by (auto simp: route_lookup_def)

lemma foldl_remove_entries:
  assumes "lpm_correct R"
  shows "lpm_entries R (foldl (lpm_remove R) t vs) = (\<lambda>p. if p \<in> set vs then None else lpm_entries R t p)"
  by (induction vs arbitrary: t) (auto simp: lpm_correctD(4)[OF assms] fun_eq_iff)

lemma route_remove_session_entries:
  assumes "lpm_correct R"
  shows "lpm_entries R (route_remove_session R t i) p = (if lpm_entries R t p = Some i then None else lpm_entries R t p)"
proof -
  have "p \<in> set (map fst (filter (\<lambda>e. snd e = i) (lpm_iter R t))) \<longleftrightarrow> lpm_entries R t p = Some i"
    using lpm_correctD(2)[OF assms, of t] by (force simp: lpm_entries_def intro: map_of_is_SomeI dest: map_of_SomeD)
  then show ?thesis unfolding route_remove_session_def Let_def foldl_remove_entries[OF assms] by simp
qed

section \<open>Closing a session removes it everywhere\<close>

definition held :: "table \<Rightarrow> bytes \<Rightarrow> bool" where
  "held t i = (\<exists>r s. tb_by_id t i = Some r \<and> tb_store t r = Some s)"

lemma held_put [intro]: "held t i \<Longrightarrow> held (put_session t r s) i"
  by (auto simp: held_def put_session_def)

lemma table_remove_None: "\<not> held t i \<Longrightarrow> table_remove t i = (None, t)"
  by (auto simp: held_def table_remove_def split: option.splits)

lemma table_remove_Some:
  assumes "held t i"
  obtains r s t' where "tb_by_id t i = Some r" "table_remove t i = (Some r, t')" "tb_store t' r = Some s"
    "tb_by_id t' = (tb_by_id t)(i := None)" "\<And>q. tb_store t q \<noteq> None \<Longrightarrow> tb_store t' q \<noteq> None"
  using assms by (force simp: held_def table_remove_def)

lemma close_session_held:
  assumes "held (gw_table gw) i"
  shows "\<not> held (gw_table (fst (close_session R gw i reason))) i"
    and "j \<noteq> i \<Longrightarrow> held (gw_table (fst (close_session R gw i reason))) j = held (gw_table gw) j"
    and "gw_meta (fst (close_session R gw i reason)) = AList.delete i (gw_meta gw)"
    and "gw_routes (fst (close_session R gw i reason)) = route_remove_session R (gw_routes gw) i"
    and "gw_chain (fst (close_session R gw i reason)) = gw_chain gw"
proof -
  obtain r s t' where c: "table_remove (gw_table gw) i = (Some r, t')" "tb_store t' r = Some s"
    "tb_by_id t' = (tb_by_id (gw_table gw))(i := None)"
    "\<And>q. tb_store (gw_table gw) q \<noteq> None \<Longrightarrow> tb_store t' q \<noteq> None"
    using table_remove_Some[OF assms] by metis
  show "\<not> held (gw_table (fst (close_session R gw i reason))) i"
    "gw_meta (fst (close_session R gw i reason)) = AList.delete i (gw_meta gw)"
    "gw_routes (fst (close_session R gw i reason)) = route_remove_session R (gw_routes gw) i"
    "gw_chain (fst (close_session R gw i reason)) = gw_chain gw"
    using c by (simp_all add: close_session_def Let_def held_def put_session_def)
  have sub: "tb_store t' q \<noteq> None \<Longrightarrow> tb_store (gw_table gw) q \<noteq> None" for q
    using c(1) by (auto simp: table_remove_def split: option.splits if_splits)
  show "held (gw_table (fst (close_session R gw i reason))) j = held (gw_table gw) j" if "j \<noteq> i"
    using c sub that by (auto simp: close_session_def Let_def held_def put_session_def)
qed

lemma close_session_gone:
  "\<not> held (gw_table gw) i \<Longrightarrow> close_session R gw i reason = (gw, [])"
  by (simp add: close_session_def table_remove_None)

lemma close_session_not_held: "\<not> held (gw_table (fst (close_session R gw i reason))) i"
  using close_session_held(1)[of gw i R reason] close_session_gone[of gw i R reason]
  by (cases "held (gw_table gw) i") auto

end
