(* ===== verification/Gateway_Dataplane.thy ===== *)
theory Gateway_Dataplane
  imports Gateway_State
begin

text \<open>
  \<open>avon-gateway/src/dataplane.rs\<close>: what happens to a packet from a session, a packet from the TUN
  device and an in-tunnel control frame.  A dropped packet carries the reason the code counts; the
  datagrams to send and the packet for the TUN are returned.  The frame encoder of the protobuf library
  and the outcome of the TUN write are arguments.
\<close>

datatype packet_outcome =
    Dropped string
  | Denied string
  | Relayed bytes "socket_addr \<times> bytes"
  | Egressed bytes

text \<open>The routing of an allowed packet.\<close>

definition forward ::
  "prims \<Rightarrow> 'n net_lib \<Rightarrow> ('p, 't) lpm_lib \<Rightarrow> clock \<Rightarrow> (bytes \<Rightarrow> bool) \<Rightarrow>
   ('n, 't, 'c) gateway \<Rightarrow> bytes \<Rightarrow> flow \<Rightarrow> bytes \<Rightarrow> packet_outcome \<times> ('n, 't, 'c) gateway" where
  "forward P N R ck tun_deliver gw sid flow packet =
     (case route_lookup R (gw_routes gw) (fl_dst flow) of
        Some target \<Rightarrow>
          if target \<noteq> sid then
            (case by_id (gw_table gw) target of
               None \<Rightarrow> (Dropped ''no_route'', gw)
             | Some r \<Rightarrow>
                (case tb_store (gw_table gw) r of
                   None \<Rightarrow> (Dropped ''no_route'', gw)
                 | Some t \<Rightarrow>
                    (case send_inner P ck t (Ip packet) of
                       (Inl e, t') \<Rightarrow> (Dropped ''relay_failed'', gw\<lparr>gw_table := put_session (gw_table gw) r t'\<rparr>)
                     | (Inr out, t') \<Rightarrow> (Relayed target out, gw\<lparr>gw_table := put_session (gw_table gw) r t'\<rparr>))))
          else (Dropped ''hairpin'', gw)
      | None \<Rightarrow>
          if is_protected_or_external N gw (fl_dst flow) then
            (if tun_deliver packet then (Egressed packet, gw) else (Dropped ''tun_failed'', gw))
          else (Dropped ''no_route'', gw))"

definition handle_ip ::
  "prims \<Rightarrow> ('z, 'n, 'c) policy_libs \<Rightarrow> ('p, 't) lpm_lib \<Rightarrow> clock \<Rightarrow> int \<Rightarrow> (bytes \<Rightarrow> bool) \<Rightarrow>
   ('n, 't, 'c) gateway \<Rightarrow> bytes \<Rightarrow> bytes \<Rightarrow> packet_outcome \<times> ('n, 't, 'c) gateway" where
  "handle_ip P L R ck now tun_deliver gw sid packet =
     (case parse_flow sid packet of
        None \<Rightarrow> (Dropped ''malformed'', gw)
      | Some flow \<Rightarrow>
         (case map_of (gw_meta gw) sid of
            None \<Rightarrow> (Dropped ''unknown_session'', gw)
          | Some meta \<Rightarrow>
              if \<not> owns_source (pl_net L) meta (fl_src flow) then (Dropped ''spoofed_source'', gw)
              else
                let destination_device =
                      (case route_lookup R (gw_routes gw) (fl_dst flow) of
                         None \<Rightarrow> None
                       | Some s \<Rightarrow> map_option sm_device_id (map_of (gw_meta gw) s));
                    ctx = \<lparr>fc_session = sid, fc_tenant = sm_tenant meta, fc_device = sm_device_id meta,
                           fc_destination_device = destination_device, fc_flow = flow\<rparr>;
                    (decision, policy, record) = policy_allow L (gw_policy gw) ctx now;
                    gw1 = gw\<lparr>gw_policy := policy\<rparr>
                in if \<not> fd_allow decision then (Denied (fd_reason decision), gw1)
                   else forward P (pl_net L) R ck tun_deliver gw1 sid flow packet))"

text \<open>One packet read by \<open>tun_loop\<close>.\<close>

definition tun_packet ::
  "prims \<Rightarrow> ('p, 't) lpm_lib \<Rightarrow> clock \<Rightarrow> ('n, 't, 'c) gateway \<Rightarrow> bytes \<Rightarrow> packet_outcome \<times> ('n, 't, 'c) gateway" where
  "tun_packet P R ck gw packet =
     (case parse_flow (replicate 16 0) packet of
        None \<Rightarrow> (Dropped ''malformed'', gw)
      | Some flow \<Rightarrow>
         (case route_lookup R (gw_routes gw) (fl_dst flow) of
            None \<Rightarrow> (Dropped ''no_route'', gw)
          | Some sid \<Rightarrow>
             (case by_id (gw_table gw) sid of
                None \<Rightarrow> (Dropped ''no_route'', gw)
              | Some r \<Rightarrow>
                 (case tb_store (gw_table gw) r of
                    None \<Rightarrow> (Dropped ''no_route'', gw)
                  | Some s \<Rightarrow>
                     (case send_inner P ck s (Ip packet) of
                        (Inl e, s') \<Rightarrow> (Dropped ''send_failed'', gw\<lparr>gw_table := put_session (gw_table gw) r s'\<rparr>)
                      | (Inr out, s') \<Rightarrow> (Relayed sid out, gw\<lparr>gw_table := put_session (gw_table gw) r s'\<rparr>))))))"

datatype tunnel_msg =
    MRekey u32 bytes u32
  | MRekeyAck u32 bytes u32
  | MIndexUpdate u32
  | MClose bytes
  | MMtuProbe u32
  | MMtuProbeAck u32

definition send_frame ::
  "prims \<Rightarrow> (tunnel_msg \<Rightarrow> bytes) \<Rightarrow> clock \<Rightarrow> session \<Rightarrow> tunnel_msg \<Rightarrow> (tunnel_error + socket_addr \<times> bytes) \<times> session" where
  "send_frame P enc ck s msg = send_inner P ck s (Control (enc msg))"

text \<open>\<open>draws\<close> are the random values of \<open>allocate_index\<close>, \<open>rx\<close> and \<open>rm\<close> those of the encapsulation.
  \<open>None\<close>: the draws ran out.\<close>

definition handle_control ::
  "prims \<Rightarrow> (tunnel_msg \<Rightarrow> bytes) \<Rightarrow> ('p, 't) lpm_lib \<Rightarrow> clock \<Rightarrow> bytes \<Rightarrow> bytes \<Rightarrow> (crypto_error + bytes) list \<Rightarrow>
   ('n, 't, 'c) gateway \<Rightarrow> sref \<Rightarrow> tunnel_msg option \<Rightarrow>
   (('n, 't, 'c) gateway \<times> (socket_addr \<times> bytes) list \<times> session_event list) option" where
  "handle_control P enc R ck rx rm draws gw r msg =
     (case tb_store (gw_table gw) r of
        None \<Rightarrow> Some (gw, [], [])
      | Some s \<Rightarrow>
         (case msg of
            Some (MRekey new_epoch eph_pk new_index) \<Rightarrow>
              (case answer_rekey P rx rm s eph_pk of
                 Inl _ \<Rightarrow> Some (gw, [], [])
               | Inr (ct, next) \<Rightarrow>
                  (case allocate_index (gw_table gw) draws of
                     None \<Rightarrow> None
                   | Some (Inl _) \<Rightarrow> Some (gw, [], [])
                   | Some (Inr new_local) \<Rightarrow>
                      (case send_frame P enc ck s (MRekeyAck new_epoch ct new_local) of
                         (Inl _, s1) \<Rightarrow>
                           Some (gw\<lparr>gw_table := release_index (put_session (gw_table gw) r s1) new_local\<rparr>, [], [])
                       | (Inr out, s1) \<Rightarrow>
                           Some (gw\<lparr>gw_table := rebind_index
                               (put_session (gw_table gw) r (rotate ck s1 next new_local new_index)) r new_local\<rparr>,
                             [out], []))))
          | Some (MClose reason) \<Rightarrow>
              (let (gw', evs) = close_session R gw (se_id s) reason in Some (gw', [], evs))
          | Some (MMtuProbe sz) \<Rightarrow>
              (case send_frame P enc ck s (MMtuProbeAck sz) of
                 (Inl _, s1) \<Rightarrow> Some (gw\<lparr>gw_table := put_session (gw_table gw) r s1\<rparr>, [], [])
               | (Inr out, s1) \<Rightarrow> Some (gw\<lparr>gw_table := put_session (gw_table gw) r s1\<rparr>, [out], []))
          | _ \<Rightarrow> Some (gw, [], [])))"

section \<open>Lemmas\<close>

text \<open>What may leave: through another session's most specific route, or out of the overlay.\<close>

definition leaves_by ::
  "prims \<Rightarrow> 'n net_lib \<Rightarrow> ('p, 't) lpm_lib \<Rightarrow> clock \<Rightarrow> ('n, 't, 'c) gateway \<Rightarrow> bytes \<Rightarrow> ip_addr \<Rightarrow> bytes \<Rightarrow> packet_outcome \<Rightarrow> bool" where
  "leaves_by P N R ck gw sid dst packet outcome =
     (case outcome of
        Relayed target out \<Rightarrow> target \<noteq> sid \<and>
          (\<exists>p. lpm_entries R (gw_routes gw) p = Some target \<and> ipn_contains R p dst \<and>
             (\<forall>q. lpm_entries R (gw_routes gw) q \<noteq> None \<and> ipn_contains R q dst \<longrightarrow>
                ipn_prefix_len R q \<le> ipn_prefix_len R p)) \<and>
          (\<exists>r t. tb_by_id (gw_table gw) target = Some r \<and> tb_store (gw_table gw) r = Some t \<and>
             fst (send_inner P ck t (Ip packet)) = Inr out)
      | Egressed packet' \<Rightarrow> packet' = packet \<and>
          (\<forall>p. lpm_entries R (gw_routes gw) p \<noteq> None \<longrightarrow> \<not> ipn_contains R p dst) \<and>
          (\<forall>n \<in> set (gw_overlay_prefixes gw). \<not> ipnet_contains N n dst)
      | _ \<Rightarrow> False)"

definition left :: "packet_outcome \<Rightarrow> bool" where
  "left outcome = (case outcome of Dropped _ \<Rightarrow> False | Denied _ \<Rightarrow> False | Relayed _ _ \<Rightarrow> True | Egressed _ \<Rightarrow> True)"

lemma left_simps [simp]: "\<not> left (Dropped x)" "\<not> left (Denied x)" "left (Relayed a b)" "left (Egressed c)"
  by (simp_all add: left_def)

lemma forward_leaves:
  assumes "lpm_correct R" and "left (fst (forward P N R ck tun gw sid flow packet))"
  shows "leaves_by P N R ck gw sid (fl_dst flow) packet (fst (forward P N R ck tun gw sid flow packet))"
proof (cases "route_lookup R (gw_routes gw) (fl_dst flow)")
  case None
  then have "forward P N R ck tun gw sid flow packet = (Egressed packet, gw)"
    "is_protected_or_external N gw (fl_dst flow)"
    using assms(2) by (auto simp: forward_def split: if_splits)
  then show ?thesis using route_lookup_none[OF assms(1) None]
    by (auto simp: leaves_by_def is_protected_or_external_def)
next
  case (Some tgt)
  then obtain r t o' where s: "tgt \<noteq> sid" "by_id (gw_table gw) tgt = Some r" "tb_store (gw_table gw) r = Some t"
    "fst (send_inner P ck t (Ip packet)) = Inr o'" "fst (forward P N R ck tun gw sid flow packet) = Relayed tgt o'"
    using assms(2) by (auto simp: forward_def split: if_splits option.splits prod.splits sum.splits)
  then show ?thesis using route_lookup_longest[OF assms(1) Some] by (auto simp: leaves_by_def by_id_def)
qed

section \<open>Properties\<close>


section \<open>Witnesses\<close>

definition sample_gateway :: "(ip_addr \<times> nat, ((ip_addr \<times> nat) \<times> bytes) list, unit) gateway" where
  "sample_gateway = \<lparr>gw_table = table_new, gw_routes = [], gw_policy = policy_new,
     gw_signing = sample_kp 1, gw_cert = sample_cert Gateway 1 1,
     gw_chain = \<lparr>cc_root = sample_cert RootCa 1 1, cc_issuing = sample_cert IssuingCa 1 1, cc_verifier = [],
       cc_crl = \<lparr>cr_version = 0, cr_issued_at = 0, cr_serials = []\<rparr>\<rparr>,
     gw_meta = [([7], \<lparr>sm_device_id = [1], sm_tenant = [], sm_serial = [], sm_overlay_v4 = Some (V4 0x0A000001, 24),
       sm_overlay_v6 = None, sm_advertised = []\<rparr>)],
     gw_overlay_prefixes = [(V4 0x0A000000, 8)], gw_up = False\<rparr>"

definition sample_packet :: bytes where
  "sample_packet = [0x45, 0, 0, 20, 0, 0, 0, 0, 64, 1, 0, 0, 10, 0, 0, 1, 8, 8, 8, 8]"

lemma sample_egress:
  "fst (handle_ip toy toy_libs toy_lpm (demo_clock 0) 0 (\<lambda>_. True) sample_gateway [7] sample_packet) = Egressed sample_packet"
  by (simp add: handle_ip_def forward_def sample_packet_def parse_flow_def from_be_bytes_def from_be_def sample_gateway_def
      owns_source_def toy_libs_def toy_net_def policy_allow_def allow_check_def policy_new_def route_lookup_def
      toy_lpm_def is_protected_or_external_def covers_def)


end
