(* ===== verification/Gateway_Control.thy ===== *)
theory Gateway_Control
  imports Gateway_Dataplane
begin

text \<open>
  \<open>avon-gateway/src/control_link.rs\<close>: the messages control sends down the link.  The link is one loop,
  so each message is handled to its end before the next; the data plane runs beside it, one packet or
  timer tick at a time.  The whole gateway is the step relation \<open>gw_step\<close>.  The gRPC transport is left
  out: registration results and messages arrive as values.
\<close>

section \<open>Trust material\<close>

datatype link_error =
    LeNoChain
  | LeNoRoot
  | LeNoIssuing
  | LeNoCrl
  | LeCert cert_error
  | LeSessionId
  | LeNoCertificate
  | LeRevoked
  | LeSuiteRange
  | LeSuite int
  | LeNoIndex
  | LeTunnel tunnel_error
  | LeTenant
  | LeSend

record gateway_config =
  gc_chain :: "(bytes option \<times> bytes option) option"
  gc_crl :: "(bytes \<times> bytes) option"

definition fetch_chain :: "prims \<Rightarrow> gateway_config \<Rightarrow> link_error + chain_cache" where
  "fetch_chain P config =
     bind_res (ok_or LeNoChain (gc_chain config)) (\<lambda>(root_pb, issuing_pb).
     bind_res (ok_or LeNoRoot root_pb) (\<lambda>root_bytes.
     bind_res (map_err LeCert (cert_decode P root_bytes)) (\<lambda>root.
     bind_res (ok_or LeNoIssuing issuing_pb) (\<lambda>issuing_bytes.
     bind_res (map_err LeCert (cert_decode P issuing_bytes)) (\<lambda>issuing.
     bind_res (ok_or LeNoCrl (gc_crl config)) (\<lambda>(tbs, signature).
     bind_res (map_err LeCert (crl_verify P tbs signature (tb_signing_key (ce_tbs issuing)))) (\<lambda>crl.
     bind_res (map_err LeCert (verifier_new P [root])) (\<lambda>verifier.
     Inr \<lparr>cc_root = root, cc_issuing = issuing, cc_verifier = verifier, cc_crl = crl\<rparr>))))))))"

section \<open>Session offers\<close>

record session_offer =
  so_session_id :: bytes
  so_device_certificate :: "bytes option"
  so_eph_kem_pk :: bytes
  so_suite :: int
  so_overlay_ipv4 :: bytes
  so_overlay_ipv6 :: bytes
  so_advertised_routes :: "bytes list"
  so_initiator_index :: u32

definition parse_net :: "'n net_lib \<Rightarrow> bytes \<Rightarrow> 'n option" where
  "parse_net N s =
     (if s = [] then None
      else case ipnet_parse N s of
        Some n \<Rightarrow> Some n
      | None \<Rightarrow> map_option (ipnet_from_addr N) (addr_parse N s))"

text \<open>The checks of \<open>accept_offer\<close>, before anything is allocated.\<close>

definition check_offer ::
  "prims \<Rightarrow> chain_cache \<Rightarrow> int \<Rightarrow> session_offer \<Rightarrow> link_error + bytes \<times> certificate \<times> suite" where
  "check_offer P chain now offer =
     (if length (so_session_id offer) \<noteq> 16 then Inl LeSessionId
      else
        bind_res (ok_or LeNoCertificate (so_device_certificate offer)) (\<lambda>encoded.
        bind_res (map_err LeCert (cert_decode P encoded)) (\<lambda>device_cert.
        bind_res (map_err LeCert (chain_verify P (cc_verifier chain) device_cert [cc_issuing chain] now)) (\<lambda>_.
        if is_revoked chain (tb_serial (ce_tbs device_cert)) then Inl LeRevoked
        else if so_suite offer < 0 \<or> so_suite offer > 255 then Inl LeSuiteRange
        else
          bind_res (ok_or (LeSuite (so_suite offer)) (suite_from_id (word_of_int (so_suite offer)))) (\<lambda>suite.
          if so_initiator_index offer = 0 then Inl LeNoIndex
          else Inr (so_session_id offer, device_cert, suite))))))"

definition offer_meta ::
  "('z, 'n, 'c) policy_libs \<Rightarrow> session_offer \<Rightarrow> certificate \<Rightarrow> uuid \<Rightarrow> 'n session_meta" where
  "offer_meta L offer device_cert tenant =
     \<lparr>sm_device_id = tb_subject_id (ce_tbs device_cert), sm_tenant = tenant,
      sm_serial = tb_serial (ce_tbs device_cert),
      sm_overlay_v4 = parse_net (pl_net L) (so_overlay_ipv4 offer),
      sm_overlay_v6 = parse_net (pl_net L) (so_overlay_ipv6 offer),
      sm_advertised = List.map_filter (ipnet_parse (pl_net L)) (so_advertised_routes offer)\<rparr>"

text \<open>\<open>r\<close> is the reference of the new session, \<open>link_ok\<close> whether the answer could be sent.
  \<open>None\<close>: the draws of \<open>allocate_index\<close> ran out.\<close>

definition accept_offer ::
  "prims \<Rightarrow> ('z, 'n, 'c) policy_libs \<Rightarrow> ('p, 't) lpm_lib \<Rightarrow> clock \<Rightarrow> int \<Rightarrow> bytes \<Rightarrow> answer_coins \<Rightarrow> bytes \<Rightarrow>
   (crypto_error + bytes) list \<Rightarrow> bool \<Rightarrow> ('n, 't, 'c) gateway \<Rightarrow> sref \<Rightarrow> session_offer \<Rightarrow>
   ((link_error + unit) \<times> ('n, 't, 'c) gateway \<times> session_answer list) option" where
  "accept_offer P L R ck now public_endpoint coins rnd_sign draws link_ok gw r offer =
     (case check_offer P (gw_chain gw) now offer of
        Inl e \<Rightarrow> Some (Inl e, gw, [])
      | Inr (session_id, device_cert, suite) \<Rightarrow>
         (case allocate_index (gw_table gw) draws of
            None \<Rightarrow> None
          | Some (Inl e) \<Rightarrow> Some (Inl (LeTunnel e), gw, [])
          | Some (Inr my_index) \<Rightarrow>
             (case answer P coins rnd_sign session_id device_cert (so_eph_kem_pk offer) suite
                     (cert_id P (gw_cert gw)) (gw_signing gw) my_index (Some public_endpoint) of
                Inl e \<Rightarrow> Some (Inl (LeTunnel e), gw, [])
              | Inr (ans, est) \<Rightarrow>
                  let s = session_new ck session_id Responder (eb_suite est) (cert_id P device_cert) (eb_keys est)
                            my_index (so_initiator_index offer) None;
                      gw1 = gw\<lparr>gw_table := table_insert (gw_table gw) r s\<rparr>
                  in case pl_uuid_parse L (tb_tenant_id (ce_tbs device_cert)) of
                    None \<Rightarrow> Some (Inl LeTenant, gw1, [])
                  | Some tenant \<Rightarrow>
                      let meta = offer_meta L offer device_cert tenant;
                          gw2 = gw1\<lparr>gw_routes := foldl (\<lambda>t net. route_insert (pl_net L) R t net session_id)
                                       (gw_routes gw1) (meta_routes (pl_net L) meta),
                                    gw_meta := AList.update session_id meta (gw_meta gw1)\<rparr>
                      in if \<not> gw_up gw2 then Some (Inr (), gw2, [])
                         else if link_ok then Some (Inr (), gw2, [ans])
                         else Some (Inl LeSend, gw2, []))))"

section \<open>The other messages\<close>

record route_update =
  ru_session_id :: bytes
  ru_cidrs :: "bytes list"
  ru_remove :: bool

definition apply_routes ::
  "'n net_lib \<Rightarrow> ('p, 't) lpm_lib \<Rightarrow> ('n, 't, 'c) gateway \<Rightarrow> route_update \<Rightarrow> ('n, 't, 'c) gateway" where
  "apply_routes N R gw update =
     (if length (ru_session_id update) \<noteq> 16 then gw
      else gw\<lparr>gw_routes :=
        foldl (\<lambda>t cidr.
            case ipnet_parse N cidr of
              None \<Rightarrow> t
            | Some net \<Rightarrow> if ru_remove update then route_remove N R t net
                          else route_insert N R t net (ru_session_id update))
          (gw_routes gw) (ru_cidrs update)\<rparr>)"

definition apply_crl ::
  "prims \<Rightarrow> ('p, 't) lpm_lib \<Rightarrow> ('n, 't, 'c) gateway \<Rightarrow> bytes \<Rightarrow> bytes \<Rightarrow> ('n, 't, 'c) gateway \<times> session_event list" where
  "apply_crl P R gw tbs signature =
     (case crl_verify P tbs signature (tb_signing_key (ce_tbs (cc_issuing (gw_chain gw)))) of
        Inl _ \<Rightarrow> (gw, [])
      | Inr verified \<Rightarrow>
          if cr_version verified < cr_version (cc_crl (gw_chain gw)) then (gw, [])
          else
            let chain = (gw_chain gw)\<lparr>cc_crl := verified\<rparr>;
                gw1 = gw\<lparr>gw_chain := chain\<rparr>;
                revoked = map fst (filter (\<lambda>e. is_revoked chain (sm_serial (snd e))) (gw_meta gw1))
            in close_all R gw1 revoked (ascii ''certificate revoked''))"

definition apply_snapshot ::
  "('z, 'n, 'c) policy_libs \<Rightarrow> (bytes \<Rightarrow> 'n snapshot_data option) \<Rightarrow> ('n, 't, 'c) gateway \<Rightarrow> bytes \<Rightarrow> int \<Rightarrow>
   ('n, 't, 'c) gateway" where
  "apply_snapshot L decode gw encoded now =
     (case decode encoded of
        None \<Rightarrow> gw
      | Some data \<Rightarrow> gw\<lparr>gw_policy := snd (policy_apply_snapshot L (gw_policy gw) (sd_tenant_id data) data now)\<rparr>)"

definition apply_device_update ::
  "('z, 'n, 'c) policy_libs \<Rightarrow> ('p, 't) lpm_lib \<Rightarrow> (bytes \<Rightarrow> device_attrs option) \<Rightarrow> ('n, 't, 'c) gateway \<Rightarrow>
   bytes option \<Rightarrow> bytes option \<Rightarrow> bytes \<Rightarrow> int \<Rightarrow> ('n, 't, 'c) gateway \<times> session_event list" where
  "apply_device_update L R from_json gw tenant device attrs_json now =
     (case (tenant, device) of
        (Some tenant, Some device) \<Rightarrow>
          if length tenant \<noteq> 16 \<or> length device \<noteq> 16 then (gw, [])
          else
            (case from_json attrs_json of
               None \<Rightarrow> (gw, [])
             | Some attrs \<Rightarrow>
                 let inactive = da_status attrs \<noteq> ascii ''active'';
                     gw1 = gw\<lparr>gw_policy := policy_patch_device L (gw_policy gw) tenant device attrs now\<rparr>
                 in if inactive
                    then close_all R gw1 (map fst (filter (\<lambda>e. sm_device_id (snd e) = device) (gw_meta gw1)))
                           (ascii ''device no longer active'')
                    else (gw1, []))
      | _ \<Rightarrow> (gw, []))"

section \<open>The gateway as a transition system\<close>

text \<open>One handled message, packet, datagram or timer visit, with whatever values the environment
  supplies.\<close>

inductive gw_step ::
  "prims \<Rightarrow> ('z, 'n, 'c) policy_libs \<Rightarrow> ('p, 't) lpm_lib \<Rightarrow> ('n, 't, 'c) gateway \<Rightarrow> ('n, 't, 'c) gateway \<Rightarrow> bool"
  for P :: prims and L :: "('z, 'n, 'c) policy_libs" and R :: "('p, 't) lpm_lib" where
  offer: "accept_offer P L R ck now ep coins rnd draws ok gw r off = Some (res, gw', msgs) \<Longrightarrow> gw_step P L R gw gw'"
| close: "gw_step P L R gw (fst (close_session R gw i reason))"
| crl: "gw_step P L R gw (fst (apply_crl P R gw tbs signature))"
| routes: "gw_step P L R gw (apply_routes (pl_net L) R gw update)"
| snapshot: "gw_step P L R gw (apply_snapshot L decode gw encoded now)"
| device: "gw_step P L R gw (fst (apply_device_update L R from_json gw tenant device attrs now))"
| link: "gw_step P L R gw (gw\<lparr>gw_up := up\<rparr>)"
| ip: "gw_step P L R gw (snd (handle_ip P L R ck now tun gw sid packet))"
| tun: "gw_step P L R gw (snd (tun_packet P R ck gw packet))"
| control: "handle_control P enc R ck rx rm draws gw ref msg = Some (gw', out, evs) \<Longrightarrow> gw_step P L R gw gw'"
| datagram: "gw_step P L R gw (gw\<lparr>gw_table := fst (recv_datagram P (frame :: bytes \<Rightarrow> tunnel_msg option) ck (gw_table gw) src dgram)\<rparr>)"
| timer: "gw_step P L R gw (gw\<lparr>gw_table :=
    fst (timer_session P ck tc (gw_table gw) ref :: table \<times> tunnel_msg endpoint_event list \<times> (socket_addr \<times> bytes) list)\<rparr>)"

inductive gw_reach ::
  "prims \<Rightarrow> ('z, 'n, 'c) policy_libs \<Rightarrow> ('p, 't) lpm_lib \<Rightarrow> ('n, 't, 'c) gateway \<Rightarrow> ('n, 't, 'c) gateway \<Rightarrow> bool"
  for P :: prims and L :: "('z, 'n, 'c) policy_libs" and R :: "('p, 't) lpm_lib" and gw0 where
  start: "gw_reach P L R gw0 gw0"
| step: "gw_reach P L R gw0 gw \<Longrightarrow> gw_step P L R gw gw' \<Longrightarrow> gw_reach P L R gw0 gw'"

text \<open>Every session with metadata is in the table, and its certificate is not revoked.\<close>

definition gw_inv :: "('n, 't, 'c) gateway \<Rightarrow> bool" where
  "gw_inv gw = (\<forall>i m. map_of (gw_meta gw) i = Some m \<longrightarrow>
     held (gw_table gw) i \<and> \<not> is_revoked (gw_chain gw) (sm_serial m))"

section \<open>Preservation\<close>

text \<open>Updates of the table that neither remove nor rename sessions.\<close>

definition keeps :: "table \<Rightarrow> table \<Rightarrow> bool" where
  "keeps t t' = (tb_by_id t' = tb_by_id t \<and> (\<forall>q. tb_store t q \<noteq> None \<longrightarrow> tb_store t' q \<noteq> None))"

lemma keeps_simps [simp]:
  "keeps t t" "keeps t u \<Longrightarrow> keeps t (put_session u r s)" "keeps t u \<Longrightarrow> keeps t (release_index u i)"
  "keeps t u \<Longrightarrow> keeps t (rebind_index u r i)"
  by (auto simp: keeps_def put_session_def release_index_def rebind_index_def)

lemma keeps_held: "keeps t t' \<Longrightarrow> held t i \<Longrightarrow> held t' i"
  by (auto simp: keeps_def held_def)

lemma keeps_recv: "keeps t (fst (recv_datagram P frame ck t src dgram))"
  by (simp add: recv_datagram_def Let_def split: sum.splits prod.splits option.splits)

lemma keeps_timer: "keeps t (fst (timer_session P ck tc t r))"
  by (auto simp: timer_session_def Let_def split: sum.splits prod.splits option.splits)

lemma gw_inv_keeps:
  "gw_inv gw \<Longrightarrow> keeps (gw_table gw) (gw_table gw') \<Longrightarrow> gw_meta gw' = gw_meta gw \<Longrightarrow> gw_chain gw' = gw_chain gw \<Longrightarrow>
   gw_inv gw'"
  using keeps_held by (fastforce simp: gw_inv_def)

lemma forward_frame:
  "keeps (gw_table gw) (gw_table (snd (forward P N R ck tun (gw\<lparr>gw_policy := q\<rparr>) sid flow packet)))"
  "gw_meta (snd (forward P N R ck tun (gw\<lparr>gw_policy := q\<rparr>) sid flow packet)) = gw_meta gw"
  "gw_chain (snd (forward P N R ck tun (gw\<lparr>gw_policy := q\<rparr>) sid flow packet)) = gw_chain gw"
  by (simp_all add: forward_def split: option.splits prod.splits sum.splits)

lemma handle_ip_frame:
  "keeps (gw_table gw) (gw_table (snd (handle_ip P L R ck now tun gw sid packet)))"
  "gw_meta (snd (handle_ip P L R ck now tun gw sid packet)) = gw_meta gw"
  "gw_chain (snd (handle_ip P L R ck now tun gw sid packet)) = gw_chain gw"
  by (simp_all add: handle_ip_def Let_def forward_frame split: option.splits prod.splits)

lemma tun_packet_frame:
  "keeps (gw_table gw) (gw_table (snd (tun_packet P R ck gw packet)))"
  "gw_meta (snd (tun_packet P R ck gw packet)) = gw_meta gw"
  "gw_chain (snd (tun_packet P R ck gw packet)) = gw_chain gw"
  by (simp_all add: tun_packet_def split: option.splits prod.splits sum.splits)

lemma gw_inv_close: "gw_inv gw \<Longrightarrow> gw_inv (fst (close_session R gw i reason))"
proof (cases "held (gw_table gw) i")
  case True
  assume "gw_inv gw"
  then show ?thesis
    using close_session_held[OF True, where R = R and reason = reason]
    by (auto simp: gw_inv_def AList.delete_conv' split: if_splits)
qed (simp add: close_session_gone)

text \<open>Closing a list of sessions.\<close>

lemma close_all_Cons: "fst (close_all R gw (i # is) reason) = fst (close_all R (fst (close_session R gw i reason)) is reason)"
  by (simp add: Let_def case_prod_beta)

lemma close_session_chain: "gw_chain (fst (close_session R gw i reason)) = gw_chain gw"
  using close_session_held(5)[of gw i R reason] close_session_gone[of gw i R reason]
  by (cases "held (gw_table gw) i") auto

lemma close_session_held_iff:
  "held (gw_table (fst (close_session R gw i reason))) j = (held (gw_table gw) j \<and> j \<noteq> i)"
  using close_session_held(1,2)[where gw = gw and i = i and R = R and reason = reason] close_session_gone[of gw i R reason]
  by (cases "held (gw_table gw) i"; cases "j = i") auto

lemma close_session_meta:
  "map_of (gw_meta gw) i = None \<or> held (gw_table gw) i \<Longrightarrow>
   map_of (gw_meta (fst (close_session R gw i reason))) = (map_of (gw_meta gw))(i := None)"
  using close_session_held(3)[of gw i R reason] close_session_gone[of gw i R reason]
  by (cases "held (gw_table gw) i") (auto simp: AList.delete_conv')

lemma close_session_entries:
  assumes "lpm_correct R" and "lpm_entries R (gw_routes (fst (close_session R gw i reason))) p = Some j"
  shows "lpm_entries R (gw_routes gw) p = Some j" and "held (gw_table gw) i \<Longrightarrow> j \<noteq> i"
  using assms(2) close_session_held(4)[of gw i R reason] close_session_gone[of gw i R reason]
  by (cases "held (gw_table gw) i"; auto simp: route_remove_session_entries[OF assms(1)] split: if_splits)+

lemma close_all_chain: "gw_chain (fst (close_all R gw is reason)) = gw_chain gw"
  by (induction "is" arbitrary: gw) (simp_all only: close_all_Cons close_session_chain close_all.simps(1) fst_conv)

lemma close_all_held:
  "held (gw_table (fst (close_all R gw is reason))) j = (held (gw_table gw) j \<and> j \<notin> set is)"
proof (induction "is" arbitrary: gw)
  case (Cons i "is")
  show ?case unfolding close_all_Cons Cons.IH close_session_held_iff by auto
qed simp

lemma close_all_meta:
  "(\<And>i. i \<in> set is \<Longrightarrow> map_of (gw_meta gw) i = None \<or> held (gw_table gw) i) \<Longrightarrow>
   map_of (gw_meta (fst (close_all R gw is reason))) j = (if j \<in> set is then None else map_of (gw_meta gw) j)"
proof (induction "is" arbitrary: gw)
  case (Cons i "is")
  have m: "map_of (gw_meta (fst (close_session R gw i reason))) = (map_of (gw_meta gw))(i := None)"
    by (rule close_session_meta) (simp add: Cons.prems)
  have "map_of (gw_meta (fst (close_session R gw i reason))) k = None \<or> held (gw_table (fst (close_session R gw i reason))) k"
    if "k \<in> set is" for k
    using Cons.prems[of k] that unfolding m close_session_held_iff by auto
  from Cons.IH[of "fst (close_session R gw i reason)", OF this] show ?case
    unfolding close_all_Cons m by auto
qed simp

lemma close_all_entries:
  assumes "lpm_correct R"
  shows "lpm_entries R (gw_routes (fst (close_all R gw is reason))) p = Some j \<Longrightarrow>
    lpm_entries R (gw_routes gw) p = Some j \<and> (held (gw_table gw) j \<longrightarrow> j \<notin> set is)"
proof (induction "is" arbitrary: gw)
  case (Cons i "is")
  from Cons.IH[OF Cons.prems[unfolded close_all_Cons]]
  have e: "lpm_entries R (gw_routes (fst (close_session R gw i reason))) p = Some j"
    and h: "held (gw_table gw) j \<and> j \<noteq> i \<longrightarrow> j \<notin> set is" unfolding close_session_held_iff by auto
  from close_session_entries[OF assms e] h show ?case by auto
qed simp

lemma gw_inv_close_all:
  assumes "gw_inv gw"
  shows "gw_inv (fst (close_all R gw is reason))"
  using assms by (induction "is" arbitrary: gw) (simp_all add: Let_def case_prod_beta gw_inv_close)

lemma session_new_id [simp]: "se_id (session_new ck i ro su peer keys l re ep) = i"
  by (simp add: session_new_def)

lemma held_insert:
  "held t i \<Longrightarrow> held (table_insert t r s) i" "held (table_insert t r s) (se_id s)"
  by (auto simp: held_def table_insert_def)

lemma gw_inv_offer:
  assumes "gw_inv gw" and "accept_offer P L R ck now ep coins rnd draws ok gw r off = Some (res, gw', msgs)"
  shows "gw_inv gw' \<and> gw_chain gw' = gw_chain gw"
proof (cases "check_offer P (gw_chain gw) now off")
  case (Inl e)
  then show ?thesis using assms by (simp add: accept_offer_def)
next
  case (Inr x)
  obtain sid cert su where x: "x = (sid, cert, su)" by (metis prod_cases3)
  with Inr have rev: "\<not> is_revoked (gw_chain gw) (tb_serial (ce_tbs cert))"
    by (auto simp: check_offer_def res_simps split: if_splits)
  show ?thesis
    using assms Inr x rev
    by (auto simp: accept_offer_def gw_inv_def Let_def offer_meta_def AList.update_conv' held_insert
        held_insert(2)[of _ _ "session_new _ sid _ _ _ _ _ _ _", simplified]
        split: option.splits sum.splits prod.splits if_splits)
qed

lemma gw_inv_crl:
  assumes "gw_inv gw"
  shows "gw_inv (fst (apply_crl P R gw tbs sg))"
proof (cases "fst (apply_crl P R gw tbs sg) = gw")
  case False
  then obtain c where v: "crl_verify P tbs sg (tb_signing_key (ce_tbs (cc_issuing (gw_chain gw)))) = Inr c"
    "\<not> cr_version c < cr_version (cc_crl (gw_chain gw))"
    by (auto simp: apply_crl_def split: sum.splits if_splits)
  let ?chain = "(gw_chain gw)\<lparr>cc_crl := c\<rparr>" and ?g = "gw\<lparr>gw_chain := (gw_chain gw)\<lparr>cc_crl := c\<rparr>\<rparr>"
  let ?is = "map fst (filter (\<lambda>e. is_revoked ?chain (sm_serial (snd e))) (gw_meta gw))"
  have e: "fst (apply_crl P R gw tbs sg) = fst (close_all R ?g ?is (ascii ''certificate revoked''))"
    using v by (simp add: apply_crl_def Let_def del: ascii_simps)
  have h: "map_of (gw_meta ?g) i = None \<or> held (gw_table ?g) i" if "i \<in> set ?is" for i
    using assms by (cases "map_of (gw_meta gw) i") (auto simp: gw_inv_def)
  show ?thesis unfolding gw_inv_def e
  proof (intro allI impI)
    fix i m assume "map_of (gw_meta (fst (close_all R ?g ?is (ascii ''certificate revoked'')))) i = Some m"
    then have m: "i \<notin> set ?is" "map_of (gw_meta gw) i = Some m"
      using close_all_meta[of ?is ?g R "ascii ''certificate revoked''" i, OF h] by (auto simp del: ascii_simps split: if_splits)
    then have "\<not> is_revoked ?chain (sm_serial m)" by (force dest: map_of_SomeD)
    moreover have "held (gw_table gw) i" using assms m(2) by (auto simp: gw_inv_def)
    ultimately show "held (gw_table (fst (close_all R ?g ?is (ascii ''certificate revoked'')))) i \<and>
        \<not> is_revoked (gw_chain (fst (close_all R ?g ?is (ascii ''certificate revoked'')))) (sm_serial m)"
      using m(1) by (simp add: close_all_held close_all_chain)
  qed
qed (use assms in simp)

lemma gw_inv_step:
  assumes "gw_step P L R gw gw'" and "gw_inv gw"
  shows "gw_inv gw'"
  using assms
proof (induction rule: gw_step.cases)
  case (offer ck now ep coins rnd draws ok gw r off res gw' msgs)
  then show ?case using gw_inv_offer by blast
next
  case (control enc ck rx rm draws gw ref msg gw' out evs)
  then show ?case
    by (auto simp: handle_control_def Let_def case_prod_beta intro: gw_inv_close gw_inv_keeps
        split: option.splits tunnel_msg.splits sum.splits prod.splits)
next
  case (device gw from_json tenant device attrs now)
  then show ?case
    by (auto simp: apply_device_update_def Let_def intro!: gw_inv_close_all split: option.splits)
      (auto intro: gw_inv_keeps)
qed (auto intro: gw_inv_close gw_inv_crl gw_inv_keeps handle_ip_frame tun_packet_frame
    simp: apply_routes_def apply_snapshot_def keeps_recv keeps_timer split: option.splits)

lemma accept_offer_chain:
  "accept_offer P L R ck now ep coins rnd draws ok gw r off = Some (res, gw', msgs) \<Longrightarrow> gw_chain gw' = gw_chain gw"
  by (auto simp: accept_offer_def Let_def split: option.splits sum.splits prod.splits if_splits)

lemma handle_control_chain:
  "handle_control P enc R ck rx rm draws gw ref msg = Some (gw', out, evs) \<Longrightarrow> gw_chain gw' = gw_chain gw"
  by (auto simp: handle_control_def Let_def case_prod_beta close_session_chain
      split: option.splits tunnel_msg.splits sum.splits prod.splits)

lemma crl_version_step:
  assumes "gw_step P L R gw gw'"
  shows "cr_version (cc_crl (gw_chain gw)) \<le> cr_version (cc_crl (gw_chain gw'))"
  using assms
proof (cases rule: gw_step.cases)
  case (crl tbs signature)
  then show ?thesis by (auto simp: apply_crl_def Let_def close_all_chain split: sum.splits)
next
  case (device from_json tenant device attrs now)
  then show ?thesis by (auto simp: apply_device_update_def Let_def close_all_chain split: option.splits)
qed (auto simp: accept_offer_chain handle_control_chain close_session_chain handle_ip_frame tun_packet_frame
    apply_routes_def apply_snapshot_def split: option.splits)

lemma gw_reach_inv:
  assumes "gw_reach P L R gw0 gw" and "gw_inv gw0"
  shows "gw_inv gw \<and> cr_version (cc_crl (gw_chain gw0)) \<le> cr_version (cc_crl (gw_chain gw))"
  using assms by (induction rule: gw_reach.induct) (auto dest: gw_inv_step crl_version_step)

lemma apply_crl_accepted:
  assumes "lpm_correct R" and "gw_inv gw"
    and "crl_verify P tbs sg (tb_signing_key (ce_tbs (cc_issuing (gw_chain gw)))) = Inr c"
    and "cr_version (cc_crl (gw_chain gw)) \<le> cr_version c"
    and "map_of (gw_meta gw) i = Some m" and "sm_serial m \<in> set (cr_serials c)"
  shows "cc_crl (gw_chain (fst (apply_crl P R gw tbs sg))) = c"
    and "map_of (gw_meta (fst (apply_crl P R gw tbs sg))) i = None"
    and "\<not> held (gw_table (fst (apply_crl P R gw tbs sg))) i"
    and "lpm_entries R (gw_routes (fst (apply_crl P R gw tbs sg))) p \<noteq> Some i"
proof -
  let ?g = "gw\<lparr>gw_chain := (gw_chain gw)\<lparr>cc_crl := c\<rparr>\<rparr>"
  let ?is = "map fst (filter (\<lambda>e. is_revoked ((gw_chain gw)\<lparr>cc_crl := c\<rparr>) (sm_serial (snd e))) (gw_meta gw))"
  have e: "fst (apply_crl P R gw tbs sg) = fst (close_all R ?g ?is (ascii ''certificate revoked''))"
    using assms(3,4) by (simp add: apply_crl_def Let_def del: ascii_simps)
  have i: "i \<in> set ?is" using assms(5,6) by (force simp: is_revoked_def dest: map_of_SomeD)
  have h: "held (gw_table ?g) i" using assms(2,5) by (simp add: gw_inv_def)
  have hs: "map_of (gw_meta ?g) j = None \<or> held (gw_table ?g) j" for j
    using assms(2) by (cases "map_of (gw_meta gw) j") (auto simp: gw_inv_def)
  show "cc_crl (gw_chain (fst (apply_crl P R gw tbs sg))) = c" unfolding e close_all_chain by simp
  show "map_of (gw_meta (fst (apply_crl P R gw tbs sg))) i = None"
    using close_all_meta[of ?is ?g R "ascii ''certificate revoked''" i, OF hs] i unfolding e by (simp del: ascii_simps)
  show "\<not> held (gw_table (fst (apply_crl P R gw tbs sg))) i" using i unfolding e close_all_held by blast
  show "lpm_entries R (gw_routes (fst (apply_crl P R gw tbs sg))) p \<noteq> Some i"
    using close_all_entries[OF assms(1)] i h unfolding e by blast
qed

section \<open>Properties\<close>



end
