(* ===== verification/Legacy_Tunnel.thy ===== *)
theory Legacy_Tunnel
  imports Crypto_Prims Avon_Codec
begin

text \<open>
  \<open>avon-crypto/src/tunnel.rs\<close> and the \<open>Aes256GcmCipher\<close> of \<open>aead.rs\<close>: the earlier tunnel cipher, whose
  nonce counter is a wrapping atomic increment.  A key array always has the 32 bytes AES-256 wants,
  so the conversions of the key cannot fail; \<open>aead::Error\<close> is how the crate prints its one error.
\<close>

section \<open>AES-256-GCM\<close>

definition gcm_new :: "bytes \<Rightarrow> crypto_error + bytes" where
  "gcm_new key = (if length key \<noteq> 32 then Inl (InvalidKeyLength 32 (length key)) else Inr key)"

definition gcm_encrypt :: "prims \<Rightarrow> bytes \<Rightarrow> bytes \<Rightarrow> bytes \<Rightarrow> bytes \<Rightarrow> crypto_error + bytes" where
  "gcm_encrypt P key nonce plaintext aad =
     ok_or (EncryptionFailed ''aead::Error'') (p_aes_encrypt P key nonce aad plaintext)"

definition gcm_decrypt :: "prims \<Rightarrow> bytes \<Rightarrow> bytes \<Rightarrow> bytes \<Rightarrow> bytes \<Rightarrow> crypto_error + bytes" where
  "gcm_decrypt P key nonce ciphertext aad =
     ok_or (DecryptionFailed ''aead::Error'') (p_aes_decrypt P key nonce aad ciphertext)"

section \<open>The cipher\<close>

datatype tunnel_direction = DirInitiator | DirResponder

fun direction_byte :: "tunnel_direction \<Rightarrow> byte" where
  "direction_byte DirInitiator = 0"
| "direction_byte DirResponder = 1"

record tunnel_cipher =
  tn_key :: bytes
  tn_nonce_counter :: u64
  tn_direction :: tunnel_direction

record tunnel_packet =
  tp_nonce :: bytes
  tp_ciphertext :: bytes

definition tunnel_new :: "bytes \<Rightarrow> tunnel_direction \<Rightarrow> tunnel_cipher" where
  "tunnel_new key d = \<lparr>tn_key = key, tn_nonce_counter = 0, tn_direction = d\<rparr>"

definition next_nonce :: "tunnel_cipher \<Rightarrow> (crypto_error + bytes) \<times> tunnel_cipher" where
  "next_nonce c =
     (let counter = tn_nonce_counter c;
          c' = c\<lparr>tn_nonce_counter := counter + 1\<rparr>
      in if counter = - 1 then (Inl (EncryptionFailed ''Nonce counter exhausted''), c')
         else (Inr ([direction_byte (tn_direction c), 0, 0, 0] @ to_be_bytes counter), c'))"

definition tunnel_encrypt ::
  "prims \<Rightarrow> tunnel_cipher \<Rightarrow> bytes \<Rightarrow> bytes \<Rightarrow> (crypto_error + tunnel_packet) \<times> tunnel_cipher" where
  "tunnel_encrypt P c plaintext aad =
     (case next_nonce c of
        (Inl e, c') \<Rightarrow> (Inl e, c')
      | (Inr nonce, c') \<Rightarrow>
          (bind_res (gcm_encrypt P (tn_key c) nonce plaintext aad)
             (\<lambda>ct. Inr \<lparr>tp_nonce = nonce, tp_ciphertext = ct\<rparr>), c'))"

definition tunnel_decrypt :: "prims \<Rightarrow> tunnel_cipher \<Rightarrow> tunnel_packet \<Rightarrow> bytes \<Rightarrow> crypto_error + bytes" where
  "tunnel_decrypt P c packet aad = gcm_decrypt P (tn_key c) (tp_nonce packet) (tp_ciphertext packet) aad"

definition tunnel_encrypt_in_place ::
  "prims \<Rightarrow> tunnel_cipher \<Rightarrow> bytes \<Rightarrow> bytes \<Rightarrow> (crypto_error + bytes) \<times> tunnel_cipher" where
  "tunnel_encrypt_in_place P c buffer aad =
     (case next_nonce c of
        (Inl e, c') \<Rightarrow> (Inl e, c')
      | (Inr nonce, c') \<Rightarrow>
          (bind_res (gcm_encrypt P (tn_key c) nonce buffer aad) (\<lambda>ct. Inr (nonce @ ct)), c'))"

definition remaining_nonces :: "tunnel_cipher \<Rightarrow> u64" where
  "remaining_nonces c = - 1 - tn_nonce_counter c"

section \<open>Packets\<close>

definition overhead :: nat where
  "overhead = 12 + 16"

definition packet_to_bytes :: "tunnel_packet \<Rightarrow> bytes" where
  "packet_to_bytes p = tp_nonce p @ tp_ciphertext p"

text \<open>The message of the length error; the numbers are printed in decimal.\<close>

definition packet_from_bytes :: "bytes \<Rightarrow> crypto_error + tunnel_packet" where
  "packet_from_bytes bs =
     (if length bs < overhead
      then Inl (DecryptionFailed (''Packet too short: '' @ show_nat (length bs) @ '' bytes, minimum '' @ show_nat overhead))
      else Inr \<lparr>tp_nonce = take 12 bs, tp_ciphertext = drop 12 bs\<rparr>)"

definition plaintext_len :: "tunnel_packet \<Rightarrow> nat" where
  "plaintext_len p = length (tp_ciphertext p) - 16"

definition packet_ok :: "tunnel_packet \<Rightarrow> bool" where
  "packet_ok p = (length (tp_nonce p) = 12 \<and> 16 \<le> length (tp_ciphertext p))"

interpretation packet: byte_codec packet_to_bytes packet_from_bytes packet_ok
  by unfold_locales
    (auto simp: packet_to_bytes_def packet_from_bytes_def packet_ok_def overhead_def split: if_splits)

section \<open>Nonces over a run\<close>

fun nonce_run :: "nat \<Rightarrow> tunnel_cipher \<Rightarrow> (crypto_error + bytes) list" where
  "nonce_run 0 c = []"
| "nonce_run (Suc n) c = (case next_nonce c of (r, c') \<Rightarrow> r # nonce_run n c')"

definition nonce_at :: "tunnel_cipher \<Rightarrow> nat \<Rightarrow> crypto_error + bytes" where
  "nonce_at c i = fst (next_nonce (c\<lparr>tn_nonce_counter := tn_nonce_counter c + word_of_nat i\<rparr>))"

lemma nonce_run_map: "nonce_run n c = map (nonce_at c) [0..<n]"
proof (induction n arbitrary: c)
  case (Suc n)
  let ?c' = "c\<lparr>tn_nonce_counter := tn_nonce_counter c + 1\<rparr>"
  have "nonce_at ?c' i = nonce_at c (Suc i)" for i
    by (simp add: nonce_at_def add.assoc)
  moreover have "next_nonce c = (nonce_at c 0, ?c')"
    by (simp add: nonce_at_def next_nonce_def Let_def)
  ultimately show ?case
    using Suc[of ?c'] by (simp add: map_upt_Suc del: upt_Suc)
qed simp

lemma nonce_at_new:
  "nonce_at (tunnel_new key d) i =
     (if (word_of_nat i :: u64) = - 1 then Inl (EncryptionFailed ''Nonce counter exhausted'')
      else Inr ([direction_byte d, 0, 0, 0] @ to_be_bytes (word_of_nat i :: u64)))"
  by (simp add: nonce_at_def next_nonce_def tunnel_new_def Let_def)

lemma nonce_run_nth: "i < n \<Longrightarrow> nonce_run n c ! i = nonce_at c i"
  by (simp add: nonce_run_map)

lemma word_of_nat_inj64:
  assumes "i < 2 ^ 64" and "j < 2 ^ 64" and "(word_of_nat i :: u64) = word_of_nat j"
  shows "i = j"
proof -
  have "unat (word_of_nat i :: u64) = unat (word_of_nat j :: u64)" using assms(3) by simp
  then show ?thesis using assms(1,2) by (simp add: unat_of_nat)
qed

lemma nonce_at_inj:
  assumes "i < 2 ^ 64" and "j < 2 ^ 64" and "nonce_at (tunnel_new key d) i = nonce_at (tunnel_new key d) j"
  shows "i = j"
proof (rule word_of_nat_inj64[OF assms(1,2)])
  show "(word_of_nat i :: u64) = word_of_nat j"
    using assms(3) unfolding nonce_at_new by (auto split: if_splits)
qed

lemma nonce_run_distinct: "n \<le> 2 ^ 64 \<Longrightarrow> distinct (nonce_run n (tunnel_new key d))"
  unfolding nonce_run_map distinct_map by (auto simp: inj_on_def intro: nonce_at_inj)

section \<open>Properties\<close>

text \<open>The first \<open>2^64\<close> calls of \<open>next_nonce\<close> on one cipher give pairwise different results, the last
  of them the exhaustion error; but the error comes only once: the counter wraps, and the following
  call hands out the very first nonce again.\<close>

theorem legacy_nonces_wrap:
  "distinct (nonce_run (2 ^ 64) (tunnel_new key d)) \<and>
   nonce_at (tunnel_new key d) (2 ^ 64 - 1) = Inl (EncryptionFailed ''Nonce counter exhausted'') \<and>
   nonce_at (tunnel_new key d) (2 ^ 64) = nonce_at (tunnel_new key d) 0 \<and>
   is_ok (nonce_at (tunnel_new key d) 0) \<and>
   nonce_run n c = map (nonce_at c) [0..<n]"
proof (intro conjI)
  show "distinct (nonce_run (2 ^ 64) (tunnel_new key d))" by (rule nonce_run_distinct) simp
  have "(word_of_nat (2 ^ 64 - 1) :: u64) = - 1" "(word_of_nat (2 ^ 64) :: u64) = word_of_nat 0"
    by simp_all
  then show "nonce_at (tunnel_new key d) (2 ^ 64 - 1) = Inl (EncryptionFailed ''Nonce counter exhausted'')"
    and "nonce_at (tunnel_new key d) (2 ^ 64) = nonce_at (tunnel_new key d) 0"
    unfolding nonce_at_new by simp_all
  show "is_ok (nonce_at (tunnel_new key d) 0)" unfolding nonce_at_new by simp
  show "nonce_run n c = map (nonce_at c) [0..<n]" by (rule nonce_run_map)
qed

end
