(* ===== verification/Rotating_Token.thy ===== *)
theory Rotating_Token
  imports Crypto_Prims
begin

text \<open>
  \<open>avon-crypto/src/token.rs\<close>: the token a device and the server rotate in step, each keeping the
  previous one for a grace period.  \<open>None\<close> is the \<open>unreachable!\<close> after a failing HKDF, which
  \<open>hkdf_sized\<close> excludes.
\<close>

unbundle bit_operations_syntax

datatype token_verify_result = Current | Previous | Invalid

record rotation_input =
  ri_server_nonce :: bytes
  ri_client_nonce :: bytes
  ri_timestamp :: u64

definition TOKEN_ROTATE_INFO :: bytes where
  "TOKEN_ROTATE_INFO = ascii ''AVON-token-rotate-v1''"

definition derive_next_token :: "prims \<Rightarrow> bytes \<Rightarrow> bytes \<Rightarrow> bytes \<Rightarrow> u64 \<Rightarrow> u64 \<Rightarrow> bytes option" where
  "derive_next_token P current server_nonce client_nonce timestamp sequence =
     (let ikm = current @ server_nonce @ client_nonce @ to_le_bytes timestamp @ to_le_bytes sequence
      in case hkdf_sha256 P ikm None TOKEN_ROTATE_INFO 32 of
           Inr derived \<Rightarrow> Some derived
         | Inl _ \<Rightarrow> None)"

definition constant_time_eq :: "bytes \<Rightarrow> bytes \<Rightarrow> bool" where
  "constant_time_eq a b = (fold (\<lambda>(x, y) diff. diff OR (x XOR y)) (zip a b) 0 = 0)"

section \<open>The device's token\<close>

record rotating_token =
  rt_current :: bytes
  rt_previous :: "bytes option"
  rt_sequence :: u64

definition token_new :: "bytes \<Rightarrow> rotating_token" where
  "token_new initial_seed = \<lparr>rt_current = initial_seed, rt_previous = None, rt_sequence = 0\<rparr>"

definition token_rotate :: "prims \<Rightarrow> rotating_token \<Rightarrow> rotation_input \<Rightarrow> (bytes \<times> rotating_token) option" where
  "token_rotate P t i =
     (case derive_next_token P (rt_current t) (ri_server_nonce i) (ri_client_nonce i) (ri_timestamp i) (rt_sequence t) of
        None \<Rightarrow> None
      | Some new_token \<Rightarrow>
          Some (new_token, \<lparr>rt_current = new_token, rt_previous = Some (rt_current t),
                            rt_sequence = rt_sequence t + 1\<rparr>))"

definition token_verify :: "rotating_token \<Rightarrow> bytes \<Rightarrow> token_verify_result" where
  "token_verify t token =
     (if constant_time_eq (rt_current t) token then Current
      else case rt_previous t of
        Some prev \<Rightarrow> if constant_time_eq prev token then Previous else Invalid
      | None \<Rightarrow> Invalid)"

definition compute_auth_tag :: "prims \<Rightarrow> rotating_token \<Rightarrow> bytes \<Rightarrow> bytes" where
  "compute_auth_tag P t data = hmac_sha256 P (rt_current t) data"

definition token_verify_auth_tag :: "prims \<Rightarrow> rotating_token \<Rightarrow> bytes \<Rightarrow> bytes \<Rightarrow> bool" where
  "token_verify_auth_tag P t data tag =
     (if hmac_sha256_verify P (rt_current t) data tag then True
      else case rt_previous t of
        Some prev \<Rightarrow> hmac_sha256_verify P prev data tag
      | None \<Rightarrow> False)"

section \<open>The server's state\<close>

record server_token_state =
  ss_device_id :: bytes
  ss_current :: bytes
  ss_previous :: "bytes option"
  ss_sequence :: u64
  ss_last_rotation :: u64

definition server_new :: "bytes \<Rightarrow> bytes \<Rightarrow> server_token_state" where
  "server_new device_id initial_seed =
     \<lparr>ss_device_id = device_id, ss_current = initial_seed, ss_previous = None, ss_sequence = 0, ss_last_rotation = 0\<rparr>"

definition generate_rotation_input :: "bytes \<Rightarrow> u64 \<Rightarrow> rotation_input \<times> bytes" where
  "generate_rotation_input server_nonce timestamp =
     (\<lparr>ri_server_nonce = server_nonce, ri_client_nonce = replicate 32 0, ri_timestamp = timestamp\<rparr>, server_nonce)"

definition complete_rotation ::
  "prims \<Rightarrow> server_token_state \<Rightarrow> rotation_input \<Rightarrow> (bytes \<times> server_token_state) option" where
  "complete_rotation P s i =
     (case derive_next_token P (ss_current s) (ri_server_nonce i) (ri_client_nonce i) (ri_timestamp i) (ss_sequence s) of
        None \<Rightarrow> None
      | Some new_token \<Rightarrow>
          Some (new_token, s\<lparr>ss_previous := Some (ss_current s), ss_current := new_token,
                             ss_sequence := ss_sequence s + 1, ss_last_rotation := ri_timestamp i\<rparr>))"

definition server_verify :: "server_token_state \<Rightarrow> bytes \<Rightarrow> token_verify_result" where
  "server_verify s token =
     (if constant_time_eq (ss_current s) token then Current
      else case ss_previous s of
        Some prev \<Rightarrow> if constant_time_eq prev token then Previous else Invalid
      | None \<Rightarrow> Invalid)"

definition server_verify_auth_tag :: "prims \<Rightarrow> server_token_state \<Rightarrow> bytes \<Rightarrow> bytes \<Rightarrow> bool" where
  "server_verify_auth_tag P s data tag =
     (if hmac_sha256_verify P (ss_current s) data tag then True
      else case ss_previous s of
        Some prev \<Rightarrow> hmac_sha256_verify P prev data tag
      | None \<Rightarrow> False)"

section \<open>Constant-time comparison\<close>

lemma xor_zero_iff: "(x :: byte) XOR y = 0 \<longleftrightarrow> x = y"
  by (auto simp: bit_eq_iff bit_xor_iff)

lemma fold_diff_zero:
  "fold (\<lambda>(x, y) diff. diff OR (x XOR y)) ps d = (0 :: byte) \<longleftrightarrow> d = 0 \<and> (\<forall>(x, y) \<in> set ps. x = y)"
  by (induction ps arbitrary: d) (auto simp: or_eq_0_iff xor_zero_iff)

lemma constant_time_eq_iff: "length a = length b \<Longrightarrow> constant_time_eq a b \<longleftrightarrow> a = b"
  unfolding constant_time_eq_def fold_diff_zero
  by (induction a b rule: list_induct2) auto

section \<open>The contract both ends share\<close>

definition derive_step :: "prims \<Rightarrow> bytes \<Rightarrow> u64 \<Rightarrow> rotation_input \<Rightarrow> bytes option" where
  "derive_step P c q i = derive_next_token P c (ri_server_nonce i) (ri_client_nonce i) (ri_timestamp i) q"

text \<open>The token and its predecessor after a sequence of inputs, from the current token and sequence
  number alone.\<close>

fun token_after :: "prims \<Rightarrow> bytes \<times> bytes option \<times> u64 \<Rightarrow> rotation_input list \<Rightarrow> (bytes \<times> bytes option \<times> u64) option" where
  "token_after P (c, p, q) [] = Some (c, p, q)"
| "token_after P (c, p, q) (i # is) =
    (case derive_step P c q i of None \<Rightarrow> None | Some t \<Rightarrow> token_after P (t, Some c, q + 1) is)"

fun rotations :: "('s \<Rightarrow> rotation_input \<Rightarrow> (bytes \<times> 's) option) \<Rightarrow> 's \<Rightarrow> rotation_input list \<Rightarrow> 's option" where
  "rotations rot s [] = Some s"
| "rotations rot s (i # is) = (case rot s i of None \<Rightarrow> None | Some (_, s') \<Rightarrow> rotations rot s' is)"

locale rolling =
  fixes P :: prims
    and cur :: "'s \<Rightarrow> bytes" and prv :: "'s \<Rightarrow> bytes option" and sqn :: "'s \<Rightarrow> u64"
    and rot :: "'s \<Rightarrow> rotation_input \<Rightarrow> (bytes \<times> 's) option"
    and ver :: "'s \<Rightarrow> bytes \<Rightarrow> token_verify_result"
  assumes rot_none: "derive_step P (cur s) (sqn s) i = None \<Longrightarrow> rot s i = None"
    and rot_some: "derive_step P (cur s) (sqn s) i = Some t \<Longrightarrow>
       \<exists>s'. rot s i = Some (t, s') \<and> cur s' = t \<and> prv s' = Some (cur s) \<and> sqn s' = sqn s + 1"
    and ver_current: "length (cur s) = length t \<Longrightarrow> ver s t = Current \<longleftrightarrow> t = cur s"
    and ver_previous: "\<lbrakk>prv s = Some p; length p = length t; length (cur s) = length t\<rbrakk> \<Longrightarrow>
       ver s t = Previous \<longleftrightarrow> t = p \<and> t \<noteq> cur s"
    and ver_first: "prv s = None \<Longrightarrow> ver s t \<noteq> Previous"
begin

lemma rotations_after:
  "(case rotations rot s is of None \<Rightarrow> None | Some s' \<Rightarrow> Some (cur s', prv s', sqn s')) =
   token_after P (cur s, prv s, sqn s) is"
proof (induction "is" arbitrary: s)
  case (Cons i "is")
  show ?case
  proof (cases "derive_step P (cur s) (sqn s) i")
    case None
    then show ?thesis using rot_none by simp
  next
    case (Some t)
    then obtain s' where "rot s i = Some (t, s')" "cur s' = t" "prv s' = Some (cur s)" "sqn s' = sqn s + 1"
      using rot_some by blast
    then show ?thesis using Some Cons[of s'] by simp
  qed
qed simp

lemma accepts_current: "ver s (cur s) = Current"
  using ver_current by simp

lemma grace:
  assumes "rot s i = Some (t, s')" and "length t = length (cur s)"
  shows "ver s' (cur s) \<in> {Current, Previous}"
proof -
  obtain u where u: "derive_step P (cur s) (sqn s) i = Some u"
    using assms(1) rot_none by (cases "derive_step P (cur s) (sqn s) i") auto
  from rot_some[OF u] assms(1) have "cur s' = t" "prv s' = Some (cur s)" by auto
  then show ?thesis
    using ver_previous[of s' "cur s" "cur s"] ver_current[of s' "cur s"] assms(2) by auto
qed

end

interpretation device: rolling P rt_current rt_previous rt_sequence "token_rotate P" token_verify for P
  by unfold_locales
    (auto simp: derive_step_def token_rotate_def token_verify_def constant_time_eq_iff split: option.splits)

interpretation server: rolling P ss_current ss_previous ss_sequence "complete_rotation P" server_verify for P
  by unfold_locales
    (auto simp: derive_step_def complete_rotation_def server_verify_def constant_time_eq_iff split: option.splits)

lemma derive_step_ok:
  assumes "hkdf_sized P"
  shows "\<exists>t. derive_step P c q i = Some t \<and> length t = 32"
  using hkdf_ok[OF assms, of 32 None "c @ ri_server_nonce i @ ri_client_nonce i @ to_le_bytes (ri_timestamp i) @ to_le_bytes q"
      TOKEN_ROTATE_INFO]
  by (auto simp: derive_step_def derive_next_token_def hkdf_sha256_def Let_def)

lemma token_after_ok:
  "\<lbrakk>hkdf_sized P; length c = 32\<rbrakk> \<Longrightarrow> \<exists>c' p' q'. token_after P (c, p, q) is = Some (c', p', q') \<and> length c' = 32"
proof (induction "is" arbitrary: c p q)
  case (Cons i "is")
  obtain t where "derive_step P c q i = Some t" "length t = 32" using derive_step_ok[OF Cons.prems(1)] by blast
  then show ?case using Cons.IH[OF Cons.prems(1), of t] by auto
qed simp

section \<open>Properties\<close>

text \<open>A device and the server that start from the same seed and see the same rotation inputs stay
  in step: neither ever gets stuck, the server recognises the device's token as current, and, having
  rotated once more, still recognises it.\<close>

theorem tokens_stay_in_step:
  assumes "hkdf_sized P" and "length seed = 32"
  shows "\<exists>t s t' s'. rotations (token_rotate P) (token_new seed) is = Some t \<and>
     rotations (complete_rotation P) (server_new dev seed) is = Some s \<and>
     server_verify s (rt_current t) = Current \<and>
     complete_rotation P s i = Some (t', s') \<and>
     server_verify s' (rt_current t) \<in> {Current, Previous}"
proof -
  have eq: "token_after P (seed, None, 0) is =
      (case rotations (token_rotate P) (token_new seed) is of None \<Rightarrow> None
       | Some t \<Rightarrow> Some (rt_current t, rt_previous t, rt_sequence t))"
    "token_after P (seed, None, 0) is =
      (case rotations (complete_rotation P) (server_new dev seed) is of None \<Rightarrow> None
       | Some s \<Rightarrow> Some (ss_current s, ss_previous s, ss_sequence s))"
    using device.rotations_after[of P "token_new seed" "is"] server.rotations_after[of P "server_new dev seed" "is"]
    by (simp_all add: token_new_def server_new_def)
  obtain c p q where c: "token_after P (seed, None, 0) is = Some (c, p, q)" "length c = 32"
    using token_after_ok[OF assms] by blast
  from eq c obtain t s where t: "rotations (token_rotate P) (token_new seed) is = Some t" "rt_current t = c"
    and s: "rotations (complete_rotation P) (server_new dev seed) is = Some s" "ss_current s = c"
    by (auto split: option.splits)
  obtain u where u: "derive_step P (ss_current s) (ss_sequence s) i = Some u" "length u = 32"
    using derive_step_ok[OF assms(1)] by blast
  from server.rot_some[OF u(1)] obtain s' where s': "complete_rotation P s i = Some (u, s')" by blast
  have "server_verify s' (ss_current s) \<in> {Current, Previous}"
    using server.grace[OF s'] u(2) s(2) c(2) by simp
  with t s s' server.accepts_current[of s] show ?thesis by auto
qed

theorem tokens_stay_in_step_witness:
  "\<exists>t s t' s'. rotations (token_rotate toy) (token_new (replicate 32 5))
       [\<lparr>ri_server_nonce = [1], ri_client_nonce = [2], ri_timestamp = 3\<rparr>] = Some t \<and>
     rotations (complete_rotation toy) (server_new [] (replicate 32 5))
       [\<lparr>ri_server_nonce = [1], ri_client_nonce = [2], ri_timestamp = 3\<rparr>] = Some s \<and>
     server_verify s (rt_current t) = Current \<and>
     complete_rotation toy s \<lparr>ri_server_nonce = [4], ri_client_nonce = [5], ri_timestamp = 6\<rparr> = Some (t', s') \<and>
     server_verify s' (rt_current t) \<in> {Current, Previous}"
  by (rule tokens_stay_in_step) (simp_all add: toy_sizes)

end
