(* ===== verification/Attest.thy ===== *)
theory Attest
  imports Cert_Binding Rust_Text
begin

text \<open>
  \<open>avon-attest\<close>: the evidence a device sends (\<open>evidence.rs\<close>), the TPM structure a quote is
  (\<open>tpms.rs\<close>), the verifier's policy (\<open>policy.rs\<close>) and the verification (\<open>verify.rs\<close>).  The
  P-256 crate that parses keys and signatures and checks them is a parameter.
\<close>

unbundle bit_operations_syntax

section \<open>Errors and evidence\<close>

datatype attest_error =
    EvEncoding string
  | EvUnknownFormat bytes
  | EvSignature
  | EvMalformed bytes

fun attest_display :: "attest_error \<Rightarrow> bytes" where
  "attest_display (EvEncoding s) = ascii ''encoding: '' @ ascii s"
| "attest_display (EvUnknownFormat s) = ascii ''unknown format '' @ s"
| "attest_display EvSignature = ascii ''signature invalid''"
| "attest_display (EvMalformed s) = ascii ''malformed: '' @ s"

datatype evidence =
    Tpm2Quote (ev_quote: bytes) (ev_signature: bytes) (ev_ak_public: bytes)
      (ev_pcrs: "(u32 \<times> bytes) list") (ev_nonce: bytes)
  | NoEvidence

text \<open>The closure \<open>take\<close> of \<open>parse\<close>.\<close>

definition ev_take :: "reader \<Rightarrow> attest_error + bytes \<times> reader" where
  "ev_take r =
     (let b = rd_buf r; p = rd_pos r in
      if p + 2 > length b then Inl (EvEncoding ''truncated evidence'')
      else let len = unat (from_be_bytes [b ! p, b ! (p + 1)] :: u16); p = p + 2 in
        if p + len > length b then Inl (EvEncoding ''truncated evidence'')
        else Inr (slice b p (p + len), r\<lparr>rd_pos := p + len\<rparr>))"

definition ev_count :: "reader \<Rightarrow> attest_error + nat \<times> reader" where
  "ev_count r =
     (let b = rd_buf r; p = rd_pos r in
      if p + 2 > length b then Inl (EvEncoding ''truncated pcrs'')
      else Inr (unat (from_be_bytes [b ! p, b ! (p + 1)] :: u16), r\<lparr>rd_pos := p + 2\<rparr>))"

definition ev_pcr :: "reader \<Rightarrow> attest_error + (u32 \<times> bytes) \<times> reader" where
  "ev_pcr r =
     (let b = rd_buf r; p = rd_pos r in
      if p + 6 > length b then Inl (EvEncoding ''truncated pcr'')
      else
        let idx = from_be_bytes [b ! p, b ! (p + 1), b ! (p + 2), b ! (p + 3)]; p = p + 4;
            len = unat (from_be_bytes [b ! p, b ! (p + 1)] :: u16); p = p + 2 in
        if p + len > length b then Inl (EvEncoding ''truncated pcr value'')
        else Inr ((idx, slice b p (p + len)), r\<lparr>rd_pos := p + len\<rparr>))"

definition ev_parse :: "bytes \<Rightarrow> bytes \<Rightarrow> attest_error + evidence" where
  "ev_parse format bs =
     (if format = ascii ''tpm2-quote'' then
        let r = \<lparr>rd_buf = bs, rd_pos = 0\<rparr> in
        bind_res (ev_take r) (\<lambda>(quote, r).
        bind_res (ev_take r) (\<lambda>(signature, r).
        bind_res (ev_take r) (\<lambda>(ak_public, r).
        bind_res (ev_count r) (\<lambda>(count, r).
        bind_res (rd_repeat count ev_pcr r) (\<lambda>(pcrs, r).
        bind_res (ev_take r) (\<lambda>(nonce, r).
        if rd_pos r \<noteq> length bs then Inl (EvEncoding ''trailing bytes'')
        else Inr (Tpm2Quote quote signature ak_public pcrs nonce)))))))
      else if format = ascii ''none'' then Inr NoEvidence
      else Inl (EvUnknownFormat format))"

definition put_pcr :: "u32 \<times> bytes \<Rightarrow> bytes" where
  "put_pcr p = to_be_bytes (fst p) @ put16 (snd p)"

fun ev_encode :: "evidence \<Rightarrow> bytes \<times> bytes" where
  "ev_encode (Tpm2Quote quote signature ak_public pcrs nonce) =
     (ascii ''tpm2-quote'',
      put16 quote @ put16 signature @ put16 ak_public @
      to_be_bytes (word_of_nat (length pcrs) :: u16) @ concat (map put_pcr pcrs) @ put16 nonce)"
| "ev_encode NoEvidence = (ascii ''none'', [])"

section \<open>The quote\<close>

definition TPM_GENERATED_VALUE :: u32 where "TPM_GENERATED_VALUE = 0xFF544347"
definition TPM_ST_ATTEST_QUOTE :: u16 where "TPM_ST_ATTEST_QUOTE = 0x8018"
definition TPM_ALG_SHA256 :: u16 where "TPM_ALG_SHA256 = 0x000B"

record clock_info =
  ci_clock_ms :: u64
  ci_reset_count :: u32
  ci_restart_count :: u32
  ci_safe :: bool

record quote_attest =
  qa_qualified_signer :: bytes
  qa_extra_data :: bytes
  qa_clock :: clock_info
  qa_firmware_version :: u64
  qa_selected_pcrs :: "u32 list"
  qa_pcr_digest :: bytes

definition at_take :: "nat \<Rightarrow> reader \<Rightarrow> attest_error + bytes \<times> reader" where
  "at_take n r =
     (if rd_pos r + n > length (rd_buf r)
      then Inl (EvMalformed (ascii ''truncated at '' @ dec (rd_pos r) @ ascii '' (wanted '' @ dec n @ ascii '')''))
      else Inr (slice (rd_buf r) (rd_pos r) (rd_pos r + n), r\<lparr>rd_pos := rd_pos r + n\<rparr>))"

definition at_u8 :: "reader \<Rightarrow> attest_error + byte \<times> reader" where
  "at_u8 r = bind_res (at_take 1 r) (\<lambda>(b, r). Inr (b ! 0, r))"

definition at_u16 :: "reader \<Rightarrow> attest_error + u16 \<times> reader" where
  "at_u16 r = bind_res (at_take 2 r) (\<lambda>(b, r). Inr (from_be_bytes b, r))"

definition at_u32 :: "reader \<Rightarrow> attest_error + u32 \<times> reader" where
  "at_u32 r = bind_res (at_take 4 r) (\<lambda>(b, r). Inr (from_be_bytes b, r))"

definition at_u64 :: "reader \<Rightarrow> attest_error + u64 \<times> reader" where
  "at_u64 r = bind_res (at_take 8 r) (\<lambda>(b, r). Inr (from_be_bytes b, r))"

definition at_tpm2b :: "reader \<Rightarrow> attest_error + bytes \<times> reader" where
  "at_tpm2b r = bind_res (at_u16 r) (\<lambda>(len, r). at_take (unat len) r)"

text \<open>The indices of the bits that are set, from the byte of index \<open>i\<close> on.\<close>

fun bitmap_pcrs :: "nat \<Rightarrow> bytes \<Rightarrow> u32 list" where
  "bitmap_pcrs i [] = []"
| "bitmap_pcrs i (b # bs) =
    map (\<lambda>k. word_of_nat i * 8 + word_of_nat k) (filter (\<lambda>k. b AND push_bit k 1 \<noteq> 0) [0..<8]) @
    bitmap_pcrs (Suc i) bs"

definition at_selection :: "reader \<Rightarrow> attest_error + u32 list \<times> reader" where
  "at_selection r =
     bind_res (at_u16 r) (\<lambda>(alg, r).
     bind_res (at_u8 r) (\<lambda>(size_of_select, r).
     if unat size_of_select > 8 then Inl (EvMalformed (ascii ''pcr selection too wide''))
     else bind_res (at_take (unat size_of_select) r) (\<lambda>(bitmap, r).
       Inr (if alg \<noteq> TPM_ALG_SHA256 then [] else bitmap_pcrs 0 bitmap, r))))"

definition at_clock :: "reader \<Rightarrow> attest_error + clock_info \<times> reader" where
  "at_clock r =
     bind_res (at_u64 r) (\<lambda>(clock_ms, r).
     bind_res (at_u32 r) (\<lambda>(reset_count, r).
     bind_res (at_u32 r) (\<lambda>(restart_count, r).
     bind_res (at_u8 r) (\<lambda>(safe, r).
     Inr (\<lparr>ci_clock_ms = clock_ms, ci_reset_count = reset_count, ci_restart_count = restart_count,
           ci_safe = (safe \<noteq> 0)\<rparr>, r)))))"

definition parse_quote :: "bytes \<Rightarrow> attest_error + quote_attest" where
  "parse_quote bs =
     bind_res (at_u32 \<lparr>rd_buf = bs, rd_pos = 0\<rparr>) (\<lambda>(magic, r).
     if magic \<noteq> TPM_GENERATED_VALUE
     then Inl (EvMalformed (ascii ''magic '' @ hex_padded 8 (unat magic) @ ascii '' is not TPM_GENERATED_VALUE'')) else
     bind_res (at_u16 r) (\<lambda>(attest_type, r).
     if attest_type \<noteq> TPM_ST_ATTEST_QUOTE
     then Inl (EvMalformed (ascii ''attest type '' @ hex_padded 4 (unat attest_type) @ ascii '' is not a quote'')) else
     bind_res (at_tpm2b r) (\<lambda>(qualified_signer, r).
     bind_res (at_tpm2b r) (\<lambda>(extra_data, r).
     bind_res (at_clock r) (\<lambda>(clock, r).
     bind_res (at_u64 r) (\<lambda>(firmware_version, r).
     bind_res (at_u32 r) (\<lambda>(count, r).
     if unat count > 8
     then Inl (EvMalformed (dec (unat count) @ ascii '' PCR selections is not plausible'')) else
     bind_res (rd_repeat (unat count) at_selection r) (\<lambda>(selections, r).
     bind_res (at_tpm2b r) (\<lambda>(pcr_digest, r).
     if length pcr_digest \<noteq> 32
     then Inl (EvMalformed (ascii ''pcr digest is '' @ dec (length pcr_digest) @ ascii '' bytes, expected a SHA-256''))
     else Inr \<lparr>qa_qualified_signer = qualified_signer, qa_extra_data = extra_data, qa_clock = clock,
               qa_firmware_version = firmware_version, qa_selected_pcrs = sort (concat selections),
               qa_pcr_digest = pcr_digest\<rparr>)))))))))"

definition set_pcr :: "bytes \<Rightarrow> u32 \<Rightarrow> bytes" where
  "set_pcr bm p = bm[unat p div 8 := bm ! (unat p div 8) OR push_bit (unat p mod 8) 1]"

definition select_width :: "u32 list \<Rightarrow> nat" where
  "select_width pcrs = fold max (map (\<lambda>p. unat p div 8 + 1) pcrs) 3"

definition encode_quote :: "quote_attest \<Rightarrow> bytes" where
  "encode_quote q =
     to_be_bytes TPM_GENERATED_VALUE @ to_be_bytes TPM_ST_ATTEST_QUOTE @
     put16 (qa_qualified_signer q) @ put16 (qa_extra_data q) @
     to_be_bytes (ci_clock_ms (qa_clock q)) @ to_be_bytes (ci_reset_count (qa_clock q)) @
     to_be_bytes (ci_restart_count (qa_clock q)) @ [if ci_safe (qa_clock q) then 1 else 0] @
     to_be_bytes (qa_firmware_version q) @ to_be_bytes (1 :: u32) @ to_be_bytes TPM_ALG_SHA256 @
     (let width = select_width (qa_selected_pcrs q) in
      [word_of_nat width] @ foldl set_pcr (replicate width 0) (qa_selected_pcrs q)) @
     put16 (qa_pcr_digest q)"

section \<open>Policy and verification\<close>

datatype attestation_state = StateNone | StateUnverified | StateVerified | StateFailed

fun attestation_as_str :: "attestation_state \<Rightarrow> string" where
  "attestation_as_str StateNone = ''none''"
| "attestation_as_str StateUnverified = ''unverified''"
| "attestation_as_str StateVerified = ''verified''"
| "attestation_as_str StateFailed = ''failed''"

record quote_policy =
  qp_required_pcrs :: "u32 list"
  qp_allow_unknown_ak :: bool
  qp_require_safe_clock :: bool

definition quote_policy_default :: quote_policy where
  "quote_policy_default =
     \<lparr>qp_required_pcrs = [0, 7], qp_allow_unknown_ak = True, qp_require_safe_clock = True\<rparr>"

text \<open>What the code calls of the \<open>p256\<close> crate.\<close>

record ('k, 's) p256_lib =
  p256_key_from_der :: "bytes \<Rightarrow> 'k option"
  p256_sig_from_der :: "bytes \<Rightarrow> 's option"
  p256_verify :: "'k \<Rightarrow> bytes \<Rightarrow> 's \<Rightarrow> bool"

record verified =
  vf_state :: attestation_state
  vf_pcr_digest :: bytes
  vf_ak_sha256 :: bytes
  vf_reset_count :: u32
  vf_firmware_version :: u64
  vf_reason :: bytes

definition verified_failed :: "bytes \<Rightarrow> bytes \<Rightarrow> bytes \<Rightarrow> verified" where
  "verified_failed ak_sha256 pcr_digest reason =
     \<lparr>vf_state = StateFailed, vf_pcr_digest = pcr_digest, vf_ak_sha256 = ak_sha256, vf_reset_count = 0,
      vf_firmware_version = 0, vf_reason = reason\<rparr>"

text \<open>The loop that feeds the hasher: the values in the order of the selection, or the first index without one.\<close>

fun quoted_values :: "(u32 \<times> bytes) list \<Rightarrow> u32 list \<Rightarrow> u32 + bytes" where
  "quoted_values pcrs [] = Inr []"
| "quoted_values pcrs (index # rest) =
    (case find (\<lambda>(i, _). i = index) pcrs of
       Some (_, value) \<Rightarrow> bind_res (quoted_values pcrs rest) (\<lambda>vs. Inr (value @ vs))
     | None \<Rightarrow> Inl index)"

definition attest_verify ::
  "prims \<Rightarrow> ('k, 's) p256_lib \<Rightarrow> evidence \<Rightarrow> bytes \<Rightarrow> bytes option \<Rightarrow> quote_policy \<Rightarrow> verified" where
  "attest_verify P E ev expected_nonce known_ak policy =
    (case ev of
       NoEvidence \<Rightarrow> \<lparr>vf_state = StateNone, vf_pcr_digest = replicate 32 0, vf_ak_sha256 = replicate 32 0,
         vf_reset_count = 0, vf_firmware_version = 0, vf_reason = ascii ''no evidence''\<rparr>
     | Tpm2Quote quote signature ak_public pcrs _ \<Rightarrow>
       let ak_sha256 = p_sha256 P ak_public in
       (case parse_quote quote of
          Inl e \<Rightarrow> verified_failed ak_sha256 (replicate 32 0) (attest_display e)
        | Inr attest \<Rightarrow>
          let pcr_digest = qa_pcr_digest attest; fail = verified_failed ak_sha256 pcr_digest in
          if qa_extra_data attest \<noteq> expected_nonce then fail (ascii ''nonce mismatch'')
          else if qp_require_safe_clock policy \<and> \<not> ci_safe (qa_clock attest)
          then fail (ascii ''TPM clock is not safe'')
          else (case find (\<lambda>required. required \<notin> set (qa_selected_pcrs attest)) (qp_required_pcrs policy) of
            Some required \<Rightarrow> fail (ascii ''pcr '' @ dec (unat required) @ ascii '' not quoted'')
          | None \<Rightarrow>
            (case quoted_values pcrs (qa_selected_pcrs attest) of
               Inl index \<Rightarrow> fail (ascii ''pcr '' @ dec (unat index) @ ascii '' was quoted but its value was not sent'')
             | Inr hashed \<Rightarrow>
               if p_sha256 P hashed \<noteq> pcr_digest then fail (ascii ''pcr digest mismatch'')
               else (case p256_key_from_der E ak_public of
                 None \<Rightarrow> fail (ascii ''ak public key invalid'')
               | Some vk \<Rightarrow>
                 (case p256_sig_from_der E signature of
                    None \<Rightarrow> fail (ascii ''signature malformed'')
                  | Some sig \<Rightarrow>
                    if \<not> p256_verify E vk quote sig then fail (ascii ''signature invalid'')
                    else
                      let accepted = (\<lambda>reason. \<lparr>vf_state = StateVerified, vf_pcr_digest = pcr_digest,
                            vf_ak_sha256 = ak_sha256, vf_reset_count = ci_reset_count (qa_clock attest),
                            vf_firmware_version = qa_firmware_version attest, vf_reason = reason\<rparr>) in
                      (case known_ak of
                         Some expected \<Rightarrow>
                           if expected = ak_public then accepted (ascii ''quote verified'')
                           else fail (ascii ''attestation key does not match the one this device enrolled with'')
                       | None \<Rightarrow>
                           if qp_allow_unknown_ak policy
                           then accepted (ascii ''quote verified; attestation key trusted on first use'')
                           else fail (ascii ''attestation key is not known''))))))))"

section \<open>Evidence is read back\<close>

lemma ev_take_take16:
  "ev_take (cursor pre bs) =
     (case take16 (pre @ bs) (length pre) of Inl _ \<Rightarrow> Inl (EvEncoding ''truncated evidence'')
      | Inr (x, n) \<Rightarrow> Inr (x, (cursor pre bs)\<lparr>rd_pos := length pre + n\<rparr>))"
  by (simp add: ev_take_def take16_def cursor_def Let_def)

lemma cursor_advance: "(cursor pre (x @ rest))\<lparr>rd_pos := length pre + length x\<rparr> = cursor (pre @ x) rest"
  by (simp add: cursor_def)

interpretation f_ev: field_codec put16 ev_take "\<lambda>x. length x < 65536"
proof
  show "ev_take (cursor pre (put16 x @ rest)) = Inr (x, cursor (pre @ put16 x) rest)"
    if "length x < 65536" for x pre rest
    using take16_at[OF that refl, of pre rest] cursor_advance[of pre "put16 x" rest]
    by (simp add: ev_take_take16)
  show "\<exists>rest. length x < 65536 \<and> bs = put16 x @ rest \<and> r = cursor (pre @ put16 x) rest"
    if "ev_take (cursor pre bs) = Inr (x, r)" for pre bs x r
  proof -
    from that obtain n where n: "take16 (pre @ bs) (length pre) = Inr (x, n)"
      and r: "r = (cursor pre bs)\<lparr>rd_pos := length pre + n\<rparr>"
      by (auto simp: ev_take_take16 split: sum.splits)
    from take16_sound[OF n refl] r show ?thesis
      using cursor_advance[of pre "put16 x"] by fastforce
  qed
qed

lemma four_bytes: "length b = 4 \<Longrightarrow> [b ! 0, b ! 1, b ! 2, b ! 3] = b"
  by (auto simp: length_Suc_conv eval_nat_numeral)

lemma ev_pcr_take16:
  assumes "length i = 4"
  shows "ev_pcr (cursor pre (i @ bs)) =
     (if length bs < 2 then Inl (EvEncoding ''truncated pcr'')
      else case take16 ((pre @ i) @ bs) (length (pre @ i)) of Inl _ \<Rightarrow> Inl (EvEncoding ''truncated pcr value'')
      | Inr (x, n) \<Rightarrow> Inr ((from_be_bytes i, x), (cursor pre (i @ bs))\<lparr>rd_pos := length pre + 4 + n\<rparr>))"
proof -
  have four: "[(pre @ i @ bs) ! length pre, (pre @ i @ bs) ! (length pre + 1), (pre @ i @ bs) ! (length pre + 2),
      (pre @ i @ bs) ! (length pre + 3)] = i"
    using four_bytes[OF assms] assms by (simp add: nth_append)
  have two: "pre @ i @ bs = (pre @ i) @ bs" by simp
  show ?thesis
    unfolding ev_pcr_def cursor_def reader.select_convs Let_def four
    unfolding two take16_def Let_def using assms by (simp add: nth_append numeral_eq_Suc)
qed

interpretation f_pcr: field_codec put_pcr ev_pcr "\<lambda>p. length (snd p) < 65536"
proof
  show "ev_pcr (cursor pre (put_pcr x @ rest)) = Inr (x, cursor (pre @ put_pcr x) rest)"
    if "length (snd x) < 65536" for x pre rest
    using take16_at[OF that refl, of "pre @ to_be_bytes (fst x)" rest]
      ev_pcr_take16[of "to_be_bytes (fst x)" pre "put16 (snd x) @ rest"] cursor_advance[of pre "put_pcr x" rest]
    by (simp add: put_pcr_def add.assoc)
  show "\<exists>rest. length (snd x) < 65536 \<and> bs = put_pcr x @ rest \<and> r = cursor (pre @ put_pcr x) rest"
    if "ev_pcr (cursor pre bs) = Inr (x, r)" for pre bs x r
  proof -
    have len: "6 \<le> length bs" using that by (auto simp: ev_pcr_def cursor_def Let_def split: if_splits)
    define i where "i = take 4 bs"
    define cs where "cs = drop 4 bs"
    have i: "length i = 4" and bs: "bs = i @ cs" using len by (simp_all add: i_def cs_def)
    from that obtain v n where n: "take16 ((pre @ i) @ cs) (length (pre @ i)) = Inr (v, n)"
      and x: "x = (from_be_bytes i, v)" and r: "r = (cursor pre bs)\<lparr>rd_pos := length pre + 4 + n\<rparr>"
      unfolding bs ev_pcr_take16[OF i] by (auto split: sum.splits if_splits)
    from take16_sound[OF n refl] obtain rest where rest: "cs = put16 v @ rest" "n = 2 + length v" "length v < 65536"
      by blast
    have "put_pcr x = i @ put16 v" using i x by (simp add: put_pcr_def be_bytes_round)
    then show ?thesis
      using rest x bs r i cursor_advance[of pre "put_pcr x" rest] by (simp add: ac_simps)
  qed
qed

definition u16_of_nat :: "nat \<Rightarrow> bytes" where
  "u16_of_nat n = to_be_bytes (word_of_nat n :: u16)"

interpretation f_count: field_codec u16_of_nat ev_count "\<lambda>n. n < 65536"
proof
  show "ev_count (cursor pre (u16_of_nat n @ rest)) = Inr (n, cursor (pre @ u16_of_nat n) rest)"
    if "n < 65536" for n pre rest
    using that two_bytes[of "u16_of_nat n"]
    by (simp add: ev_count_def cursor_def Let_def nth_append u16_of_nat_def unat_word_of_nat16)
  show "\<exists>rest. n < 65536 \<and> bs = u16_of_nat n @ rest \<and> r = cursor (pre @ u16_of_nat n) rest"
    if "ev_count (cursor pre bs) = Inr (n, r)" for pre bs n r
  proof -
    let ?b = "take 2 bs"
    from that have len: "2 \<le> length bs" and n: "n = unat (from_be_bytes [bs ! 0, bs ! 1] :: u16)"
      and r: "r = cursor (pre @ ?b) (drop 2 bs)"
      by (auto simp: ev_count_def cursor_def Let_def nth_append split: if_splits)
    have "[bs ! 0, bs ! 1] = ?b" using two_bytes[of ?b] len by simp
    with n len have "u16_of_nat n = ?b" by (simp add: u16_of_nat_def be_bytes_round)
    moreover have "n < 65536" using n unsigned_less[of "from_be_bytes [bs ! 0, bs ! 1] :: u16", where 'a = nat] by simp
    ultimately show ?thesis using r by (metis append_take_drop_id)
  qed
qed

fun evidence_ok :: "evidence \<Rightarrow> bool" where
  "evidence_ok (Tpm2Quote quote signature ak_public pcrs nonce) =
     (length quote < 65536 \<and> length signature < 65536 \<and> length ak_public < 65536 \<and> length pcrs < 65536 \<and>
      list_all (\<lambda>p. length (snd p) < 65536) pcrs \<and> length nonce < 65536)"
| "evidence_ok NoEvidence = True"

lemma length_put_pcrs:
  "list_all (\<lambda>p. length (snd p) < 65536) ps \<Longrightarrow> length (concat (map put_pcr ps)) \<le> length ps * 65541"
  by (induction ps) (auto simp: put_pcr_def)

lemma evidence_length: "evidence_ok ev \<Longrightarrow> length (snd (ev_encode ev)) < 2 ^ 64"
proof (cases ev)
  case (Tpm2Quote quote signature ak_public pcrs nonce)
  assume "evidence_ok ev"
  with Tpm2Quote have "length (concat (map put_pcr pcrs)) \<le> length pcrs * 65541" "length pcrs < 65536"
    and "length quote < 65536" "length signature < 65536" "length ak_public < 65536" "length nonce < 65536"
    using length_put_pcrs by auto
  with Tpm2Quote show ?thesis by simp
qed simp

lemma ev_parse_encode:
  assumes "evidence_ok (Tpm2Quote quote signature ak_public pcrs nonce)"
  shows "ev_parse (ascii ''tpm2-quote'') (snd (ev_encode (Tpm2Quote quote signature ak_public pcrs nonce))) =
    Inr (Tpm2Quote quote signature ak_public pcrs nonce)"
proof -
  have len: "length (put16 quote @ put16 signature @ put16 ak_public @ u16_of_nat (length pcrs) @
      concat (map put_pcr pcrs) @ put16 nonce) < 2 ^ 64"
    using evidence_length[OF assms] by (simp add: u16_of_nat_def)
  have fin: "rd_pos (cursor pre []) = length pre" for pre by (simp add: cursor_def)
  show ?thesis
    using assms len unfolding ev_parse_def Let_def cursor_start ev_encode.simps snd_conv u16_of_nat_def[symmetric]
    by (simp add: f_ev.read f_ev.read_end f_count.read f_pcr.read_repeat fin del: ascii_simps length_concat)
qed

lemma ev_parse_sound:
  assumes "ev_parse (ascii ''tpm2-quote'') bs = Inr ev"
  shows "ev \<noteq> NoEvidence \<and> evidence_ok ev \<and> snd (ev_encode ev) = bs"
proof -
  from assms obtain quote signature ak_public count pcrs nonce r1 r2 r3 r4 r5 r6 where
    1: "ev_take (cursor [] bs) = Inr (quote, r1)" and 2: "ev_take r1 = Inr (signature, r2)"
    and 3: "ev_take r2 = Inr (ak_public, r3)" and 4: "ev_count r3 = Inr (count, r4)"
    and 5: "rd_repeat count ev_pcr r4 = Inr (pcrs, r5)" and 6: "ev_take r5 = Inr (nonce, r6)"
    and fin: "rd_pos r6 = length bs" and ev: "ev = Tpm2Quote quote signature ak_public pcrs nonce"
    unfolding ev_parse_def Let_def cursor_start by (auto simp: res_simps)
  obtain b1 where b1: "length quote < 65536" "bs = put16 quote @ b1" "r1 = cursor ([] @ put16 quote) b1"
    using f_ev.read_sound[OF 1] by blast
  obtain b2 where b2: "length signature < 65536" "b1 = put16 signature @ b2"
    "r2 = cursor (([] @ put16 quote) @ put16 signature) b2"
    using f_ev.read_sound[OF 2[unfolded b1(3)]] by blast
  obtain b3 where b3: "length ak_public < 65536" "b2 = put16 ak_public @ b3"
    "r3 = cursor ((([] @ put16 quote) @ put16 signature) @ put16 ak_public) b3"
    using f_ev.read_sound[OF 3[unfolded b2(3)]] by blast
  obtain b4 where b4: "count < 65536" "b3 = u16_of_nat count @ b4"
    "r4 = cursor (((([] @ put16 quote) @ put16 signature) @ put16 ak_public) @ u16_of_nat count) b4"
    using f_count.read_sound[OF 4[unfolded b3(3)]] by blast
  obtain b5 where b5: "length pcrs = count" "list_all (\<lambda>p. length (snd p) < 65536) pcrs"
    "b4 = concat (map put_pcr pcrs) @ b5"
    "r5 = cursor ((((([] @ put16 quote) @ put16 signature) @ put16 ak_public) @ u16_of_nat count) @
      concat (map put_pcr pcrs)) b5"
    using f_pcr.read_repeat_sound[OF 5[unfolded b4(3)]] by blast
  obtain b6 where b6: "length nonce < 65536" "b5 = put16 nonce @ b6"
    "r6 = cursor (((((([] @ put16 quote) @ put16 signature) @ put16 ak_public) @ u16_of_nat count) @
      concat (map put_pcr pcrs)) @ put16 nonce) b6"
    using f_ev.read_sound[OF 6[unfolded b5(4)]] by blast
  have "b6 = []" using fin b1(2) b2(2) b3(2) b4(2) b5(3) b6 by (simp add: cursor_def)
  then show ?thesis
    using ev b1(1,2) b2(1,2) b3(1,2) b4(1,2) b5(1,2,3) b6(1,2) by (simp add: u16_of_nat_def)
qed

interpretation evidence_codec: byte_codec "\<lambda>ev. snd (ev_encode ev)" "ev_parse (ascii ''tpm2-quote'')"
  "\<lambda>ev. ev \<noteq> NoEvidence \<and> evidence_ok ev"
proof
  show "ev_parse (ascii ''tpm2-quote'') (snd (ev_encode x)) = Inr x" if "x \<noteq> NoEvidence \<and> evidence_ok x" for x
    using that ev_parse_encode by (cases x) auto
qed (use ev_parse_sound in blast)

section \<open>A quote is read back\<close>

lemma at_take_cursor: "length a = n \<Longrightarrow> at_take n (cursor pre (a @ rest)) = Inr (a, cursor (pre @ a) rest)"
  by (auto simp: at_take_def cursor_def slice_def)

lemma at_take_sound:
  assumes "at_take n (cursor pre bs) = Inr (a, r)"
  shows "\<exists>rest. length a = n \<and> bs = a @ rest \<and> r = cursor (pre @ a) rest"
proof -
  from assms have "n \<le> length bs" "a = take n bs" "r = \<lparr>rd_buf = pre @ bs, rd_pos = length pre + n\<rparr>"
    by (auto simp: at_take_def cursor_def slice_def split: if_splits)
  then show ?thesis by (intro exI[of _ "drop n bs"]) (simp add: cursor_def)
qed

text \<open>The three big-endian readers, at once.\<close>

lemma at_integer:
  fixes rd :: "reader \<Rightarrow> attest_error + 'a::len word \<times> reader"
  assumes rd: "\<And>r. rd r = bind_res (at_take n r) (\<lambda>(b, r). Inr (from_be_bytes b, r))"
    and n: "8 dvd LENGTH('a)" "LENGTH('a) div 8 = n"
  shows "field_codec to_be_bytes rd (\<lambda>_. True)"
proof
  show "rd (cursor pre (to_be_bytes x @ rest)) = Inr (x, cursor (pre @ to_be_bytes x) rest)" for x pre rest
    using n by (simp add: rd at_take_cursor from_be_bytes_to_be_bytes)
  show "\<exists>rest. True \<and> bs = to_be_bytes x @ rest \<and> r = cursor (pre @ to_be_bytes x) rest"
    if "rd (cursor pre bs) = Inr (x, r)" for pre bs x r
    using that at_take_sound[of n pre bs] to_be_bytes_from_be_bytes[OF n(1)] n(2)
    by (fastforce simp: rd res_simps)
qed

interpretation f_at16: field_codec to_be_bytes at_u16 "\<lambda>_. True"
  by (rule at_integer[of _ 2]) (simp_all add: at_u16_def)

interpretation f_at32: field_codec to_be_bytes at_u32 "\<lambda>_. True"
  by (rule at_integer[of _ 4]) (simp_all add: at_u32_def)

interpretation f_at64: field_codec to_be_bytes at_u64 "\<lambda>_. True"
  by (rule at_integer[of _ 8]) (simp_all add: at_u64_def)

lemma at_u8_cursor: "at_u8 (cursor pre (b # rest)) = Inr (b, cursor (pre @ [b]) rest)"
  using at_take_cursor[of "[b]" 1 pre rest] by (simp add: at_u8_def)

interpretation f_tpm2b: field_codec put16 at_tpm2b "\<lambda>x. length x < 65536"
proof
  show "at_tpm2b (cursor pre (put16 x @ rest)) = Inr (x, cursor (pre @ put16 x) rest)"
    if "length x < 65536" and "length (pre @ put16 x @ rest) < 2 ^ 64" for x pre rest
    using that f_at16.read[of pre "word_of_nat (length x)" "x @ rest"]
    by (simp add: at_tpm2b_def put16_def unat_word_of_nat16 at_take_cursor)
  show "\<exists>rest. length x < 65536 \<and> bs = put16 x @ rest \<and> r = cursor (pre @ put16 x) rest"
    if "at_tpm2b (cursor pre bs) = Inr (x, r)" for pre bs x r
  proof -
    from that obtain len r1 where len: "at_u16 (cursor pre bs) = Inr (len, r1)" and x: "at_take (unat len) r1 = Inr (x, r)"
      by (auto simp: at_tpm2b_def res_simps)
    from f_at16.read_sound[OF len] obtain b where b: "bs = to_be_bytes len @ b" "r1 = cursor (pre @ to_be_bytes len) b"
      by blast
    from at_take_sound[OF x[unfolded b(2)]] obtain rest where
      rest: "length x = unat len" "b = x @ rest" "r = cursor ((pre @ to_be_bytes len) @ x) rest" by blast
    have "length x < 65536" using rest(1) unsigned_less[of len, where 'a = nat] by simp
    then show ?thesis using b rest by (simp add: put16_def)
  qed
qed

lemma bitmap_index:
  "i < 8 \<Longrightarrow> k < 8 \<Longrightarrow> unat (word_of_nat i * 8 + word_of_nat k :: u32) = 8 * i + k"
proof -
  assume "i < 8" "k < 8"
  then have "unat (word_of_nat (i * 8 + k) :: u32) = i * 8 + k" by (intro unat_word_of_nat32) simp
  then show ?thesis by (simp add: mult.commute)
qed

lemma bitmap_pcrs_unat:
  "i + length bm \<le> 8 \<Longrightarrow> map unat (bitmap_pcrs i bm) =
     concat (map (\<lambda>j. map (\<lambda>k. 8 * (i + j) + k) (filter (bit (bm ! j)) [0..<8])) [0..<length bm])"
proof (induction bm arbitrary: i)
  case (Cons b bm)
  have up: "[0..<length (b # bm)] = 0 # map Suc [0..<length bm]"
    by (simp add: upt_conv_Cons map_Suc_upt del: upt_Suc)
  have fst: "map (\<lambda>k. unat (word_of_nat i * 8 + word_of_nat k :: u32)) (filter (\<lambda>k. b AND push_bit k 1 \<noteq> 0) [0..<8]) =
      map (\<lambda>k. 8 * i + k) (filter (bit b) [0..<8])"
    using Cons.prems by (intro map_cong filter_cong) (auto simp: and_exp_eq_0_iff_not_bit bitmap_index)
  have rest: "map unat (bitmap_pcrs (Suc i) bm) =
      concat (map (\<lambda>j. map (\<lambda>k. 8 * (i + Suc j) + k) (filter (bit (bm ! j)) [0..<8])) [0..<length bm])"
    using Cons.prems Cons.IH[of "Suc i"] unfolding add_Suc_shift by simp
  show ?case
    unfolding up bitmap_pcrs.simps map_append map_map comp_def fst rest
    by (simp only: list.map concat.simps nth_Cons_0 nth_Cons_Suc map_map comp_def add_0_right)
qed simp

lemma bitmap_pcrs_strict:
  assumes "length bm \<le> 8"
  shows "sorted (map unat (bitmap_pcrs 0 bm)) \<and> distinct (map unat (bitmap_pcrs 0 bm))"
proof -
  have "sorted_wrt (<) (concat (map (\<lambda>j. map (\<lambda>k. 8 * j + k) (filter (bit (bm ! j)) [0..<8])) [0..<n]))" for n
    by (induction n) (auto simp: sorted_wrt_append sorted_wrt_map intro!: sorted_wrt_filter)
  then show ?thesis using assms by (simp add: bitmap_pcrs_unat strict_sorted_iff)
qed

lemma set_bitmap_pcrs:
  assumes "length bm \<le> 8"
  shows "unat ` set (bitmap_pcrs 0 bm) = {n. n < 8 * length bm \<and> bit (bm ! (n div 8)) (n mod 8)}"
proof -
  have "unat ` set (bitmap_pcrs 0 bm) = set (map unat (bitmap_pcrs 0 bm))" by simp
  also have "\<dots> = {8 * j + k | j k. j < length bm \<and> k < 8 \<and> bit (bm ! j) k}"
    using assms by (simp only: bitmap_pcrs_unat add_0) (auto, blast)
  also have "\<dots> = {n. n < 8 * length bm \<and> bit (bm ! (n div 8)) (n mod 8)}"
  proof (intro set_eqI iffI)
    fix n assume "n \<in> {n. n < 8 * length bm \<and> bit (bm ! (n div 8)) (n mod 8)}"
    then show "n \<in> {8 * j + k | j k. j < length bm \<and> k < 8 \<and> bit (bm ! j) k}"
      by (intro CollectI exI[of _ "n div 8"] exI[of _ "n mod 8"]) auto
  qed auto
  finally show ?thesis .
qed

lemma length_set_pcrs [simp]: "length (foldl set_pcr bm ps) = length bm"
  by (induction ps arbitrary: bm) (simp_all add: set_pcr_def)

lemma div_mod_eight: "k < 8 \<Longrightarrow> 8 * j + k = n \<longleftrightarrow> n div 8 = j \<and> n mod 8 = (k :: nat)"
  by auto

lemma bit_set_pcrs:
  "\<lbrakk>\<forall>p\<in>set ps. unat p div 8 < length bm; j < length bm; k < 8\<rbrakk> \<Longrightarrow>
   bit (foldl set_pcr bm ps ! j) k \<longleftrightarrow> bit (bm ! j) k \<or> 8 * j + k \<in> unat ` set ps"
proof (induction ps arbitrary: bm)
  case (Cons p ps)
  have "bit (set_pcr bm p ! j) k \<longleftrightarrow> bit (bm ! j) k \<or> 8 * j + k = unat p"
  proof -
    have "8 * j + k = unat p \<longleftrightarrow> unat p div 8 = j \<and> unat p mod 8 = k" using Cons.prems(3) by (rule div_mod_eight)
    then show ?thesis using Cons.prems by (auto simp: set_pcr_def nth_list_update bit_or_iff bit_exp_iff)
  qed
  then show ?case using Cons by (auto simp: set_pcr_def)
qed simp

lemma select_width_bounds:
  "3 \<le> select_width ps" "p \<in> set ps \<Longrightarrow> unat p div 8 < select_width ps"
  "\<forall>p\<in>set ps. unat p < 64 \<Longrightarrow> select_width ps \<le> 8"
proof -
  have "select_width ps = Max (set (3 # map (\<lambda>p. unat p div 8 + 1) ps))"
    by (simp only: select_width_def Max.set_eq_fold)
  then show "3 \<le> select_width ps" "p \<in> set ps \<Longrightarrow> unat p div 8 < select_width ps"
    "\<forall>p\<in>set ps. unat p < 64 \<Longrightarrow> select_width ps \<le> 8"
    by (auto simp: Suc_le_eq[symmetric] intro: Max_ge)
qed

lemma bitmap_round_trip:
  assumes "\<forall>p\<in>set ps. unat p < 64" and "sorted ps" and "distinct ps"
  shows "sort (bitmap_pcrs 0 (foldl set_pcr (replicate (select_width ps) 0) ps)) = ps"
proof -
  let ?w = "select_width ps" and ?bm = "foldl set_pcr (replicate (select_width ps) 0) ps"
  have len: "length ?bm \<le> 8" using select_width_bounds(3)[OF assms(1)] by simp
  have "unat ` set (bitmap_pcrs 0 ?bm) = {n. n < 8 * ?w \<and> bit (?bm ! (n div 8)) (n mod 8)}"
    using set_bitmap_pcrs[OF len] by simp
  also have "\<dots> = {n. n < 8 * ?w \<and> n \<in> unat ` set ps}"
    using select_width_bounds(2)[of _ ps] by (intro Collect_cong conj_cong refl) (subst bit_set_pcrs, auto)
  also have "\<dots> = unat ` set ps" using select_width_bounds(2)[of _ ps] by fastforce
  finally have "set (bitmap_pcrs 0 ?bm) = set ps" by (simp add: inj_image_eq_iff)
  moreover have "distinct (bitmap_pcrs 0 ?bm)" using bitmap_pcrs_strict[OF len] by (simp add: distinct_map)
  ultimately show ?thesis using assms(2,3) by (intro sorted_distinct_set_unique) simp_all
qed

definition quote_ok :: "quote_attest \<Rightarrow> bool" where
  "quote_ok q = (length (qa_qualified_signer q) < 65536 \<and> length (qa_extra_data q) < 65536 \<and>
     sorted (qa_selected_pcrs q) \<and> distinct (qa_selected_pcrs q) \<and> list_all (\<lambda>p. unat p < 64) (qa_selected_pcrs q) \<and>
     length (qa_pcr_digest q) = 32)"

definition put_selection :: "u32 list \<Rightarrow> bytes" where
  "put_selection ps = to_be_bytes TPM_ALG_SHA256 @ [word_of_nat (select_width ps)] @
     foldl set_pcr (replicate (select_width ps) 0) ps"

lemma at_selection_cursor:
  assumes "list_all (\<lambda>p. unat p < 64) ps" and "length (pre @ put_selection ps @ rest) < 2 ^ 64"
  shows "at_selection (cursor pre (put_selection ps @ rest)) =
    Inr (bitmap_pcrs 0 (foldl set_pcr (replicate (select_width ps) 0) ps), cursor (pre @ put_selection ps) rest)"
proof -
  have w: "select_width ps \<le> 8" using assms(1) select_width_bounds(3) by (auto simp: list_all_iff)
  then have u: "unat (word_of_nat (select_width ps) :: byte) = select_width ps" by (simp add: unat_of_nat)
  show ?thesis
    using w assms(2) unfolding at_selection_def put_selection_def append_assoc append_Cons append_Nil
    by (simp add: f_at16.read at_u8_cursor at_take_cursor u)
qed

definition put_clock :: "clock_info \<Rightarrow> bytes" where
  "put_clock c = to_be_bytes (ci_clock_ms c) @ to_be_bytes (ci_reset_count c) @
     to_be_bytes (ci_restart_count c) @ [if ci_safe c then 1 else 0]"

lemma length_put_clock [simp]: "length (put_clock c) = 17"
  by (simp add: put_clock_def)

lemma at_clock_cursor:
  "length (pre @ put_clock c @ rest) < 2 ^ 64 \<Longrightarrow>
   at_clock (cursor pre (put_clock c @ rest)) = Inr (c, cursor (pre @ put_clock c) rest)"
  by (simp add: at_clock_def put_clock_def f_at64.read f_at32.read at_u8_cursor)

lemma parse_encode_quote:
  assumes "quote_ok q" and len: "length (encode_quote q @ rest) < 2 ^ 64"
  shows "parse_quote (encode_quote q @ rest) = Inr q"
proof -
  note ok = assms(1)[unfolded quote_ok_def]
  have enc: "encode_quote q @ rest =
     to_be_bytes TPM_GENERATED_VALUE @ to_be_bytes TPM_ST_ATTEST_QUOTE @
     put16 (qa_qualified_signer q) @ put16 (qa_extra_data q) @
     put_clock (qa_clock q) @ to_be_bytes (qa_firmware_version q) @ to_be_bytes (1 :: u32) @ put_selection (qa_selected_pcrs q) @
     put16 (qa_pcr_digest q) @ rest"
    by (simp add: encode_quote_def put_selection_def put_clock_def Let_def)
  have one: "rd_repeat (Suc 0) rd r = bind_res (rd r) (\<lambda>(x, r). Inr ([x], r))" for rd :: "reader \<Rightarrow> attest_error + u32 list \<times> reader" and r
    by (simp add: case_prod_unfold)
  have sel: "sort (bitmap_pcrs 0 (foldl set_pcr (replicate (select_width (qa_selected_pcrs q)) 0) (qa_selected_pcrs q)))
      = qa_selected_pcrs q"
    using ok by (intro bitmap_round_trip) (auto simp: list_all_iff)
  show ?thesis
    using ok len unfolding parse_quote_def cursor_start enc
    by (simp add: f_at32.read f_at16.read f_at64.read f_tpm2b.read at_clock_cursor at_selection_cursor one sel
        del: ascii_simps rd_repeat.simps)
qed

section \<open>What is verified\<close>

text \<open>A quote that answers \<open>nonce\<close> under the policy: it parses, carries the nonce, covers the required
  PCRs, its digest is that of the values sent, and the attestation key signed it and is acceptable.\<close>

definition quote_accepted ::
  "prims \<Rightarrow> ('k, 's) p256_lib \<Rightarrow> bytes \<Rightarrow> bytes option \<Rightarrow> quote_policy \<Rightarrow> bytes \<Rightarrow> bytes \<Rightarrow> bytes \<Rightarrow> (u32 \<times> bytes) list \<Rightarrow> bool" where
  "quote_accepted P E nonce known_ak policy quote signature ak_public pcrs =
     (\<exists>q hashed vk sig. parse_quote quote = Inr q \<and> qa_extra_data q = nonce \<and>
        (ci_safe (qa_clock q) \<or> \<not> qp_require_safe_clock policy) \<and>
        set (qp_required_pcrs policy) \<subseteq> set (qa_selected_pcrs q) \<and>
        quoted_values pcrs (qa_selected_pcrs q) = Inr hashed \<and> p_sha256 P hashed = qa_pcr_digest q \<and>
        p256_key_from_der E ak_public = Some vk \<and> p256_sig_from_der E signature = Some sig \<and> p256_verify E vk quote sig \<and>
        (case known_ak of Some k \<Rightarrow> k = ak_public | None \<Rightarrow> qp_allow_unknown_ak policy))"

lemma find_missing: "find (\<lambda>x. x \<notin> A) xs = None \<longleftrightarrow> set xs \<subseteq> A"
  by (auto simp: find_None_iff)

lemma failed_state [simp]: "vf_state (verified_failed a b c) = StateFailed"
  by (simp add: verified_failed_def)

lemma attest_verify_iff:
  "vf_state (attest_verify P E (Tpm2Quote quote signature ak_public pcrs n) nonce known_ak policy) = StateVerified \<longleftrightarrow>
   quote_accepted P E nonce known_ak policy quote signature ak_public pcrs"
proof (cases "parse_quote quote")
  case (Inr q)
  then show ?thesis
    unfolding attest_verify_def quote_accepted_def evidence.case Inr sum.case Let_def find_missing[symmetric]
    by (auto split: if_splits option.splits sum.splits)
qed (simp add: attest_verify_def quote_accepted_def Let_def)

lemma attest_verify_states:
  "vf_state (attest_verify P E (Tpm2Quote quote signature ak_public pcrs n) nonce known_ak policy) \<in> {StateVerified, StateFailed}"
  unfolding attest_verify_def evidence.case Let_def
  by (simp split: if_splits option.splits sum.splits)

end
