(* ===== verification/Control_Db.thy ===== *)
theory Control_Db
  imports Attest Policy_Engine Cert_Chain
begin

text \<open>
  The control plane's database (\<open>migrations/0001_initial.sql\<close> and \<open>0003_gateway_routes.sql\<close>): the
  tables its handlers read and write, as lists of rows with the columns the handlers use.  A statement
  of a handler is a list operation; it may also fail, which the argument \<open>up\<close> of a handler decides
  statement by statement, and a statement that would break a \<open>UNIQUE\<close> constraint fails.
\<close>

section \<open>Status values\<close>

datatype code =
    InvalidArgument | NotFound | PermissionDenied | FailedPrecondition | Unauthenticated | Unavailable
  | Internal | Cancelled

type_synonym status = "code \<times> bytes"

abbreviation db_down :: status where
  "db_down \<equiv> (Unavailable, ascii ''database'')"

section \<open>Rows\<close>

datatype json = JBool bool | JInt int | JStr bytes | JArr "json list"

text \<open>\<open>IpNetwork\<close>: an address and its prefix length.\<close>

type_synonym ip_network = "ip_addr \<times> nat"

datatype device_status = Pending | Active | Suspended | Revoked

fun status_text :: "device_status \<Rightarrow> bytes" where
  "status_text Pending = ascii ''pending''"
| "status_text Active = ascii ''active''"
| "status_text Suspended = ascii ''suspended''"
| "status_text Revoked = ascii ''revoked''"

datatype liveness = Unknown | Online | Stale | Offline

record device_row =
  dv_id :: uuid
  dv_tenant :: uuid
  dv_name :: bytes
  dv_kind :: bytes
  dv_status :: device_status
  dv_liveness :: liveness
  dv_class :: "uuid option"
  dv_key_provider :: bytes
  dv_fingerprint :: "bytes option"
  dv_posture :: "(bytes \<times> json) list option"
  dv_attestation :: "(bytes \<times> json) list option"
  dv_attestation_state :: attestation_state
  dv_risk_score :: int
  dv_overlay_v4 :: "ip_network option"
  dv_overlay_v6 :: "ip_network option"
  dv_advertised :: "ip_network list"
  dv_last_seen :: "int option"

record enrollment_token =
  et_id :: uuid
  et_tenant :: uuid
  et_token_hash :: bytes
  et_device_name :: "bytes option"
  et_device_kind :: bytes
  et_pod_ids :: "uuid list"
  et_class :: "uuid option"
  et_require_attestation :: bool
  et_require_approval :: bool
  et_expected_fingerprint :: "bytes option"
  et_max_uses :: int
  et_use_count :: int
  et_expires_at :: int
  et_last_used_at :: "int option"

record cert_row =
  cr_serial :: bytes
  cr_tenant :: "uuid option"
  cr_subject :: uuid
  cr_kind :: bytes
  cr_certificate :: bytes
  cr_tls_der :: bytes
  cr_not_before :: int
  cr_not_after :: int
  cr_issuer_key_id :: bytes
  cr_revoked_at :: "int option"
  cr_reason :: "bytes option"

datatype session_state = Offered | Live | Closed

fun session_state_text :: "session_state \<Rightarrow> bytes" where
  "session_state_text Offered = ascii ''offered''"
| "session_state_text Live = ascii ''active''"
| "session_state_text Closed = ascii ''closed''"

record session_row =
  sr_id :: bytes
  sr_tenant :: uuid
  sr_device :: uuid
  sr_gateway :: "uuid option"
  sr_peer :: "uuid option"
  sr_state :: session_state
  sr_suite :: bytes
  sr_activated_at :: "int option"
  sr_closed_at :: "int option"
  sr_close_reason :: "bytes option"
  sr_bytes_tx :: i64
  sr_bytes_rx :: i64

record gateway_row =
  gr_id :: uuid
  gr_endpoint :: bytes
  gr_region :: bytes
  gr_capacity :: u32
  gr_protected :: "ip_network list"
  gr_active_sessions :: u32
  gr_last_seen :: "int option"

record pod_row =
  pr_id :: uuid
  pr_tenant :: uuid
  pr_parent :: "uuid option"

record policy_row =
  pw_id :: uuid
  pw_tenant :: uuid
  pw_name :: bytes
  pw_enabled :: bool
  pw_spec :: bytes

text \<open>The column \<open>spec\<close> is the text of its JSON.  \<open>db_snapshots\<close> is the table \<open>policy_snapshots\<close>,
  \<open>db_crls\<close> is \<open>crl_versions\<close>, and \<open>db_notified\<close> the payloads of \<open>avon_policy_changed\<close> that are still to be delivered.\<close>

text \<open>A row of \<open>policy_decisions\<close>, with the second of \<open>decided_at\<close>.\<close>

record decision_row =
  pd_tenant :: uuid
  pd_device :: uuid
  pd_session :: "bytes option"
  pd_destination :: bytes
  pd_effect :: bytes
  pd_policy_ids :: "uuid list"
  pd_reason :: bytes
  pd_decided_at :: int

record control_db =
  db_devices :: "device_row list"
  db_device_pods :: "(uuid \<times> uuid) list"
  db_pods :: "pod_row list"
  db_classes :: "(uuid \<times> uuid) list"
  db_policies :: "policy_row list"
  db_snapshots :: "(uuid \<times> i64) list"
  db_notified :: "uuid list"
  db_tokens :: "enrollment_token list"
  db_enrollments :: "(uuid \<times> uuid \<times> ip_addr option) list"
  db_certs :: "cert_row list"
  db_sessions :: "session_row list"
  db_gateways :: "gateway_row list"
  db_pools :: "(uuid \<times> ip_network \<times> ip_network) list"
  db_crls :: "(int \<times> bytes) list"
  db_decisions :: "decision_row list"

section \<open>Statements\<close>

text \<open>The trigger \<open>bump_policy_snapshot\<close> (\<open>0002_fix_policy_snapshot_trigger.sql\<close>), for a row with a tenant
  and for a row of \<open>device_pods\<close>.\<close>

definition bump_tenant :: "uuid \<Rightarrow> control_db \<Rightarrow> control_db" where
  "bump_tenant t db =
     db\<lparr>db_snapshots := (case map_of (db_snapshots db) t of
          None \<Rightarrow> AList.update t 1 (db_snapshots db)
        | Some v \<Rightarrow> AList.update t (v + 1) (db_snapshots db)),
        db_notified := db_notified db @ [t]\<rparr>"

definition bump_pod :: "uuid \<Rightarrow> control_db \<Rightarrow> control_db" where
  "bump_pod pod db =
     (case find (\<lambda>p. pr_id p = pod) (db_pods db) of None \<Rightarrow> db | Some p \<Rightarrow> bump_tenant (pr_tenant p) db)"

text \<open>\<open>UPDATE t SET f WHERE p\<close> and \<open>SELECT ... WHERE p\<close> for at most one row.\<close>

definition update_where :: "('a \<Rightarrow> bool) \<Rightarrow> ('a \<Rightarrow> 'a) \<Rightarrow> 'a list \<Rightarrow> 'a list" where
  "update_where p f rows = map (\<lambda>r. if p r then f r else r) rows"

definition set_devices :: "(device_row \<Rightarrow> bool) \<Rightarrow> (device_row \<Rightarrow> device_row) \<Rightarrow> control_db \<Rightarrow> control_db" where
  "set_devices p f db = db\<lparr>db_devices := update_where p f (db_devices db)\<rparr>"

definition set_sessions :: "(session_row \<Rightarrow> bool) \<Rightarrow> (session_row \<Rightarrow> session_row) \<Rightarrow> control_db \<Rightarrow> control_db" where
  "set_sessions p f db = db\<lparr>db_sessions := update_where p f (db_sessions db)\<rparr>"

definition find_device :: "uuid \<Rightarrow> control_db \<Rightarrow> device_row option" where
  "find_device i db = find (\<lambda>d. dv_id d = i) (db_devices db)"

text \<open>The columns \<open>overlay_ipv4\<close> and \<open>overlay_ipv6\<close> are \<open>INET UNIQUE\<close>, over all tenants.\<close>

definition overlay_unique :: "control_db \<Rightarrow> bool" where
  "overlay_unique db = (distinct (List.map_filter dv_overlay_v4 (db_devices db)) \<and>
     distinct (List.map_filter dv_overlay_v6 (db_devices db)))"

text \<open>An \<open>UPDATE\<close> of one device's status, class, attestation state or risk score fires the trigger
  \<open>devices_bump\<close>.\<close>

definition set_device_bump :: "uuid \<Rightarrow> (device_row \<Rightarrow> device_row) \<Rightarrow> control_db \<Rightarrow> control_db" where
  "set_device_bump i f db =
     (case find_device i db of
        None \<Rightarrow> db
      | Some d \<Rightarrow> bump_tenant (dv_tenant d) (set_devices (\<lambda>d. dv_id d = i) f db))"

text \<open>\<open>a || b\<close> on JSON objects.\<close>

definition json_merge :: "(bytes \<times> json) list \<Rightarrow> (bytes \<times> json) list \<Rightarrow> (bytes \<times> json) list" where
  "json_merge a b = fold (\<lambda>(k, v) m. AList.update k v m) b a"

lemma mem_map_filter: "x \<in> set (List.map_filter f xs) \<longleftrightarrow> (\<exists>y\<in>set xs. f y = Some x)"
  by (force simp: List.map_filter_def)

lemma update_where_simps [simp]:
  "update_where p f [] = []"
  "update_where p f (r # rs) = (if p r then f r else r) # update_where p f rs"
  "length (update_where p f rs) = length rs"
  by (simp_all add: update_where_def)

lemma set_update_where: "set (update_where p f rs) = (\<lambda>r. if p r then f r else r) ` set rs"
  by (simp add: update_where_def)

lemma map_update_where: "(\<And>r. g (f r) = g r) \<Longrightarrow> map g (update_where p f rs) = map g rs"
  by (simp add: update_where_def)

lemma find_update_where:
  "(\<And>r. q (f r) = q r) \<Longrightarrow>
   find q (update_where p f rs) = map_option (\<lambda>r. if p r then f r else r) (find q rs)"
  by (induction rs) auto

lemma find_device_set:
  "(\<And>r. dv_id (f r) = dv_id r) \<Longrightarrow>
   find_device i (set_devices p f db) = map_option (\<lambda>r. if p r then f r else r) (find_device i db)"
  by (simp add: find_device_def set_devices_def find_update_where)

lemma find_device_id: "find_device i db = Some d \<Longrightarrow> dv_id d = i \<and> d \<in> set (db_devices db)"
  by (auto simp: find_device_def find_Some_iff)

lemma json_merge_lookup: "distinct (map fst b) \<Longrightarrow>
    map_of (json_merge a b) k = (case map_of b k of Some v \<Rightarrow> Some v | None \<Rightarrow> map_of a k)"
proof (induction b arbitrary: a)
  case (Cons x b)
  then show ?case
    by (cases x) (auto simp: json_merge_def AList.update_conv' map_of_eq_None_iff split: option.splits
      dest: map_of_SomeD intro: rev_image_eqI)
qed (simp add: json_merge_def)

end
