(* ===== verification/Key_Binding.thy ===== *)
theory Key_Binding
  imports Attest
begin

text \<open>
  \<open>avon-keystore/src/binding.rs\<close>: the message a hardware key signs to vouch for a device's hybrid
  keys, and its verification.  The \<open>p256\<close> and \<open>rsa\<close> crates are parameters.
\<close>

definition HW_LABEL :: bytes where "HW_LABEL = ascii ''AVON-HW-BINDING-V2''"

datatype binding_error = UnsupportedAlgorithm bytes | BindingPublicKey | BindingSignature

definition put32 :: "bytes \<Rightarrow> bytes" where
  "put32 bs = to_be_bytes (word_of_nat (length bs) :: u32) @ bs"

definition binding_message :: "hybrid_verifying_key \<Rightarrow> kem_public_key \<Rightarrow> bytes \<Rightarrow> bytes" where
  "binding_message signing kem device_hint =
     HW_LABEL @ put32 (vk_to_bytes signing) @ put32 (kem_pk_to_bytes kem) @ put32 device_hint"

text \<open>A verifier of one algorithm: key and signature are parsed, then the message is checked.\<close>

definition sig_check :: "('k, 's) p256_lib \<Rightarrow> bytes \<Rightarrow> bytes \<Rightarrow> bytes \<Rightarrow> binding_error + unit" where
  "sig_check E public_key signature msg =
     bind_res (ok_or BindingPublicKey (p256_key_from_der E public_key)) (\<lambda>vk.
     bind_res (ok_or BindingSignature (p256_sig_from_der E signature)) (\<lambda>sig.
     if p256_verify E vk msg sig then Inr () else Inl BindingSignature))"

definition verify_binding ::
  "('k, 's) p256_lib \<Rightarrow> ('r, 'q) p256_lib \<Rightarrow> hardware_binding \<Rightarrow> hybrid_verifying_key \<Rightarrow> kem_public_key \<Rightarrow>
   bytes \<Rightarrow> binding_error + unit" where
  "verify_binding E R b signing kem device_hint =
     (let msg = binding_message signing kem device_hint in
      if hb_algorithm b = ascii ''ecdsa-p256-sha256'' \<or> hb_algorithm b = ascii ''ecdsa-p256-sha256-se''
      then sig_check E (hb_public_key b) (hb_signature b) msg
      else if hb_algorithm b = ascii ''rsa-pss-sha256''
      then sig_check R (hb_public_key b) (hb_signature b) msg
      else Inl (UnsupportedAlgorithm (hb_algorithm b)))"

lemma put32_eqD:
  assumes "put32 a @ r = put32 b @ s" and "length a < 2 ^ 32" and "length b < 2 ^ 32"
  shows "a = b \<and> r = s"
proof -
  let ?w = "\<lambda>x. word_of_nat (length x) :: u32"
  have "to_be_bytes (?w a) = to_be_bytes (?w b) \<and> a @ r = b @ s"
    using assms(1) unfolding put32_def append_assoc
    by (subst (asm) append_eq_same_length) (simp_all only: length_to_be_bytes)
  then have w: "?w a = ?w b" and rest: "a @ r = b @ s" by (simp_all only: to_be_bytes_inj)
  have "length a = unat (?w a)" "length b = unat (?w b)"
    using assms(2,3) by (simp_all only: unat_word_of_nat32 power_numeral) (simp_all add: unat_word_of_nat32)
  then have "length a = length b" by (simp only: w)
  with rest show ?thesis by simp
qed

lemma binding_message_inj:
  assumes "vk_wf P v" "vk_wf P v'" "kem_pk_wf k" "kem_pk_wf k'" "length h < 2 ^ 32" "length h' < 2 ^ 32"
    and eq: "binding_message v k h = binding_message v' k' h'"
  shows "v = v' \<and> k = k' \<and> h = h'"
proof -
  have len: "length (vk_to_bytes x) < 2 ^ 32" "length (kem_pk_to_bytes y) < 2 ^ 32" if "vk_wf P x" "kem_pk_wf y" for x y
    using that by (simp_all add: vk_wf_def kem_pk_wf_def vk_to_bytes_def kem_pk_to_bytes_def)
  have 1: "vk_to_bytes v = vk_to_bytes v' \<and>
      put32 (kem_pk_to_bytes k) @ put32 h = put32 (kem_pk_to_bytes k') @ put32 h'"
    using eq len[OF assms(1,3)] len[OF assms(2,4)] by (intro put32_eqD) (simp_all add: binding_message_def)
  have 2: "kem_pk_to_bytes k = kem_pk_to_bytes k' \<and> put32 h = put32 h'"
    using 1 len[OF assms(1,3)] len[OF assms(2,4)] by (intro put32_eqD) simp_all
  have "h = h'" using 2 put32_eqD[of h "[]" h' "[]"] assms(5,6) by simp
  with 1 2 show ?thesis using vk.to_b_inj[OF assms(1,2)] kem_pk.to_b_inj[OF assms(3,4)] by blast
qed

end
