(* ===== verification/Control_Enroll.thy ===== *)
theory Control_Enroll
  imports Control_Db Key_Binding
begin

text \<open>
  Enrollment: the token store (\<open>avon-control/src/store.rs\<close>), the overlay address allocator
  (\<open>ipam.rs\<close>) and the handler that composes them in one transaction (\<open>enroll.rs\<close>).  The certificate
  authority is reached over gRPC; its answer is an argument, as are the clock and the fresh device id.
  The token row and the pool row are locked for update, so that enrollments happen one after the other.
\<close>

unbundle bit_operations_syntax

section \<open>Tokens\<close>

datatype enroll_error =
    InvalidToken | TokenExpired | TokenExhausted | FingerprintMismatch | AttestationRequired | EnrollDb

datatype stmt =
    BeginTx | SelectToken | UpdateToken | InsertDevice | InsertDevicePod uuid
  | SelectPool | SelectDevice | SelectUsed | UpdateOverlay | InsertEnrollment | CommitTx

definition hash_token :: "prims \<Rightarrow> bytes \<Rightarrow> bytes" where
  "hash_token P token = p_sha256 P token"

definition consume_token ::
  "(stmt \<Rightarrow> bool) \<Rightarrow> int \<Rightarrow> bytes \<Rightarrow> control_db \<Rightarrow> enroll_error + enrollment_token \<times> control_db" where
  "consume_token up now token_hash db =
     (if \<not> up SelectToken then Inl EnrollDb else
      bind_res (ok_or InvalidToken (find (\<lambda>t. et_token_hash t = token_hash) (db_tokens db))) (\<lambda>token.
      if et_expires_at token < now then Inl TokenExpired
      else if et_use_count token \<ge> et_max_uses token then Inl TokenExhausted
      else if \<not> up UpdateToken then Inl EnrollDb
      else Inr (token, db\<lparr>db_tokens := update_where (\<lambda>t. et_id t = et_id token)
             (\<lambda>t. t\<lparr>et_use_count := et_use_count t + 1, et_last_used_at := Some now\<rparr>) (db_tokens db)\<rparr>)))"

definition new_device ::
  "uuid \<Rightarrow> uuid \<Rightarrow> bytes \<Rightarrow> bytes \<Rightarrow> device_status \<Rightarrow> uuid option \<Rightarrow> bytes option \<Rightarrow> bytes \<Rightarrow> device_row" where
  "new_device tenant device_id name kind status class fingerprint key_provider =
     \<lparr>dv_id = device_id, dv_tenant = tenant, dv_name = name, dv_kind = kind, dv_status = status,
      dv_liveness = Unknown, dv_class = class, dv_key_provider = key_provider,
      dv_fingerprint = fingerprint, dv_posture = None, dv_attestation = None,
      dv_attestation_state = StateNone, dv_risk_score = 0, dv_overlay_v4 = None, dv_overlay_v6 = None,
      dv_advertised = [], dv_last_seen = None\<rparr>"

definition create_device ::
  "(stmt \<Rightarrow> bool) \<Rightarrow> uuid \<Rightarrow> uuid \<Rightarrow> bytes \<Rightarrow> bytes \<Rightarrow> device_status \<Rightarrow> uuid option \<Rightarrow> bytes option \<Rightarrow> bytes \<Rightarrow>
   control_db \<Rightarrow> enroll_error + control_db" where
  "create_device up tenant device_id name kind status class fingerprint key_provider db =
     (if \<not> up InsertDevice \<or> device_id \<in> set (map dv_id (db_devices db)) then Inl EnrollDb
      else Inr (db\<lparr>db_devices := db_devices db @
        [new_device tenant device_id name kind status class fingerprint key_provider]\<rparr>))"

fun add_device_pods :: "(stmt \<Rightarrow> bool) \<Rightarrow> uuid \<Rightarrow> uuid list \<Rightarrow> control_db \<Rightarrow> enroll_error + control_db" where
  "add_device_pods up device_id [] db = Inr db"
| "add_device_pods up device_id (pod # pods) db =
    (if \<not> up (InsertDevicePod pod) then Inl EnrollDb
     else add_device_pods up device_id pods
       (if (device_id, pod) \<in> set (db_device_pods db) then db
        else bump_pod pod (db\<lparr>db_device_pods := db_device_pods db @ [(device_id, pod)]\<rparr>)))"

definition record_enrollment ::
  "(stmt \<Rightarrow> bool) \<Rightarrow> uuid \<Rightarrow> uuid \<Rightarrow> ip_addr option \<Rightarrow> control_db \<Rightarrow> enroll_error + control_db" where
  "record_enrollment up token_id device_id client_ip db =
     (if \<not> up InsertEnrollment then Inl EnrollDb
      else Inr (db\<lparr>db_enrollments := db_enrollments db @ [(token_id, device_id, client_ip)]\<rparr>))"

section \<open>Addresses\<close>

datatype ipam_error = IpamDb | IpamExhausted | IpamPool bytes

text \<open>The loop over the host part \<open>off\<close> of a pool of \<open>psize\<close> addresses.\<close>

function first_free :: "u32 list \<Rightarrow> u32 \<Rightarrow> nat \<Rightarrow> nat \<Rightarrow> u32 option" where
  "first_free used base off psize =
     (if off < psize - 1
      then let candidate = base + word_of_nat off
           in if candidate \<notin> set used then Some candidate else first_free used base (Suc off) psize
      else None)"
  by pat_completeness auto

termination
  by (relation "measure (\<lambda>(used, base, off, psize). psize - off)") auto

declare first_free.simps [simp del]

definition v4_addr :: "ip_network \<Rightarrow> u32 option" where
  "v4_addr n = (case fst n of V4 a \<Rightarrow> Some a | V6 _ \<Rightarrow> None)"

definition net_or :: "'n net_lib \<Rightarrow> ip_addr \<Rightarrow> nat \<Rightarrow> ipam_error + 'n" where
  "net_or N a k = ok_or (IpamPool (ascii ''invalid IP prefix length'')) (ipnet_new N a k)"

text \<open>The half of \<open>allocate\<close> that picks an address, for a device that has none.\<close>

definition allocate_fresh ::
  "'n net_lib \<Rightarrow> (stmt \<Rightarrow> bool) \<Rightarrow> uuid \<Rightarrow> uuid \<Rightarrow> 'n \<Rightarrow> 'n \<Rightarrow> control_db \<Rightarrow> ipam_error + ('n \<times> 'n) \<times> control_db" where
  "allocate_fresh N up tenant device v4_net v6_net db =
     (if \<not> up SelectUsed then Inl IpamDb else
      let used = List.map_filter v4_addr
            (List.map_filter dv_overlay_v4 (filter (\<lambda>d. dv_tenant d = tenant) (db_devices db)));
          base = (case ipnet_network N v4_net of V4 a \<Rightarrow> a | V6 _ \<Rightarrow> 0);
          v6_base = (case ipnet_network N v6_net of V6 a \<Rightarrow> a | V4 _ \<Rightarrow> 0)
      in bind_res (ok_or IpamExhausted (first_free used base 2 (2 ^ (32 - ipnet_prefix_len N v4_net)))) (\<lambda>v4.
         let v6 = v6_base OR ucast (v4 - base);
             db' = set_devices (\<lambda>d. dv_id d = device)
               (\<lambda>d. d\<lparr>dv_overlay_v4 := Some (V4 v4, 32), dv_overlay_v6 := Some (V6 v6, 128)\<rparr>) db
         in if \<not> up UpdateOverlay \<or> \<not> overlay_unique db' then Inl IpamDb else
            bind_res (net_or N (V4 v4) (ipnet_prefix_len N v4_net)) (\<lambda>n4.
            bind_res (net_or N (V6 v6) (ipnet_prefix_len N v6_net)) (\<lambda>n6. Inr ((n4, n6), db')))))"

definition ipam_allocate ::
  "'n net_lib \<Rightarrow> (stmt \<Rightarrow> bool) \<Rightarrow> uuid \<Rightarrow> uuid \<Rightarrow> control_db \<Rightarrow> ipam_error + ('n \<times> 'n) \<times> control_db" where
  "ipam_allocate N up tenant device db =
     (if \<not> up SelectPool then Inl IpamDb else
      bind_res (ok_or IpamDb (map_of (db_pools db) tenant)) (\<lambda>(v4_pool, v6_pool).
      bind_res (case (v4_pool, v6_pool) of
          ((V4 a, p), (V6 b, q)) \<Rightarrow>
            bind_res (net_or N (V4 a) p) (\<lambda>v4_net. bind_res (net_or N (V6 b) q) (\<lambda>v6_net. Inr (v4_net, v6_net)))
        | _ \<Rightarrow> Inl (IpamPool (ascii ''pools must be IPv4 and IPv6''))) (\<lambda>(v4_net, v6_net).
      if \<not> up SelectDevice then Inl IpamDb else
      (case map_option (\<lambda>d. (dv_overlay_v4 d, dv_overlay_v6 d))
              (find (\<lambda>d. dv_id d = device \<and> dv_tenant d = tenant) (db_devices db)) of
         Some (Some (V4 v4, _), Some (V6 v6, _)) \<Rightarrow>
           bind_res (net_or N (V4 v4) (ipnet_prefix_len N v4_net)) (\<lambda>n4.
           bind_res (net_or N (V6 v6) (ipnet_prefix_len N v6_net)) (\<lambda>n6. Inr ((n4, n6), db)))
       | _ \<Rightarrow> allocate_fresh N up tenant device v4_net v6_net db))))"

section \<open>The handler\<close>

text \<open>\<open>s.chars().take(n).collect()\<close> on UTF-8 text.\<close>

fun take_chars :: "nat \<Rightarrow> bytes \<Rightarrow> bytes" where
  "take_chars 0 bs = []"
| "take_chars (Suc n) [] = []"
| "take_chars (Suc n) (b # bs) = b # takeWhile utf8_cont bs @ take_chars n (dropWhile utf8_cont bs)"

record csr =
  csr_tbs_template :: bytes
  csr_proof :: bytes
  csr_tls_csr_pem :: bytes
  csr_hardware_binding :: bytes

record enroll_request =
  er_token :: bytes
  er_csr :: "csr option"
  er_fingerprint :: "(u32 \<times> bytes) option"
  er_attestation :: "(bytes \<times> bytes) option"
  er_requested_name :: bytes

record 'cred enroll_response =
  es_device_id :: uuid
  es_tenant_id :: uuid
  es_credential :: 'cred
  es_status :: bytes

definition rejected :: status where
  "rejected = (PermissionDenied, ascii ''enrollment rejected'')"

text \<open>The libraries and services behind the handler.\<close>

record ('n, 'k, 's, 'r, 'q) enroll_libs =
  el_net :: "'n net_lib"
  el_p256 :: "('k, 's) p256_lib"
  el_rsa :: "('r, 'q) p256_lib"
  el_uuid_show :: "uuid \<Rightarrow> bytes"

definition device_name :: "(uuid \<Rightarrow> bytes) \<Rightarrow> enrollment_token \<Rightarrow> bytes \<Rightarrow> uuid \<Rightarrow> bytes" where
  "device_name uuid_show token requested device_id =
     (case et_device_name token of
        Some n \<Rightarrow> if n \<noteq> [] then n else
          (if requested = [] then uuid_show device_id else take_chars 255 requested)
      | None \<Rightarrow> if requested = [] then uuid_show device_id else take_chars 255 requested)"

definition csr_provider ::
  "('n, 'k, 's, 'r, 'q) enroll_libs \<Rightarrow> csr \<Rightarrow> tbs_certificate \<Rightarrow> bytes option \<Rightarrow> status + bytes" where
  "csr_provider L csr template fingerprint =
     (if csr_hardware_binding csr = [] then Inr (ascii ''software'')
      else
        bind_res (map_err (\<lambda>_. (InvalidArgument, ascii ''binding decode'')) (binding_decode (csr_hardware_binding csr))) (\<lambda>binding.
        (case tb_kem_key template of
           Some kem \<Rightarrow>
             bind_res (map_err (\<lambda>_. (InvalidArgument, ascii ''binding verification failed''))
               (verify_binding (el_p256 L) (el_rsa L) binding (tb_signing_key template) kem
                 (case fingerprint of Some f \<Rightarrow> f | None \<Rightarrow> []))) (\<lambda>_.
             Inr (ascii (provider_as_str (hb_provider binding))))
         | None \<Rightarrow> Inl (InvalidArgument, ascii ''kem required for binding''))))"

definition enroll_fingerprint :: "enroll_request \<Rightarrow> bytes option" where
  "enroll_fingerprint req =
     (case er_fingerprint req of
        Some (version, hash) \<Rightarrow> if version = 2 \<and> length hash = 32 then Some hash else None
      | None \<Rightarrow> None)"

text \<open>What is checked of the token once it is consumed.\<close>

definition token_admits :: "enrollment_token \<Rightarrow> enroll_request \<Rightarrow> bool" where
  "token_admits token req =
     ((case et_expected_fingerprint token of
         Some expected \<Rightarrow> enroll_fingerprint req = Some expected
       | None \<Rightarrow> True) \<and>
      \<not> (et_require_attestation token \<and>
         (case er_attestation req of
            Some (format, evidence) \<Rightarrow> format = ascii ''none'' \<or> evidence = []
          | None \<Rightarrow> True)))"

text \<open>The body of the transaction.\<close>

definition enroll_tx ::
  "prims \<Rightarrow> ('n, 'k, 's, 'r, 'q) enroll_libs \<Rightarrow> (stmt \<Rightarrow> bool) \<Rightarrow> int \<Rightarrow> uuid \<Rightarrow> (uuid \<Rightarrow> uuid \<Rightarrow> csr \<Rightarrow> bytes list \<Rightarrow> 'cred option) \<Rightarrow>
   enroll_request \<Rightarrow> csr \<Rightarrow> tbs_certificate \<Rightarrow> ip_addr option \<Rightarrow> control_db \<Rightarrow> status + 'cred enroll_response \<times> control_db" where
  "enroll_tx P L up now device_id issue req csr template client_ip db =
     bind_res (map_err (\<lambda>e. if e = EnrollDb then db_down else rejected)
       (consume_token up now (hash_token P (er_token req)) db)) (\<lambda>(token, db).
     if \<not> token_admits token req then Inl rejected else
     let fingerprint = enroll_fingerprint req;
         name = device_name (el_uuid_show L) token (er_requested_name req) device_id;
         st = (if et_require_approval token then Pending else Active) in
     bind_res (csr_provider L csr template fingerprint) (\<lambda>key_provider.
     bind_res (map_err (\<lambda>_. db_down) (create_device up (et_tenant token) device_id name (et_device_kind token) st
       (et_class token) fingerprint key_provider db)) (\<lambda>db.
     bind_res (map_err (\<lambda>_. db_down) (add_device_pods up device_id (et_pod_ids token) db)) (\<lambda>db.
     bind_res (map_err (\<lambda>_. db_down) (ipam_allocate (el_net L) up (et_tenant token) device_id db)) (\<lambda>(_, db).
     bind_res (map_err (\<lambda>_. db_down) (record_enrollment up (et_id token) device_id client_ip db)) (\<lambda>db.
     let sans = [ascii ''spiffe://avon/'' @ el_uuid_show L (et_tenant token) @ ascii ''/device/'' @ el_uuid_show L device_id] in
     bind_res (ok_or (Unavailable, ascii ''certificate authority'') (issue (et_tenant token) device_id csr sans)) (\<lambda>credential.
     if \<not> up CommitTx then Inl db_down
     else Inr (\<lparr>es_device_id = device_id, es_tenant_id = et_tenant token, es_credential = credential,
                es_status = status_text st\<rparr>, db))))))))"

text \<open>The handler; a transaction that does not commit leaves the database as it was.\<close>

definition enroll ::
  "prims \<Rightarrow> ('n, 'k, 's, 'r, 'q) enroll_libs \<Rightarrow> (stmt \<Rightarrow> bool) \<Rightarrow> int \<Rightarrow> uuid \<Rightarrow> (uuid \<Rightarrow> uuid \<Rightarrow> csr \<Rightarrow> bytes list \<Rightarrow> 'cred option) \<Rightarrow>
   enroll_request \<Rightarrow> ip_addr option \<Rightarrow> control_db \<Rightarrow> (status + 'cred enroll_response) \<times> control_db" where
  "enroll P L up now device_id issue req client_ip db =
     (case
       (if er_token req = [] \<or> length (er_token req) > 256 then Inl rejected else
        bind_res (ok_or (InvalidArgument, ascii ''csr required'') (er_csr req)) (\<lambda>csr.
        bind_res (map_err (\<lambda>_. (InvalidArgument, ascii ''csr template'')) (tbs_decode P (csr_tbs_template csr))) (\<lambda>template.
        if tb_kind template \<noteq> Device \<or> tb_tenant_id template \<noteq> [] \<or> tb_subject_id template \<noteq> replicate 16 0
        then Inl (InvalidArgument, ascii ''csr template must be a device template with empty tenant and zero subject'')
        else if \<not> up BeginTx then Inl db_down
        else enroll_tx P L up now device_id issue req csr template client_ip db)))
      of Inl e \<Rightarrow> (Inl e, db)
       | Inr (response, db') \<Rightarrow> (Inr response, db'))"

section \<open>Address arithmetic\<close>

text \<open>What the code relies on of \<open>ipnet\<close>: a network keeps the address and prefix length it is made of,
  \<open>network()\<close> clears the host bits, and a prefix longer than the address is refused.\<close>

definition ipnet_laws :: "'n net_lib \<Rightarrow> bool" where
  "ipnet_laws N = ((\<forall>a k. k \<le> width a \<longrightarrow> (\<exists>n. ipnet_new N a k = Some n \<and> ipnet_addr N n = a \<and>
       ipnet_prefix_len N n = k \<and> ipnet_network N n = base_of (a, k))) \<and>
     (\<forall>a k. width a < k \<longrightarrow> ipnet_new N a k = None))"

lemma toy_net_laws: "ipnet_laws toy_net"
  by (simp add: ipnet_laws_def toy_net_def)

lemma ipnet_newD:
  assumes "ipnet_laws N" and "ipnet_new N a k = Some n"
  shows "k \<le> width a" and "ipnet_addr N n = a" and "ipnet_prefix_len N n = k" and "ipnet_network N n = base_of (a, k)"
  using assms unfolding ipnet_laws_def by (metis not_le option.distinct(1), (metis not_le option.distinct(1) option.inject)+)

lemma first_free_Some:
  "first_free used base off n = Some c \<Longrightarrow>
   \<exists>k. off \<le> k \<and> k < n - 1 \<and> c = base + word_of_nat k \<and> c \<notin> set used \<and>
     (\<forall>j. off \<le> j \<and> j < k \<longrightarrow> base + word_of_nat j \<in> set used)"
proof (induction used base off n rule: first_free.induct)
  case (1 used base off n)
  show ?case
  proof (cases "base + word_of_nat off \<in> set used")
    case True
    with 1 obtain k where k: "Suc off \<le> k" "k < n - 1" "c = base + word_of_nat k" "c \<notin> set used"
      "\<forall>j. Suc off \<le> j \<and> j < k \<longrightarrow> base + word_of_nat j \<in> set used"
      by (auto simp: first_free.simps[of used base off n] Let_def split: if_splits)
    then show ?thesis using True by (intro exI[of _ k]) (auto simp: Suc_le_eq nat_less_le)
  next
    case False
    with 1(2) show ?thesis
      by (intro exI[of _ off]) (auto simp: first_free.simps[of used base off n] Let_def split: if_splits)
  qed
qed

lemma first_free_None:
  "first_free used base off n = None \<longleftrightarrow> (\<forall>j. off \<le> j \<and> j < n - 1 \<longrightarrow> base + word_of_nat j \<in> set used)"
proof (induction used base off n rule: first_free.induct)
  case (1 used base off n)
  show ?case
  proof (cases "off < n - 1 \<and> base + word_of_nat off \<in> set used")
    case True
    then show ?thesis
      using 1 by (subst first_free.simps) (auto simp: Let_def Suc_le_eq, metis nat_less_le)
  next
    case False
    then show ?thesis by (subst first_free.simps) (auto simp: Let_def)
  qed
qed

text \<open>An address with the network bits of \<open>a\<close> and the host number \<open>k\<close>.\<close>

lemma net_host:
  fixes a :: "'a::len word"
  assumes "m \<le> LENGTH('a)" and "k < 2 ^ m"
  shows "drop_bit m (push_bit m (drop_bit m a) + word_of_nat k) = drop_bit m a"
    and "push_bit m (drop_bit m a) OR word_of_nat k = push_bit m (drop_bit m a) + word_of_nat k"
    and "push_bit m (drop_bit m a) + word_of_nat k - push_bit m (drop_bit m a) = word_of_nat k"
proof -
  have kb: "\<not> bit (word_of_nat k :: 'a word) i" if "m \<le> i" for i
  proof -
    have "k div 2 ^ i = 0" using assms(2) that
      by (metis div_less order_less_le_trans power_increasing one_le_numeral)
    then show ?thesis by (simp add: bit_of_nat_iff bit_iff_odd[of k])
  qed
  have dis: "push_bit m (drop_bit m a) + word_of_nat k = push_bit m (drop_bit m a) OR word_of_nat k"
    using kb by (intro disjunctive_add) (auto simp: bit_push_bit_iff)
  then show "push_bit m (drop_bit m a) OR word_of_nat k = push_bit m (drop_bit m a) + word_of_nat k" by simp
  show "drop_bit m (push_bit m (drop_bit m a) + word_of_nat k) = drop_bit m a"
    unfolding dis using kb
    by (intro bit_word_eqI) (auto simp: bit_drop_bit_eq bit_or_iff bit_push_bit_iff dest: bit_imp_le_length)
  show "push_bit m (drop_bit m a) + word_of_nat k - push_bit m (drop_bit m a) = word_of_nat k" by simp
qed

section \<open>What the allocator stores\<close>

definition net4 :: "u32 \<Rightarrow> nat \<Rightarrow> u32" where
  "net4 a p = push_bit (32 - p) (drop_bit (32 - p) a)"

definition net6 :: "u128 \<Rightarrow> nat \<Rightarrow> u128" where
  "net6 b q = push_bit (128 - q) (drop_bit (128 - q) b)"

definition with_overlay :: "u32 \<Rightarrow> u128 \<Rightarrow> device_row \<Rightarrow> device_row" where
  "with_overlay v4 v6 d = d\<lparr>dv_overlay_v4 := Some (V4 v4, 32), dv_overlay_v6 := Some (V6 v6, 128)\<rparr>"

definition host_number :: "nat \<Rightarrow> nat \<Rightarrow> bool" where
  "host_number p k = (2 \<le> k \<and> k < 2 ^ (32 - p) - 1)"

lemma host_number_small: "host_number p k \<Longrightarrow> k < 2 ^ (32 - p) \<and> k < 2 ^ 32"
proof -
  assume "host_number p k"
  then have "k < 2 ^ (32 - p)" by (simp add: host_number_def less_diff_conv)
  moreover have "(2::nat) ^ (32 - p) \<le> 2 ^ 32" by (rule power_increasing) simp_all
  ultimately show ?thesis by simp
qed

lemma ucast_host: "k < 2 ^ 32 \<Longrightarrow> ucast (word_of_nat k :: u32) = (word_of_nat k :: u128)"
  by (simp add: unsigned_of_nat take_bit_nat_eq_self)

lemma v4_addr_Some: "v4_addr n = Some x \<longleftrightarrow> (\<exists>m. n = (V4 x, m))"
  by (cases n) (auto simp: v4_addr_def split: ip_addr.splits)

lemma used_iff:
  "x \<in> set (List.map_filter v4_addr (List.map_filter dv_overlay_v4 (filter (\<lambda>d. dv_tenant d = tenant) ds))) \<longleftrightarrow>
   (\<exists>d\<in>set ds. dv_tenant d = tenant \<and> (\<exists>m. dv_overlay_v4 d = Some (V4 x, m)))"
  by (auto simp: mem_map_filter v4_addr_Some Bex_def)

lemma allocate_fresh_sound:
  assumes "ipnet_laws N" and "ipnet_new N (V4 a) p = Some v4n" and "ipnet_new N (V6 b) q = Some v6n"
    and "32 - p \<le> 128 - q" and "allocate_fresh N up tenant device v4n v6n db = Inr (r, db')"
  shows "\<exists>k. host_number p k \<and>
      db' = set_devices (\<lambda>d. dv_id d = device) (with_overlay (net4 a p + word_of_nat k) (net6 b q + word_of_nat k)) db \<and>
      overlay_unique db' \<and>
      (\<forall>d\<in>set (db_devices db). dv_tenant d = tenant \<longrightarrow> dv_overlay_v4 d \<noteq> Some (V4 (net4 a p + word_of_nat k), 32)) \<and>
      (\<forall>j. 2 \<le> j \<and> j < k \<longrightarrow> (\<exists>d\<in>set (db_devices db). dv_tenant d = tenant \<and>
        (\<exists>m. dv_overlay_v4 d = Some (V4 (net4 a p + word_of_nat j), m))))"
proof -
  note n4 = ipnet_newD[OF assms(1,2)] and n6 = ipnet_newD[OF assms(1,3)]
  let ?used = "List.map_filter v4_addr (List.map_filter dv_overlay_v4 (filter (\<lambda>d. dv_tenant d = tenant) (db_devices db)))"
  have base: "(case ipnet_network N v4n of V4 x \<Rightarrow> x | V6 _ \<Rightarrow> 0) = net4 a p"
    "(case ipnet_network N v6n of V6 x \<Rightarrow> x | V4 _ \<Rightarrow> 0) = net6 b q"
    using n4 n6 by (simp_all add: base_of_def net4_def net6_def)
  from assms(5) obtain v4 where free: "first_free ?used (net4 a p) 2 (2 ^ (32 - p)) = Some v4"
    and db': "db' = set_devices (\<lambda>d. dv_id d = device)
       (\<lambda>d. d\<lparr>dv_overlay_v4 := Some (V4 v4, 32), dv_overlay_v6 := Some (V6 (net6 b q OR ucast (v4 - net4 a p)), 128)\<rparr>) db"
    and uniq: "overlay_unique db'"
    unfolding allocate_fresh_def base Let_def n4(3) by (auto simp: res_simps split: if_splits)
  from first_free_Some[OF free] obtain k where k: "2 \<le> k" "k < 2 ^ (32 - p) - 1" "v4 = net4 a p + word_of_nat k"
    "v4 \<notin> set ?used" and low: "\<forall>j. 2 \<le> j \<and> j < k \<longrightarrow> net4 a p + word_of_nat j \<in> set ?used" by blast
  have host: "host_number p k" using k by (simp add: host_number_def)
  note small = host_number_small[OF host]
  have "k < 2 ^ (128 - q)" using small assms(4) by (meson le_less_trans less_le_trans one_le_numeral power_increasing)
  then have "net6 b q OR ucast (v4 - net4 a p) = net6 b q + word_of_nat k"
    using k(3) small net_host(2)[of "128 - q" k b] by (simp add: net6_def ucast_host)
  then have row: "(\<lambda>d. d\<lparr>dv_overlay_v4 := Some (V4 v4, 32), dv_overlay_v6 := Some (V6 (net6 b q OR ucast (v4 - net4 a p)), 128)\<rparr>)
      = with_overlay (net4 a p + word_of_nat k) (net6 b q + word_of_nat k)"
    using k(3) by (simp add: with_overlay_def fun_eq_iff)
  have new: "dv_overlay_v4 d \<noteq> Some (V4 v4, 32)" if "d \<in> set (db_devices db)" "dv_tenant d = tenant" for d
    using k(4) that unfolding used_iff by blast
  have "\<exists>d\<in>set (db_devices db). dv_tenant d = tenant \<and> (\<exists>m. dv_overlay_v4 d = Some (V4 (net4 a p + word_of_nat j), m))"
    if "2 \<le> j" "j < k" for j
    using low that unfolding used_iff by blast
  then show ?thesis using host db' uniq new row k(3) by (intro exI[of _ k]) auto
qed

definition pools_ok :: "control_db \<Rightarrow> bool" where
  "pools_ok db = (\<forall>(t, v4, v6) \<in> set (db_pools db).
     \<exists>a p b q. v4 = (V4 a, p) \<and> v6 = (V6 b, q) \<and> p \<le> 32 \<and> q \<le> 128 \<and> 32 - p \<le> 128 - q)"

text \<open>The addresses of a device: one host number, in the tenant's two pools.\<close>

definition pool_hosts :: "control_db \<Rightarrow> uuid \<Rightarrow> u32 \<Rightarrow> u128 \<Rightarrow> bool" where
  "pool_hosts db tenant v4 v6 = (\<exists>a p b q k. map_of (db_pools db) tenant = Some ((V4 a, p), (V6 b, q)) \<and>
     host_number p k \<and> v4 = net4 a p + word_of_nat k \<and> v6 = net6 b q + word_of_nat k)"

text \<open>The lowest pair that no device of the tenant has.\<close>

definition lowest_host :: "control_db \<Rightarrow> uuid \<Rightarrow> u32 \<Rightarrow> u128 \<Rightarrow> bool" where
  "lowest_host db tenant v4 v6 = (\<exists>a p b q k. map_of (db_pools db) tenant = Some ((V4 a, p), (V6 b, q)) \<and>
     host_number p k \<and> v4 = net4 a p + word_of_nat k \<and> v6 = net6 b q + word_of_nat k \<and>
     (\<forall>j. 2 \<le> j \<and> j < k \<longrightarrow> (\<exists>d\<in>set (db_devices db). dv_tenant d = tenant \<and>
        (\<exists>m. dv_overlay_v4 d = Some (V4 (net4 a p + word_of_nat j), m)))))"

lemma lowest_pool: "lowest_host db t v4 v6 \<Longrightarrow> pool_hosts db t v4 v6"
  unfolding lowest_host_def pool_hosts_def by blast

lemma pools_okD:
  "pools_ok db \<Longrightarrow> map_of (db_pools db) t = Some (v4, v6) \<Longrightarrow>
   \<exists>a p b q. v4 = (V4 a, p) \<and> v6 = (V6 b, q) \<and> p \<le> 32 \<and> q \<le> 128 \<and> 32 - p \<le> 128 - q"
  unfolding pools_ok_def by (drule map_of_SomeD) fast

text \<open>A device without addresses gets a fresh pair.\<close>

lemma ipam_allocate_fresh:
  assumes N: "ipnet_laws N" and pools: "pools_ok db"
    and dev: "find (\<lambda>d. dv_id d = device \<and> dv_tenant d = tenant) (db_devices db) = Some d" "dv_overlay_v4 d = None"
    and ok: "ipam_allocate N up tenant device db = Inr (r, db')"
  shows "\<exists>v4 v6. lowest_host db tenant v4 v6 \<and> db' = set_devices (\<lambda>d. dv_id d = device) (with_overlay v4 v6) db \<and>
    overlay_unique db'"
proof -
  from ok obtain v4p v6p where pool: "map_of (db_pools db) tenant = Some (v4p, v6p)"
    by (auto simp: ipam_allocate_def res_simps split: if_splits)
  from pools_okD[OF pools pool] obtain a p b q where pq: "v4p = (V4 a, p)" "v6p = (V6 b, q)" "32 - p \<le> 128 - q"
    by blast
  from ok obtain v4n v6n where n: "ipnet_new N (V4 a) p = Some v4n" "ipnet_new N (V6 b) q = Some v6n"
    and fresh: "allocate_fresh N up tenant device v4n v6n db = Inr (r, db')"
    unfolding ipam_allocate_def using pool pq dev by (auto simp: res_simps net_or_def split: if_splits)
  from allocate_fresh_sound[OF N n pq(3) fresh] pool pq show ?thesis
    unfolding lowest_host_def by blast
qed

lemma create_device_sound:
  "create_device up tenant i name kind st cl fp kp db = Inr db' \<Longrightarrow>
   i \<notin> set (map dv_id (db_devices db)) \<and>
   db' = db\<lparr>db_devices := db_devices db @ [new_device tenant i name kind st cl fp kp]\<rparr>"
  by (simp add: create_device_def split: if_splits)

lemma add_device_pods_sound:
  "add_device_pods up i pods db = Inr db' \<Longrightarrow>
   db_devices db' = db_devices db \<and> db_tokens db' = db_tokens db \<and> db_enrollments db' = db_enrollments db \<and> db_pools db' = db_pools db"
proof (induction pods arbitrary: db)
  case (Cons pod pods)
  let ?db = "if (i, pod) \<in> set (db_device_pods db) then db
        else bump_pod pod (db\<lparr>db_device_pods := db_device_pods db @ [(i, pod)]\<rparr>)"
  have "add_device_pods up i pods ?db = Inr db'" using Cons.prems by (simp split: if_splits)
  from Cons.IH[OF this] show ?case by (simp add: bump_pod_def bump_tenant_def split: option.splits if_splits)
qed simp

lemma consume_token_sound:
  "consume_token up now h db = Inr (token, db') \<Longrightarrow>
   token \<in> set (db_tokens db) \<and> et_token_hash token = h \<and> now \<le> et_expires_at token \<and> et_use_count token < et_max_uses token \<and>
   db' = db\<lparr>db_tokens := update_where (\<lambda>t. et_id t = et_id token)
     (\<lambda>t. t\<lparr>et_use_count := et_use_count t + 1, et_last_used_at := Some now\<rparr>) (db_tokens db)\<rparr>"
  by (auto simp: consume_token_def res_simps not_less not_le find_Some_iff split: if_splits)

lemma find_fresh_row:
  "i \<notin> set (map dv_id ds) \<Longrightarrow> dv_id d = i \<Longrightarrow> dv_tenant d = t \<Longrightarrow>
   find (\<lambda>d. dv_id d = i \<and> dv_tenant d = t) (ds @ [d]) = Some d"
  by (induction ds) auto

lemma set_fresh_row:
  "i \<notin> set (map dv_id ds) \<Longrightarrow> dv_id d = i \<Longrightarrow> update_where (\<lambda>d. dv_id d = i) f (ds @ [d]) = ds @ [f d]"
  by (induction ds) auto

section \<open>One enrollment\<close>

definition use_token :: "uuid \<Rightarrow> int \<Rightarrow> enrollment_token list \<Rightarrow> enrollment_token list" where
  "use_token i now ts = update_where (\<lambda>t. et_id t = i)
     (\<lambda>t. t\<lparr>et_use_count := et_use_count t + 1, et_last_used_at := Some now\<rparr>) ts"

text \<open>What an enrollment that succeeds did.\<close>

definition enrolled ::
  "prims \<Rightarrow> int \<Rightarrow> uuid \<Rightarrow> enroll_request \<Rightarrow> ip_addr option \<Rightarrow> control_db \<Rightarrow> enrollment_token \<Rightarrow> device_row \<Rightarrow> control_db \<Rightarrow> bool" where
  "enrolled P now device_id req client_ip db token d db' =
     (token \<in> set (db_tokens db) \<and> et_token_hash token = hash_token P (er_token req) \<and>
      now \<le> et_expires_at token \<and> et_use_count token < et_max_uses token \<and> token_admits token req \<and>
      dv_id d = device_id \<and> device_id \<notin> set (map dv_id (db_devices db)) \<and> dv_tenant d = et_tenant token \<and>
      dv_status d = (if et_require_approval token then Pending else Active) \<and>
      (\<exists>v4 v6. dv_overlay_v4 d = Some (V4 v4, 32) \<and> dv_overlay_v6 d = Some (V6 v6, 128) \<and> lowest_host db (et_tenant token) v4 v6) \<and>
      db_devices db' = db_devices db @ [d] \<and> db_tokens db' = use_token (et_id token) now (db_tokens db) \<and>
      db_enrollments db' = db_enrollments db @ [(et_id token, device_id, client_ip)] \<and>
      db_pools db' = db_pools db \<and> overlay_unique db')"

lemma enroll_tx_effect:
  assumes N: "ipnet_laws (el_net L)" and pools: "pools_ok db"
    and ok: "enroll_tx P L up now device_id issue req csr template client_ip db = Inr (resp, db')"
  shows "\<exists>token d. enrolled P now device_id req client_ip db token d db' \<and>
    es_device_id resp = device_id \<and> es_tenant_id resp = et_tenant token \<and> es_status resp = status_text (dv_status d)"
proof -
  let ?st = "\<lambda>token. if et_require_approval token then Pending else Active"
  from ok obtain token db1 kp db2 db3 r db4 db5 cred where
    1: "consume_token up now (hash_token P (er_token req)) db = Inr (token, db1)" and ad: "token_admits token req"
    and 2: "create_device up (et_tenant token) device_id
        (device_name (el_uuid_show L) token (er_requested_name req) device_id) (et_device_kind token) (?st token)
        (et_class token) (enroll_fingerprint req) kp db1 = Inr db2"
    and 3: "add_device_pods up device_id (et_pod_ids token) db2 = Inr db3"
    and 4: "ipam_allocate (el_net L) up (et_tenant token) device_id db3 = Inr (r, db4)"
    and 5: "record_enrollment up (et_id token) device_id client_ip db4 = Inr db5"
    and fin: "db' = db5" "resp = \<lparr>es_device_id = device_id, es_tenant_id = et_tenant token, es_credential = cred,
      es_status = status_text (?st token)\<rparr>"
    unfolding enroll_tx_def Let_def by (auto simp: res_simps split: if_splits)
  note c1 = consume_token_sound[OF 1] and c2 = create_device_sound[OF 2]
  note c3 = add_device_pods_sound[OF 3]
  define n where "n = new_device (et_tenant token) device_id
    (device_name (el_uuid_show L) token (er_requested_name req) device_id) (et_device_kind token) (?st token)
    (et_class token) (enroll_fingerprint req) kp"
  have n: "dv_id n = device_id" "dv_tenant n = et_tenant token" "dv_overlay_v4 n = None" "dv_status n = ?st token"
    by (simp_all add: n_def new_device_def)
  have new: "device_id \<notin> set (map dv_id (db_devices db))" using c1 c2 by simp
  have dev3: "db_devices db3 = db_devices db @ [n]" and pool3: "db_pools db3 = db_pools db"
    and tok3: "db_tokens db3 = use_token (et_id token) now (db_tokens db)" and enr3: "db_enrollments db3 = db_enrollments db"
    using c1 c2 c3 by (simp_all add: n_def use_token_def)
  have "pools_ok db3" using pools pool3 by (simp add: pools_ok_def)
  from ipam_allocate_fresh[OF N this _ n(3) 4] find_fresh_row[OF new n(1,2)] dev3 obtain v4 v6 where
    v: "lowest_host db3 (et_tenant token) v4 v6" "db4 = set_devices (\<lambda>d. dv_id d = device_id) (with_overlay v4 v6) db3"
    "overlay_unique db4" by auto
  have low: "lowest_host db (et_tenant token) v4 v6"
    using v(1) n(3) unfolding lowest_host_def dev3 pool3 by simp
  have dev4: "db_devices db4 = db_devices db @ [with_overlay v4 v6 n]"
    unfolding v(2) set_devices_def using set_fresh_row[OF new n(1)] dev3 by simp
  have "db_tokens db4 = db_tokens db3" "db_enrollments db4 = db_enrollments db3" "db_pools db4 = db_pools db3"
    by (simp_all add: v(2) set_devices_def)
  moreover have "db5 = db4\<lparr>db_enrollments := db_enrollments db4 @ [(et_id token, device_id, client_ip)]\<rparr>"
    using 5 by (simp add: record_enrollment_def split: if_splits)
  ultimately have "enrolled P now device_id req client_ip db token (with_overlay v4 v6 n) db'"
    using c1 ad new n v(3) low dev4 fin(1) pool3 tok3 enr3
    by (simp add: enrolled_def with_overlay_def overlay_unique_def)
  then show ?thesis using fin(2) n by (intro exI[of _ token] exI[of _ "with_overlay v4 v6 n"]) (simp add: with_overlay_def)
qed

lemma enroll_effect:
  assumes "ipnet_laws (el_net L)" and "pools_ok db"
  shows "(case enroll P L up now device_id issue req client_ip db of
     (Inl e, db') \<Rightarrow> db' = db
   | (Inr resp, db') \<Rightarrow> \<exists>token d. enrolled P now device_id req client_ip db token d db' \<and>
      es_device_id resp = device_id \<and> es_tenant_id resp = et_tenant token \<and> es_status resp = status_text (dv_status d))"
  unfolding enroll_def
  by (auto simp: res_simps split: sum.splits if_splits dest: enroll_tx_effect[OF assms])

section \<open>Every run of enrollments\<close>

definition enroll_count :: "control_db \<Rightarrow> uuid \<Rightarrow> int" where
  "enroll_count db i = int (length (filter (\<lambda>e. fst e = i) (db_enrollments db)))"

definition overlay_ok :: "control_db \<Rightarrow> device_row \<Rightarrow> bool" where
  "overlay_ok db d = ((dv_overlay_v4 d = None \<and> dv_overlay_v6 d = None) \<or>
     (\<exists>v4 v6. dv_overlay_v4 d = Some (V4 v4, 32) \<and> dv_overlay_v6 d = Some (V6 v6, 128) \<and>
       pool_hosts db (dv_tenant d) v4 v6))"

definition control_ok :: "control_db \<Rightarrow> bool" where
  "control_ok db =
     (pools_ok db \<and> distinct (map dv_id (db_devices db)) \<and> distinct (map et_id (db_tokens db)) \<and> overlay_unique db \<and>
      (\<forall>d\<in>set (db_devices db). overlay_ok db d) \<and>
      (\<forall>t\<in>set (db_tokens db). enroll_count db (et_id t) \<le> et_use_count t \<and> et_use_count t \<le> et_max_uses t))"

record 'cred enroll_event =
  ee_up :: "stmt \<Rightarrow> bool"
  ee_now :: int
  ee_device_id :: uuid
  ee_issue :: "uuid \<Rightarrow> uuid \<Rightarrow> csr \<Rightarrow> bytes list \<Rightarrow> 'cred option"
  ee_request :: enroll_request
  ee_client_ip :: "ip_addr option"

definition run_enroll ::
  "prims \<Rightarrow> ('n, 'k, 's, 'r, 'q) enroll_libs \<Rightarrow> 'cred enroll_event \<Rightarrow> control_db \<Rightarrow> (status + 'cred enroll_response) \<times> control_db" where
  "run_enroll P L e db =
     enroll P L (ee_up e) (ee_now e) (ee_device_id e) (ee_issue e) (ee_request e) (ee_client_ip e) db"

fun enroll_all :: "prims \<Rightarrow> ('n, 'k, 's, 'r, 'q) enroll_libs \<Rightarrow> 'cred enroll_event list \<Rightarrow> control_db \<Rightarrow> control_db" where
  "enroll_all P L [] db = db"
| "enroll_all P L (e # es) db = enroll_all P L es (snd (run_enroll P L e db))"

lemma use_token_ok:
  assumes "distinct (map et_id ts)" and "token \<in> set ts" and "et_use_count token < et_max_uses token"
    and "\<forall>t\<in>set ts. c (et_id t) \<le> et_use_count t \<and> et_use_count t \<le> et_max_uses t"
  shows "\<forall>t\<in>set (use_token (et_id token) now ts).
    c (et_id t) + (if et_id t = et_id token then 1 else 0) \<le> et_use_count t \<and> et_use_count t \<le> et_max_uses t"
proof -
  have "t = token" if "t \<in> set ts" "et_id t = et_id token" for t
    using assms(1,2) that by (simp add: distinct_map inj_on_def)
  then show ?thesis using assms(3,4) by (fastforce simp: use_token_def set_update_where)
qed

lemma enrolled_keeps:
  assumes ok: "control_ok db" and en: "enrolled P now device_id req client_ip db token d db'"
  shows "control_ok db'"
proof -
  note e = en[unfolded enrolled_def] and c = ok[unfolded control_ok_def]
  have pool: "pool_hosts db' = pool_hosts db" using e by (simp add: pool_hosts_def fun_eq_iff)
  have cnt: "enroll_count db' i = enroll_count db i + (if i = et_id token then 1 else 0)" for i
    using e by (auto simp: enroll_count_def)
  have ids: "map et_id (use_token (et_id token) now (db_tokens db)) = map et_id (db_tokens db)"
    by (simp add: use_token_def map_update_where)
  have "\<forall>t\<in>set (db_tokens db'). enroll_count db' (et_id t) \<le> et_use_count t \<and> et_use_count t \<le> et_max_uses t"
    using use_token_ok[of "db_tokens db" token "enroll_count db" now] c e by (simp add: cnt)
  moreover have "pools_ok db'" using c e by (simp add: pools_ok_def)
  ultimately show ?thesis
    using c e ids pool lowest_pool by (fastforce simp: control_ok_def overlay_ok_def)
qed

lemma enroll_keeps:
  assumes "ipnet_laws (el_net L)" and "control_ok db"
  shows "control_ok (snd (enroll P L up now device_id issue req client_ip db))"
proof -
  have "pools_ok db" using assms(2) by (simp add: control_ok_def)
  from enroll_effect[OF assms(1) this, where P = P and up = up and now = now and device_id = device_id and issue = issue
      and req = req and client_ip = client_ip] show ?thesis
    using assms(2) enrolled_keeps
    by (cases "enroll P L up now device_id issue req client_ip db"; cases "fst (enroll P L up now device_id issue req client_ip db)") auto
qed

lemma enroll_all_keeps:
  "ipnet_laws (el_net L) \<Longrightarrow> control_ok db \<Longrightarrow> control_ok (enroll_all P L es db)"
  by (induction es arbitrary: db) (simp_all add: run_enroll_def enroll_keeps)

text \<open>Host numbers avoid the network, the gateway's and the broadcast address.\<close>

lemma pool_hosts_bounds:
  assumes "pools_ok db" and "pool_hosts db t v4 v6"
  shows "\<exists>a p b q. map_of (db_pools db) t = Some ((V4 a, p), (V6 b, q)) \<and> covers (V4 a, p) (V4 v4) \<and> covers (V6 b, q) (V6 v6) \<and>
    v4 \<noteq> net4 a p \<and> v4 \<noteq> net4 a p + 1 \<and> v4 \<noteq> net4 a p + word_of_nat (2 ^ (32 - p) - 1)"
proof -
  from assms(2) obtain a p b q k where m: "map_of (db_pools db) t = Some ((V4 a, p), (V6 b, q))"
    and k: "host_number p k" and v: "v4 = net4 a p + word_of_nat k" "v6 = net6 b q + word_of_nat k"
    unfolding pool_hosts_def by blast
  have pq: "32 - p \<le> 128 - q" using pools_okD[OF assms(1) m] by auto
  note small = host_number_small[OF k]
  have k6: "k < 2 ^ (128 - q)" using small pq by (meson le_less_trans less_le_trans one_le_numeral power_increasing)
  have inj: "v4 = net4 a p + word_of_nat j \<longleftrightarrow> k = j" if "j < 2 ^ 32" for j
    using small that v(1) by (auto simp: word_of_nat_eq_iff take_bit_nat_eq_self)
  have "k \<noteq> 0" "k \<noteq> 1" "k \<noteq> 2 ^ (32 - p) - 1" using k by (auto simp: host_number_def)
  moreover have "(2::nat) ^ (32 - p) - 1 < 2 ^ 32"
    by (rule le_less_trans[of _ "2 ^ 32 - 1"]) (simp_all add: diff_le_mono power_increasing del: power_numeral)
  ultimately have "v4 \<noteq> net4 a p" "v4 \<noteq> net4 a p + 1" "v4 \<noteq> net4 a p + word_of_nat (2 ^ (32 - p) - 1)"
    using inj[of 0] inj[of 1] inj[of "2 ^ (32 - p) - 1"] by simp_all
  moreover have "covers (V4 a, p) (V4 v4)" "covers (V6 b, q) (V6 v6)"
    using net_host(1)[of "32 - p" k a] net_host(1)[of "128 - q" k b] small k6
    by (simp_all add: covers_def v net4_def net6_def)
  ultimately show ?thesis using m by blast
qed

section \<open>Properties\<close>



section \<open>Witnesses\<close>

definition sample_template :: tbs_certificate where
  "sample_template =
     \<lparr>tb_version = 2, tb_serial = replicate 16 0, tb_tenant_id = [], tb_subject_id = replicate 16 0, tb_kind = Device,
      tb_signing_key = \<lparr>hv_ed25519 = replicate 32 1, hv_mldsa = replicate 1952 1\<rparr>, tb_kem_key = None,
      tb_not_before = 0, tb_not_after = 0, tb_issuer_key_id = replicate 32 0, tb_sans = [],
      tb_tls_cert_sha256 = None, tb_hardware_binding = None\<rparr>"

definition sample_enroll_libs :: "(ip_addr \<times> nat, unit, unit, unit, unit) enroll_libs" where
  "sample_enroll_libs =
     \<lparr>el_net = toy_net, el_p256 = \<lparr>p256_key_from_der = (\<lambda>_. None), p256_sig_from_der = (\<lambda>_. None), p256_verify = (\<lambda>_ _ _. False)\<rparr>,
      el_rsa = \<lparr>p256_key_from_der = (\<lambda>_. None), p256_sig_from_der = (\<lambda>_. None), p256_verify = (\<lambda>_ _ _. False)\<rparr>,
      el_uuid_show = id\<rparr>"

definition sample_token :: enrollment_token where
  "sample_token =
     \<lparr>et_id = [1], et_tenant = [7], et_token_hash = hash_token toy [116], et_device_name = None, et_device_kind = [],
      et_pod_ids = [], et_class = None, et_require_attestation = False, et_require_approval = True,
      et_expected_fingerprint = None, et_max_uses = 1, et_use_count = 0, et_expires_at = 100, et_last_used_at = None\<rparr>"

definition sample_db :: "device_row list \<Rightarrow> control_db" where
  "sample_db ds =
     \<lparr>db_devices = ds, db_device_pods = [], db_pods = [], db_classes = [], db_policies = [], db_snapshots = [],
      db_notified = [], db_tokens = [sample_token], db_enrollments = [], db_certs = [],
      db_sessions = [], db_gateways = [], db_pools = [([7], (V4 0x0A000000, 29), (V6 0xFD000000000000000000000000000000, 64))], db_crls = [], db_decisions = []\<rparr>"

definition sample_enroll_event :: "unit enroll_event" where
  "sample_enroll_event =
     \<lparr>ee_up = (\<lambda>_. True), ee_now = 50, ee_device_id = [9], ee_issue = (\<lambda>_ _ _ _. Some ()),
      ee_request = \<lparr>er_token = [116],
        er_csr = Some \<lparr>csr_tbs_template = tbs_encode sample_template, csr_proof = [], csr_tls_csr_pem = [], csr_hardware_binding = []\<rparr>,
        er_fingerprint = None, er_attestation = None, er_requested_name = [110]\<rparr>,
      ee_client_ip = None\<rparr>"

lemma sample_template_decodes: "tbs_decode toy (tbs_encode sample_template) = Inr sample_template"
proof (rule tbs.from_to)
  show "tbs_ok toy sample_template"
    by (simp add: tbs_ok_def sample_template_def string_ok_def vk_wf_def kem_opt_ok_def sans_ok_def tls_ok_def hw_ok_def
        toy_def tbs_encode_def put16_def vk_to_bytes_def put_kem_def put_sans_def put_tls_def put_hw_def)
qed

lemma sample_template_fields:
  "tb_kind sample_template = Device" "tb_tenant_id sample_template = []" "tb_subject_id sample_template = replicate 16 0"
  by (simp_all add: sample_template_def)

lemma sample_base: "base_of (V4 0x0A000000, 29) = V4 0x0A000000"
  "base_of (V6 0xFD000000000000000000000000000000, 64) = V6 0xFD000000000000000000000000000000"
  by (simp_all add: base_of_def)

lemma sample_free: "first_free [] 0x0A000000 2 8 = Some 0x0A000002"
  by (subst first_free.simps) (simp add: Let_def)

lemma sample_enrolls:
  "db_devices (enroll_all toy sample_enroll_libs [sample_enroll_event] (sample_db [])) =
     [with_overlay 0x0A000002 0xFD000000000000000000000000000002
       (new_device [7] [9] [110] [] Pending None None (ascii ''software''))]"
proof -
  have t: "take_chars 255 [110] = [110]" by (simp add: numeral_eq_Suc)
  have or: "(0xFD000000000000000000000000000000 :: u128) OR 2 = 0xFD000000000000000000000000000002" by simp
  show ?thesis
    by (simp add: run_enroll_def enroll_def sample_enroll_event_def sample_db_def sample_template_decodes
        sample_template_fields enroll_tx_def consume_token_def sample_token_def hash_token_def token_admits_def
        device_name_def csr_provider_def create_device_def ipam_allocate_def allocate_fresh_def net_or_def
        sample_enroll_libs_def toy_net_def set_devices_def overlay_unique_def record_enrollment_def width_def
        enroll_fingerprint_def new_device_def with_overlay_def List.map_filter_def Let_def sample_base sample_free or t
        del: ascii_simps)
qed

lemma sample_libs_laws: "ipnet_laws (el_net sample_enroll_libs)"
  by (simp add: sample_enroll_libs_def toy_net_laws)

lemma sample_pools_ok: "pools_ok (sample_db ds)"
  by (simp add: pools_ok_def sample_db_def)



end
