(* ===== verification/Control_Push.thy ===== *)
theory Control_Push
  imports Control_Db Gateway_Control
begin

text \<open>
  The control plane's in-memory state (\<open>avon-control/src/service/mod.rs\<close>), its registries of gateway
  and device streams (\<open>gateway_stream.rs\<close>, \<open>pulse.rs\<close>), and policy distribution: the snapshot of a
  tenant read from the database (\<open>avon-policy/src/db.rs\<close>), compiled and broadcast, and the patch of one
  device's attributes (\<open>policy_push.rs\<close>).  Channels are bounded: whether one has room is an argument.
\<close>

section \<open>State\<close>

record gateway_handle =
  gh_tx :: nat
  gh_endpoint :: bytes
  gh_region :: bytes

record outstanding =
  ot_nonce :: bytes
  ot_issued :: nat

record control_chain =
  kc_root :: certificate
  kc_issuing :: certificate
  kc_tls_ca_pem :: bytes
  kc_verifier :: "certificate list"
  kc_crl :: crl
  kc_crl_raw :: "bytes \<times> bytes"

text \<open>A stream is named by the number of its channel.  Instants are in milliseconds.\<close>

record ('n, 'c) app_state =
  ap_db :: control_db
  ap_session_ttl_secs :: nat
  ap_pulse_interval_secs :: u32
  ap_chain :: control_chain
  ap_server_cert_sha256 :: bytes
  ap_gateways :: "(uuid \<times> gateway_handle) list"
  ap_devices :: "(uuid \<times> nat) list"
  ap_challenges :: "(uuid \<times> outstanding) list"
  ap_pending_answers :: "(bytes \<times> nat) list"
  ap_peer_pending :: "(bytes \<times> nat) list"
  ap_engines :: "(uuid \<times> ('n, 'c) engine) list"
  ap_patch_at :: "(uuid \<times> nat) list"

datatype gateway_down =
    GdPolicy u64 bytes
  | GdDeviceUpdate uuid uuid bytes
  | GdCrl bytes bytes
  | GdClose bytes bytes
  | GdOffer session_offer

text \<open>The serialisers of \<open>serde_json\<close> that the messages go through, and the parser of a policy.\<close>

record ('z, 'n, 'c) control_libs =
  cl_policy :: "('z, 'n, 'c) policy_libs"
  cl_spec_of :: "bytes \<Rightarrow> 'n policy_spec option"
  cl_snapshot_json :: "'n snapshot_data \<Rightarrow> bytes"
  cl_attrs_json :: "device_attrs \<Rightarrow> bytes"

section \<open>Registries\<close>

definition streams_insert :: "uuid \<Rightarrow> nat \<Rightarrow> (uuid \<times> nat) list \<Rightarrow> (uuid \<times> nat) list" where
  "streams_insert device tx m = AList.update device tx m"

definition streams_remove :: "uuid \<Rightarrow> (uuid \<times> nat) list \<Rightarrow> (uuid \<times> nat) list" where
  "streams_remove device m = AList.delete device m"

definition is_connected :: "uuid \<Rightarrow> (uuid \<times> nat) list \<Rightarrow> bool" where
  "is_connected device m = (map_of m device \<noteq> None)"

text \<open>\<open>try_send\<close>: the channel the message goes to, if there is one with room.\<close>

definition streams_send :: "(nat \<Rightarrow> bool) \<Rightarrow> uuid \<Rightarrow> (uuid \<times> nat) list \<Rightarrow> nat option" where
  "streams_send room device m =
     (case map_of m device of Some tx \<Rightarrow> if room tx then Some tx else None | None \<Rightarrow> None)"

definition registry_insert :: "uuid \<Rightarrow> gateway_handle \<Rightarrow> (uuid \<times> gateway_handle) list \<Rightarrow> (uuid \<times> gateway_handle) list" where
  "registry_insert i h m = AList.update i h m"

definition registry_remove :: "uuid \<Rightarrow> (uuid \<times> gateway_handle) list \<Rightarrow> (uuid \<times> gateway_handle) list" where
  "registry_remove i m = AList.delete i m"

fun byte_less :: "bytes \<Rightarrow> bytes \<Rightarrow> bool" where
  "byte_less _ [] = False"
| "byte_less [] (y # ys) = True"
| "byte_less (x # xs) (y # ys) = (x < y \<or> (x = y \<and> byte_less xs ys))"

text \<open>The candidate with the smallest id, the first of a stable sort.\<close>

fun least_id :: "(uuid \<times> gateway_handle) list \<Rightarrow> (uuid \<times> gateway_handle) option" where
  "least_id [] = None"
| "least_id (g # gs) =
    (case least_id gs of
       None \<Rightarrow> Some g
     | Some h \<Rightarrow> if byte_less (fst h) (fst g) then Some h else Some g)"

definition pick :: "bytes option \<Rightarrow> (uuid \<times> gateway_handle) list \<Rightarrow> (uuid \<times> gateway_handle) option" where
  "pick region m =
     least_id (filter (\<lambda>e. case region of Some r \<Rightarrow> gh_region (snd e) = r | None \<Rightarrow> True) m)"

definition broadcast :: "(nat \<Rightarrow> bool) \<Rightarrow> gateway_down \<Rightarrow> (uuid \<times> gateway_handle) list \<Rightarrow> (nat \<times> gateway_down) list" where
  "broadcast room msg m = map (\<lambda>e. (gh_tx (snd e), msg)) (filter (\<lambda>e. room (gh_tx (snd e))) m)"

section \<open>Snapshots\<close>

fun as_bool :: "json option \<Rightarrow> bool option" where
  "as_bool (Some (JBool b)) = Some b"
| "as_bool _ = None"

fun as_str :: "json option \<Rightarrow> bytes option" where
  "as_str (Some (JStr s)) = Some s"
| "as_str _ = None"

fun as_i64 :: "json option \<Rightarrow> int option" where
  "as_i64 (Some (JInt i)) = (if - (2 ^ 63) \<le> i \<and> i < 2 ^ 63 then Some i else None)"
| "as_i64 _ = None"

definition clamp_risk :: "int \<Rightarrow> byte" where
  "clamp_risk r = word_of_int (max 0 (min 100 r))"

text \<open>The attributes both readers take from a row of \<open>devices\<close>, without the overlay addresses.\<close>

definition row_attrs :: "device_row \<Rightarrow> device_attrs" where
  "row_attrs d =
     (let p = (case dv_posture d of Some p \<Rightarrow> p | None \<Rightarrow> []) in
      \<lparr>da_status = status_text (dv_status d), da_class = dv_class d,
       da_firewall_enabled = as_bool (map_of p (ascii ''firewall_enabled'')),
       da_disk_encrypted = as_bool (map_of p (ascii ''disk_encrypted'')),
       da_screen_lock_enabled = as_bool (map_of p (ascii ''screen_lock_enabled'')),
       da_os_version = as_str (map_of p (ascii ''os_version'')),
       da_last_update_unix = as_i64 (map_of p (ascii ''last_update_unix'')),
       da_attestation = ascii (attestation_as_str (dv_attestation_state d)),
       da_risk_score = clamp_risk (dv_risk_score d), da_overlay_v4 = None, da_overlay_v6 = None\<rparr>)"

definition snapshot_attrs :: "device_row \<Rightarrow> device_attrs" where
  "snapshot_attrs d = (row_attrs d)\<lparr>
     da_overlay_v4 := (case dv_overlay_v4 d of Some (V4 a, _) \<Rightarrow> Some a | _ \<Rightarrow> None),
     da_overlay_v6 := (case dv_overlay_v6 d of Some (V6 a, _) \<Rightarrow> Some a | _ \<Rightarrow> None)\<rparr>"

definition device_pods :: "control_db \<Rightarrow> uuid \<Rightarrow> uuid list" where
  "device_pods db i = map snd (filter (\<lambda>m. fst m = i) (db_device_pods db))"

definition load_policies ::
  "'z time_lib \<Rightarrow> (bytes \<Rightarrow> 'n policy_spec option) \<Rightarrow> policy_row list \<Rightarrow> 'n policy_entry list" where
  "load_policies T spec_of rows =
     List.map_filter (\<lambda>r. case spec_of (pw_spec r) of
         None \<Rightarrow> None
       | Some s \<Rightarrow> if is_ok (validate T s) then Some \<lparr>en_id = pw_id r, en_name = pw_name r, en_spec = s\<rparr> else None) rows"

definition load_snapshot ::
  "('z, 'n, 'c) control_libs \<Rightarrow> int \<Rightarrow> uuid \<Rightarrow> control_db \<Rightarrow> 'n snapshot_data" where
  "load_snapshot C now tenant db =
     \<lparr>sd_tenant_id = tenant,
      sd_version = (case map_of (db_snapshots db) tenant of Some v \<Rightarrow> v | None \<Rightarrow> 1),
      sd_generated_at = now,
      sd_pods = map (\<lambda>p. \<lparr>pe_id = pr_id p, pe_parent = pr_parent p\<rparr>) (filter (\<lambda>p. pr_tenant p = tenant) (db_pods db)),
      sd_device_classes = map fst (filter (\<lambda>c. snd c = tenant) (db_classes db)),
      sd_devices = map (\<lambda>d. \<lparr>de_id = dv_id d, de_pods = device_pods db (dv_id d), de_attrs = snapshot_attrs d\<rparr>)
        (filter (\<lambda>d. dv_tenant d = tenant) (db_devices db)),
      sd_policies = load_policies (pl_time (cl_policy C)) (cl_spec_of C)
        (filter (\<lambda>r. pw_tenant r = tenant \<and> pw_enabled r) (db_policies db))\<rparr>"

section \<open>Distribution\<close>

datatype push_error = PushDb | PushCompile compile_error

definition engine_for :: "('n, 'c) app_state \<Rightarrow> uuid \<Rightarrow> ('n, 'c) engine" where
  "engine_for st tenant = (case map_of (ap_engines st) tenant of Some e \<Rightarrow> e | None \<Rightarrow> engine_empty tenant)"

definition refresh_tenant ::
  "('z, 'n, 'c) control_libs \<Rightarrow> bool \<Rightarrow> (nat \<Rightarrow> bool) \<Rightarrow> int \<Rightarrow> uuid \<Rightarrow> ('n, 'c) app_state \<Rightarrow>
   (push_error + u64) \<times> ('n, 'c) app_state \<times> (nat \<times> gateway_down) list" where
  "refresh_tenant C up room now tenant st =
     (if \<not> up then (Inl PushDb, st, [])
      else
        let data = load_snapshot C now tenant (ap_db st);
            loaded = engine_load (cl_policy C) (engine_for st tenant) data now;
            st' = st\<lparr>ap_engines := AList.update tenant (snd loaded) (ap_engines st)\<rparr>
        in case fst loaded of
          Inl e \<Rightarrow> (Inl (PushCompile e), st', [])
        | Inr _ \<Rightarrow> (Inr (sd_version data), st',
            broadcast room (GdPolicy (sd_version data) (cl_snapshot_json C data)) (ap_gateways st)))"

definition DEVICE_DEBOUNCE :: nat where "DEVICE_DEBOUNCE = 5000"

text \<open>From the row on.\<close>

definition push_attrs ::
  "('z, 'n, 'c) control_libs \<Rightarrow> (nat \<Rightarrow> bool) \<Rightarrow> int \<Rightarrow> uuid \<Rightarrow> uuid \<Rightarrow> device_row option \<Rightarrow> ('n, 'c) app_state \<Rightarrow>
   ('n, 'c) app_state \<times> (nat \<times> gateway_down) list" where
  "push_attrs C room now tenant device row st =
     (case row of
        None \<Rightarrow> (st, [])
      | Some d \<Rightarrow>
          let attrs = row_attrs d;
              engines = (case map_of (ap_engines st) tenant of
                  Some e \<Rightarrow> AList.update tenant (snd (patch_device (cl_policy C) e device attrs now)) (ap_engines st)
                | None \<Rightarrow> ap_engines st)
          in (st\<lparr>ap_engines := engines\<rparr>,
              broadcast room (GdDeviceUpdate tenant device (cl_attrs_json C attrs)) (ap_gateways st)))"

definition debounced :: "nat \<Rightarrow> uuid \<Rightarrow> ('n, 'c) app_state \<Rightarrow> bool" where
  "debounced inst device st =
     (case map_of (ap_patch_at st) device of Some at \<Rightarrow> inst - at < DEVICE_DEBOUNCE | None \<Rightarrow> False)"

definition patch_device_attrs ::
  "('z, 'n, 'c) control_libs \<Rightarrow> bool \<Rightarrow> (nat \<Rightarrow> bool) \<Rightarrow> nat \<Rightarrow> int \<Rightarrow> uuid \<Rightarrow> uuid \<Rightarrow> ('n, 'c) app_state \<Rightarrow>
   ('n, 'c) app_state \<times> (nat \<times> gateway_down) list" where
  "patch_device_attrs C up room inst now tenant device st =
     (if debounced inst device st then (st, [])
      else push_attrs C room now tenant device (if up then find_device device (ap_db st) else None)
             (st\<lparr>ap_patch_at := AList.update device inst (ap_patch_at st)\<rparr>))"

text \<open>One drain of the listener's debounce map: the tenants whose last notification is old enough.\<close>

definition DEBOUNCE :: nat where "DEBOUNCE = 250"

definition note_changed :: "nat \<Rightarrow> (uuid \<times> nat) list \<Rightarrow> ('n, 'c) app_state \<Rightarrow> (uuid \<times> nat) list \<times> ('n, 'c) app_state" where
  "note_changed inst pending st =
     (fold (\<lambda>t. AList.update t inst) (db_notified (ap_db st)) pending,
      st\<lparr>ap_db := (ap_db st)\<lparr>db_notified := []\<rparr>\<rparr>)"

definition due_tenants :: "nat \<Rightarrow> (uuid \<times> nat) list \<Rightarrow> uuid list" where
  "due_tenants inst pending = map fst (filter (\<lambda>e. inst - snd e \<ge> DEBOUNCE) pending)"

fun refresh_all ::
  "('z, 'n, 'c) control_libs \<Rightarrow> (uuid \<Rightarrow> bool) \<Rightarrow> (nat \<Rightarrow> bool) \<Rightarrow> int \<Rightarrow> uuid list \<Rightarrow> ('n, 'c) app_state \<Rightarrow>
   ('n, 'c) app_state \<times> (nat \<times> gateway_down) list" where
  "refresh_all C up room now [] st = (st, [])"
| "refresh_all C up room now (t # ts) st =
    (let (_, st1, m1) = refresh_tenant C (up t) room now t st;
         (st2, m2) = refresh_all C up room now ts st1
     in (st2, m1 @ m2))"

definition drain ::
  "('z, 'n, 'c) control_libs \<Rightarrow> (uuid \<Rightarrow> bool) \<Rightarrow> (nat \<Rightarrow> bool) \<Rightarrow> nat \<Rightarrow> int \<Rightarrow> (uuid \<times> nat) list \<Rightarrow> ('n, 'c) app_state \<Rightarrow>
   (uuid \<times> nat) list \<times> ('n, 'c) app_state \<times> (nat \<times> gateway_down) list" where
  "drain C up room inst now pending st =
     (let due = due_tenants inst pending
      in (filter (\<lambda>e. fst e \<notin> set due) pending, refresh_all C up room now due st))"

text \<open>One tick of \<open>window_ticker\<close>.\<close>

definition window_tick ::
  "('z, 'n, 'c) control_libs \<Rightarrow> (uuid \<Rightarrow> bool) \<Rightarrow> (nat \<Rightarrow> bool) \<Rightarrow> int \<Rightarrow> ('n, 'c) app_state \<Rightarrow>
   ('n, 'c) app_state \<times> (nat \<times> gateway_down) list" where
  "window_tick C up room now st =
     refresh_all C up room now
       (map fst (filter (\<lambda>e. needs_recompile (snd e) now) (AList.clearjunk (ap_engines st)))) st"

section \<open>A gateway that receives the messages\<close>

text \<open>The gateway's side of the link (\<open>avon-gateway/src/control_link.rs\<close>), for the messages about policy.\<close>

record 'n gateway_decoders =
  gd_snapshot :: "bytes \<Rightarrow> 'n snapshot_data option"
  gd_attrs :: "bytes \<Rightarrow> device_attrs option"

fun receive ::
  "('z, 'n, 'c) policy_libs \<Rightarrow> ('p, 't) lpm_lib \<Rightarrow> 'n gateway_decoders \<Rightarrow> int \<Rightarrow> gateway_down \<Rightarrow> ('n, 't, 'c) gateway \<Rightarrow>
   ('n, 't, 'c) gateway" where
  "receive L R D now (GdPolicy _ encoded) gw = apply_snapshot L (gd_snapshot D) gw encoded now"
| "receive L R D now (GdDeviceUpdate tenant device attrs_json) gw =
     fst (apply_device_update L R (gd_attrs D) gw (Some tenant) (Some device) attrs_json now)"
| "receive L R D now (GdClose i reason) gw = fst (close_session R gw i reason)"
| "receive L R D now _ gw = gw"

definition deliver ::
  "('z, 'n, 'c) policy_libs \<Rightarrow> ('p, 't) lpm_lib \<Rightarrow> 'n gateway_decoders \<Rightarrow> nat \<Rightarrow> int \<Rightarrow> (nat \<times> gateway_down) list \<Rightarrow>
   ('n, 't, 'c) gateway \<Rightarrow> ('n, 't, 'c) gateway" where
  "deliver L R D tx now msgs gw = fold (\<lambda>m. receive L R D now (snd m)) (filter (\<lambda>m. fst m = tx) msgs) gw"

definition gw_engine :: "('n, 't, 'c) gateway \<Rightarrow> uuid \<Rightarrow> ('n, 'c) engine" where
  "gw_engine gw tenant = (case fp_engines (gw_policy gw) tenant of Some e \<Rightarrow> e | None \<Rightarrow> engine_empty tenant)"

text \<open>What the two ends rely on of \<open>serde_json\<close>: what one writes the other reads back.\<close>

definition snapshot_survives :: "('z, 'n, 'c) control_libs \<Rightarrow> 'n gateway_decoders \<Rightarrow> 'n snapshot_data \<Rightarrow> bool" where
  "snapshot_survives C D data = (gd_snapshot D (cl_snapshot_json C data) = Some data)"

definition attrs_survive :: "('z, 'n, 'c) control_libs \<Rightarrow> 'n gateway_decoders \<Rightarrow> device_row option \<Rightarrow> bool" where
  "attrs_survive C D row =
     (case row of None \<Rightarrow> True | Some d \<Rightarrow> gd_attrs D (cl_attrs_json C (row_attrs d)) = Some (row_attrs d))"

text \<open>The control plane and one gateway, whose channel \<open>tx\<close> has room and which handles what it receives
  at once.  Any other handler may change the database.\<close>

definition has_room :: "(nat \<Rightarrow> bool) \<Rightarrow> nat \<Rightarrow> bool" where
  "has_room room tx = room tx"

inductive link_step ::
  "('z, 'n, 'c) control_libs \<Rightarrow> ('p, 't) lpm_lib \<Rightarrow> 'n gateway_decoders \<Rightarrow> nat \<Rightarrow>
   ('n, 'c) app_state \<Rightarrow> ('n, 't, 'c) gateway \<Rightarrow> ('n, 'c) app_state \<Rightarrow> ('n, 't, 'c) gateway \<Rightarrow> bool"
  for C :: "('z, 'n, 'c) control_libs" and R :: "('p, 't) lpm_lib" and D :: "'n gateway_decoders" and tx :: nat where
  refresh: "\<lbrakk>has_room room tx; snapshot_survives C D (load_snapshot C now tenant (ap_db st));
      refresh_tenant C up room now tenant st = (r, st', msgs)\<rbrakk> \<Longrightarrow>
    link_step C R D tx st gw st' (deliver (cl_policy C) R D tx now msgs gw)"
| patch: "\<lbrakk>has_room room tx; attrs_survive C D (find_device device (ap_db st)); length tenant = 16; length device = 16;
      patch_device_attrs C up room inst now tenant device st = (st', msgs)\<rbrakk> \<Longrightarrow>
    link_step C R D tx st gw st' (deliver (cl_policy C) R D tx now msgs gw)"
| database: "st' = st\<lparr>ap_db := db\<rparr> \<Longrightarrow> link_step C R D tx st gw st' gw"

definition in_step :: "nat \<Rightarrow> ('n, 'c) app_state \<Rightarrow> ('n, 't, 'c) gateway \<Rightarrow> bool" where
  "in_step tx st gw = (length (filter (\<lambda>e. gh_tx (snd e) = tx) (ap_gateways st)) = 1 \<and>
     (\<forall>t. gw_engine gw t = engine_for st t \<and> eg_tenant (engine_for st t) = t))"

section \<open>Both ends agree\<close>

lemma broadcast_one:
  assumes "length (filter (\<lambda>e. gh_tx (snd e) = tx) gs) = 1" and "has_room room tx"
  shows "filter (\<lambda>m. fst m = tx) (broadcast room msg gs) = [(tx, msg)]"
proof -
  obtain e where e: "filter (\<lambda>e. gh_tx (snd e) = tx) gs = [e]" using assms(1) by (auto simp: length_Suc_conv)
  have "filter (\<lambda>m. fst m = tx) (broadcast room msg gs) =
      map (\<lambda>e. (gh_tx (snd e), msg)) (filter (\<lambda>e. gh_tx (snd e) = tx \<and> room (gh_tx (snd e))) gs)"
    by (simp add: broadcast_def filter_map comp_def conj_commute)
  also have "filter (\<lambda>e. gh_tx (snd e) = tx \<and> room (gh_tx (snd e))) gs = filter (\<lambda>e. gh_tx (snd e) = tx) gs"
    using assms(2) by (intro filter_cong) (auto simp: has_room_def)
  finally have f: "filter (\<lambda>m. fst m = tx) (broadcast room msg gs) = [(gh_tx (snd e), msg)]" unfolding e by simp
  have "e \<in> set (filter (\<lambda>e. gh_tx (snd e) = tx) gs)" unfolding e by simp
  then show ?thesis using f by simp
qed

lemma deliver_broadcast:
  "length (filter (\<lambda>e. gh_tx (snd e) = tx) gs) = 1 \<Longrightarrow> has_room room tx \<Longrightarrow>
   deliver L R D tx now (broadcast room msg gs) gw = receive L R D now msg gw"
  by (simp add: deliver_def broadcast_one)

lemma close_session_policy: "gw_policy (fst (close_session R gw i reason)) = gw_policy gw"
  by (auto simp: close_session_def Let_def split: option.splits prod.splits)

lemma close_all_policy: "gw_policy (fst (close_all R gw is reason)) = gw_policy gw"
  by (induction "is" arbitrary: gw) (simp_all only: close_all_Cons close_session_policy close_all.simps(1) fst_conv)

lemma engine_load_tenant: "eg_tenant (snd (engine_load L e data now)) = eg_tenant e"
  by (simp add: engine_load_def split: sum.splits)

lemma patch_device_tenant: "eg_tenant (snd (patch_device L e i attrs now)) = eg_tenant e"
  by (simp add: patch_device_def Let_def split: sum.splits option.splits)

lemma patch_device_empty: "snd (patch_device L (engine_empty t) i attrs now) = engine_empty t"
  by (simp add: patch_device_def engine_empty_def)

lemma engine_for_update:
  "engine_for (st\<lparr>ap_engines := AList.update t e m\<rparr>) u = (if u = t then e else engine_for (st\<lparr>ap_engines := m\<rparr>) u)"
  by (simp add: engine_for_def AList.update_conv')

lemma engine_for_other:
  "engine_for (st\<lparr>ap_engines := ap_engines st\<rparr>) = engine_for st"
  "engine_for (st\<lparr>ap_patch_at := m\<rparr>) = engine_for st"
  "engine_for (st\<lparr>ap_patch_at := m, ap_engines := n\<rparr>) = engine_for (st\<lparr>ap_engines := n\<rparr>)"
  "engine_for (st\<lparr>ap_db := db\<rparr>) = engine_for st"
  by (simp_all add: engine_for_def fun_eq_iff)

lemma gw_engine_snapshot:
  assumes "gd_snapshot D enc = Some data"
  shows "gw_engine (receive L R D now (GdPolicy v enc) gw) u =
    (if u = sd_tenant_id data then snd (engine_load L (gw_engine gw (sd_tenant_id data)) data now) else gw_engine gw u)"
  using assms
  by (auto simp: gw_engine_def apply_snapshot_def policy_apply_snapshot_def Let_def split: option.splits prod.splits sum.splits)

lemma gw_engine_update:
  assumes "gd_attrs D json = Some attrs" and "length t = 16" and "length i = 16"
  shows "gw_engine (receive L R D now (GdDeviceUpdate t i json) gw) u =
    (if u = t then snd (patch_device L (gw_engine gw t) i attrs now) else gw_engine gw u)"
proof -
  have "gw_policy (receive L R D now (GdDeviceUpdate t i json) gw) = policy_patch_device L (gw_policy gw) t i attrs now"
    using assms by (simp add: apply_device_update_def Let_def close_all_policy)
  then show ?thesis
    by (auto simp: gw_engine_def policy_patch_device_def patch_device_empty split: option.splits)
qed

lemma refresh_in_step:
  assumes laws: "snapshot_survives C D (load_snapshot C now tenant (ap_db st))" and inv: "in_step tx st gw" and room: "has_room room tx"
    and step: "refresh_tenant C up room now tenant st = (r, st', msgs)"
  shows "in_step tx st' (deliver (cl_policy C) R D tx now msgs gw)"
proof (cases up)
  case True
  let ?data = "load_snapshot C now tenant (ap_db st)"
  let ?l = "engine_load (cl_policy C) (engine_for st tenant) ?data now"
  have one: "length (filter (\<lambda>e. gh_tx (snd e) = tx) (ap_gateways st)) = 1"
    and eq: "\<And>t. gw_engine gw t = engine_for st t" and ten: "\<And>t. eg_tenant (engine_for st t) = t"
    using inv by (simp_all add: in_step_def)
  have st': "st' = st\<lparr>ap_engines := AList.update tenant (snd ?l) (ap_engines st)\<rparr>"
    using step True by (auto simp: refresh_tenant_def Let_def split: sum.splits)
  have eng: "engine_for st' u = (if u = tenant then snd ?l else engine_for st u)" for u
    by (simp add: st' engine_for_update engine_for_other)
  have gws: "ap_gateways st' = ap_gateways st" by (simp add: st')
  have tenant: "sd_tenant_id ?data = tenant" by (simp add: load_snapshot_def)
  have dec: "gd_snapshot D (cl_snapshot_json C ?data) = Some ?data" using laws by (simp add: snapshot_survives_def)
  show ?thesis
  proof (cases "fst ?l")
    case (Inl e)
    then have "msgs = []" using step True by (auto simp: refresh_tenant_def Let_def)
    moreover have "snd ?l = engine_for st tenant" using Inl by (auto simp: engine_load_def split: sum.splits if_splits)
    ultimately show ?thesis using one eq ten by (simp add: in_step_def eng deliver_def gws)
  next
    case (Inr u)
    then have "msgs = broadcast room (GdPolicy (sd_version ?data) (cl_snapshot_json C ?data)) (ap_gateways st)"
      using step True by (auto simp: refresh_tenant_def Let_def)
    then have "gw_engine (deliver (cl_policy C) R D tx now msgs gw) u = engine_for st' u" for u
      by (simp add: deliver_broadcast[OF one room] gw_engine_snapshot[OF dec] tenant eng eq del: receive.simps)
    then show ?thesis using one ten by (simp add: in_step_def eng engine_load_tenant gws)
  qed
qed (use assms in \<open>simp add: refresh_tenant_def deliver_def\<close>)

lemma patch_device_attrs_cases:
  assumes "patch_device_attrs C up room inst now tenant device st = (st', msgs)"
  shows "ap_gateways st' = ap_gateways st \<and>
    (msgs = [] \<and> engine_for st' = engine_for st \<or>
     (\<exists>d. find_device device (ap_db st) = Some d \<and>
       msgs = broadcast room (GdDeviceUpdate tenant device (cl_attrs_json C (row_attrs d))) (ap_gateways st) \<and>
       (\<forall>u. engine_for st' u = (if u = tenant
          then snd (patch_device (cl_policy C) (engine_for st tenant) device (row_attrs d) now) else engine_for st u))))"
proof (cases "debounced inst device st")
  case True
  then show ?thesis using assms by (simp add: patch_device_attrs_def)
next
  case fresh: False
  let ?st = "st\<lparr>ap_patch_at := AList.update device inst (ap_patch_at st)\<rparr>"
  have push: "push_attrs C room now tenant device (if up then find_device device (ap_db st) else None) ?st = (st', msgs)"
    using assms fresh by (simp only: patch_device_attrs_def if_False)
  show ?thesis
  proof (cases "if up then find_device device (ap_db st) else None")
    case None
    then show ?thesis using push unfolding None by (auto simp: push_attrs_def engine_for_other)
  next
    case (Some d)
    let ?e = "case map_of (ap_engines st) tenant of
          Some e \<Rightarrow> AList.update tenant (snd (patch_device (cl_policy C) e device (row_attrs d) now)) (ap_engines st)
        | None \<Rightarrow> ap_engines st"
    have st': "st' = st\<lparr>ap_patch_at := AList.update device inst (ap_patch_at st), ap_engines := ?e\<rparr>"
      and msgs: "msgs = broadcast room (GdDeviceUpdate tenant device (cl_attrs_json C (row_attrs d))) (ap_gateways st)"
      using push unfolding Some by (cases "map_of (ap_engines st) tenant"; auto simp: push_attrs_def Let_def)+
    have "engine_for st' u = (if u = tenant
        then snd (patch_device (cl_policy C) (engine_for st tenant) device (row_attrs d) now) else engine_for st u)" for u
      unfolding st' engine_for_other(3)
      by (cases "map_of (ap_engines st) tenant") (simp_all add: engine_for_def AList.update_conv' patch_device_empty)
    moreover have "find_device device (ap_db st) = Some d" using Some by (simp split: if_splits)
    moreover have "ap_gateways st' = ap_gateways st" by (simp add: st')
    ultimately show ?thesis using msgs by blast
  qed
qed

lemma patch_in_step:
  assumes laws: "attrs_survive C D (find_device device (ap_db st))" and inv: "in_step tx st gw" and room: "has_room room tx" and len: "length tenant = 16" "length device = 16"
    and step: "patch_device_attrs C up room inst now tenant device st = (st', msgs)"
  shows "in_step tx st' (deliver (cl_policy C) R D tx now msgs gw)"
proof -
  have one: "length (filter (\<lambda>e. gh_tx (snd e) = tx) (ap_gateways st)) = 1"
    and eq: "\<And>t. gw_engine gw t = engine_for st t" and ten: "\<And>t. eg_tenant (engine_for st t) = t"
    using inv by (simp_all add: in_step_def)
  from patch_device_attrs_cases[OF step] consider
    "ap_gateways st' = ap_gateways st" "msgs = []" "engine_for st' = engine_for st"
    | d where "ap_gateways st' = ap_gateways st" "find_device device (ap_db st) = Some d"
      "msgs = broadcast room (GdDeviceUpdate tenant device (cl_attrs_json C (row_attrs d))) (ap_gateways st)"
      "\<And>u. engine_for st' u = (if u = tenant
          then snd (patch_device (cl_policy C) (engine_for st tenant) device (row_attrs d) now) else engine_for st u)"
    by metis
  then show ?thesis
  proof cases
    case 1
    then show ?thesis using one eq ten by (simp add: in_step_def deliver_def)
  next
    case (2 d)
    have dec: "gd_attrs D (cl_attrs_json C (row_attrs d)) = Some (row_attrs d)" using laws 2(2) by (simp add: attrs_survive_def)
    have "gw_engine (deliver (cl_policy C) R D tx now msgs gw) u = engine_for st' u" for u
      unfolding 2(3) deliver_broadcast[OF one room] gw_engine_update[OF dec len] 2(4) eq ..
    then show ?thesis using one ten by (simp add: in_step_def 2(1,4) patch_device_tenant)
  qed
qed

lemma link_in_step:
  assumes "link_step C R D tx st gw st' gw'" and "in_step tx st gw"
  shows "in_step tx st' gw'"
  using assms(1)
proof cases
  case (refresh room now tenant up r msgs)
  then show ?thesis using refresh_in_step[OF _ assms(2)] by simp
next
  case (patch room device tenant up inst now msgs)
  then show ?thesis using patch_in_step[OF _ assms(2)] by simp
next
  case (database db)
  then show ?thesis using assms(2) by (simp add: in_step_def engine_for_other)
qed

inductive link_run ::
  "('z, 'n, 'c) control_libs \<Rightarrow> ('p, 't) lpm_lib \<Rightarrow> 'n gateway_decoders \<Rightarrow> nat \<Rightarrow>
   ('n, 'c) app_state \<Rightarrow> ('n, 't, 'c) gateway \<Rightarrow> ('n, 'c) app_state \<Rightarrow> ('n, 't, 'c) gateway \<Rightarrow> bool"
  for C :: "('z, 'n, 'c) control_libs" and R :: "('p, 't) lpm_lib" and D :: "'n gateway_decoders" and tx :: nat where
  idle: "link_run C R D tx st gw st gw"
| more: "\<lbrakk>link_run C R D tx st gw st1 gw1; link_step C R D tx st1 gw1 st2 gw2\<rbrakk> \<Longrightarrow> link_run C R D tx st gw st2 gw2"

lemma run_in_step: "link_run C R D tx st gw st' gw' \<Longrightarrow> in_step tx st gw \<Longrightarrow> in_step tx st' gw'"
  by (induction rule: link_run.induct) (auto intro: link_in_step)

lemma refresh_loads:
  assumes "refresh_tenant C up room now tenant st = (Inr v, st', msgs)"
  shows "\<exists>l. eg_inner (engine_for st' tenant) = Some l \<and> ld_data l = load_snapshot C now tenant (ap_db st)"
proof -
  let ?l = "engine_load (cl_policy C) (engine_for st tenant) (load_snapshot C now tenant (ap_db st)) now"
  from assms have ok: "fst ?l = Inr ()" and st': "st' = st\<lparr>ap_engines := AList.update tenant (snd ?l) (ap_engines st)\<rparr>"
    by (auto simp: refresh_tenant_def Let_def split: if_splits sum.splits)
  from ok show ?thesis
    by (auto simp: st' engine_for_update engine_load_def split: sum.splits if_splits)
qed

section \<open>Properties\<close>


section \<open>Witnesses\<close>

definition sample_row :: device_row where
  "sample_row =
     \<lparr>dv_id = [1], dv_tenant = [], dv_name = [], dv_kind = [], dv_status = Active, dv_liveness = Online, dv_class = None,
      dv_key_provider = [], dv_fingerprint = None, dv_posture = None, dv_attestation = None,
      dv_attestation_state = StateVerified, dv_risk_score = 0, dv_overlay_v4 = None, dv_overlay_v6 = None,
      dv_advertised = [], dv_last_seen = None\<rparr>"

definition sample_control_db :: control_db where
  "sample_control_db =
     \<lparr>db_devices = [sample_row], db_device_pods = [], db_pods = [], db_classes = [], db_policies = [],
      db_snapshots = [([], 5)], db_notified = [], db_tokens = [], db_enrollments = [], db_certs = [], db_sessions = [],
      db_gateways = [], db_pools = [], db_crls = [], db_decisions = []\<rparr>"

definition sample_app :: "(ip_addr \<times> nat, unit) app_state" where
  "sample_app =
     \<lparr>ap_db = sample_control_db, ap_session_ttl_secs = 60, ap_pulse_interval_secs = 30,
      ap_chain = \<lparr>kc_root = sample_cert RootCa 1 1, kc_issuing = sample_cert IssuingCa 2 1, kc_tls_ca_pem = [],
        kc_verifier = [sample_cert RootCa 1 1], kc_crl = \<lparr>cr_version = 0, cr_issued_at = 0, cr_serials = []\<rparr>,
        kc_crl_raw = ([], [])\<rparr>,
      ap_server_cert_sha256 = [], ap_gateways = [([3], \<lparr>gh_tx = 4, gh_endpoint = [], gh_region = []\<rparr>)], ap_devices = [],
      ap_challenges = [], ap_pending_answers = [], ap_peer_pending = [], ap_engines = [], ap_patch_at = []\<rparr>"

definition sample_control :: "(unit, ip_addr \<times> nat, unit) control_libs" where
  "sample_control = \<lparr>cl_policy = toy_libs, cl_spec_of = (\<lambda>_. None), cl_snapshot_json = (\<lambda>_. []), cl_attrs_json = (\<lambda>_. [])\<rparr>"

definition sample_decoders :: "(ip_addr \<times> nat) gateway_decoders" where
  "sample_decoders = \<lparr>gd_snapshot = (\<lambda>_. Some (load_snapshot sample_control 0 [] sample_control_db)),
     gd_attrs = (\<lambda>_. Some (row_attrs sample_row))\<rparr>"

lemma sample_refresh: "fst (refresh_tenant sample_control True (\<lambda>_. True) 0 [] sample_app) = Inr 5"
  by (simp add: refresh_tenant_def sample_app_def sample_control_def load_snapshot_def sample_control_db_def Let_def
      engine_for_def engine_load_def engine_empty_def compile_def build_entities_def toy_libs_def load_policies_def
      List.map_filter_def device_pods_def sample_row_def snapshot_attrs_def row_attrs_def
      cedar_schema_def device_entity_of_def uid_def restricted_def attr_texts_def opt_list_def del: ascii_simps)


end
