(* ===== verification/Control_Attest.thy ===== *)
theory Control_Attest
  imports Control_Push
begin

text \<open>
  Attestation between a device and the control plane: the challenges and the handling of evidence
  (\<open>avon-control/src/attest.rs\<close>), the heartbeat (\<open>pulse.rs\<close>), and the device's answer
  (\<open>avon-agent-core/src/attest.rs\<close>).  The clock, the nonce and the \<open>hex\<close> crate are arguments; an instant
  is in milliseconds.
\<close>

section \<open>Challenges\<close>

definition CHALLENGE_TTL :: nat where "CHALLENGE_TTL = 120000"

definition challenge_issue :: "uuid \<Rightarrow> bytes \<Rightarrow> nat \<Rightarrow> ('n, 'c) app_state \<Rightarrow> bytes \<times> ('n, 'c) app_state" where
  "challenge_issue device nonce inst st =
     (nonce, st\<lparr>ap_challenges := AList.update device \<lparr>ot_nonce = nonce, ot_issued = inst\<rparr> (ap_challenges st)\<rparr>)"

definition challenge_forget :: "uuid \<Rightarrow> ('n, 'c) app_state \<Rightarrow> ('n, 'c) app_state" where
  "challenge_forget device st = st\<lparr>ap_challenges := AList.delete device (ap_challenges st)\<rparr>"

definition challenge_take :: "uuid \<Rightarrow> nat \<Rightarrow> ('n, 'c) app_state \<Rightarrow> bytes option \<times> ('n, 'c) app_state" where
  "challenge_take device inst st =
     (case map_of (ap_challenges st) device of
        None \<Rightarrow> (None, st)
      | Some out \<Rightarrow> (if inst - ot_issued out \<le> CHALLENGE_TTL then Some (ot_nonce out) else None, challenge_forget device st))"

definition challenge_sweep :: "nat \<Rightarrow> ('n, 'c) app_state \<Rightarrow> ('n, 'c) app_state" where
  "challenge_sweep inst st =
     st\<lparr>ap_challenges := filter (\<lambda>e. inst - ot_issued (snd e) \<le> CHALLENGE_TTL) (ap_challenges st)\<rparr>"

section \<open>Evidence\<close>

record hex_lib =
  hx_encode :: "bytes \<Rightarrow> bytes"
  hx_decode :: "bytes \<Rightarrow> bytes option"

datatype attest_stmt = SelectAk | UpdateAttestation | SelectAttrs

record attestation_evidence =
  ae_format :: bytes
  ae_evidence :: bytes
  ae_nonce :: bytes

text \<open>The environment of a handler: which statements succeed, which channels have room, and the clocks.\<close>

record attest_env =
  av_up :: "attest_stmt \<Rightarrow> bool"
  av_room :: "nat \<Rightarrow> bool"
  av_inst :: nat
  av_now :: int

definition attestation_doc :: "hex_lib \<Rightarrow> int \<Rightarrow> (verified \<times> bytes option) option \<Rightarrow> bytes \<Rightarrow> (bytes \<times> json) list" where
  "attestation_doc H now detail reason =
     [(ascii ''reason'', JStr reason), (ascii ''checked_at_unix'', JInt now)] @
     (case detail of
        None \<Rightarrow> []
      | Some (v, ak_public) \<Rightarrow>
          [(ascii ''pcr_digest'', JStr (hx_encode H (vf_pcr_digest v))),
           (ascii ''ak_sha256'', JStr (hx_encode H (vf_ak_sha256 v))),
           (ascii ''reset_count'', JInt (uint (vf_reset_count v))),
           (ascii ''firmware_version'', JInt (uint (vf_firmware_version v)))] @
          (if vf_state v = StateVerified
           then (case ak_public of Some ak \<Rightarrow> [(ascii ''ak_public'', JArr [JStr (hx_encode H ak)])] | None \<Rightarrow> [])
           else []))"

definition record_attestation ::
  "hex_lib \<Rightarrow> ('z, 'n, 'c) control_libs \<Rightarrow> attest_env \<Rightarrow> uuid \<Rightarrow> uuid \<Rightarrow> attestation_state \<Rightarrow>
   (verified \<times> bytes option) option \<Rightarrow> bytes \<Rightarrow> ('n, 'c) app_state \<Rightarrow>
   (status + unit) \<times> ('n, 'c) app_state \<times> (nat \<times> gateway_down) list" where
  "record_attestation H C e device tenant result detail reason st =
     (if \<not> av_up e UpdateAttestation then (Inl db_down, st, [])
      else
        let doc = attestation_doc H (av_now e) detail reason;
            db = set_device_bump device (\<lambda>d. d\<lparr>dv_attestation_state := result,
              dv_attestation := Some (json_merge (case dv_attestation d of Some a \<Rightarrow> a | None \<Rightarrow> []) doc)\<rparr>) (ap_db st);
            (st', msgs) = patch_device_attrs C (av_up e SelectAttrs) (av_room e) (av_inst e) (av_now e) tenant device (st\<lparr>ap_db := db\<rparr>)
        in (Inr (), st', msgs))"

text \<open>\<open>SELECT attestation -> 'ak_public' ->> 0\<close>, decoded.\<close>

definition known_ak :: "hex_lib \<Rightarrow> uuid \<Rightarrow> control_db \<Rightarrow> bytes option" where
  "known_ak H device db =
     (case find_device device db of
        None \<Rightarrow> None
      | Some d \<Rightarrow>
          (case dv_attestation d of
             None \<Rightarrow> None
           | Some a \<Rightarrow> (case map_of a (ascii ''ak_public'') of
               Some (JArr (JStr h # _)) \<Rightarrow> hx_decode H h
             | _ \<Rightarrow> None)))"

definition ak_of :: "evidence \<Rightarrow> bytes option" where
  "ak_of ev = (case ev of Tpm2Quote _ _ ak _ _ \<Rightarrow> Some ak | NoEvidence \<Rightarrow> None)"

text \<open>Recording a result and returning it.\<close>

definition recorded ::
  "attestation_state \<Rightarrow> (status + unit) \<times> ('n, 'c) app_state \<times> (nat \<times> gateway_down) list \<Rightarrow>
   (status + attestation_state) \<times> ('n, 'c) app_state \<times> (nat \<times> gateway_down) list" where
  "recorded result r = (bind_res (fst r) (\<lambda>_. Inr result), snd r)"

definition handle_evidence ::
  "prims \<Rightarrow> ('k, 's) p256_lib \<Rightarrow> hex_lib \<Rightarrow> ('z, 'n, 'c) control_libs \<Rightarrow> attest_env \<Rightarrow> uuid \<Rightarrow> uuid \<Rightarrow> attestation_evidence \<Rightarrow>
   ('n, 'c) app_state \<Rightarrow> (status + attestation_state) \<times> ('n, 'c) app_state \<times> (nat \<times> gateway_down) list" where
  "handle_evidence P E H C e device tenant ev st =
     (case challenge_take device (av_inst e) st of
        (None, st) \<Rightarrow> (Inr StateUnverified, st, [])
      | (Some nonce, st) \<Rightarrow>
          (case ev_parse (ae_format ev) (ae_evidence ev) of
             Inl err \<Rightarrow> recorded StateFailed (record_attestation H C e device tenant StateFailed None (attest_display err) st)
           | Inr parsed \<Rightarrow>
               if parsed = NoEvidence
               then recorded StateNone (record_attestation H C e device tenant StateNone None
                      (ascii ''device has no attestation hardware'') st)
               else if \<not> av_up e SelectAk then (Inl db_down, st, [])
               else
                 let v = attest_verify P E parsed nonce (known_ak H device (ap_db st)) quote_policy_default
                 in recorded (vf_state v) (record_attestation H C e device tenant (vf_state v) (Some (v, ak_of parsed)) (vf_reason v) st)))"

section \<open>The device's answer\<close>

record quote =
  qt_attest :: bytes
  qt_signature :: bytes
  qt_ak_public :: bytes
  qt_pcrs :: "(u32 \<times> bytes) list"

text \<open>The key provider's \<open>attestation_quote\<close> is an argument: it fails, has nothing, or returns a quote.\<close>

definition answer_challenge :: "(bytes \<Rightarrow> bytes + quote option) \<Rightarrow> bytes \<Rightarrow> attestation_evidence" where
  "answer_challenge attestation_quote nonce =
     (let (format, evidence) = ev_encode
        (case attestation_quote nonce of
           Inr (Some q) \<Rightarrow> Tpm2Quote (qt_attest q) (qt_signature q) (qt_ak_public q) (qt_pcrs q) nonce
         | _ \<Rightarrow> NoEvidence)
      in \<lparr>ae_format = format, ae_evidence = evidence, ae_nonce = nonce\<rparr>)"

section \<open>The heartbeat\<close>

record posture =
  po_os_name :: bytes
  po_os_version :: bytes
  po_agent_version :: bytes
  po_firewall_enabled :: bool
  po_disk_encrypted :: bool
  po_screen_lock_enabled :: bool
  po_last_update_unix :: int
  po_key_provider :: bytes
  po_collected_at_unix :: int

record session_stat =
  ss_session_id :: bytes
  ss_bytes_tx :: u64
  ss_bytes_rx :: u64

definition posture_json :: "posture \<Rightarrow> (bytes \<times> json) list" where
  "posture_json p =
     [(ascii ''os_name'', JStr (po_os_name p)), (ascii ''os_version'', JStr (po_os_version p)),
      (ascii ''agent_version'', JStr (po_agent_version p)),
      (ascii ''firewall_enabled'', JBool (po_firewall_enabled p)),
      (ascii ''disk_encrypted'', JBool (po_disk_encrypted p)),
      (ascii ''screen_lock_enabled'', JBool (po_screen_lock_enabled p)),
      (ascii ''last_update_unix'', JInt (po_last_update_unix p)), (ascii ''key_provider'', JStr (po_key_provider p)),
      (ascii ''collected_at_unix'', JInt (po_collected_at_unix p))]"

text \<open>\<open>up\<close> decides the update of the device row; an update of a session's counters may fail unnoticed.\<close>

definition handle_heartbeat ::
  "('z, 'n, 'c) control_libs \<Rightarrow> bool \<Rightarrow> (bytes \<Rightarrow> bool) \<Rightarrow> attest_env \<Rightarrow> uuid \<Rightarrow> uuid \<Rightarrow> posture option \<Rightarrow> session_stat list \<Rightarrow>
   ('n, 'c) app_state \<Rightarrow> (status + int \<times> u32 \<times> bytes) \<times> ('n, 'c) app_state \<times> (nat \<times> gateway_down) list" where
  "handle_heartbeat C up stat_up e tenant device posture sessions st =
     (if \<not> up then (Inl db_down, st, [])
      else
        let seen = (\<lambda>d. d\<lparr>dv_last_seen := Some (av_now e), dv_liveness := Online\<rparr>);
            db = set_devices (\<lambda>d. dv_id d = device)
              (case posture of Some p \<Rightarrow> (\<lambda>d. (seen d)\<lparr>dv_posture := Some (posture_json p)\<rparr>) | None \<Rightarrow> seen) (ap_db st);
            db = fold (\<lambda>s db. if stat_up (ss_session_id s)
                then set_sessions (\<lambda>r. sr_id r = ss_session_id s \<and> sr_device r = device)
                       (\<lambda>r. r\<lparr>sr_bytes_tx := ss_bytes_tx s, sr_bytes_rx := ss_bytes_rx s\<rparr>) db
                else db) sessions db;
            (st', msgs) = patch_device_attrs C (av_up e SelectAttrs) (av_room e) (av_inst e) (av_now e) tenant device (st\<lparr>ap_db := db\<rparr>)
        in (Inr (av_now e, ap_pulse_interval_secs st, []), st', msgs))"

section \<open>What is stored\<close>

definition hex_laws :: "hex_lib \<Rightarrow> bool" where
  "hex_laws H = (\<forall>bs. hx_decode H (hx_encode H bs) = Some bs)"

lemma patch_keeps:
  "patch_device_attrs C up room inst now tenant device st = (st', msgs) \<Longrightarrow>
   ap_db st' = ap_db st \<and> ap_challenges st' = ap_challenges st"
  by (cases "if up then find_device device (ap_db st) else None")
    (auto simp: patch_device_attrs_def push_attrs_def Let_def split: if_splits)

lemma doc_keys: "distinct (map fst (attestation_doc H now detail reason))"
proof (cases detail)
  case (Some d)
  then show ?thesis
    by (cases d; cases "snd d"; cases "vf_state (fst d) = StateVerified") (simp_all add: attestation_doc_def)
qed (simp add: attestation_doc_def)

lemma doc_ak:
  "map_of (attestation_doc H now detail reason) (ascii ''ak_public'') =
   (case detail of Some (v, Some ak) \<Rightarrow> if vf_state v = StateVerified then Some (JArr [JStr (hx_encode H ak)]) else None
    | _ \<Rightarrow> None)"
proof (cases detail)
  case (Some d)
  then show ?thesis
    by (cases d; cases "snd d"; cases "vf_state (fst d) = StateVerified") (simp_all add: attestation_doc_def)
qed (simp add: attestation_doc_def)

lemma find_device_bump:
  "(\<And>r. dv_id (f r) = dv_id r) \<Longrightarrow>
   find_device j (set_device_bump i f db) = (if j = i then map_option f (find_device i db) else find_device j db)"
proof -
  assume f: "\<And>r. dv_id (f r) = dv_id r"
  show ?thesis
  proof (cases "find_device i db")
    case (Some d)
    have "find_device j (set_device_bump i f db) = find_device j (set_devices (\<lambda>d. dv_id d = i) f db)"
      using Some by (simp add: set_device_bump_def bump_tenant_def find_device_def)
    also have "\<dots> = map_option (\<lambda>r. if dv_id r = i then f r else r) (find_device j db)"
      by (rule find_device_set[OF f])
    also have "\<dots> = (if j = i then map_option f (find_device i db) else find_device j db)"
      using find_device_id[of j db] by (cases "find_device j db") auto
    finally show ?thesis .
  qed (simp add: set_device_bump_def)
qed

text \<open>Recording pins the key of a verified quote, and otherwise leaves the pinned key alone.\<close>

lemma record_effect:
  assumes H: "hex_laws H"
    and r: "record_attestation H C e device tenant result detail reason st = (res, st', msgs)"
  shows "ap_challenges st' = ap_challenges st"
    and "find_device j (ap_db st') = None \<longleftrightarrow> find_device j (ap_db st) = None"
    and "j \<noteq> device \<Longrightarrow> known_ak H j (ap_db st') = known_ak H j (ap_db st)"
    and "res = Inr () \<Longrightarrow> find_device device (ap_db st) = Some d \<Longrightarrow>
      known_ak H device (ap_db st') =
        (case detail of Some (v, Some ak) \<Rightarrow> if vf_state v = StateVerified then Some ak else known_ak H device (ap_db st)
         | _ \<Rightarrow> known_ak H device (ap_db st)) \<and>
      (\<exists>d'. find_device device (ap_db st') = Some d' \<and> dv_attestation_state d' = result)"
    and "\<not> is_ok res \<Longrightarrow> ap_db st' = ap_db st"
proof -
  let ?f = "\<lambda>d. d\<lparr>dv_attestation_state := result,
      dv_attestation := Some (json_merge (case dv_attestation d of Some a \<Rightarrow> a | None \<Rightarrow> []) (attestation_doc H (av_now e) detail reason))\<rparr>"
  have "(st' = st \<and> res = Inl db_down) \<or> (res = Inr () \<and>
      ap_db st' = set_device_bump device ?f (ap_db st) \<and> ap_challenges st' = ap_challenges st)"
    using r patch_keeps[of C "av_up e SelectAttrs" "av_room e" "av_inst e" "av_now e" tenant device]
    by (auto simp: record_attestation_def Let_def split: if_splits prod.splits)
  then consider "st' = st" "res = Inl db_down"
    | "res = Inr ()" "ap_db st' = set_device_bump device ?f (ap_db st)" "ap_challenges st' = ap_challenges st" by blast
  note c = this
  have find: "find_device j (set_device_bump device ?f db) = (if j = device then map_option ?f (find_device device db) else find_device j db)"
    for j db by (rule find_device_bump) simp
  show "ap_challenges st' = ap_challenges st" using c by cases auto
  show "find_device j (ap_db st') = None \<longleftrightarrow> find_device j (ap_db st) = None" using c by cases (simp_all add: find)
  show "j \<noteq> device \<Longrightarrow> known_ak H j (ap_db st') = known_ak H j (ap_db st)" using c by cases (simp_all add: known_ak_def find)
  show "\<not> is_ok res \<Longrightarrow> ap_db st' = ap_db st" using c by cases auto
  assume ok: "res = Inr ()" and d: "find_device device (ap_db st) = Some d"
  have db: "ap_db st' = set_device_bump device ?f (ap_db st)" using c ok by cases auto
  let ?doc = "attestation_doc H (av_now e) detail reason" and ?old = "case dv_attestation d of Some a \<Rightarrow> a | None \<Rightarrow> []"
  have look: "map_of (json_merge ?old ?doc) (ascii ''ak_public'') =
      (case map_of ?doc (ascii ''ak_public'') of Some v \<Rightarrow> Some v | None \<Rightarrow> map_of ?old (ascii ''ak_public''))"
    by (rule json_merge_lookup[OF doc_keys])
  have "known_ak H device (ap_db st') =
      (case map_of (json_merge ?old ?doc) (ascii ''ak_public'') of Some (JArr (JStr h # _)) \<Rightarrow> hx_decode H h | _ \<Rightarrow> None)"
    by (simp add: known_ak_def db find d del: ascii_simps)
  moreover have "known_ak H device (ap_db st) =
      (case map_of ?old (ascii ''ak_public'') of Some (JArr (JStr h # _)) \<Rightarrow> hx_decode H h | _ \<Rightarrow> None)"
    by (simp add: known_ak_def d split: option.splits del: ascii_simps)
  ultimately have "known_ak H device (ap_db st') =
      (case detail of Some (v, Some ak) \<Rightarrow> if vf_state v = StateVerified then Some ak else known_ak H device (ap_db st)
       | _ \<Rightarrow> known_ak H device (ap_db st))"
    using H by (auto simp: look doc_ak hex_laws_def split: option.splits prod.splits simp del: ascii_simps)
  moreover have "\<exists>d'. find_device device (ap_db st') = Some d' \<and> dv_attestation_state d' = result"
    by (simp add: db find d)
  ultimately show "known_ak H device (ap_db st') =
        (case detail of Some (v, Some ak) \<Rightarrow> if vf_state v = StateVerified then Some ak else known_ak H device (ap_db st)
         | _ \<Rightarrow> known_ak H device (ap_db st)) \<and>
      (\<exists>d'. find_device device (ap_db st') = Some d' \<and> dv_attestation_state d' = result)" by simp
qed

section \<open>One piece of evidence\<close>

definition outstanding_at :: "uuid \<Rightarrow> nat \<Rightarrow> ('n, 'c) app_state \<Rightarrow> bytes option" where
  "outstanding_at device inst st =
     (case map_of (ap_challenges st) device of
        Some out \<Rightarrow> if inst - ot_issued out \<le> CHALLENGE_TTL then Some (ot_nonce out) else None
      | None \<Rightarrow> None)"

lemma take_effect:
  assumes "challenge_take device inst st = (n, st1)"
  shows "n = outstanding_at device inst st" and "ap_db st1 = ap_db st"
    and "map_of (ap_challenges st1) = (map_of (ap_challenges st))(device := None)"
  using assms
  by (auto simp: challenge_take_def challenge_forget_def outstanding_at_def AList.delete_conv' fun_eq_iff split: option.splits)

lemma handle_none:
  assumes "outstanding_at device (av_inst e) st = None"
  shows "\<exists>st1. handle_evidence P E H C e device tenant ev st = (Inr StateUnverified, st1, []) \<and> ap_db st1 = ap_db st \<and>
    map_of (ap_challenges st1) = (map_of (ap_challenges st))(device := None)"
proof -
  obtain n st1 where t: "challenge_take device (av_inst e) st = (n, st1)" by (cases "challenge_take device (av_inst e) st")
  from take_effect[OF t] assms t show ?thesis by (simp add: handle_evidence_def)
qed

lemma recordedD:
  "recorded result x = (res, st', msgs) \<Longrightarrow> \<exists>r. x = (r, st', msgs) \<and> res = bind_res r (\<lambda>_. Inr result)"
  by (cases x) (auto simp: recorded_def)

text \<open>With a challenge outstanding: the database is left alone, or a result is recorded.\<close>

lemma handle_some:
  assumes "outstanding_at device (av_inst e) st = Some nonce"
    and h: "handle_evidence P E H C e device tenant ev st = (res, st', msgs)"
  shows "\<exists>st1. ap_db st1 = ap_db st \<and> map_of (ap_challenges st1) = (map_of (ap_challenges st))(device := None) \<and>
    (st' = st1 \<and> \<not> is_ok res \<or>
     (\<exists>result reason r. record_attestation H C e device tenant result None reason st1 = (r, st', msgs) \<and>
        res = bind_res r (\<lambda>_. Inr result) \<and> result \<in> {StateFailed, StateNone}) \<or>
     (\<exists>quote sig ak pcrs n v r. ev_parse (ae_format ev) (ae_evidence ev) = Inr (Tpm2Quote quote sig ak pcrs n) \<and>
        v = attest_verify P E (Tpm2Quote quote sig ak pcrs n) nonce (known_ak H device (ap_db st)) quote_policy_default \<and>
        record_attestation H C e device tenant (vf_state v) (Some (v, Some ak)) (vf_reason v) st1 = (r, st', msgs) \<and>
        res = bind_res r (\<lambda>_. Inr (vf_state v))))"
proof -
  obtain n st1 where t: "challenge_take device (av_inst e) st = (n, st1)" by (cases "challenge_take device (av_inst e) st")
  note te = take_effect[OF t]
  have n: "n = Some nonce" using te(1) assms(1) by simp
  have "st' = st1 \<and> \<not> is_ok res \<or>
     (\<exists>result reason r. record_attestation H C e device tenant result None reason st1 = (r, st', msgs) \<and>
        res = bind_res r (\<lambda>_. Inr result) \<and> result \<in> {StateFailed, StateNone}) \<or>
     (\<exists>quote sig ak pcrs n v r. ev_parse (ae_format ev) (ae_evidence ev) = Inr (Tpm2Quote quote sig ak pcrs n) \<and>
        v = attest_verify P E (Tpm2Quote quote sig ak pcrs n) nonce (known_ak H device (ap_db st)) quote_policy_default \<and>
        record_attestation H C e device tenant (vf_state v) (Some (v, Some ak)) (vf_reason v) st1 = (r, st', msgs) \<and>
        res = bind_res r (\<lambda>_. Inr (vf_state v)))"
  proof (cases "ev_parse (ae_format ev) (ae_evidence ev)")
    case (Inl err)
    then have "recorded StateFailed (record_attestation H C e device tenant StateFailed None (attest_display err) st1) = (res, st', msgs)"
      using h t n by (simp add: handle_evidence_def)
    from recordedD[OF this] show ?thesis by blast
  next
    case (Inr parsed)
    show ?thesis
    proof (cases parsed)
      case NoEvidence
      let ?r = "record_attestation H C e device tenant StateNone None (ascii ''device has no attestation hardware'') st1"
      have "recorded StateNone ?r = (res, st', msgs)"
        using h t n Inr NoEvidence by (simp add: handle_evidence_def del: ascii_simps)
      from recordedD[OF this] show ?thesis by blast
    next
      case (Tpm2Quote quote sig ak pcrs m)
      show ?thesis
      proof (cases "av_up e SelectAk")
        case True
        let ?v = "attest_verify P E parsed nonce (known_ak H device (ap_db st)) quote_policy_default"
        let ?r = "record_attestation H C e device tenant (vf_state ?v) (Some (?v, Some ak)) (vf_reason ?v) st1"
        have "recorded (vf_state ?v) ?r = (res, st', msgs)"
          using h t n Inr Tpm2Quote True te(2) by (simp add: handle_evidence_def ak_of_def Let_def)
        from recordedD[OF this] Inr show ?thesis unfolding Tpm2Quote by blast
      next
        case False
        then have "st' = st1 \<and> \<not> is_ok res" using h t n Inr Tpm2Quote by (auto simp: handle_evidence_def)
        then show ?thesis by blast
      qed
    qed
  qed
  with te(2,3) show ?thesis by blast
qed

lemma handle_effect:
  assumes H: "hex_laws H" and h: "handle_evidence P E H C e device tenant ev st = (res, st', msgs)"
  shows "map_of (ap_challenges st') = (map_of (ap_challenges st))(device := None)"
    and "find_device j (ap_db st') = None \<longleftrightarrow> find_device j (ap_db st) = None"
    and "known_ak H j (ap_db st) = Some ak \<Longrightarrow> known_ak H j (ap_db st') = Some ak"
    and "res = Inr StateVerified \<Longrightarrow> find_device device (ap_db st) = Some d \<Longrightarrow>
      \<exists>nonce quote sig ak pcrs n. outstanding_at device (av_inst e) st = Some nonce \<and>
        ev_parse (ae_format ev) (ae_evidence ev) = Inr (Tpm2Quote quote sig ak pcrs n) \<and>
        quote_accepted P E nonce (known_ak H device (ap_db st)) quote_policy_default quote sig ak pcrs \<and>
        known_ak H device (ap_db st') = Some ak"
proof -
  have all: "map_of (ap_challenges st') = (map_of (ap_challenges st))(device := None) \<and>
    (find_device j (ap_db st') = None \<longleftrightarrow> find_device j (ap_db st) = None) \<and>
    (known_ak H j (ap_db st) = Some ak \<longrightarrow> known_ak H j (ap_db st') = Some ak) \<and>
    (res = Inr StateVerified \<longrightarrow> find_device device (ap_db st) = Some d \<longrightarrow>
      (\<exists>nonce quote sig ak pcrs n. outstanding_at device (av_inst e) st = Some nonce \<and>
        ev_parse (ae_format ev) (ae_evidence ev) = Inr (Tpm2Quote quote sig ak pcrs n) \<and>
        quote_accepted P E nonce (known_ak H device (ap_db st)) quote_policy_default quote sig ak pcrs \<and>
        known_ak H device (ap_db st') = Some ak))" for j ak
  proof (cases "outstanding_at device (av_inst e) st")
    case None
    from handle_none[OF this, of P E H C tenant ev] h show ?thesis by auto
  next
    case (Some nonce)
    from handle_some[OF this h] obtain st1 where st1: "ap_db st1 = ap_db st"
      "map_of (ap_challenges st1) = (map_of (ap_challenges st))(device := None)" and
      c: "st' = st1 \<and> \<not> is_ok res \<or>
     (\<exists>result reason r. record_attestation H C e device tenant result None reason st1 = (r, st', msgs) \<and>
        res = bind_res r (\<lambda>_. Inr result) \<and> result \<in> {StateFailed, StateNone}) \<or>
     (\<exists>quote sig ak pcrs n v r. ev_parse (ae_format ev) (ae_evidence ev) = Inr (Tpm2Quote quote sig ak pcrs n) \<and>
        v = attest_verify P E (Tpm2Quote quote sig ak pcrs n) nonce (known_ak H device (ap_db st)) quote_policy_default \<and>
        record_attestation H C e device tenant (vf_state v) (Some (v, Some ak)) (vf_reason v) st1 = (r, st', msgs) \<and>
        res = bind_res r (\<lambda>_. Inr (vf_state v)))" by blast
    have keep: "known_ak H j (ap_db st) = None" if "find_device j (ap_db st) = None" for j
      using that by (simp add: known_ak_def)
    from c consider (dead) "st' = st1" "\<not> is_ok res"
      | (plain) result reason r where "record_attestation H C e device tenant result None reason st1 = (r, st', msgs)"
        "res = bind_res r (\<lambda>_. Inr result)" "result \<in> {StateFailed, StateNone}"
      | (quote) quote sig ak' pcrs n v r where "ev_parse (ae_format ev) (ae_evidence ev) = Inr (Tpm2Quote quote sig ak' pcrs n)"
        "v = attest_verify P E (Tpm2Quote quote sig ak' pcrs n) nonce (known_ak H device (ap_db st)) quote_policy_default"
        "record_attestation H C e device tenant (vf_state v) (Some (v, Some ak')) (vf_reason v) st1 = (r, st', msgs)"
        "res = bind_res r (\<lambda>_. Inr (vf_state v))" by blast
    then show ?thesis
    proof cases
      case dead
      then show ?thesis using st1 by auto
    next
      case plain
      note re = record_effect[OF H plain(1)]
      have "known_ak H j (ap_db st') = Some ak" if ak: "known_ak H j (ap_db st) = Some ak"
      proof (cases "j = device \<and> is_ok r")
        case True
        moreover obtain u where "find_device j (ap_db st) = Some u"
          using ak keep[of j] by (cases "find_device j (ap_db st)") auto
        ultimately have "r = Inr ()" "find_device device (ap_db st1) = Some u" using st1 by (auto simp: is_ok_iff)
        from re(4)[OF this] ak True st1 show ?thesis by simp
      qed (use re(3)[of j] re(5) ak st1 in auto)
      then show ?thesis using re(1,2) st1 plain(2,3) by (auto simp: res_simps)
    next
      case quote
      note re = record_effect[OF H quote(3)]
      have acc: "vf_state v = StateVerified \<longleftrightarrow>
          quote_accepted P E nonce (known_ak H device (ap_db st)) quote_policy_default quote sig ak' pcrs"
        unfolding quote(2) by (rule attest_verify_iff)
      have same: "ak' = ak" if "vf_state v = StateVerified" "known_ak H device (ap_db st) = Some ak" for ak
        using that acc by (auto simp: quote_accepted_def)
      have "known_ak H j (ap_db st') = Some ak" if ak: "known_ak H j (ap_db st) = Some ak"
      proof (cases "j = device \<and> is_ok r")
        case True
        moreover obtain u where "find_device j (ap_db st) = Some u"
          using ak keep[of j] by (cases "find_device j (ap_db st)") auto
        ultimately have "r = Inr ()" "find_device device (ap_db st1) = Some u" using st1 by (auto simp: is_ok_iff)
        from re(4)[OF this] ak True st1 same show ?thesis by auto
      qed (use re(3)[of j] re(5) ak st1 in auto)
      moreover have "known_ak H device (ap_db st') = Some ak'" if "res = Inr StateVerified" "find_device device (ap_db st) = Some d"
        using re(4) that quote(4) st1 by (auto simp: res_simps)
      ultimately show ?thesis using re(1,2) st1 quote(1,4) acc Some by (auto simp: res_simps)
    qed
  qed
  show "map_of (ap_challenges st') = (map_of (ap_challenges st))(device := None)" using all by blast
  show "find_device j (ap_db st') = None \<longleftrightarrow> find_device j (ap_db st) = None" using all by blast
  show "known_ak H j (ap_db st) = Some ak \<Longrightarrow> known_ak H j (ap_db st') = Some ak" using all by blast
  show "res = Inr StateVerified \<Longrightarrow> find_device device (ap_db st) = Some d \<Longrightarrow>
      \<exists>nonce quote sig ak pcrs n. outstanding_at device (av_inst e) st = Some nonce \<and>
        ev_parse (ae_format ev) (ae_evidence ev) = Inr (Tpm2Quote quote sig ak pcrs n) \<and>
        quote_accepted P E nonce (known_ak H device (ap_db st)) quote_policy_default quote sig ak pcrs \<and>
        known_ak H device (ap_db st') = Some ak" using all by blast
qed

section \<open>Runs\<close>

datatype attest_event =
    Issue uuid bytes nat
  | Evidence attest_env uuid uuid attestation_evidence
  | Forget uuid
  | Sweep nat

text \<open>The state after an event, and the verdict if the event was answered with one.\<close>

fun attest_step ::
  "prims \<Rightarrow> ('k, 's) p256_lib \<Rightarrow> hex_lib \<Rightarrow> ('z, 'n, 'c) control_libs \<Rightarrow> attest_event \<Rightarrow> ('n, 'c) app_state \<Rightarrow>
   (uuid \<times> attestation_state) list \<times> ('n, 'c) app_state" where
  "attest_step P E H C (Issue device nonce inst) st = ([], snd (challenge_issue device nonce inst st))"
| "attest_step P E H C (Evidence e device tenant ev) st =
    (let (res, st', _) = handle_evidence P E H C e device tenant ev st
     in (case res of Inr v \<Rightarrow> [(device, v)] | Inl _ \<Rightarrow> [], st'))"
| "attest_step P E H C (Forget device) st = ([], challenge_forget device st)"
| "attest_step P E H C (Sweep inst) st = ([], challenge_sweep inst st)"

fun attest_run ::
  "prims \<Rightarrow> ('k, 's) p256_lib \<Rightarrow> hex_lib \<Rightarrow> ('z, 'n, 'c) control_libs \<Rightarrow> attest_event list \<Rightarrow> ('n, 'c) app_state \<Rightarrow>
   (uuid \<times> attestation_state) list \<times> ('n, 'c) app_state" where
  "attest_run P E H C [] st = ([], st)"
| "attest_run P E H C (x # xs) st =
    (let (v, st1) = attest_step P E H C x st; (vs, st2) = attest_run P E H C xs st1 in (v @ vs, st2))"

fun issues :: "uuid \<Rightarrow> attest_event \<Rightarrow> bool" where
  "issues d (Issue device _ _) = (device = d)"
| "issues d _ = False"

definition open_count :: "uuid \<Rightarrow> ('n, 'c) app_state \<Rightarrow> nat" where
  "open_count d st = (if map_of (ap_challenges st) d = None then 0 else 1)"

lemma map_of_filter_None: "map_of xs d = None \<Longrightarrow> map_of (filter p xs) d = None"
  by (auto simp: map_of_eq_None_iff)

text \<open>A verdict uses up a challenge, and only issuing makes one.\<close>

lemma step_budget:
  assumes H: "hex_laws H" and s: "attest_step P E H C x st = (vs, st')" and row: "find_device d (ap_db st) \<noteq> None"
  shows "length (filter (\<lambda>v. v = (d, StateVerified)) vs) + open_count d st' \<le> (if issues d x then 1 else 0) + open_count d st"
    and "find_device d (ap_db st') \<noteq> None"
    and "known_ak H d (ap_db st) = Some ak \<Longrightarrow> known_ak H d (ap_db st') = Some ak"
proof -
  have "length (filter (\<lambda>v. v = (d, StateVerified)) vs) + open_count d st' \<le> (if issues d x then 1 else 0) + open_count d st \<and>
    find_device d (ap_db st') \<noteq> None \<and> (known_ak H d (ap_db st) = Some ak \<longrightarrow> known_ak H d (ap_db st') = Some ak)" for ak
  proof (cases x)
    case (Evidence e device tenant ev)
    obtain res msgs where h: "handle_evidence P E H C e device tenant ev st = (res, st', msgs)"
      and vs: "vs = (case res of Inr v \<Rightarrow> [(device, v)] | Inl _ \<Rightarrow> [])"
      using s Evidence by (auto simp: Let_def split: prod.splits)
    note he = handle_effect[OF H h]
    have "open_count d st = 1" if "res = Inr StateVerified" "device = d"
      using he(4) that row by (auto simp: outstanding_at_def open_count_def split: option.splits)
    moreover have "open_count d st' = (if device = d then 0 else open_count d st)"
      by (simp add: open_count_def he(1))
    ultimately have "length (filter (\<lambda>v. v = (d, StateVerified)) vs) + open_count d st' \<le> open_count d st"
      unfolding vs by (cases res) auto
    then show ?thesis using he(2,3) row Evidence by auto
  next
    case (Issue device nonce inst)
    then show ?thesis using s row by (auto simp: challenge_issue_def open_count_def AList.update_conv')
  next
    case (Forget device)
    then show ?thesis using s row by (auto simp: challenge_forget_def open_count_def AList.delete_conv' split: if_splits)
  next
    case (Sweep inst)
    then show ?thesis using s row map_of_filter_None by (fastforce simp: challenge_sweep_def open_count_def)
  qed
  then show "length (filter (\<lambda>v. v = (d, StateVerified)) vs) + open_count d st' \<le> (if issues d x then 1 else 0) + open_count d st"
    "find_device d (ap_db st') \<noteq> None" "known_ak H d (ap_db st) = Some ak \<Longrightarrow> known_ak H d (ap_db st') = Some ak" by blast+
qed

lemma run_budget:
  assumes H: "hex_laws H" and "attest_run P E H C xs st = (vs, st')" and "find_device d (ap_db st) \<noteq> None"
  shows "length (filter (\<lambda>v. v = (d, StateVerified)) vs) + open_count d st' \<le> length (filter (issues d) xs) + open_count d st \<and>
    find_device d (ap_db st') \<noteq> None \<and> (known_ak H d (ap_db st) = Some ak \<longrightarrow> known_ak H d (ap_db st') = Some ak)"
  using assms(2,3)
proof (induction xs arbitrary: st vs)
  case (Cons x xs)
  obtain v st1 where s: "attest_step P E H C x st = (v, st1)" by (cases "attest_step P E H C x st")
  obtain ws where r: "attest_run P E H C xs st1 = (ws, st')" and vs: "vs = v @ ws"
    using Cons.prems(1) s by (auto split: prod.splits)
  note b = step_budget[OF H s Cons.prems(2)]
  from Cons.IH[OF r b(2)] b(1) b(3)[of ak] show ?case unfolding vs by (auto split: if_splits)
qed simp

section \<open>An honest device\<close>

text \<open>What the key provider must return for a nonce: a well-formed quote over it, signed by the key it names.\<close>

definition honest_quote :: "prims \<Rightarrow> ('k, 's) p256_lib \<Rightarrow> bytes \<Rightarrow> quote_attest \<Rightarrow> quote \<Rightarrow> bool" where
  "honest_quote P E nonce q k =
     (quote_ok q \<and> qa_extra_data q = nonce \<and> ci_safe (qa_clock q) \<and> {0, 7} \<subseteq> set (qa_selected_pcrs q) \<and>
      qt_attest k = encode_quote q \<and>
      evidence_ok (Tpm2Quote (qt_attest k) (qt_signature k) (qt_ak_public k) (qt_pcrs k) nonce) \<and>
      (case quoted_values (qt_pcrs k) (qa_selected_pcrs q) of Inr vs \<Rightarrow> p_sha256 P vs = qa_pcr_digest q | Inl _ \<Rightarrow> False) \<and>
      (case (p256_key_from_der E (qt_ak_public k), p256_sig_from_der E (qt_signature k)) of
         (Some vk, Some sig) \<Rightarrow> p256_verify E vk (qt_attest k) sig | _ \<Rightarrow> False))"

lemma honest_accepted:
  assumes "honest_quote P E nonce q k" and "pinned \<in> {None, Some (qt_ak_public k)}"
  shows "quote_accepted P E nonce pinned quote_policy_default (qt_attest k) (qt_signature k) (qt_ak_public k) (qt_pcrs k)"
proof -
  note h = assms(1)[unfolded honest_quote_def]
  have "length (encode_quote q) < 65536" using h by (metis evidence_ok.simps(1))
  then have "length (encode_quote q @ []) < 2 ^ 64" by simp
  then have "parse_quote (qt_attest k) = Inr q" using parse_encode_quote[of q "[]"] h by simp
  then show ?thesis
    using h assms(2) by (auto simp: quote_accepted_def quote_policy_default_def split: sum.splits option.splits)
qed

lemma answer_parses:
  assumes "honest_quote P E nonce q k" and "provider nonce = Inr (Some k)"
  shows "ev_parse (ae_format (answer_challenge provider nonce)) (ae_evidence (answer_challenge provider nonce)) =
    Inr (Tpm2Quote (qt_attest k) (qt_signature k) (qt_ak_public k) (qt_pcrs k) nonce)"
proof -
  have "evidence_ok (Tpm2Quote (qt_attest k) (qt_signature k) (qt_ak_public k) (qt_pcrs k) nonce)"
    using assms unfolding honest_quote_def by blast
  from ev_parse_encode[OF this] show ?thesis by (simp add: answer_challenge_def assms(2) del: ascii_simps)
qed

lemma honest_handled:
  assumes H: "hex_laws H" and hq: "honest_quote P E nonce q k"
    and out: "outstanding_at d (av_inst e) st = Some nonce"
    and row: "find_device d (ap_db st) = Some row" and pin: "known_ak H d (ap_db st) \<in> {None, Some (qt_ak_public k)}"
    and up: "av_up e SelectAk" "av_up e UpdateAttestation"
    and ev: "ev = answer_challenge provider nonce" "provider nonce = Inr (Some k)"
  shows "\<exists>st' msgs row'. handle_evidence P E H C e d tenant ev st = (Inr StateVerified, st', msgs) \<and>
    find_device d (ap_db st') = Some row' \<and> dv_attestation_state row' = StateVerified \<and>
    known_ak H d (ap_db st') = Some (qt_ak_public k) \<and> map_of (ap_challenges st') d = None"
proof -
  obtain n st1 where t: "challenge_take d (av_inst e) st = (n, st1)" by (cases "challenge_take d (av_inst e) st")
  note te = take_effect[OF t]
  let ?p = "Tpm2Quote (qt_attest k) (qt_signature k) (qt_ak_public k) (qt_pcrs k) nonce"
  let ?v = "attest_verify P E ?p nonce (known_ak H d (ap_db st1)) quote_policy_default"
  have v: "vf_state ?v = StateVerified" using honest_accepted[OF hq pin] by (simp add: attest_verify_iff te(2))
  let ?x = "record_attestation H C e d tenant StateVerified (Some (?v, Some (qt_ak_public k))) (vf_reason ?v) st1"
  obtain r st' msgs where x: "?x = (r, st', msgs)" by (cases ?x)
  have r: "r = Inr ()" using x up(2) by (auto simp: record_attestation_def Let_def split: prod.splits)
  have h: "handle_evidence P E H C e d tenant ev st = (Inr StateVerified, st', msgs)"
    using t te(1) out answer_parses[where provider = provider, OF hq ev(2)] up(1) x r v
    by (simp add: handle_evidence_def ev(1) ak_of_def recorded_def Let_def)
  note re = record_effect[OF H x]
  obtain row' where "find_device d (ap_db st') = Some row'" "dv_attestation_state row' = StateVerified"
    and "known_ak H d (ap_db st') = Some (qt_ak_public k)"
    using re(4)[OF r] row v unfolding te(2) by fastforce
  moreover have "map_of (ap_challenges st') d = None" using re(1) te(3) by simp
  ultimately show ?thesis using h by blast
qed

section \<open>Properties\<close>

text \<open>C27. Attestation is fresh and pinned.  Over any sequence of challenges issued, forgotten and swept
  and of evidence received, a device is found verified at most as often as it was challenged.  A
  verdict of verified for a registered device means that the quote answers a challenge of that device
  no older than two minutes, covers PCRs 0 and 7, was signed by the attestation key, and that this key
  is the pinned one, which it becomes if there was none; a pinned key never changes.\<close>

theorem attestation_fresh_and_pinned:
  assumes "hex_laws H" and "find_device d (ap_db st) \<noteq> None" and "attest_run P E H C xs st = (vs, st')"
  shows "length (filter (\<lambda>v. v = (d, StateVerified)) vs) \<le> length (filter (issues d) xs) + open_count d st \<and>
    (\<forall>ak. known_ak H d (ap_db st) = Some ak \<longrightarrow> known_ak H d (ap_db st') = Some ak) \<and>
    (\<forall>e tenant ev st'' msgs. handle_evidence P E H C e d tenant ev st' = (Inr StateVerified, st'', msgs) \<longrightarrow>
      (\<exists>out quote sig ak pcrs n q. map_of (ap_challenges st') d = Some out \<and> av_inst e \<le> ot_issued out + 120000 \<and>
        ev_parse (ae_format ev) (ae_evidence ev) = Inr (Tpm2Quote quote sig ak pcrs n) \<and>
        parse_quote quote = Inr q \<and> qa_extra_data q = ot_nonce out \<and> {0, 7} \<subseteq> set (qa_selected_pcrs q) \<and>
        (\<exists>vk s. p256_key_from_der E ak = Some vk \<and> p256_sig_from_der E sig = Some s \<and> p256_verify E vk quote s) \<and>
        known_ak H d (ap_db st') \<in> {None, Some ak} \<and> known_ak H d (ap_db st'') = Some ak))"
proof (intro conjI allI impI)
  have b: "length (filter (\<lambda>v. v = (d, StateVerified)) vs) + open_count d st' \<le> length (filter (issues d) xs) + open_count d st"
    "find_device d (ap_db st') \<noteq> None" "known_ak H d (ap_db st) = Some ak \<Longrightarrow> known_ak H d (ap_db st') = Some ak" for ak
    using run_budget[OF assms(1,3,2)] by blast+
  show "length (filter (\<lambda>v. v = (d, StateVerified)) vs) \<le> length (filter (issues d) xs) + open_count d st" using b(1) by linarith
  show "known_ak H d (ap_db st') = Some ak" if "known_ak H d (ap_db st) = Some ak" for ak using b(3) that .
  fix e tenant ev st'' msgs
  assume h: "handle_evidence P E H C e d tenant ev st' = (Inr StateVerified, st'', msgs)"
  obtain row where "find_device d (ap_db st') = Some row" using b(2) by blast
  from handle_effect(4)[OF assms(1) h refl this] obtain nonce quote sig ak pcrs n where
    o: "outstanding_at d (av_inst e) st' = Some nonce" and p: "ev_parse (ae_format ev) (ae_evidence ev) = Inr (Tpm2Quote quote sig ak pcrs n)"
    and a: "quote_accepted P E nonce (known_ak H d (ap_db st')) quote_policy_default quote sig ak pcrs"
    and k: "known_ak H d (ap_db st'') = Some ak" by blast
  from o obtain out where out: "map_of (ap_challenges st') d = Some out" "av_inst e \<le> ot_issued out + 120000" "nonce = ot_nonce out"
    by (auto simp: outstanding_at_def CHALLENGE_TTL_def split: option.splits if_splits)
  from a obtain q vk s where q: "parse_quote quote = Inr q" "qa_extra_data q = nonce" "{0, 7} \<subseteq> set (qa_selected_pcrs q)"
    "p256_key_from_der E ak = Some vk" "p256_sig_from_der E sig = Some s" "p256_verify E vk quote s"
    by (auto simp: quote_accepted_def quote_policy_default_def)
  have "known_ak H d (ap_db st') \<in> {None, Some ak}" using a by (auto simp: quote_accepted_def split: option.splits)
  with out p q k show "\<exists>out quote sig ak pcrs n q. map_of (ap_challenges st') d = Some out \<and> av_inst e \<le> ot_issued out + 120000 \<and>
        ev_parse (ae_format ev) (ae_evidence ev) = Inr (Tpm2Quote quote sig ak pcrs n) \<and>
        parse_quote quote = Inr q \<and> qa_extra_data q = ot_nonce out \<and> {0, 7} \<subseteq> set (qa_selected_pcrs q) \<and>
        (\<exists>vk s. p256_key_from_der E ak = Some vk \<and> p256_sig_from_der E sig = Some s \<and> p256_verify E vk quote s) \<and>
        known_ak H d (ap_db st') \<in> {None, Some ak} \<and> known_ak H d (ap_db st'') = Some ak" by blast
qed

definition toy_hex :: hex_lib where
  "toy_hex = \<lparr>hx_encode = (\<lambda>x. x), hx_decode = Some\<rparr>"

definition toy_p256 :: "(bytes, bytes) p256_lib" where
  "toy_p256 = \<lparr>p256_key_from_der = Some, p256_sig_from_der = Some, p256_verify = (\<lambda>vk m s. s = vk)\<rparr>"

definition sample_attest :: quote_attest where
  "sample_attest = \<lparr>qa_qualified_signer = [], qa_extra_data = [5], qa_clock =
     \<lparr>ci_clock_ms = 0, ci_reset_count = 0, ci_restart_count = 0, ci_safe = True\<rparr>, qa_firmware_version = 1,
     qa_selected_pcrs = [0, 7], qa_pcr_digest = pad 32 [1, 2]\<rparr>"

definition sample_quote :: quote where
  "sample_quote = \<lparr>qt_attest = encode_quote sample_attest, qt_signature = [9], qt_ak_public = [9], qt_pcrs = [(7, [2]), (0, [1])]\<rparr>"

definition sample_env :: "nat \<Rightarrow> attest_env" where
  "sample_env inst = \<lparr>av_up = (\<lambda>_. True), av_room = (\<lambda>_. True), av_inst = inst, av_now = 0\<rparr>"

lemma sample_honest: "honest_quote toy toy_p256 [5] sample_attest sample_quote"
  by (simp add: honest_quote_def sample_attest_def sample_quote_def quote_ok_def encode_quote_def toy_def toy_p256_def
      select_width_def set_pcr_def pad_def Let_def)

lemma sample_device:
  "find_device [1] (ap_db sample_app) = Some sample_row" "known_ak H [1] (ap_db sample_app) = None"
  by (simp_all add: sample_app_def sample_control_db_def find_device_def known_ak_def sample_row_def)

lemma toy_hex_laws: "hex_laws toy_hex"
  by (simp add: hex_laws_def toy_hex_def)

text \<open>C28. An honest device becomes verified.  When the control plane challenges a registered device and
  the key provider answers the nonce with a well-formed quote signed by the pinned key, or by any key
  if none is pinned yet, the evidence that reaches the control plane within two minutes is read back as
  the quote that was sent and accepted: the device is stored as verified, its key is pinned, and the
  challenge is used up, so that sending the same evidence again changes nothing.\<close>

theorem honest_device_verifies:
  assumes "hex_laws H" and "find_device d (ap_db st) = Some row" and "known_ak H d (ap_db st) \<in> {None, Some (qt_ak_public k)}"
    and "provider nonce = Inr (Some k)" and "honest_quote P E nonce q k"
    and "av_inst e \<le> issued + 120000" and "av_up e SelectAk" and "av_up e UpdateAttestation"
  shows "let (n, st1) = challenge_issue d nonce issued st; ev = answer_challenge provider n in
    \<exists>st2 msgs row' st3. handle_evidence P E H C e d tenant ev st1 = (Inr StateVerified, st2, msgs) \<and>
      find_device d (ap_db st2) = Some row' \<and> dv_attestation_state row' = StateVerified \<and>
      known_ak H d (ap_db st2) = Some (qt_ak_public k) \<and>
      handle_evidence P E H C e d tenant ev st2 = (Inr StateUnverified, st3, []) \<and> ap_db st3 = ap_db st2"
proof -
  obtain st1 where st1: "challenge_issue d nonce issued st = (nonce, st1)" "ap_db st1 = ap_db st"
    "outstanding_at d (av_inst e) st1 = Some nonce"
    using assms(6) by (auto simp: challenge_issue_def outstanding_at_def AList.update_conv' CHALLENGE_TTL_def)
  obtain st2 msgs row' where h: "handle_evidence P E H C e d tenant (answer_challenge provider nonce) st1 = (Inr StateVerified, st2, msgs)"
    "find_device d (ap_db st2) = Some row'" "dv_attestation_state row' = StateVerified"
    "known_ak H d (ap_db st2) = Some (qt_ak_public k)" and used: "map_of (ap_challenges st2) d = None"
    using honest_handled[where provider = provider, OF assms(1,5) st1(3) _ _ assms(7,8) refl assms(4)] assms(2,3) unfolding st1(2) by blast
  have "outstanding_at d (av_inst e) st2 = None" using used by (simp add: outstanding_at_def)
  from handle_none[OF this, of P E H C tenant "answer_challenge provider nonce"] h show ?thesis by (auto simp: st1(1))
qed

theorem honest_device_verifies_witness:
  "let (n, st1) = challenge_issue [1] [5] 1000 sample_app; ev = answer_challenge (\<lambda>_. Inr (Some sample_quote)) n in
    \<exists>st2 msgs row' st3. handle_evidence toy toy_p256 toy_hex sample_control (sample_env 121000) [1] [] ev st1 = (Inr StateVerified, st2, msgs) \<and>
      find_device [1] (ap_db st2) = Some row' \<and> dv_attestation_state row' = StateVerified \<and>
      known_ak toy_hex [1] (ap_db st2) = Some [9] \<and>
      handle_evidence toy toy_p256 toy_hex sample_control (sample_env 121000) [1] [] ev st2 = (Inr StateUnverified, st3, []) \<and>
      ap_db st3 = ap_db st2"
proof -
  have "qt_ak_public sample_quote = [9]" by (simp add: sample_quote_def)
  with honest_device_verifies[where H = toy_hex and d = "[1]" and st = sample_app and k = sample_quote and nonce = "[5]" and
      provider = "\<lambda>_. Inr (Some sample_quote)" and e = "sample_env 121000" and issued = 1000,
      OF toy_hex_laws sample_device(1) _ refl sample_honest, of sample_control "[]"] sample_device(2)
  show ?thesis by (simp add: sample_env_def)
qed

theorem attestation_fresh_and_pinned_witness:
  "\<exists>vs st'. attest_run toy toy_p256 toy_hex sample_control
      [Issue [1] [5] 0, Evidence (sample_env 10) [1] [] (answer_challenge (\<lambda>_. Inr (Some sample_quote)) [5])] sample_app = (vs, st') \<and>
    vs = [([1], StateVerified)] \<and> known_ak toy_hex [1] (ap_db st') = Some [9] \<and>
    length (filter (\<lambda>v. v = ([1], StateVerified)) vs) \<le> 1"
proof -
  let ?e = "answer_challenge (\<lambda>_. Inr (Some sample_quote)) [5]" and ?st1 = "snd (challenge_issue [1] [5] 0 sample_app)"
  have st1: "outstanding_at [1] (av_inst (sample_env 10)) ?st1 = Some [5]" "ap_db ?st1 = ap_db sample_app"
    by (simp_all add: challenge_issue_def outstanding_at_def AList.update_conv' CHALLENGE_TTL_def sample_env_def)
  obtain st' msgs where h: "handle_evidence toy toy_p256 toy_hex sample_control (sample_env 10) [1] [] ?e ?st1 = (Inr StateVerified, st', msgs)"
    "known_ak toy_hex [1] (ap_db st') = Some [9]"
    using honest_handled[OF toy_hex_laws sample_honest st1(1), of sample_row ?e "\<lambda>_. Inr (Some sample_quote)" sample_control "[]"]
      sample_device unfolding st1(2) by (auto simp: sample_env_def sample_quote_def)
  have run: "attest_run toy toy_p256 toy_hex sample_control [Issue [1] [5] 0, Evidence (sample_env 10) [1] [] ?e] sample_app = ([([1], StateVerified)], st')"
    using h(1) by simp
  show ?thesis
    using attestation_fresh_and_pinned[OF toy_hex_laws _ run, of "[1]"] run h(2) sample_device(1)
    by (simp add: open_count_def sample_app_def)
qed

end
