(* ===== verification/Control_Auth.thy ===== *)
theory Control_Auth
  imports Control_Push
begin

text \<open>
  Who is calling the control plane: SPIFFE identifiers (\<open>avon-common/src/ids.rs\<close>), the identity of a TLS
  peer (\<open>avon-tls/src/peer.rs\<close>, \<open>avon-control/src/authz.rs\<close>), the session tokens kept in Redis
  (\<open>session_token.rs\<close>), the authentication of a device (\<open>auth.rs\<close>, \<open>service/agent.rs\<close>), its counterpart on the
  device (\<open>avon-agent-core/src/control.rs\<close>) and renewal (\<open>renew.rs\<close>).  Redis, the X.509 reader, the text
  encodings and the certificate authority are arguments; a time is in seconds.
\<close>

section \<open>Identifiers\<close>

datatype id_error = IdUuid | IdSpiffe bytes | IdSessionLen nat | IdRandom

definition TRUST_DOMAIN :: bytes where "TRUST_DOMAIN = ascii ''avon''"

datatype spiffe_kind = SpiffeService bytes "uuid option" | SpiffeDevice uuid uuid

record spiffe_id =
  sp_raw :: bytes
  sp_kind :: spiffe_kind

definition spiffe_service :: "bytes \<Rightarrow> spiffe_id" where
  "spiffe_service name =
     \<lparr>sp_raw = ascii ''spiffe://'' @ TRUST_DOMAIN @ ascii ''/service/'' @ name, sp_kind = SpiffeService name None\<rparr>"

definition spiffe_gateway :: "(uuid \<Rightarrow> bytes) \<Rightarrow> uuid \<Rightarrow> spiffe_id" where
  "spiffe_gateway uuid_show i =
     \<lparr>sp_raw = ascii ''spiffe://'' @ TRUST_DOMAIN @ ascii ''/service/gateway/'' @ uuid_show i,
      sp_kind = SpiffeService (ascii ''gateway'') (Some i)\<rparr>"

definition spiffe_device :: "(uuid \<Rightarrow> bytes) \<Rightarrow> uuid \<Rightarrow> uuid \<Rightarrow> spiffe_id" where
  "spiffe_device uuid_show tenant device =
     \<lparr>sp_raw = ascii ''spiffe://'' @ TRUST_DOMAIN @ ascii ''/'' @ uuid_show tenant @ ascii ''/device/'' @ uuid_show device,
      sp_kind = SpiffeDevice tenant device\<rparr>"

text \<open>The match on the segments of the path; 47 is the slash.\<close>

definition spiffe_path :: "(bytes \<Rightarrow> uuid option) \<Rightarrow> bytes \<Rightarrow> bytes list \<Rightarrow> id_error + spiffe_kind" where
  "spiffe_path uuid_parse rest segs =
     (let unrecognized = Inl (IdSpiffe (ascii ''unrecognized path '' @ rest)) in
      case segs of
        [a, name] \<Rightarrow> if a = ascii ''service'' then Inr (SpiffeService name None) else unrecognized
      | [a, b, c] \<Rightarrow>
          if a = ascii ''service''
          then bind_res (ok_or IdUuid (uuid_parse c)) (\<lambda>inst. Inr (SpiffeService b (Some inst)))
          else if b = ascii ''device''
          then bind_res (ok_or IdUuid (uuid_parse a)) (\<lambda>tenant.
               bind_res (ok_or IdUuid (uuid_parse c)) (\<lambda>device. Inr (SpiffeDevice tenant device)))
          else unrecognized
      | _ \<Rightarrow> unrecognized)"

definition spiffe_parse :: "(bytes \<Rightarrow> uuid option) \<Rightarrow> bytes \<Rightarrow> id_error + spiffe_id" where
  "spiffe_parse uuid_parse uri =
     bind_res (ok_or (IdSpiffe (ascii ''scheme'')) (strip_prefix (ascii ''spiffe://'') uri)) (\<lambda>rest.
     let parts = split_on 47 rest in
     if hd parts \<noteq> TRUST_DOMAIN then Inl (IdSpiffe (ascii ''trust domain''))
     else bind_res (spiffe_path uuid_parse rest (tl parts)) (\<lambda>kind. Inr \<lparr>sp_raw = uri, sp_kind = kind\<rparr>))"

section \<open>The TLS peer\<close>

datatype tls_error = TlsX509 | NoPeerCertificate

record peer_id =
  pi_spiffe :: "spiffe_id option"
  pi_cert_sha256 :: bytes

record session_info =
  in_tenant :: uuid
  in_device :: uuid
  in_tls_cert_sha256 :: bytes
  in_issued_at :: i64

text \<open>The libraries: \<open>uuid\<close>, \<open>x509-parser\<close> (the URI names of a certificate), the header text of
  \<open>tonic\<close>, \<open>base64ct\<close>, \<open>hex\<close> and \<open>serde_json\<close>.\<close>

record auth_libs =
  al_uuid_show :: "uuid \<Rightarrow> bytes"
  al_uuid_parse :: "bytes \<Rightarrow> uuid option"
  al_uris :: "bytes \<Rightarrow> bytes list option"
  al_header_str :: "bytes \<Rightarrow> bytes option"
  al_b64_encode :: "bytes \<Rightarrow> bytes"
  al_b64_decode :: "bytes \<Rightarrow> bytes option"
  al_hex :: "bytes \<Rightarrow> bytes"
  al_info_json :: "session_info \<Rightarrow> bytes"
  al_info_of :: "bytes \<Rightarrow> session_info option"

fun first_spiffe :: "(bytes \<Rightarrow> uuid option) \<Rightarrow> bytes list \<Rightarrow> spiffe_id option" where
  "first_spiffe uuid_parse [] = None"
| "first_spiffe uuid_parse (uri # uris) =
    (case spiffe_parse uuid_parse uri of Inr i \<Rightarrow> Some i | Inl _ \<Rightarrow> first_spiffe uuid_parse uris)"

definition spiffe_from_cert_der :: "auth_libs \<Rightarrow> bytes \<Rightarrow> tls_error + spiffe_id option" where
  "spiffe_from_cert_der L der =
     (case al_uris L der of None \<Rightarrow> Inl TlsX509 | Some uris \<Rightarrow> Inr (first_spiffe (al_uuid_parse L) uris))"

text \<open>What a handler sees of a request besides its message: the TLS certificates of the peer and the
  header \<open>x-avon-session\<close>.\<close>

record request =
  tq_peer_certs :: "bytes list option"
  tq_session :: "bytes option"

definition peer_identity :: "prims \<Rightarrow> auth_libs \<Rightarrow> request \<Rightarrow> tls_error + peer_id" where
  "peer_identity P L req =
     (case tq_peer_certs req of
        Some (der # _) \<Rightarrow>
          bind_res (spiffe_from_cert_der L der) (\<lambda>spiffe. Inr \<lparr>pi_spiffe = spiffe, pi_cert_sha256 = p_sha256 P der\<rparr>)
      | _ \<Rightarrow> Inl NoPeerCertificate)"

datatype principal = ServicePrincipal bytes "uuid option" | DevicePrincipal uuid uuid bytes | Anonymous

definition principal_of :: "prims \<Rightarrow> auth_libs \<Rightarrow> request \<Rightarrow> principal" where
  "principal_of P L req =
     (case peer_identity P L req of
        Inr peer \<Rightarrow>
          (case map_option sp_kind (pi_spiffe peer) of
             Some (SpiffeService name inst) \<Rightarrow> ServicePrincipal name inst
           | Some (SpiffeDevice tenant device) \<Rightarrow> DevicePrincipal tenant device (pi_cert_sha256 peer)
           | None \<Rightarrow> Anonymous)
      | Inl _ \<Rightarrow> Anonymous)"

definition require_service :: "prims \<Rightarrow> auth_libs \<Rightarrow> request \<Rightarrow> bytes list \<Rightarrow> status + bytes \<times> uuid option" where
  "require_service P L req allowed =
     (case principal_of P L req of
        ServicePrincipal name inst \<Rightarrow>
          if name \<in> set allowed then Inr (name, inst)
          else Inl (PermissionDenied, ascii ''service '' @ name @ ascii '' not allowed'')
      | _ \<Rightarrow> Inl (Unauthenticated, ascii ''service client certificate required''))"

definition require_device :: "prims \<Rightarrow> auth_libs \<Rightarrow> request \<Rightarrow> status + uuid \<times> uuid \<times> bytes" where
  "require_device P L req =
     (case principal_of P L req of
        DevicePrincipal tenant device tls \<Rightarrow> Inr (tenant, device, tls)
      | _ \<Rightarrow> Inl (Unauthenticated, ascii ''device client certificate required''))"

definition session_token :: "auth_libs \<Rightarrow> request \<Rightarrow> status + bytes" where
  "session_token L req =
     (let invalid = (Unauthenticated, ascii ''invalid x-avon-session'') in
      bind_res (ok_or (Unauthenticated, ascii ''missing x-avon-session'') (tq_session req)) (\<lambda>raw.
      bind_res (ok_or invalid (al_header_str L raw)) (\<lambda>value.
      bind_res (ok_or invalid (al_b64_decode L value)) (\<lambda>bs.
      if length bs = 32 then Inr bs else Inl invalid))))"

section \<open>Session tokens\<close>

text \<open>The commands of Redis that the store uses, on a store of type \<open>'r\<close>.\<close>

record 'r redis_lib =
  rl_get :: "'r \<Rightarrow> int \<Rightarrow> bytes \<Rightarrow> bytes option"
  rl_exists :: "'r \<Rightarrow> int \<Rightarrow> bytes \<Rightarrow> bool"
  rl_set_ex :: "'r \<Rightarrow> int \<Rightarrow> bytes \<Rightarrow> bytes \<Rightarrow> nat \<Rightarrow> 'r"

datatype redis_cmd = SetToken | GetToken | ExistsRevoked | SetRevoked

abbreviation store_down :: status where
  "store_down \<equiv> (Unavailable, ascii ''session store'')"

definition token_key :: "auth_libs \<Rightarrow> bytes \<Rightarrow> bytes" where
  "token_key L token = ascii ''avon:session:'' @ al_hex L token"

definition revoked_key :: "auth_libs \<Rightarrow> uuid \<Rightarrow> bytes" where
  "revoked_key L device = ascii ''avon:device-revoked:'' @ al_uuid_show L device"

definition store_issue ::
  "auth_libs \<Rightarrow> 'r redis_lib \<Rightarrow> (redis_cmd \<Rightarrow> bool) \<Rightarrow> int \<Rightarrow> nat \<Rightarrow> bytes \<Rightarrow> uuid \<Rightarrow> uuid \<Rightarrow> bytes \<Rightarrow> 'r \<Rightarrow>
   (status + bytes) \<times> 'r" where
  "store_issue L R up now ttl token tenant device tls rd =
     (if \<not> up SetToken then (Inl store_down, rd)
      else (Inr token, rl_set_ex R rd now (token_key L token)
        (al_info_json L \<lparr>in_tenant = tenant, in_device = device, in_tls_cert_sha256 = tls, in_issued_at = word_of_int now\<rparr>) ttl))"

definition store_lookup ::
  "auth_libs \<Rightarrow> 'r redis_lib \<Rightarrow> (redis_cmd \<Rightarrow> bool) \<Rightarrow> int \<Rightarrow> bytes \<Rightarrow> 'r \<Rightarrow> status + session_info option" where
  "store_lookup L R up now token rd =
     (if \<not> up GetToken then Inl store_down
      else case rl_get R rd now (token_key L token) of
        None \<Rightarrow> Inr None
      | Some raw \<Rightarrow>
          bind_res (ok_or (Internal, ascii ''decode'') (al_info_of L raw)) (\<lambda>info.
          if \<not> up ExistsRevoked then Inl store_down
          else if rl_exists R rd now (revoked_key L (in_device info)) then Inr None
          else Inr (Some info)))"

definition store_revoke ::
  "auth_libs \<Rightarrow> 'r redis_lib \<Rightarrow> (redis_cmd \<Rightarrow> bool) \<Rightarrow> int \<Rightarrow> nat \<Rightarrow> uuid \<Rightarrow> 'r \<Rightarrow> (status + unit) \<times> 'r" where
  "store_revoke L R up now ttl device rd =
     (if \<not> up SetRevoked then (Inl store_down, rd)
      else (Inr (), rl_set_ex R rd now (revoked_key L device) (ascii ''1'') ttl))"

section \<open>Authentication\<close>

definition auth_message :: "bytes \<Rightarrow> bytes \<Rightarrow> bytes \<Rightarrow> bytes" where
  "auth_message nonce tls_client_cert_sha256 server_tls_cert_sha256 = nonce @ tls_client_cert_sha256 @ server_tls_cert_sha256"

definition verify_device_certificate ::
  "prims \<Rightarrow> auth_libs \<Rightarrow> bool \<Rightarrow> int \<Rightarrow> ('n, 'c) app_state \<Rightarrow> certificate \<Rightarrow> bytes \<Rightarrow> status + uuid \<times> uuid" where
  "verify_device_certificate P L up now st cert tls =
     (let chain = ap_chain st in
      bind_res (map_err (\<lambda>_. (Unauthenticated, ascii ''certificate invalid''))
        (chain_verify P (kc_verifier chain) cert [kc_issuing chain] now)) (\<lambda>_.
      if tb_tls_cert_sha256 (ce_tbs cert) \<noteq> Some tls
      then Inl (Unauthenticated, ascii ''certificate not bound to this TLS identity'')
      else if crl_contains (kc_crl chain) (tb_serial (ce_tbs cert))
      then Inl (PermissionDenied, ascii ''certificate revoked'')
      else
        bind_res (ok_or (Unauthenticated, ascii ''certificate tenant'') (al_uuid_parse L (tb_tenant_id (ce_tbs cert)))) (\<lambda>tenant.
        let device = tb_subject_id (ce_tbs cert) in
        if \<not> up then Inl db_down
        else case find (\<lambda>d. dv_id d = device \<and> dv_tenant d = tenant) (db_devices (ap_db st)) of
          Some d \<Rightarrow> if dv_status d = Active then Inr (tenant, device) else Inl (PermissionDenied, ascii ''device not active'')
        | None \<Rightarrow> Inl (Unauthenticated, ascii ''unknown device''))))"

record device_credentials =
  dc_tenant :: uuid
  dc_device :: uuid
  dc_tls_cert_sha256 :: bytes
  dc_token :: bytes

definition device_credentials_of :: "prims \<Rightarrow> auth_libs \<Rightarrow> request \<Rightarrow> status + device_credentials" where
  "device_credentials_of P L req =
     bind_res (require_device P L req) (\<lambda>(tenant, device, tls).
     bind_res (session_token L req) (\<lambda>token.
     Inr \<lparr>dc_tenant = tenant, dc_device = device, dc_tls_cert_sha256 = tls, dc_token = token\<rparr>))"

definition session_for ::
  "auth_libs \<Rightarrow> 'r redis_lib \<Rightarrow> (redis_cmd \<Rightarrow> bool) \<Rightarrow> int \<Rightarrow> device_credentials \<Rightarrow> 'r \<Rightarrow> status + session_info" where
  "session_for L R up now creds rd =
     bind_res (store_lookup L R up now (dc_token creds) rd) (\<lambda>found.
     bind_res (ok_or (Unauthenticated, ascii ''session expired'') found) (\<lambda>info.
     if in_tenant info \<noteq> dc_tenant creds \<or> in_device info \<noteq> dc_device creds \<or>
        in_tls_cert_sha256 info \<noteq> dc_tls_cert_sha256 creds
     then Inl (Unauthenticated, ascii ''session does not match TLS identity'')
     else Inr info))"

definition authenticated_device ::
  "prims \<Rightarrow> auth_libs \<Rightarrow> 'r redis_lib \<Rightarrow> (redis_cmd \<Rightarrow> bool) \<Rightarrow> int \<Rightarrow> request \<Rightarrow> 'r \<Rightarrow> status + session_info" where
  "authenticated_device P L R up now req rd =
     bind_res (device_credentials_of P L req) (\<lambda>creds. session_for L R up now creds rd)"

text \<open>The rows of \<open>certificates\<close> a device may be offered a session on.\<close>

definition gateway_certificates :: "int \<Rightarrow> control_db \<Rightarrow> bytes list" where
  "gateway_certificates now db =
     map cr_certificate (filter (\<lambda>c. cr_kind c = ascii ''gateway'' \<and> cr_revoked_at c = None \<and> cr_not_after c > now) (db_certs db))"

record auth_result =
  au_kem_ciphertext :: bytes
  au_sealed_token :: bytes
  au_expires_at :: i64
  au_chain :: "bytes \<times> bytes \<times> bytes"
  au_gateway_certificates :: "bytes list"

datatype auth_msg = AuthHello "bytes option" | AuthChallenge bytes bytes | AuthProof bytes | AuthResult auth_result

text \<open>The handshake between its two messages: the task has sent the challenge and waits for the proof.\<close>

record auth_pending =
  aq_cert :: certificate
  aq_tenant :: uuid
  aq_device :: uuid
  aq_tls :: bytes
  aq_nonce :: bytes

definition hello_of :: "auth_msg option \<Rightarrow> status + bytes option" where
  "hello_of m = (case m of Some (AuthHello c) \<Rightarrow> Inr c | _ \<Rightarrow> Inl (InvalidArgument, ascii ''expected hello''))"

definition proof_of :: "auth_msg option \<Rightarrow> status + bytes" where
  "proof_of m = (case m of Some (AuthProof b) \<Rightarrow> Inr b | _ \<Rightarrow> Inl (Unauthenticated, ascii ''expected proof''))"

lemma hello_of_Inr [res_simps]: "hello_of m = Inr c \<longleftrightarrow> m = Some (AuthHello c)"
  by (auto simp: hello_of_def split: option.splits auth_msg.splits)

lemma proof_of_Inr [res_simps]: "proof_of m = Inr b \<longleftrightarrow> m = Some (AuthProof b)"
  by (auto simp: proof_of_def split: option.splits auth_msg.splits)

text \<open>The handshake up to the challenge.  \<open>inbound\<close> is what the stream yields, \<open>sent\<close> whether the client is
  still there.\<close>

definition auth_hello ::
  "prims \<Rightarrow> auth_libs \<Rightarrow> bool \<Rightarrow> int \<Rightarrow> ('n, 'c) app_state \<Rightarrow> request \<Rightarrow> status + auth_msg option \<Rightarrow> bytes \<Rightarrow> bool \<Rightarrow>
   status + auth_pending \<times> auth_msg" where
  "auth_hello P L up now st req inbound nonce sent =
     bind_res (require_device P L req) (\<lambda>(_, _, tls).
     bind_res inbound (\<lambda>m.
     bind_res (hello_of m) (\<lambda>certificate.
     bind_res (ok_or (InvalidArgument, ascii ''certificate'') certificate) (\<lambda>encoded.
     bind_res (map_err (\<lambda>_. (InvalidArgument, ascii ''certificate encoding'')) (cert_decode P encoded)) (\<lambda>cert.
     bind_res (verify_device_certificate P L up now st cert tls) (\<lambda>(tenant, device).
     if \<not> sent then Inl (Cancelled, ascii ''client gone'')
     else Inr (\<lparr>aq_cert = cert, aq_tenant = tenant, aq_device = device, aq_tls = tls, aq_nonce = nonce\<rparr>,
               AuthChallenge nonce (ap_server_cert_sha256 st))))))))"

text \<open>The random choices of the second half: the encapsulation and the token.\<close>

record auth_coins =
  ac_x25519 :: bytes
  ac_mlkem :: bytes
  ac_token :: bytes

definition auth_result_of ::
  "('n, 'c) app_state \<Rightarrow> int \<Rightarrow> bool \<Rightarrow> kem_ciphertext \<Rightarrow> bytes \<Rightarrow> auth_result" where
  "auth_result_of st now certs_up ct sealed =
     \<lparr>au_kem_ciphertext = kem_ct_to_bytes ct, au_sealed_token = sealed,
      au_expires_at = word_of_int now + word_of_nat (ap_session_ttl_secs st),
      au_chain = (cert_encode (kc_root (ap_chain st)), cert_encode (kc_issuing (ap_chain st)), kc_tls_ca_pem (ap_chain st)),
      au_gateway_certificates = (if certs_up then gateway_certificates now (ap_db st) else [])\<rparr>"

text \<open>The proof: \<open>None\<close> if none came within ten seconds.  \<open>dbs\<close> tells which of the two statements
  succeed, reading the gateway certificates and updating the device.\<close>

definition auth_proof ::
  "prims \<Rightarrow> auth_libs \<Rightarrow> 'r redis_lib \<Rightarrow> (redis_cmd \<Rightarrow> bool) \<Rightarrow> bool \<times> bool \<Rightarrow> int \<Rightarrow> auth_coins \<Rightarrow> auth_pending \<Rightarrow> auth_msg option \<Rightarrow>
   bool \<Rightarrow> ('n, 'c) app_state \<Rightarrow> 'r \<Rightarrow> (status + auth_result) \<times> ('n, 'c) app_state \<times> 'r" where
  "auth_proof P L R up dbs now coins p inbound sent st rd =
     (case
       bind_res (proof_of inbound) (\<lambda>signature.
       bind_res (map_err (\<lambda>_. (Unauthenticated, ascii ''proof'')) (sig_from_bytes signature)) (\<lambda>sig.
       bind_res (map_err (\<lambda>_. (Unauthenticated, ascii ''proof invalid''))
         (hybrid_verify P (tb_signing_key (ce_tbs (aq_cert p))) Auth
           (auth_message (aq_nonce p) (aq_tls p) (ap_server_cert_sha256 st)) sig)) (\<lambda>_.
       bind_res (ok_or (Unauthenticated, ascii ''certificate has no kem key'') (tb_kem_key (ce_tbs (aq_cert p)))) (\<lambda>kem_pk.
       map_err (\<lambda>_. (Internal, ascii ''kem'')) (encapsulate P (ac_x25519 coins) (ac_mlkem coins) kem_pk)))))
      of
        Inl e \<Rightarrow> (Inl e, st, rd)
      | Inr (ct, ss) \<Rightarrow>
          (case store_issue L R up now (ap_session_ttl_secs st) (ac_token coins) (aq_tenant p) (aq_device p) (aq_tls p) rd of
             (Inl e, rd) \<Rightarrow> (Inl e, st, rd)
           | (Inr token, rd) \<Rightarrow>
               (case seal_session_token P token ss (aq_nonce p) of
                  Inl _ \<Rightarrow> (Inl (Internal, ascii ''seal''), st, rd)
                | Inr sealed \<Rightarrow>
                    let result = auth_result_of st now (fst dbs) ct sealed;
                        st' = (if snd dbs
                          then st\<lparr>ap_db := set_devices (\<lambda>d. dv_id d = aq_device p)
                                 (\<lambda>d. d\<lparr>dv_last_seen := Some now, dv_liveness := Online\<rparr>) (ap_db st)\<rparr>
                          else st)
                    in (if sent then Inr result else Inl (Cancelled, ascii ''client gone''), st', rd))))"

section \<open>The device's side\<close>

text \<open>The errors of the agent; an error of a library is its text.\<close>

datatype agent_error =
    AgIdentity string
  | AgControl string
  | AgTunnel tunnel_error
  | AgCrypto crypto_error
  | AgKeystore string
  | AgProtocol string
  | AgEndpoint string
  | AgTun string
  | AgIo string
  | AgTransport string
  | AgTls string
  | AgStatus string
  | AgReauthenticate

definition auth_message_bytes :: "bytes \<Rightarrow> bytes \<Rightarrow> bytes \<Rightarrow> bytes" where
  "auth_message_bytes nonce client_hash server_hash = nonce @ client_hash @ server_hash"

text \<open>The key provider's \<open>sign\<close> and \<open>decapsulate\<close> are arguments; an error of theirs is its text.\<close>

definition client_prove ::
  "(domain \<Rightarrow> bytes \<Rightarrow> string + hybrid_signature) \<Rightarrow> bytes \<Rightarrow> auth_msg \<Rightarrow> agent_error + auth_msg \<times> bytes" where
  "client_prove sign client_hash m =
     (case m of
        AuthChallenge nonce server_hash \<Rightarrow>
          if length nonce \<noteq> 32 then Inl (AgProtocol ''nonce len'')
          else if length server_hash \<noteq> 32 then Inl (AgProtocol ''server hash len'')
          else bind_res (map_err AgProtocol (sign Auth (auth_message_bytes nonce client_hash server_hash))) (\<lambda>sig.
               Inr (AuthProof (sig_to_bytes sig), nonce))
      | _ \<Rightarrow> Inl (AgProtocol ''expected challenge''))"

record control_client =
  ct_token :: "bytes option"
  ct_gateway_certs :: "certificate list"

definition client_accept ::
  "prims \<Rightarrow> auth_libs \<Rightarrow> (kem_ciphertext \<Rightarrow> string + bytes) \<Rightarrow> bytes \<Rightarrow> auth_msg \<Rightarrow> agent_error + control_client" where
  "client_accept P L decaps nonce m =
     (case m of
        AuthResult r \<Rightarrow>
          bind_res (map_err AgCrypto (kem_ct_from_bytes (au_kem_ciphertext r))) (\<lambda>ct.
          bind_res (map_err AgProtocol (decaps ct)) (\<lambda>ss.
          bind_res (map_err AgCrypto (open_session_token P (au_sealed_token r) ss nonce)) (\<lambda>token.
          Inr \<lparr>ct_token = Some (al_b64_encode L token),
               ct_gateway_certs = List.map_filter
                 (\<lambda>bs. case cert_decode P bs of Inr c \<Rightarrow> Some c | Inl _ \<Rightarrow> None) (au_gateway_certificates r)\<rparr>)))
      | _ \<Rightarrow> Inl (AgProtocol ''expected result''))"

section \<open>Renewal\<close>

text \<open>\<open>ORDER BY not_after DESC LIMIT 1\<close>\<close>

definition newest_cert :: "cert_row list \<Rightarrow> cert_row option" where
  "newest_cert rows = (case sort_key (\<lambda>c. - cr_not_after c) rows of [] \<Rightarrow> None | c # _ \<Rightarrow> Some c)"

definition renew ::
  "prims \<Rightarrow> auth_libs \<Rightarrow> bool \<Rightarrow> session_info \<Rightarrow> bytes \<Rightarrow> (uuid \<Rightarrow> uuid \<Rightarrow> bytes list \<Rightarrow> 'cred option) \<Rightarrow> control_db \<Rightarrow> status + 'cred" where
  "renew P L up info tbs_template issue_device db =
     bind_res (map_err (\<lambda>_. (InvalidArgument, ascii ''csr template'')) (tbs_decode P tbs_template)) (\<lambda>template.
     if tb_kind template \<noteq> Device then Inl (InvalidArgument, ascii ''csr kind'')
     else if \<not> up then Inl db_down
     else
       let current = newest_cert (filter (\<lambda>c. cr_subject c = in_device info \<and> cr_revoked_at c = None) (db_certs db));
           other_key = (case current of
             Some row \<Rightarrow> (case cert_decode P (cr_certificate row) of
                Inr c \<Rightarrow> tb_signing_key (ce_tbs c) \<noteq> tb_signing_key template | Inl _ \<Rightarrow> False)
           | None \<Rightarrow> False)
       in if other_key then Inl (PermissionDenied, ascii ''signing key must match the current credential'')
          else ok_or (Unavailable, ascii ''certificate authority'')
            (issue_device (in_tenant info) (in_device info)
              [sp_raw (spiffe_device (al_uuid_show L) (in_tenant info) (in_device info))]))"

section \<open>What is relied on\<close>

text \<open>\<open>SETEX\<close>, \<open>GET\<close> and \<open>EXISTS\<close> as Redis documents them: a key holds what was last set until its time to live
  is over, and setting one key leaves the others alone.\<close>

definition redis_laws :: "'r redis_lib \<Rightarrow> bool" where
  "redis_laws R =
     ((\<forall>r t k v ttl t' k'. 0 < ttl \<longrightarrow> t \<le> t' \<longrightarrow>
         rl_get R (rl_set_ex R r t k v ttl) t' k' =
           (if k' = k then if t' < t + int ttl then Some v else None else rl_get R r t' k')) \<and>
      (\<forall>r t k. rl_exists R r t k = (rl_get R r t k \<noteq> None)))"

text \<open>The encodings are read back.\<close>

definition auth_laws :: "auth_libs \<Rightarrow> bool" where
  "auth_laws L =
     ((\<forall>b. al_b64_decode L (al_b64_encode L b) = Some b \<and> al_header_str L (al_b64_encode L b) = Some (al_b64_encode L b)) \<and>
      (\<forall>a b. al_hex L a = al_hex L b \<longrightarrow> a = b) \<and>
      (\<forall>i. al_info_of L (al_info_json L i) = Some i))"

lemma keys_apart: "token_key L token \<noteq> revoked_key L device"
  by (simp add: token_key_def revoked_key_def)

lemma token_key_inj: "auth_laws L \<Longrightarrow> token_key L a = token_key L b \<longleftrightarrow> a = b"
  by (auto simp: auth_laws_def token_key_def simp del: ascii_simps)

lemma redis_get:
  "redis_laws R \<Longrightarrow> 0 < ttl \<Longrightarrow> t \<le> t' \<Longrightarrow>
   rl_get R (rl_set_ex R r t k v ttl) t' k' = (if k' = k then if t' < t + int ttl then Some v else None else rl_get R r t' k')"
  by (simp add: redis_laws_def)

lemma redis_exists: "redis_laws R \<Longrightarrow> rl_exists R r t k \<longleftrightarrow> rl_get R r t k \<noteq> None"
  by (simp add: redis_laws_def)

section \<open>Runs\<close>

text \<open>Any number of handshakes, told apart by a number, and revocations, each with its time and with the
  state of the control plane it sees.\<close>

datatype ('n, 'c) auth_event =
    Hello nat bool int "('n, 'c) app_state" request "status + auth_msg option" bytes bool
  | Proof nat "redis_cmd \<Rightarrow> bool" "bool \<times> bool" int auth_coins "auth_msg option" bool "('n, 'c) app_state"
  | RevokeTokens "redis_cmd \<Rightarrow> bool" int nat uuid

fun event_time :: "('n, 'c) auth_event \<Rightarrow> int" where
  "event_time (Hello _ _ t _ _ _ _ _) = t"
| "event_time (Proof _ _ _ t _ _ _ _) = t"
| "event_time (RevokeTokens _ t _ _) = t"

fun uses_ttl :: "nat \<Rightarrow> ('n, 'c) auth_event \<Rightarrow> bool" where
  "uses_ttl T (Hello _ _ _ _ _ _ _ _) = True"
| "uses_ttl T (Proof _ _ _ _ _ _ _ st) = (ap_session_ttl_secs st = T)"
| "uses_ttl T (RevokeTokens _ _ ttl _) = (ttl = T)"

record 'r auth_sys =
  as_open :: "(nat \<times> auth_pending) list"
  as_store :: 'r

fun auth_step :: "prims \<Rightarrow> auth_libs \<Rightarrow> 'r redis_lib \<Rightarrow> 'r auth_sys \<Rightarrow> ('n, 'c) auth_event \<Rightarrow> 'r auth_sys" where
  "auth_step P L R s (Hello conn up t st req inbound nonce sent) =
    (case auth_hello P L up t st req inbound nonce sent of
       Inr (p, _) \<Rightarrow> s\<lparr>as_open := AList.update conn p (as_open s)\<rparr>
     | Inl _ \<Rightarrow> s)"
| "auth_step P L R s (Proof conn up dbs t coins inbound sent st) =
    (case map_of (as_open s) conn of
       None \<Rightarrow> s
     | Some p \<Rightarrow> s\<lparr>as_open := AList.delete conn (as_open s),
         as_store := snd (snd (auth_proof P L R up dbs t coins p inbound sent st (as_store s)))\<rparr>)"
| "auth_step P L R s (RevokeTokens up t ttl device) =
    s\<lparr>as_store := snd (store_revoke L R up t ttl device (as_store s))\<rparr>"

definition auth_run :: "prims \<Rightarrow> auth_libs \<Rightarrow> 'r redis_lib \<Rightarrow> 'r auth_sys \<Rightarrow> ('n, 'c) auth_event list \<Rightarrow> 'r auth_sys" where
  "auth_run P L R = foldl (auth_step P L R)"

definition hello_seen :: "prims \<Rightarrow> auth_libs \<Rightarrow> ('n, 'c) auth_event list \<Rightarrow> nat \<Rightarrow> auth_pending \<Rightarrow> bool" where
  "hello_seen P L es conn p = (\<exists>up t st req inbound nonce sent ch.
     Hello conn up t st req inbound nonce sent \<in> set es \<and> auth_hello P L up t st req inbound nonce sent = Inr (p, ch))"

text \<open>A completed handshake behind a token.\<close>

definition proved ::
  "prims \<Rightarrow> auth_libs \<Rightarrow> ('n, 'c) auth_event list \<Rightarrow> nat \<Rightarrow> auth_pending \<Rightarrow> bytes \<Rightarrow> int \<Rightarrow> bool" where
  "proved P L es conn p token t = (\<exists>up dbs coins signature sig sent st.
     hello_seen P L es conn p \<and> Proof conn up dbs t coins (Some (AuthProof signature)) sent st \<in> set es \<and>
     sig_from_bytes signature = Inr sig \<and>
     hybrid_verify P (tb_signing_key (ce_tbs (aq_cert p))) Auth
       (auth_message (aq_nonce p) (aq_tls p) (ap_server_cert_sha256 st)) sig = Inr () \<and>
     token = ac_token coins)"

definition info_of :: "auth_pending \<Rightarrow> int \<Rightarrow> session_info" where
  "info_of p t = \<lparr>in_tenant = aq_tenant p, in_device = aq_device p, in_tls_cert_sha256 = aq_tls p, in_issued_at = word_of_int t\<rparr>"

definition auth_inv :: "prims \<Rightarrow> auth_libs \<Rightarrow> 'r redis_lib \<Rightarrow> nat \<Rightarrow> ('n, 'c) auth_event list \<Rightarrow> 'r auth_sys \<Rightarrow> bool" where
  "auth_inv P L R T es s =
     ((\<forall>conn p. map_of (as_open s) conn = Some p \<longrightarrow> hello_seen P L es conn p) \<and>
      (\<forall>t token raw. (\<forall>e\<in>set es. event_time e \<le> t) \<longrightarrow> rl_get R (as_store s) t (token_key L token) = Some raw \<longrightarrow>
         (\<exists>conn p t2. raw = al_info_json L (info_of p t2) \<and> t < t2 + int T \<and> proved P L es conn p token t2)) \<and>
      (\<forall>up t0 d t. RevokeTokens up t0 T d \<in> set es \<longrightarrow> up SetRevoked \<longrightarrow> (\<forall>e\<in>set es. event_time e \<le> t) \<longrightarrow>
         t < t0 + int T \<longrightarrow> rl_exists R (as_store s) t (revoked_key L d)))"

lemma hello_seen_mono: "hello_seen P L es conn p \<Longrightarrow> set es \<subseteq> set es' \<Longrightarrow> hello_seen P L es' conn p"
  unfolding hello_seen_def by blast

lemma proved_mono: "proved P L es conn p token t \<Longrightarrow> set es \<subseteq> set es' \<Longrightarrow> proved P L es' conn p token t"
  unfolding proved_def using hello_seen_mono by blast

lemma auth_invD:
  assumes "auth_inv P L R T es s"
  shows "map_of (as_open s) conn = Some p \<Longrightarrow> hello_seen P L es conn p"
    and "(\<And>e. e \<in> set es \<Longrightarrow> event_time e \<le> t) \<Longrightarrow> rl_get R (as_store s) t (token_key L token) = Some raw \<Longrightarrow>
      \<exists>conn p t2. raw = al_info_json L (info_of p t2) \<and> t < t2 + int T \<and> proved P L es conn p token t2"
    and "RevokeTokens up t0 T d \<in> set es \<Longrightarrow> up SetRevoked \<Longrightarrow> (\<And>e. e \<in> set es \<Longrightarrow> event_time e \<le> t) \<Longrightarrow>
      t < t0 + int T \<Longrightarrow> rl_exists R (as_store s) t (revoked_key L d)"
  using assms unfolding auth_inv_def by blast+

text \<open>The second half of the handshake writes the store at most once, after the signature is verified.\<close>

lemma proof_store:
  assumes "auth_proof P L R up dbs t coins p inbound sent st rd = (res, st', rd')"
  shows "rd' = rd \<or> (rd' = rl_set_ex R rd t (token_key L (ac_token coins)) (al_info_json L (info_of p t)) (ap_session_ttl_secs st) \<and>
    (\<exists>signature sig. inbound = Some (AuthProof signature) \<and> sig_from_bytes signature = Inr sig \<and>
      hybrid_verify P (tb_signing_key (ce_tbs (aq_cert p))) Auth
        (auth_message (aq_nonce p) (aq_tls p) (ap_server_cert_sha256 st)) sig = Inr ()))"
  using assms
  by (auto simp: auth_proof_def store_issue_def info_of_def res_simps Let_def
      split: option.splits auth_msg.splits sum.splits prod.splits if_splits)

text \<open>Setting a key for \<open>T\<close> seconds keeps the invariant, if a token it sets is explained by the events.\<close>

lemma inv_set:
  assumes R: "redis_laws R" and T: "0 < T" and inv: "auth_inv P L R T es s"
    and late: "\<forall>x\<in>set es. event_time x \<le> event_time e"
    and op: "map_of (as_open s') \<subseteq>\<^sub>m map_of (as_open s)"
    and st: "as_store s' = rl_set_ex R (as_store s) (event_time e) k v T"
    and tok: "\<And>token. k = token_key L token \<Longrightarrow>
      \<exists>conn p. v = al_info_json L (info_of p (event_time e)) \<and> proved P L (es @ [e]) conn p token (event_time e)"
    and rev: "\<And>up t0 d. e = RevokeTokens up t0 T d \<Longrightarrow> up SetRevoked \<Longrightarrow> k = revoked_key L d"
  shows "auth_inv P L R T (es @ [e]) s'"
proof -
  note i = auth_invD[OF inv]
  let ?t1 = "event_time e"
  have get: "rl_get R (as_store s') t k' = (if k' = k then if t < ?t1 + int T then Some v else None else rl_get R (as_store s) t k')"
    if "?t1 \<le> t" for t k' unfolding st by (rule redis_get[OF R T that])
  have sub: "set es \<subseteq> set (es @ [e])" by auto
  have "hello_seen P L (es @ [e]) conn p" if "map_of (as_open s') conn = Some p" for conn p
  proof -
    have "map_of (as_open s) conn = Some p" using op that by (metis domI map_le_def)
    from hello_seen_mono[OF i(1)[OF this] sub] show ?thesis .
  qed
  moreover have "\<exists>conn p t2. raw = al_info_json L (info_of p t2) \<and> t < t2 + int T \<and> proved P L (es @ [e]) conn p token t2"
    if t: "\<forall>x\<in>set (es @ [e]). event_time x \<le> t" and g: "rl_get R (as_store s') t (token_key L token) = Some raw" for t token raw
  proof (cases "token_key L token = k")
    case True
    from t have "?t1 \<le> t" by simp
    with g True get have "raw = v" "t < ?t1 + int T" by (auto split: if_splits)
    then show ?thesis using tok True by metis
  next
    case False
    have "rl_get R (as_store s) t (token_key L token) = Some raw" using g t get False by simp
    from i(2)[OF _ this] t obtain conn p t2 where "raw = al_info_json L (info_of p t2)" "t < t2 + int T" "proved P L es conn p token t2"
      by auto
    with proved_mono[OF _ sub] show ?thesis by blast
  qed
  moreover have "rl_exists R (as_store s') t (revoked_key L d)"
    if x: "RevokeTokens up t0 T d \<in> set (es @ [e])" "up SetRevoked" and t: "\<forall>x\<in>set (es @ [e]). event_time x \<le> t" "t < t0 + int T"
    for up t0 d t
  proof (cases "revoked_key L d = k")
    case True
    have "t0 \<le> ?t1" using x(1) late by fastforce
    then have "t < ?t1 + int T" using t(2) by linarith
    then show ?thesis using True get[of t "revoked_key L d"] t(1) redis_exists[OF R] by simp
  next
    case False
    then have "RevokeTokens up t0 T d \<in> set es" using rev x by auto
    from i(3)[OF this x(2) _ t(2)] t(1) have "rl_exists R (as_store s) t (revoked_key L d)" by simp
    then show ?thesis using False get[of t "revoked_key L d"] t(1) redis_exists[OF R] by simp
  qed
  ultimately show ?thesis unfolding auth_inv_def by blast
qed

text \<open>An event that leaves the store alone.\<close>

lemma inv_keep:
  assumes inv: "auth_inv P L R T es s" and st: "as_store s' = as_store s"
    and op: "\<And>conn p. map_of (as_open s') conn = Some p \<Longrightarrow> hello_seen P L (es @ [e]) conn p"
    and rev: "\<And>up t0 d. e = RevokeTokens up t0 T d \<Longrightarrow> \<not> up SetRevoked"
  shows "auth_inv P L R T (es @ [e]) s'"
proof -
  note i = auth_invD[OF inv]
  have sub: "set es \<subseteq> set (es @ [e])" by auto
  have "\<exists>conn p t2. raw = al_info_json L (info_of p t2) \<and> t < t2 + int T \<and> proved P L (es @ [e]) conn p token t2"
    if t: "\<forall>x\<in>set (es @ [e]). event_time x \<le> t" and g: "rl_get R (as_store s') t (token_key L token) = Some raw" for t token raw
  proof -
    obtain conn p t2 where "raw = al_info_json L (info_of p t2)" "t < t2 + int T" "proved P L es conn p token t2"
      using i(2)[of t token raw] t g st by auto
    with proved_mono[OF _ sub] show ?thesis by blast
  qed
  moreover have "rl_exists R (as_store s') t (revoked_key L d)"
    if x: "RevokeTokens up t0 T d \<in> set (es @ [e])" "up SetRevoked" and t: "\<forall>x\<in>set (es @ [e]). event_time x \<le> t" "t < t0 + int T"
    for up t0 d t
  proof -
    have "RevokeTokens up t0 T d \<in> set es" using x rev by auto
    from i(3)[OF this x(2) _ t(2)] t(1) show ?thesis by (simp add: st)
  qed
  ultimately show ?thesis using op unfolding auth_inv_def by blast
qed

lemma inv_step:
  assumes R: "redis_laws R" and L: "auth_laws L" and T: "0 < T" and inv: "auth_inv P L R T es s"
    and late: "\<forall>x\<in>set es. event_time x \<le> event_time e" and ttl: "uses_ttl T e"
  shows "auth_inv P L R T (es @ [e]) (auth_step P L R s e)"
proof -
  have seen: "hello_seen P L (es @ [e]) conn p" if "map_of (as_open s) conn = Some p" for conn p
    using inv that hello_seen_mono[of P L es conn p "es @ [e]"] by (auto simp: auth_inv_def)
  show ?thesis
  proof (cases e)
    case e: (Hello conn up t st req inbound nonce sent)
    have "hello_seen P L (es @ [e]) conn p" if "auth_hello P L up t st req inbound nonce sent = Inr (p, ch)" for p ch
      using that e unfolding hello_seen_def by fastforce
    then have op: "hello_seen P L (es @ [e]) conn' p" if "map_of (as_open (auth_step P L R s e)) conn' = Some p" for conn' p
      using that seen e by (auto simp: AList.update_conv' split: sum.splits if_splits)
    have "as_store (auth_step P L R s e) = as_store s" using e by (simp split: sum.splits)
    then show ?thesis by (rule inv_keep[OF inv _ op]) (use e in simp_all)
  next
    case e: (Proof conn up dbs t coins inbound sent st)
    show ?thesis
    proof (cases "map_of (as_open s) conn")
      case (Some p)
      obtain res st' rd' where pr: "auth_proof P L R up dbs t coins p inbound sent st (as_store s) = (res, st', rd')"
        by (cases "auth_proof P L R up dbs t coins p inbound sent st (as_store s)")
      have step: "auth_step P L R s e = s\<lparr>as_open := AList.delete conn (as_open s), as_store := rd'\<rparr>"
        using Some pr e by simp
      have op: "map_of (as_open (auth_step P L R s e)) \<subseteq>\<^sub>m map_of (as_open s)"
        unfolding step by (auto simp: map_le_def AList.delete_conv')
      have time: "event_time e = t" "ap_session_ttl_secs st = T" using e ttl by simp_all
      have norev: "e \<noteq> RevokeTokens up' t0 ttl' d" for up' t0 ttl' d using e by simp
      from proof_store[OF pr] show ?thesis
      proof
        assume "rd' = as_store s"
        then have "as_store (auth_step P L R s e) = as_store s" by (simp add: step)
        then show ?thesis by (rule inv_keep[OF inv]) (use seen op norev in \<open>force simp: map_le_def\<close>)+
      next
        assume w: "rd' = rl_set_ex R (as_store s) t (token_key L (ac_token coins)) (al_info_json L (info_of p t)) (ap_session_ttl_secs st) \<and>
          (\<exists>signature sig. inbound = Some (AuthProof signature) \<and> sig_from_bytes signature = Inr sig \<and>
            hybrid_verify P (tb_signing_key (ce_tbs (aq_cert p))) Auth
              (auth_message (aq_nonce p) (aq_tls p) (ap_server_cert_sha256 st)) sig = Inr ())"
        then have "proved P L (es @ [e]) conn p (ac_token coins) t"
          using seen[OF Some] e unfolding proved_def by fastforce
        then have tok: "\<exists>conn q. al_info_json L (info_of p t) = al_info_json L (info_of q (event_time e)) \<and>
            proved P L (es @ [e]) conn q token (event_time e)" if "token_key L (ac_token coins) = token_key L token" for token
          using that token_key_inj[OF L] time(1) by metis
        have "as_store (auth_step P L R s e) =
            rl_set_ex R (as_store s) (event_time e) (token_key L (ac_token coins)) (al_info_json L (info_of p t)) T"
          using w time by (simp add: step)
        from inv_set[OF R T inv late op this tok] show ?thesis using norev by blast
      qed
    next
      case None
      then have "auth_step P L R s e = s" using e by simp
      then show ?thesis using seen e by (intro inv_keep[OF inv]) simp_all
    qed
  next
    case e: (RevokeTokens up t ttl' d)
    have op: "as_open (auth_step P L R s e) = as_open s" using e by simp
    show ?thesis
    proof (cases "up SetRevoked")
      case True
      have "as_store (auth_step P L R s e) = rl_set_ex R (as_store s) (event_time e) (revoked_key L d) (ascii ''1'') T"
        using e ttl True by (simp add: store_revoke_def)
      from inv_set[OF R T inv late _ this] show ?thesis using op e keys_apart[of L _ d] by (metis auth_event.inject(3) map_le_refl)
    next
      case False
      have "as_store (auth_step P L R s e) = as_store s" using e False by (simp add: store_revoke_def)
      then show ?thesis by (rule inv_keep[OF inv]) (use seen op e False in auto)
    qed
  qed
qed

lemma auth_run_inv:
  assumes "redis_laws R" and "auth_laws L" and "0 < T" and "\<And>t k. rl_get R rd0 t k = None"
  shows "sorted (map event_time es) \<Longrightarrow> list_all (uses_ttl T) es \<Longrightarrow>
    auth_inv P L R T es (auth_run P L R \<lparr>as_open = [], as_store = rd0\<rparr> es)"
proof (induction es rule: rev_induct)
  case Nil
  then show ?case using assms(4) by (simp add: auth_inv_def auth_run_def)
next
  case (snoc e es)
  then have "auth_inv P L R T es (auth_run P L R \<lparr>as_open = [], as_store = rd0\<rparr> es)" by (simp add: sorted_append)
  moreover have "auth_run P L R s (es @ [e]) = auth_step P L R (auth_run P L R s es) e" for s
    by (simp add: auth_run_def)
  ultimately show ?case using snoc.prems by (auto simp: sorted_append intro!: inv_step[OF assms(1-3)])
qed

text \<open>What the first half of the handshake has checked.\<close>

definition admitted :: "prims \<Rightarrow> auth_libs \<Rightarrow> int \<Rightarrow> ('n, 'c) app_state \<Rightarrow> request \<Rightarrow> auth_pending \<Rightarrow> bool" where
  "admitted P L now st req p =
     (is_ok (chain_verify P (kc_verifier (ap_chain st)) (aq_cert p) [kc_issuing (ap_chain st)] now) \<and>
      (\<exists>t d. require_device P L req = Inr (t, d, aq_tls p)) \<and>
      tb_tls_cert_sha256 (ce_tbs (aq_cert p)) = Some (aq_tls p) \<and>
      \<not> crl_contains (kc_crl (ap_chain st)) (tb_serial (ce_tbs (aq_cert p))) \<and>
      al_uuid_parse L (tb_tenant_id (ce_tbs (aq_cert p))) = Some (aq_tenant p) \<and>
      aq_device p = tb_subject_id (ce_tbs (aq_cert p)) \<and>
      (\<exists>row \<in> set (db_devices (ap_db st)). dv_id row = aq_device p \<and> dv_tenant row = aq_tenant p \<and> dv_status row = Active))"

lemma verify_device_iff:
  "verify_device_certificate P L up now st cert tls = Inr (tenant, device) \<longleftrightarrow>
   up \<and> is_ok (chain_verify P (kc_verifier (ap_chain st)) cert [kc_issuing (ap_chain st)] now) \<and>
   tb_tls_cert_sha256 (ce_tbs cert) = Some tls \<and> \<not> crl_contains (kc_crl (ap_chain st)) (tb_serial (ce_tbs cert)) \<and>
   al_uuid_parse L (tb_tenant_id (ce_tbs cert)) = Some tenant \<and> device = tb_subject_id (ce_tbs cert) \<and>
   (\<exists>row. find (\<lambda>d. dv_id d = device \<and> dv_tenant d = tenant) (db_devices (ap_db st)) = Some row \<and> dv_status row = Active)"
  by (auto simp: verify_device_certificate_def res_simps is_ok_iff Let_def split: option.splits)

lemma hello_cases:
  assumes "auth_hello P L up now st req inbound nonce sent = Inr (p, ch)"
  obtains t d encoded where "require_device P L req = Inr (t, d, aq_tls p)" "inbound = Inr (Some (AuthHello (Some encoded)))"
    "cert_decode P encoded = Inr (aq_cert p)"
    "verify_device_certificate P L up now st (aq_cert p) (aq_tls p) = Inr (aq_tenant p, aq_device p)"
    "aq_nonce p = nonce" "ch = AuthChallenge nonce (ap_server_cert_sha256 st)"
  using assms
  by (auto simp: auth_hello_def res_simps)

lemma hello_admits:
  assumes "auth_hello P L up now st req inbound nonce sent = Inr (p, ch)"
  shows "admitted P L now st req p" and "aq_nonce p = nonce" and "ch = AuthChallenge nonce (ap_server_cert_sha256 st)"
proof -
  obtain t d encoded where c: "require_device P L req = Inr (t, d, aq_tls p)"
    "verify_device_certificate P L up now st (aq_cert p) (aq_tls p) = Inr (aq_tenant p, aq_device p)"
    "aq_nonce p = nonce" "ch = AuthChallenge nonce (ap_server_cert_sha256 st)"
    by (rule hello_cases[OF assms])
  then show "aq_nonce p = nonce" "ch = AuthChallenge nonce (ap_server_cert_sha256 st)" by simp_all
  from c(1,2) show "admitted P L now st req p"
    by (force simp: admitted_def verify_device_iff dest: find_SomeD)
qed

lemma lookup_found:
  "store_lookup L R up now token rd = Inr (Some info) \<longleftrightarrow>
   up GetToken \<and> up ExistsRevoked \<and> (\<exists>raw. rl_get R rd now (token_key L token) = Some raw \<and> al_info_of L raw = Some info) \<and>
   \<not> rl_exists R rd now (revoked_key L (in_device info))"
  by (auto simp: store_lookup_def res_simps split: option.splits)

lemma session_for_iff:
  "session_for L R up now creds rd = Inr info \<longleftrightarrow>
   store_lookup L R up now (dc_token creds) rd = Inr (Some info) \<and> in_tenant info = dc_tenant creds \<and>
   in_device info = dc_device creds \<and> in_tls_cert_sha256 info = dc_tls_cert_sha256 creds"
  by (auto simp: session_for_def res_simps)

section \<open>An honest device\<close>

lemma spiffe_device_read:
  assumes "uuid_parse (show tenant) = Some tenant" and "uuid_parse (show device) = Some device"
    and "47 \<notin> set (show tenant)" and "47 \<notin> set (show device)" and "show tenant \<noteq> ascii ''service''"
  shows "spiffe_parse uuid_parse (sp_raw (spiffe_device show tenant device)) = Inr (spiffe_device show tenant device)"
proof -
  have raw: "sp_raw (spiffe_device show tenant device) = ascii ''spiffe://'' @ (TRUST_DOMAIN @ 47 # show tenant @ 47 # ascii ''device'' @ 47 # show device)"
    by (simp add: spiffe_device_def)
  have no: "47 \<notin> set TRUST_DOMAIN" "47 \<notin> set (ascii ''device'')" by (simp_all add: TRUST_DOMAIN_def)
  have "split_on 47 (TRUST_DOMAIN @ 47 # show tenant @ 47 # ascii ''device'' @ 47 # show device) =
      [TRUST_DOMAIN, show tenant, ascii ''device'', show device]"
    using assms no by (simp add: split_on_append split_on_no_sep del: ascii_simps)
  moreover have "strip_prefix (ascii ''spiffe://'') (ascii ''spiffe://'' @ rest) = Some rest" for rest
    by (simp add: strip_prefix_Some del: ascii_simps)
  moreover have "spiffe_path uuid_parse rest [show tenant, ascii ''device'', show device] = Inr (SpiffeDevice tenant device)" for rest
    using assms by (simp add: spiffe_path_def Let_def del: ascii_simps)
  ultimately show ?thesis
    unfolding spiffe_parse_def raw by (simp add: Let_def del: ascii_simps) (simp add: spiffe_device_def)
qed

lemma token_sealed:
  assumes "aead_correct P" and "aead_seals P" and "hkdf_sized P" and "length token = 32"
  shows "\<exists>sealed. seal_session_token P token ss aad = Inr sealed \<and> open_session_token P sealed ss aad = Inr token"
proof -
  obtain key where k: "p_hkdf P None ss (ascii ''AVON-SESSION-TOKEN'') 32 = Inr key"
    using hkdf_ok[OF assms(3), of 32 None ss "ascii ''AVON-SESSION-TOKEN''"] by (auto simp del: ascii_simps)
  obtain ct where ct: "seal_in_place P (aead_new Aes256Gcm key) (replicate 12 0) aad token = Inr ct"
    using seal_succeeds[OF assms(2)] assms(4) by fastforce
  from open_seal(1)[OF assms(1) ct] k ct assms(4) show ?thesis
    by (auto simp: seal_session_token_def open_session_token_def key_from_def simp del: ascii_simps)
qed

lemma token_header:
  assumes "auth_laws L" and "length token = 32"
  shows "session_token L (req\<lparr>tq_session := Some (al_b64_encode L token)\<rparr>) = Inr token"
  using assms by (simp add: session_token_def auth_laws_def Let_def)

lemma require_device_session: "require_device P L (req\<lparr>tq_session := x\<rparr>) = require_device P L req"
  by (simp add: require_device_def principal_of_def peer_identity_def)

text \<open>The token just stored is found until it expires, unless the device's tokens are revoked.\<close>

lemma issued_found:
  assumes "redis_laws R" and "auth_laws L" and "0 < T" and "t1 \<le> t"
  shows "store_lookup L R (\<lambda>_. True) t token (rl_set_ex R rd t1 (token_key L token) (al_info_json L info) T) =
    Inr (if t < t1 + int T \<and> rl_get R rd t (revoked_key L (in_device info)) = None then Some info else None)"
  using assms keys_apart[of L token "in_device info"] keys_apart[of L token "in_device info", symmetric]
  by (auto simp: store_lookup_def redis_get redis_exists auth_laws_def)

lemma proof_succeeds:
  assumes "sig_from_bytes signature = Inr sig"
    and "hybrid_verify P (tb_signing_key (ce_tbs (aq_cert p))) Auth (auth_message (aq_nonce p) (aq_tls p) (ap_server_cert_sha256 st)) sig = Inr ()"
    and "tb_kem_key (ce_tbs (aq_cert p)) = Some pk" and "encapsulate P (ac_x25519 coins) (ac_mlkem coins) pk = Inr (ct, ss)"
    and "seal_session_token P (ac_token coins) ss (aq_nonce p) = Inr sealed"
  shows "\<exists>st'. auth_proof P L R (\<lambda>_. True) dbs t coins p (Some (AuthProof signature)) True st rd =
    (Inr (auth_result_of st t (fst dbs) ct sealed), st',
     rl_set_ex R rd t (token_key L (ac_token coins)) (al_info_json L (info_of p t)) (ap_session_ttl_secs st))"
  using assms by (simp add: auth_proof_def proof_of_def store_issue_def info_of_def Let_def)

text \<open>The handshake of a device that holds the keys of its certificate.\<close>

definition handshake_ok ::
  "prims \<Rightarrow> auth_libs \<Rightarrow> certificate \<Rightarrow> hybrid_signing_keypair \<Rightarrow> kem_keypair \<Rightarrow> request \<Rightarrow> int \<Rightarrow> ('n, 'c) app_state \<Rightarrow> auth_pending \<Rightarrow> bool" where
  "handshake_ok P L cert kp kem req t0 st p =
     ((\<exists>r1 r2. length r1 = 32 \<and> kp = signing_generate P r1 r2) \<and> (\<exists>rx rm. kem = kem_generate P rx rm) \<and>
      cert_ok P cert \<and> tb_signing_key (ce_tbs cert) = verifying_key kp \<and> tb_kem_key (ce_tbs cert) = Some (kem_public kem) \<and>
      require_device P L req = Inr (aq_tenant p, aq_device p, aq_tls p) \<and>
      verify_device_certificate P L True t0 st cert (aq_tls p) = Inr (aq_tenant p, aq_device p) \<and>
      aq_cert p = cert \<and> length (aq_nonce p) = 32 \<and> length (ap_server_cert_sha256 st) = 32)"

definition prims_ok :: "prims \<Rightarrow> bool" where
  "prims_ok P = (ed25519_correct P \<and> mldsa_correct P \<and> x25519_commutes P \<and> mlkem_correct P \<and>
     aead_correct P \<and> aead_seals P \<and> hkdf_sized P)"

lemma honest_handshake:
  assumes "prims_ok P" and h: "handshake_ok P L cert kp kem req t0 st p" and tok: "length (ac_token coins) = 32"
    and enc: "encapsulate P (ac_x25519 coins) (ac_mlkem coins) (kem_public kem) = Inr (ct, ss)"
    and sign: "sign = (\<lambda>d m. map_err (\<lambda>_. ''sign'') (hybrid_sign P r kp d m))"
    and decaps: "decaps = (\<lambda>c. map_err (\<lambda>_. ''decapsulate'') (decapsulate P kem c))"
  obtains challenge signature sig res st' client where
    "auth_hello P L True t0 st req (Inr (Some (AuthHello (Some (cert_encode cert))))) (aq_nonce p) True = Inr (p, challenge)"
    "client_prove sign (aq_tls p) challenge = Inr (AuthProof signature, aq_nonce p)"
    "auth_proof P L R (\<lambda>_. True) dbs t1 coins p (Some (AuthProof signature)) True st rd = (Inr res, st',
       rl_set_ex R rd t1 (token_key L (ac_token coins)) (al_info_json L (info_of p t1)) (ap_session_ttl_secs st))"
    "client_accept P L decaps (aq_nonce p) (AuthResult res) = Inr client"
    "ct_token client = Some (al_b64_encode L (ac_token coins))"
proof -
  let ?m = "auth_message (aq_nonce p) (aq_tls p) (ap_server_cert_sha256 st)"
  note P = assms(1)[unfolded prims_ok_def]
  obtain r1 r2 rx rm where keys: "length r1 = 32" "kp = signing_generate P r1 r2" "kem = kem_generate P rx rm"
    and c: "cert_ok P cert" "tb_signing_key (ce_tbs cert) = verifying_key kp" "tb_kem_key (ce_tbs cert) = Some (kem_public kem)"
    and req: "require_device P L req = Inr (aq_tenant p, aq_device p, aq_tls p)"
    "verify_device_certificate P L True t0 st cert (aq_tls p) = Inr (aq_tenant p, aq_device p)"
    and p: "aq_cert p = cert" "length (aq_nonce p) = 32" "length (ap_server_cert_sha256 st) = 32"
    using h unfolding handshake_ok_def by blast
  have hello: "auth_hello P L True t0 st req (Inr (Some (AuthHello (Some (cert_encode cert))))) (aq_nonce p) True =
      Inr (p, AuthChallenge (aq_nonce p) (ap_server_cert_sha256 st))"
    using c(1) req p(1) cert.from_to[of P cert] by (cases p) (simp add: auth_hello_def hello_of_def)
  obtain sg where sg: "hybrid_sign P r kp Auth ?m = Inr sg" "sig_wf sg" "hybrid_verify P (verifying_key kp) Auth ?m sg = Inr ()"
    using sign_generated[OF _ _ keys(1,2)] P by blast
  have prove: "client_prove sign (aq_tls p) (AuthChallenge (aq_nonce p) (ap_server_cert_sha256 st)) = Inr (AuthProof (sig_to_bytes sg), aq_nonce p)"
    using sg(1) p by (simp add: sign client_prove_def auth_message_bytes_def auth_message_def)
  obtain sealed where sealed: "seal_session_token P (ac_token coins) ss (aq_nonce p) = Inr sealed"
    "open_session_token P sealed ss (aq_nonce p) = Inr (ac_token coins)"
    using token_sealed[OF _ _ _ tok] P by blast
  obtain st' where finished: "auth_proof P L R (\<lambda>_. True) dbs t1 coins p (Some (AuthProof (sig_to_bytes sg))) True st rd =
    (Inr (auth_result_of st t1 (fst dbs) ct sealed), st',
     rl_set_ex R rd t1 (token_key L (ac_token coins)) (al_info_json L (info_of p t1)) (ap_session_ttl_secs st))"
    using proof_succeeds[of "sig_to_bytes sg" sg P p st "kem_public kem" coins ct ss sealed L R dbs t1 rd] sg sig.from_to[OF sg(2)] c p enc sealed(1)
    by auto
  have "decapsulate P kem ct = Inr ss" "kem_ct_wf ct" using kem_agree[OF _ _ keys(3) enc] P by blast+
  then obtain client where client: "client_accept P L decaps (aq_nonce p) (AuthResult (auth_result_of st t1 (fst dbs) ct sealed)) = Inr client"
    "ct_token client = Some (al_b64_encode L (ac_token coins))"
    using kem_ct.from_to[of ct] sealed(2) by (auto simp: decaps client_accept_def auth_result_of_def)
  from that[OF hello prove finished client] show ?thesis .
qed

section \<open>Properties\<close>

text \<open>C29. A session is honoured only for a device that proved possession of its keys.  Over any interleaving
  of handshakes and revocations from an empty store, a request is taken to come from a device only if the
  token it carries was issued less than the time to live ago, in a handshake in which a certificate of
  that tenant and device, bound to the TLS certificate of the connection, passed the chain, the
  revocation list and the status of the device, and in which the key of the certificate signed the
  nonce and both TLS identities; and only if every revocation of the device's tokens is at least the
  time to live old.\<close>

theorem sessions_prove_possession:
  assumes "redis_laws R" and "auth_laws L" and "0 < T" and "\<And>t k. rl_get R rd0 t k = None"
    and "sorted (map event_time es)" and "list_all (uses_ttl T) es" and "\<forall>e\<in>set es. event_time e \<le> now"
    and "session_for L R up now creds (as_store (auth_run P L R \<lparr>as_open = [], as_store = rd0\<rparr> es)) = Inr info"
  shows "(\<exists>conn p t. proved P L es conn p (dc_token creds) t \<and> now < t + int T \<and>
      dc_tenant creds = aq_tenant p \<and> dc_device creds = aq_device p \<and> dc_tls_cert_sha256 creds = aq_tls p \<and>
      (\<exists>up' t' st req inbound sent. Hello conn up' t' st req inbound (aq_nonce p) sent \<in> set es \<and> admitted P L t' st req p)) \<and>
    (\<forall>up' t. RevokeTokens up' t T (dc_device creds) \<in> set es \<longrightarrow> up' SetRevoked \<longrightarrow> t + int T \<le> now)"
proof -
  let ?s = "auth_run P L R \<lparr>as_open = [], as_store = rd0\<rparr> es"
  note i = auth_invD[OF auth_run_inv[OF assms(1-4,5,6), of P]]
  obtain raw where raw: "rl_get R (as_store ?s) now (token_key L (dc_token creds)) = Some raw" "al_info_of L raw = Some info"
    and live: "\<not> rl_exists R (as_store ?s) now (revoked_key L (dc_device creds))"
    and fields: "in_tenant info = dc_tenant creds" "in_device info = dc_device creds" "in_tls_cert_sha256 info = dc_tls_cert_sha256 creds"
    using assms(8) by (auto simp: session_for_iff lookup_found)
  obtain conn p t where p: "raw = al_info_json L (info_of p t)" "now < t + int T" "proved P L es conn p (dc_token creds) t"
    using i(2)[OF _ raw(1)] assms(7) by auto
  have "info = info_of p t" using p(1) raw(2) assms(2) by (simp add: auth_laws_def)
  moreover obtain up' t' st req inbound sent where "Hello conn up' t' st req inbound (aq_nonce p) sent \<in> set es" "admitted P L t' st req p"
    using p(3) hello_admits unfolding proved_def hello_seen_def by metis
  moreover have "t + int T \<le> now" if "RevokeTokens up' t T (dc_device creds) \<in> set es" "up' SetRevoked" for up' t
    using i(3)[OF that, of now] assms(7) live by force
  ultimately show ?thesis using p fields unfolding info_of_def by fastforce
qed

text \<open>C31. A token issued after a revocation outlives it.  When the tokens of a device are revoked between the
  two halves of a handshake, the second half still issues a token.  It is refused while the marker of
  the revocation is there, and honoured from the moment the marker expires until the token does, since
  the marker was set first and both have the same time to live.\<close>

theorem late_token_outlives_revocation:
  assumes "redis_laws R" and "auth_laws L" and "0 < T" and "ap_session_ttl_secs st = T" and "t1 \<le> t2"
    and "\<And>t k. rl_get R rd0 t k = None"
    and "auth_proof P L R (\<lambda>_. True) dbs t2 coins p inbound sent st
      (snd (store_revoke L R (\<lambda>_. True) t1 T (aq_device p) rd0)) = (Inr res, st', rd)"
    and "creds = \<lparr>dc_tenant = aq_tenant p, dc_device = aq_device p, dc_tls_cert_sha256 = aq_tls p, dc_token = ac_token coins\<rparr>"
    and "t2 \<le> t"
  shows "(t < t1 + int T \<longrightarrow> session_for L R (\<lambda>_. True) t creds rd = Inl (Unauthenticated, ascii ''session expired'')) \<and>
    (t1 + int T \<le> t \<and> t < t2 + int T \<longrightarrow> session_for L R (\<lambda>_. True) t creds rd = Inr (info_of p t2))"
proof -
  let ?rd1 = "rl_set_ex R rd0 t1 (revoked_key L (aq_device p)) (ascii ''1'') T"
  have "rd = rl_set_ex R ?rd1 t2 (token_key L (ac_token coins)) (al_info_json L (info_of p t2)) T"
    using assms(4,7) by (auto simp: auth_proof_def store_issue_def store_revoke_def info_of_def Let_def
        split: sum.splits prod.splits if_splits)
  moreover have "rl_get R ?rd1 t (revoked_key L (aq_device p)) = (if t < t1 + int T then Some (ascii ''1'') else None)"
    using assms(5,9) by (simp add: redis_get[OF assms(1,3)])
  ultimately have l: "store_lookup L R (\<lambda>_. True) t (ac_token coins) rd =
      Inr (if t < t2 + int T \<and> \<not> t < t1 + int T then Some (info_of p t2) else None)"
    using issued_found[OF assms(1-3,9)] by (simp add: info_of_def)
  show ?thesis unfolding session_for_def assms(8) device_credentials.simps l using assms(5) by (auto simp: info_of_def)
qed

text \<open>C30. An honest device is let in.  A device that holds the generated keys its certificate names, and whose
  certificate the control plane accepts on its TLS connection, completes the handshake: it opens the
  token the control plane stored, and every request that carries this token over the same connection
  is taken to come from that tenant and device, until the token expires or the device is revoked.\<close>

theorem honest_device_authenticates:
  assumes "prims_ok P" and "redis_laws R" and "auth_laws L" and "0 < ap_session_ttl_secs st"
    and "handshake_ok P L cert kp kem req t0 st p" and "length (ac_token coins) = 32"
    and "encapsulate P (ac_x25519 coins) (ac_mlkem coins) (kem_public kem) = Inr (ct, ss)"
  shows "\<exists>challenge proof res st' rd' client.
    auth_hello P L True t0 st req (Inr (Some (AuthHello (Some (cert_encode cert))))) (aq_nonce p) True = Inr (p, challenge) \<and>
    client_prove (\<lambda>d m. map_err (\<lambda>_. ''sign'') (hybrid_sign P r kp d m)) (aq_tls p) challenge = Inr (proof, aq_nonce p) \<and>
    auth_proof P L R (\<lambda>_. True) dbs t1 coins p (Some proof) True st rd = (Inr res, st', rd') \<and>
    client_accept P L (\<lambda>c. map_err (\<lambda>_. ''decapsulate'') (decapsulate P kem c)) (aq_nonce p) (AuthResult res) = Inr client \<and>
    (\<forall>t. t1 \<le> t \<longrightarrow> authenticated_device P L R (\<lambda>_. True) t (req\<lparr>tq_session := ct_token client\<rparr>) rd' =
       (if t < t1 + int (ap_session_ttl_secs st) \<and> rl_get R rd t (revoked_key L (aq_device p)) = None
        then Inr (info_of p t1) else Inl (Unauthenticated, ascii ''session expired'')))"
proof -
  have req: "require_device P L req = Inr (aq_tenant p, aq_device p, aq_tls p)" using assms(5) by (simp add: handshake_ok_def)
  obtain challenge signature res st' client where h:
    "auth_hello P L True t0 st req (Inr (Some (AuthHello (Some (cert_encode cert))))) (aq_nonce p) True = Inr (p, challenge)"
    "client_prove (\<lambda>d m. map_err (\<lambda>_. ''sign'') (hybrid_sign P r kp d m)) (aq_tls p) challenge = Inr (AuthProof signature, aq_nonce p)"
    "auth_proof P L R (\<lambda>_. True) dbs t1 coins p (Some (AuthProof signature)) True st rd = (Inr res, st',
       rl_set_ex R rd t1 (token_key L (ac_token coins)) (al_info_json L (info_of p t1)) (ap_session_ttl_secs st))"
    "client_accept P L (\<lambda>c. map_err (\<lambda>_. ''decapsulate'') (decapsulate P kem c)) (aq_nonce p) (AuthResult res) = Inr client"
    and tok: "ct_token client = Some (al_b64_encode L (ac_token coins))"
    by (rule honest_handshake[OF assms(1,5-7) refl refl])
  have "authenticated_device P L R (\<lambda>_. True) t (req\<lparr>tq_session := ct_token client\<rparr>)
      (rl_set_ex R rd t1 (token_key L (ac_token coins)) (al_info_json L (info_of p t1)) (ap_session_ttl_secs st)) =
      (if t < t1 + int (ap_session_ttl_secs st) \<and> rl_get R rd t (revoked_key L (aq_device p)) = None
       then Inr (info_of p t1) else Inl (Unauthenticated, ascii ''session expired''))" if "t1 \<le> t" for t
    using req tok token_header[OF assms(3,6)] issued_found[OF assms(2-4) that]
    by (simp add: authenticated_device_def device_credentials_of_def require_device_session session_for_def info_of_def del: ascii_simps)
  with h show ?thesis by blast
qed

section \<open>A concrete handshake\<close>

text \<open>Redis as an association list of values and expiry times.\<close>

definition toy_redis :: "(bytes \<times> bytes \<times> int) list redis_lib" where
  "toy_redis =
     (let get = (\<lambda>r t k. case map_of r k of Some (v, expires) \<Rightarrow> if t < expires then Some v else None | None \<Rightarrow> None)
      in \<lparr>rl_get = get, rl_exists = (\<lambda>r t k. get r t k \<noteq> None), rl_set_ex = (\<lambda>r t k v ttl. (k, v, t + int ttl) # r)\<rparr>)"

lemma toy_redis_laws: "redis_laws toy_redis" "rl_get toy_redis [] t k = None"
  by (auto simp: redis_laws_def toy_redis_def Let_def)

definition sample_kem :: kem_keypair where
  "sample_kem = kem_generate toy [1] []"

definition sample_device_tbs :: tbs_certificate where
  "sample_device_tbs = (sample_tbs Device 3 2)\<lparr>tb_kem_key := Some (kem_public sample_kem), tb_tls_cert_sha256 := Some (pad 32 [4])\<rparr>"

definition sample_device_cert :: certificate where
  "sample_device_cert = \<lparr>ce_tbs = sample_device_tbs,
     ce_signature = (case hybrid_sign toy [] (sample_kp 2) Cert (tbs_encode sample_device_tbs) of
        Inr sg \<Rightarrow> sg | Inl _ \<Rightarrow> \<lparr>sg_ed25519 = [], sg_mldsa = []\<rparr>)\<rparr>"

text \<open>A byte string with a mark before each byte and one at the end.\<close>

fun toy_put :: "bytes \<Rightarrow> bytes" where
  "toy_put [] = [0]"
| "toy_put (x # xs) = 1 # x # toy_put xs"

fun toy_get :: "bytes \<Rightarrow> bytes \<times> bytes" where
  "toy_get (m # x # r) = (if m = 0 then ([], x # r) else let (xs, r') = toy_get r in (x # xs, r'))"
| "toy_get r = ([], [])"

lemma toy_get_put: "toy_get (toy_put xs @ y # r) = (xs, y # r)"
  by (induction xs) auto

definition toy_info :: "session_info \<Rightarrow> bytes" where
  "toy_info i = toy_put (in_tenant i) @ toy_put (in_device i) @ toy_put (in_tls_cert_sha256 i) @ to_be_bytes (in_issued_at i)"

definition toy_info_of :: "bytes \<Rightarrow> session_info option" where
  "toy_info_of bs = (let (t, r1) = toy_get bs; (d, r2) = toy_get r1; (h, r3) = toy_get r2
     in Some \<lparr>in_tenant = t, in_device = d, in_tls_cert_sha256 = h, in_issued_at = from_be_bytes r3\<rparr>)"

lemma toy_info_read: "toy_info_of (toy_info i) = Some i"
proof -
  have ne: "\<exists>y r. toy_put xs @ zs = y # r" for xs zs by (cases xs) simp_all
  have g: "toy_get (toy_put xs @ rest) = (xs, rest)" if "rest \<noteq> []" for xs rest
    using that toy_get_put by (cases rest) simp_all
  have "to_be_bytes (in_issued_at i) \<noteq> []" using length_to_be_bytes[of "in_issued_at i"] by fastforce
  then show ?thesis
    using ne[of "in_device i"] ne[of "in_tls_cert_sha256 i"] by (simp add: toy_info_def toy_info_of_def g)
qed

definition toy_auth :: auth_libs where
  "toy_auth = \<lparr>al_uuid_show = id, al_uuid_parse = Some,
     al_uris = (\<lambda>_. Some [sp_raw (spiffe_device id (ascii ''acme'') (replicate 16 3))]), al_header_str = Some,
     al_b64_encode = id, al_b64_decode = Some, al_hex = id, al_info_json = toy_info, al_info_of = toy_info_of\<rparr>"

lemma toy_auth_laws: "auth_laws toy_auth"
  by (simp add: auth_laws_def toy_auth_def toy_info_read)

definition sample_call :: request where
  "sample_call = \<lparr>tq_peer_certs = Some [[4]], tq_session = None\<rparr>"

definition sample_member :: device_row where
  "sample_member = sample_row\<lparr>dv_id := replicate 16 3, dv_tenant := ascii ''acme''\<rparr>"

definition sample_state :: "(ip_addr \<times> nat, unit) app_state" where
  "sample_state = sample_app\<lparr>ap_db := sample_control_db\<lparr>db_devices := [sample_member]\<rparr>,
     ap_server_cert_sha256 := replicate 32 8\<rparr>"

lemma sample_requires: "require_device toy toy_auth sample_call = Inr (ascii ''acme'', replicate 16 3, pad 32 [4])"
proof -
  have "spiffe_parse Some (sp_raw (spiffe_device id (ascii ''acme'') (replicate 16 3))) = Inr (spiffe_device id (ascii ''acme'') (replicate 16 3))"
    by (rule spiffe_device_read) simp_all
  then show ?thesis
    by (simp add: require_device_def principal_of_def peer_identity_def spiffe_from_cert_der_def toy_auth_def sample_call_def
        toy_def spiffe_device_def del: ascii_simps)
qed

lemma sample_cert_signed:
  "verify_signature toy sample_device_cert (verifying_key (sample_kp 2)) = Inr ()" "sig_wf (ce_signature sample_device_cert)"
proof -
  obtain sg where "hybrid_sign toy [] (sample_kp 2) Cert (tbs_encode sample_device_tbs) = Inr sg" "sig_wf sg"
    "hybrid_verify toy (verifying_key (sample_kp 2)) Cert (tbs_encode sample_device_tbs) sg = Inr ()"
    using sign_generated[OF toy_ed25519 toy_mldsa _ sample_kp_def] by fastforce
  then show "verify_signature toy sample_device_cert (verifying_key (sample_kp 2)) = Inr ()" "sig_wf (ce_signature sample_device_cert)"
    by (simp_all add: sample_device_cert_def verify_signature_def)
qed

lemma sample_cert_ok: "cert_ok toy sample_device_cert"
proof -
  have "kem_pk_wf (kem_public sample_kem)" unfolding sample_kem_def by (rule generated_kem_pk_wf[OF toy_x25519 toy_mlkem])
  moreover have "vk_wf toy (verifying_key (sample_kp 3))" unfolding sample_kp_def by (rule generated_vk_wf[OF toy_ed25519 toy_mldsa]) simp
  ultimately show ?thesis
    using sample_cert_signed(2) length_kem_pk_bytes[of "kem_public sample_kem"]
    by (simp add: cert_ok_def sample_device_cert_def sample_device_tbs_def tbs_ok_def sample_tbs_def string_ok_def kem_opt_ok_def
        sans_ok_def tls_ok_def hw_ok_def sample_key_id tbs_encode_def put16_def put_kem_def put_sans_def put_tls_def put_hw_def
        vk_to_bytes_def vk_wf_def)
qed

lemma sample_chain: "is_ok (chain_verify toy [sample_cert RootCa 1 1] sample_device_cert [sample_cert IssuingCa 2 1] 150)"
proof -
  have sig: "verify_signature toy (sample_cert k s i) (verifying_key (sample_kp i)) = Inr ()" for k s i
    using sample_signed(1) by (simp add: verify_signature_iff)
  have f: "ce_tbs sample_device_cert = sample_device_tbs" "tb_kind sample_device_tbs = Device" "tb_issuer_key_id sample_device_tbs = replicate 32 2"
    by (simp_all add: sample_device_cert_def sample_device_tbs_def sample_fields)
  have val: "check_validity (sample_cert k s i) 150 = Inr ()" "check_validity sample_device_cert 150 = Inr ()" for k s i
    by (simp_all add: check_validity_def sample_fields f) (simp_all add: sample_device_tbs_def sample_fields)
  show ?thesis
    by (simp add: chain_verify_def sample_fields sample_key_id sig val f sample_cert_signed)
qed

definition sample_pending :: auth_pending where
  "sample_pending = \<lparr>aq_cert = sample_device_cert, aq_tenant = ascii ''acme'', aq_device = replicate 16 3, aq_tls = pad 32 [4],
     aq_nonce = replicate 32 5\<rparr>"

definition sample_coins :: auth_coins where
  "sample_coins = \<lparr>ac_x25519 = [1], ac_mlkem = [], ac_token = replicate 32 6\<rparr>"

lemma sample_handshake: "handshake_ok toy toy_auth sample_device_cert (sample_kp 3) sample_kem sample_call 150 sample_state sample_pending"
proof -
  have "verify_device_certificate toy toy_auth True 150 sample_state sample_device_cert (pad 32 [4]) = Inr (ascii ''acme'', replicate 16 3)"
    using sample_chain
    by (simp add: verify_device_iff sample_state_def sample_app_def sample_device_cert_def sample_device_tbs_def sample_tbs_def
        crl_contains_def toy_auth_def sample_member_def sample_row_def)
  moreover have "tb_signing_key (ce_tbs sample_device_cert) = verifying_key (sample_kp 3)" "tb_kem_key (ce_tbs sample_device_cert) = Some (kem_public sample_kem)"
    by (simp_all add: sample_device_cert_def sample_device_tbs_def sample_tbs_def)
  moreover have "length (replicate 32 (3 :: byte)) = 32 \<and> sample_kp 3 = signing_generate toy (replicate 32 3) []" by (simp add: sample_kp_def)
  then have "\<exists>r1 r2. length r1 = 32 \<and> sample_kp 3 = signing_generate toy r1 r2" by (intro exI)
  moreover have "\<exists>rx rm. sample_kem = kem_generate toy rx rm" unfolding sample_kem_def by (rule exI)+ (rule refl)
  moreover have "length (ap_server_cert_sha256 sample_state) = 32" by (simp add: sample_state_def)
  moreover have "length (replicate 32 (5 :: byte)) = 32" by simp
  moreover note sample_cert_ok sample_requires
  ultimately show ?thesis
    unfolding handshake_ok_def sample_pending_def auth_pending.simps by (intro conjI refl)
qed

lemma toy_prims_ok: "prims_ok toy"
  by (simp add: prims_ok_def toy_correct)

lemma sample_encapsulates:
  "\<exists>ct ss. encapsulate toy (ac_x25519 sample_coins) (ac_mlkem sample_coins) (kem_public sample_kem) = Inr (ct, ss)"
  using toy_encapsulates by (simp add: sample_coins_def sample_kem_def)

lemma sample_sizes: "length (ac_token sample_coins) = 32" "ap_session_ttl_secs sample_state = 60"
  by (simp_all add: sample_coins_def sample_state_def sample_app_def)

theorem honest_device_authenticates_witness:
  "\<exists>challenge proof res st' rd' (client :: control_client).
    auth_hello toy toy_auth True 150 sample_state sample_call (Inr (Some (AuthHello (Some (cert_encode sample_device_cert)))))
      (replicate 32 5) True = Inr (sample_pending, challenge) \<and>
    auth_proof toy toy_auth toy_redis (\<lambda>_. True) (True, True) 151 sample_coins sample_pending (Some proof) True sample_state [] = (Inr res, st', rd') \<and>
    authenticated_device toy toy_auth toy_redis (\<lambda>_. True) 210 (sample_call\<lparr>tq_session := ct_token client\<rparr>) rd' = Inr (info_of sample_pending 151) \<and>
    authenticated_device toy toy_auth toy_redis (\<lambda>_. True) 211 (sample_call\<lparr>tq_session := ct_token client\<rparr>) rd' =
      Inl (Unauthenticated, ascii ''session expired'')"
proof -
  obtain ct ss where enc: "encapsulate toy (ac_x25519 sample_coins) (ac_mlkem sample_coins) (kem_public sample_kem) = Inr (ct, ss)"
    using sample_encapsulates by blast
  have ttl: "0 < ap_session_ttl_secs sample_state" "aq_nonce sample_pending = replicate 32 5" by (simp_all add: sample_sizes sample_pending_def)
  from honest_device_authenticates[OF toy_prims_ok toy_redis_laws(1) toy_auth_laws ttl(1) sample_handshake sample_sizes(1) enc,
      of "[]" "(True, True)" 151 "[]", unfolded sample_sizes(2) ttl(2)]
  obtain challenge pm res st' rd' and client :: control_client where h:
    "auth_hello toy toy_auth True 150 sample_state sample_call (Inr (Some (AuthHello (Some (cert_encode sample_device_cert)))))
      (replicate 32 5) True = Inr (sample_pending, challenge)"
    "auth_proof toy toy_auth toy_redis (\<lambda>_. True) (True, True) 151 sample_coins sample_pending (Some pm) True sample_state [] = (Inr res, st', rd')"
    and a: "\<forall>t. 151 \<le> t \<longrightarrow> authenticated_device toy toy_auth toy_redis (\<lambda>_. True) t (sample_call\<lparr>tq_session := ct_token client\<rparr>) rd' =
       (if t < 151 + int 60 \<and> rl_get toy_redis [] t (revoked_key toy_auth (aq_device sample_pending)) = None
        then Inr (info_of sample_pending 151) else Inl (Unauthenticated, ascii ''session expired''))"
    by (elim exE conjE) (rule that)
  have n: "rl_get toy_redis [] t k = None" for t k by (rule toy_redis_laws(2))
  have "authenticated_device toy toy_auth toy_redis (\<lambda>_. True) 210 (sample_call\<lparr>tq_session := ct_token client\<rparr>) rd' = Inr (info_of sample_pending 151)"
    using a[rule_format, of 210] by (simp add: n del: ascii_simps)
  moreover have "authenticated_device toy toy_auth toy_redis (\<lambda>_. True) 211 (sample_call\<lparr>tq_session := ct_token client\<rparr>) rd' =
      Inl (Unauthenticated, ascii ''session expired'')"
    using a[rule_format, of 211] by (simp add: n del: ascii_simps)
  ultimately show ?thesis using h by blast
qed

text \<open>The same handshake with a revocation between its halves, and as a run.\<close>

lemma sample_proof:
  obtains challenge signature res st' where
    "auth_hello toy toy_auth True 150 sample_state sample_call (Inr (Some (AuthHello (Some (cert_encode sample_device_cert)))))
      (replicate 32 5) True = Inr (sample_pending, challenge)"
    "auth_proof toy toy_auth toy_redis (\<lambda>_. True) (True, True) t1 sample_coins sample_pending (Some (AuthProof signature)) True sample_state rd =
      (Inr res, st', rl_set_ex toy_redis rd t1 (token_key toy_auth (replicate 32 6)) (al_info_json toy_auth (info_of sample_pending t1)) 60)"
proof -
  obtain ct ss where enc: "encapsulate toy (ac_x25519 sample_coins) (ac_mlkem sample_coins) (kem_public sample_kem) = Inr (ct, ss)"
    using sample_encapsulates by blast
  have f: "aq_nonce sample_pending = replicate 32 5" "ac_token sample_coins = replicate 32 6" by (simp_all add: sample_pending_def sample_coins_def)
  show ?thesis
    by (rule honest_handshake[OF toy_prims_ok sample_handshake sample_sizes(1) enc refl refl,
          where R = toy_redis and dbs = "(True, True)" and ?t1.0 = t1 and rd = rd, unfolded f sample_sizes(2)]) (rule that)
qed

definition sample_creds :: device_credentials where
  "sample_creds = \<lparr>dc_tenant = aq_tenant sample_pending, dc_device = aq_device sample_pending, dc_tls_cert_sha256 = aq_tls sample_pending,
     dc_token = ac_token sample_coins\<rparr>"

theorem late_token_outlives_revocation_witness:
  "\<exists>signature res st' rd.
    auth_proof toy toy_auth toy_redis (\<lambda>_. True) (True, True) 158 sample_coins sample_pending (Some (AuthProof signature)) True sample_state
      (snd (store_revoke toy_auth toy_redis (\<lambda>_. True) 152 60 (aq_device sample_pending) [])) = (Inr res, st', rd) \<and>
    session_for toy_auth toy_redis (\<lambda>_. True) 211 sample_creds rd = Inl (Unauthenticated, ascii ''session expired'') \<and>
    session_for toy_auth toy_redis (\<lambda>_. True) 212 sample_creds rd = Inr (info_of sample_pending 158)"
proof -
  let ?rd = "snd (store_revoke toy_auth toy_redis (\<lambda>_. True) 152 60 (aq_device sample_pending) [])"
  obtain signature res st' rd where p: "auth_proof toy toy_auth toy_redis (\<lambda>_. True) (True, True) 158 sample_coins sample_pending
      (Some (AuthProof signature)) True sample_state ?rd = (Inr res, st', rd)"
    by (rule sample_proof[of 158 ?rd]) blast
  note l = late_token_outlives_revocation[OF toy_redis_laws(1) toy_auth_laws _ sample_sizes(2) _ toy_redis_laws(2) p sample_creds_def]
  have "session_for toy_auth toy_redis (\<lambda>_. True) 211 sample_creds rd = Inl (Unauthenticated, ascii ''session expired'')"
    using l[of 211] by (simp del: ascii_simps)
  moreover have "session_for toy_auth toy_redis (\<lambda>_. True) 212 sample_creds rd = Inr (info_of sample_pending 158)"
    using l[of 212] by (simp del: ascii_simps)
  ultimately show ?thesis using p by blast
qed

theorem sessions_prove_possession_witness:
  "\<exists>signature. let es = [Hello 0 True 150 sample_state sample_call (Inr (Some (AuthHello (Some (cert_encode sample_device_cert))))) (replicate 32 5) True,
      Proof 0 (\<lambda>_. True) (True, True) 151 sample_coins (Some (AuthProof signature)) True sample_state]
    in session_for toy_auth toy_redis (\<lambda>_. True) 200 sample_creds (as_store (auth_run toy toy_auth toy_redis \<lparr>as_open = [], as_store = []\<rparr> es)) =
         Inr (info_of sample_pending 151) \<and>
       (\<exists>conn p t. proved toy toy_auth es conn p (dc_token sample_creds) t \<and> 200 < t + int 60)"
proof -
  obtain challenge signature res st' where h:
    "auth_hello toy toy_auth True 150 sample_state sample_call (Inr (Some (AuthHello (Some (cert_encode sample_device_cert)))))
      (replicate 32 5) True = Inr (sample_pending, challenge)"
    "auth_proof toy toy_auth toy_redis (\<lambda>_. True) (True, True) 151 sample_coins sample_pending (Some (AuthProof signature)) True sample_state [] =
      (Inr res, st', rl_set_ex toy_redis [] 151 (token_key toy_auth (replicate 32 6)) (al_info_json toy_auth (info_of sample_pending 151)) 60)"
    by (rule sample_proof[of 151 "[]"])
  let ?es = "[Hello 0 True 150 sample_state sample_call (Inr (Some (AuthHello (Some (cert_encode sample_device_cert))))) (replicate 32 5) True,
      Proof 0 (\<lambda>_. True) (True, True) 151 sample_coins (Some (AuthProof signature)) True sample_state]"
  have run: "as_store (auth_run toy toy_auth toy_redis \<lparr>as_open = [], as_store = []\<rparr> ?es) =
      rl_set_ex toy_redis [] 151 (token_key toy_auth (replicate 32 6)) (al_info_json toy_auth (info_of sample_pending 151)) 60"
    by (simp add: auth_run_def h)
  have s: "session_for toy_auth toy_redis (\<lambda>_. True) 200 sample_creds (as_store (auth_run toy toy_auth toy_redis \<lparr>as_open = [], as_store = []\<rparr> ?es)) =
      Inr (info_of sample_pending 151)"
    unfolding run session_for_def sample_creds_def device_credentials.simps
    using issued_found[OF toy_redis_laws(1) toy_auth_laws, of 60 151 200] toy_redis_laws(2)
    by (simp add: sample_coins_def info_of_def)
  have "sorted (map event_time ?es)" "list_all (uses_ttl 60) ?es" "\<forall>e\<in>set ?es. event_time e \<le> 200" by (simp_all add: sample_sizes)
  from sessions_prove_possession[OF toy_redis_laws(1) toy_auth_laws zero_less_numeral toy_redis_laws(2) this s]
  have "\<exists>conn p t. proved toy toy_auth ?es conn p (dc_token sample_creds) t \<and> 200 < t + int 60" by blast
  with s show ?thesis unfolding Let_def by blast
qed

end
