(* ===== verification/Decision_Log.thy ===== *)
theory Decision_Log
  imports Control_Auth
begin

text \<open>
  The audit trail of policy decisions: the task of a gateway that collects them into batches
  (\<open>avon-gateway/src/decision_log.rs\<close>) and the table the control plane writes a batch to
  (\<open>record_decisions\<close> in \<open>avon-control/src/policy_push.rs\<close>).
\<close>

section \<open>The records of a gateway\<close>

record decision_msg =
  dn_tenant_id :: "bytes option"
  dn_device_id :: "bytes option"
  dn_session_id :: bytes
  dn_destination :: bytes
  dn_allow :: bool
  dn_policy_ids :: "bytes list"
  dn_reason :: bytes
  dn_decided_at_unix :: i64

definition BATCH :: nat where "BATCH = 200"

text \<open>The task's state: the buffer and the counter of dropped records.  Its \<open>select!\<close> yields a record, the end
  of the channel, or a tick of the interval; \<open>sent\<close> says whether there is an open sender to the control plane.
  A step also gives the batch it sent.\<close>

record decision_log =
  dl_buffer :: "decision_msg list"
  dl_dropped :: nat

datatype log_event = LogRecord decision_msg | LogEnd | LogTick

definition log_new :: decision_log where
  "log_new = \<lparr>dl_buffer = [], dl_dropped = 0\<rparr>"

definition flush_state :: "bool \<Rightarrow> decision_log \<Rightarrow> decision_log \<times> decision_msg list list" where
  "flush_state sent s =
     (if dl_buffer s = [] then (s, [])
      else if sent then (s\<lparr>dl_buffer := []\<rparr>, [dl_buffer s])
      else (s\<lparr>dl_buffer := [], dl_dropped := dl_dropped s + length (dl_buffer s)\<rparr>, []))"

fun log_step :: "bool \<Rightarrow> log_event \<Rightarrow> decision_log \<Rightarrow> decision_log \<times> decision_msg list list" where
  "log_step sent (LogRecord r) s =
    (let s' = s\<lparr>dl_buffer := dl_buffer s @ [r]\<rparr> in
     if BATCH \<le> length (dl_buffer s') then flush_state sent s' else (s', []))"
| "log_step sent LogEnd s = flush_state sent s"
| "log_step sent LogTick s = flush_state sent s"

text \<open>The loop; it ends with the channel.\<close>

fun log_loop :: "(bool \<times> log_event) list \<Rightarrow> decision_log \<Rightarrow> decision_log \<times> decision_msg list list" where
  "log_loop [] s = (s, [])"
| "log_loop ((sent, e) # es) s =
    (case log_step sent e s of
       (s', out) \<Rightarrow>
         if e = LogEnd then (s', out)
         else (case log_loop es s' of (s'', rest) \<Rightarrow> (s'', out @ rest)))"

section \<open>The table of the control plane\<close>

text \<open>\<open>as f64\<close> on a 64-bit integer: the nearest multiple of the unit in the last place of a 53-bit significand,
  ties to even.\<close>

fun excess_bits :: "nat \<Rightarrow> nat" where
  "excess_bits m = (if m < 2 ^ 53 then 0 else Suc (excess_bits (m div 2)))"

declare excess_bits.simps [simp del]

definition as_f64 :: "int \<Rightarrow> int" where
  "as_f64 x =
     (let m = nat \<bar>x\<bar>; e = excess_bits m; q = m div 2 ^ e; r = m mod 2 ^ e
      in if e = 0 then x
         else sgn x * int ((if 2 ^ (e - 1) < r \<or> (r = 2 ^ (e - 1) \<and> odd q) then q + 1 else q) * 2 ^ e))"

definition uuid_or_nil :: "bytes \<Rightarrow> uuid" where
  "uuid_or_nil b = (if length b = 16 then b else replicate 16 0)"

definition decision_row_of :: "auth_libs \<Rightarrow> decision_msg \<Rightarrow> decision_row option" where
  "decision_row_of L r =
     (case (dn_tenant_id r, dn_device_id r) of
        (Some tenant, Some device) \<Rightarrow>
          Some \<lparr>pd_tenant = uuid_or_nil tenant, pd_device = uuid_or_nil device,
            pd_session = (if dn_session_id r = [] then None else Some (dn_session_id r)), pd_destination = dn_destination r,
            pd_effect = (if dn_allow r then ascii ''allow'' else ascii ''deny''),
            pd_policy_ids = List.map_filter (al_uuid_parse L) (dn_policy_ids r), pd_reason = dn_reason r,
            pd_decided_at = as_f64 (sint (dn_decided_at_unix r))\<rparr>
      | _ \<Rightarrow> None)"

text \<open>The statements of the transaction, counted from its \<open>BEGIN\<close>; \<open>up\<close> says which succeed.\<close>

fun insert_decisions ::
  "auth_libs \<Rightarrow> (nat \<Rightarrow> bool) \<Rightarrow> nat \<Rightarrow> decision_msg list \<Rightarrow> decision_row list \<Rightarrow> unit + nat \<times> decision_row list" where
  "insert_decisions L up n [] rows = Inr (n, rows)"
| "insert_decisions L up n (r # rs) rows =
    (case decision_row_of L r of
       None \<Rightarrow> insert_decisions L up n rs rows
     | Some row \<Rightarrow> if \<not> up n then Inl () else insert_decisions L up (Suc n) rs (rows @ [row]))"

definition record_decisions :: "auth_libs \<Rightarrow> (nat \<Rightarrow> bool) \<Rightarrow> decision_msg list \<Rightarrow> control_db \<Rightarrow> unit + control_db" where
  "record_decisions L up records db =
     (if records = [] then Inr db
      else if \<not> up 0 then Inl ()
      else bind_res (insert_decisions L up 1 (take 1000 records) (db_decisions db)) (\<lambda>(n, rows).
        if \<not> up n then Inl () else Inr (db\<lparr>db_decisions := rows\<rparr>)))"

section \<open>What reaches the table\<close>

text \<open>The records that come before the end of the channel.\<close>

fun records_of :: "(bool \<times> log_event) list \<Rightarrow> decision_msg list" where
  "records_of [] = []"
| "records_of ((_, LogRecord r) # es) = r # records_of es"
| "records_of ((_, LogTick) # es) = records_of es"
| "records_of ((_, LogEnd) # es) = []"

text \<open>The batches a run sends, each stored by a transaction of its own that may fail.\<close>

fun store_batches :: "auth_libs \<Rightarrow> (nat \<Rightarrow> bool) list \<Rightarrow> decision_msg list list \<Rightarrow> control_db \<Rightarrow> control_db" where
  "store_batches L (up # ups) (b # bs) db =
    store_batches L ups bs (case record_decisions L up b db of Inl _ \<Rightarrow> db | Inr db' \<Rightarrow> db')"
| "store_batches L ups bs db = db"

lemma insert_decisionsD:
  "insert_decisions L up n rs rows = Inr (m, rows') \<Longrightarrow> rows' = rows @ List.map_filter (decision_row_of L) rs"
proof (induction rs arbitrary: n rows)
  case (Cons r rs)
  then show ?case by (cases "decision_row_of L r") (force simp: map_filter_simps split: if_splits)+
qed (simp add: map_filter_simps)

lemma insert_decisions_ok:
  "(\<And>k. up k) \<Longrightarrow> \<exists>m. insert_decisions L up n rs rows = Inr (m, rows @ List.map_filter (decision_row_of L) rs)"
proof (induction rs arbitrary: n rows)
  case (Cons r rs)
  show ?case
  proof (cases "decision_row_of L r")
    case None
    then show ?thesis using Cons by (simp add: map_filter_simps)
  next
    case (Some row)
    then show ?thesis using Cons(1)[of "Suc n" "rows @ [row]"] Cons(2) by (simp add: map_filter_simps)
  qed
qed (simp add: map_filter_simps)

text \<open>A batch is stored whole or not at all.\<close>

lemma batch_atomic:
  assumes "length records \<le> 1000"
  shows "record_decisions L up records db = Inl () \<or>
    record_decisions L up records db = Inr (db\<lparr>db_decisions := db_decisions db @ List.map_filter (decision_row_of L) records\<rparr>)"
proof (cases "record_decisions L up records db")
  case (Inl u)
  then show ?thesis by simp
next
  case (Inr db')
  show ?thesis
  proof (cases "records = []")
    case True
    then show ?thesis by (simp add: record_decisions_def map_filter_simps)
  next
    case False
    with Inr obtain n rows where "insert_decisions L up 1 records (db_decisions db) = Inr (n, rows)" "db' = db\<lparr>db_decisions := rows\<rparr>"
      using assms by (auto simp: record_decisions_def res_simps split: if_splits)
    with insert_decisionsD[OF this(1)] Inr show ?thesis by simp
  qed
qed

lemma batch_stored:
  assumes "length records \<le> 1000" and "\<And>k. up k"
  shows "record_decisions L up records db = Inr (db\<lparr>db_decisions := db_decisions db @ List.map_filter (decision_row_of L) records\<rparr>)"
  using insert_decisions_ok[of up L 1 records "db_decisions db", OF assms(2)] assms
  by (auto simp: record_decisions_def res_simps map_filter_simps)

lemma map_filter_append: "List.map_filter f (xs @ ys) = List.map_filter f xs @ List.map_filter f ys"
  by (simp add: map_filter_def)

lemma batches_stored:
  assumes "\<forall>b\<in>set bs. length b \<le> 1000" and "\<forall>up\<in>set ups. \<forall>k. up k" and "length ups = length bs"
  shows "db_decisions (store_batches L ups bs db) = db_decisions db @ List.map_filter (decision_row_of L) (concat bs)"
  using assms
proof (induction bs arbitrary: ups db)
  case Nil
  then show ?case by (simp add: map_filter_simps)
next
  case (Cons b bs)
  then obtain up ups' where u: "ups = up # ups'" by (cases ups) auto
  have "record_decisions L up b db = Inr (db\<lparr>db_decisions := db_decisions db @ List.map_filter (decision_row_of L) b\<rparr>)"
    using batch_stored[of b up] Cons.prems unfolding u by simp
  moreover have "\<forall>b\<in>set bs. length b \<le> 1000" "\<forall>up\<in>set ups'. \<forall>k. up k" "length ups' = length bs" using Cons.prems u by auto
  note Cons.IH[OF this, of "db\<lparr>db_decisions := db_decisions db @ List.map_filter (decision_row_of L) b\<rparr>"]
  ultimately show ?case unfolding u by (simp add: map_filter_append)
qed

text \<open>What a step keeps: records are only moved, from the buffer to a batch or to the counter.\<close>

definition log_ok :: "decision_log \<Rightarrow> bool" where
  "log_ok s = (length (dl_buffer s) < BATCH)"

lemma flushD:
  assumes "flush_state sent s = (s', out)"
  shows "dl_buffer s' = []" and "out = [] \<or> out = [dl_buffer s] \<and> dl_buffer s \<noteq> []" and
    "length (concat out) + dl_dropped s' = length (dl_buffer s) + dl_dropped s" and "sent \<Longrightarrow> concat out = dl_buffer s"
  using assms by (auto simp: flush_state_def split: if_splits)

lemma stepD:
  assumes "log_step sent e s = (s', out)" and "log_ok s"
  shows "log_ok s'" and "\<forall>b\<in>set out. b \<noteq> [] \<and> length b \<le> BATCH" and
    "length (concat out) + dl_dropped s' + length (dl_buffer s') =
       length (dl_buffer s) + dl_dropped s + (case e of LogRecord _ \<Rightarrow> 1 | _ \<Rightarrow> 0)" and
    "sent \<Longrightarrow> concat out @ dl_buffer s' = dl_buffer s @ (case e of LogRecord r \<Rightarrow> [r] | _ \<Rightarrow> [])" and
    "(\<forall>r. e \<noteq> LogRecord r) \<Longrightarrow> dl_buffer s' = []"
proof -
  have z: "0 < BATCH" by (simp add: BATCH_def)
  have "log_ok s' \<and> (\<forall>b\<in>set out. b \<noteq> [] \<and> length b \<le> BATCH) \<and>
    length (concat out) + dl_dropped s' + length (dl_buffer s') =
       length (dl_buffer s) + dl_dropped s + (case e of LogRecord _ \<Rightarrow> 1 | _ \<Rightarrow> 0) \<and>
    (sent \<longrightarrow> concat out @ dl_buffer s' = dl_buffer s @ (case e of LogRecord r \<Rightarrow> [r] | _ \<Rightarrow> [])) \<and>
    ((\<forall>r. e \<noteq> LogRecord r) \<longrightarrow> dl_buffer s' = [])"
  proof (cases e)
    case (LogRecord r)
    then show ?thesis using assms z by (auto simp: log_ok_def flush_state_def Let_def split: if_splits)
  next
    case LogEnd
    then show ?thesis using assms z by (auto simp: log_ok_def flush_state_def split: if_splits)
  next
    case LogTick
    then show ?thesis using assms z by (auto simp: log_ok_def flush_state_def split: if_splits)
  qed
  then show "log_ok s'" and "\<forall>b\<in>set out. b \<noteq> [] \<and> length b \<le> BATCH" and
    "length (concat out) + dl_dropped s' + length (dl_buffer s') =
       length (dl_buffer s) + dl_dropped s + (case e of LogRecord _ \<Rightarrow> 1 | _ \<Rightarrow> 0)" and
    "sent \<Longrightarrow> concat out @ dl_buffer s' = dl_buffer s @ (case e of LogRecord r \<Rightarrow> [r] | _ \<Rightarrow> [])" and
    "(\<forall>r. e \<noteq> LogRecord r) \<Longrightarrow> dl_buffer s' = []" by blast+
qed

lemma loopD:
  assumes "log_loop es s = (s', out)" and "log_ok s"
  shows "log_ok s' \<and> (\<forall>b\<in>set out. b \<noteq> [] \<and> length b \<le> BATCH) \<and>
    length (concat out) + dl_dropped s' + length (dl_buffer s') = length (dl_buffer s) + dl_dropped s + length (records_of es) \<and>
    ((\<forall>e\<in>set es. fst e) \<longrightarrow> concat out @ dl_buffer s' = dl_buffer s @ records_of es) \<and>
    (LogEnd \<in> snd ` set es \<longrightarrow> dl_buffer s' = [])"
  using assms
proof (induction es arbitrary: s s' out rule: records_of.induct)
  case 1
  then show ?case by auto
next
  case (2 sent r es)
  obtain s1 out1 where st: "log_step sent (LogRecord r) s = (s1, out1)" by (cases "log_step sent (LogRecord r) s")
  obtain s2 out2 where lp: "log_loop es s1 = (s2, out2)" by (cases "log_loop es s1")
  have r: "s' = s2" "out = out1 @ out2" using 2(2) st lp by (simp_all del: log_step.simps)
  note a = stepD[OF st 2(3)]
  from 2(1)[OF lp a(1)] a show ?case unfolding r by (auto simp: image_iff)
next
  case (3 sent es)
  obtain s1 out1 where st: "log_step sent LogTick s = (s1, out1)" by (cases "log_step sent LogTick s")
  obtain s2 out2 where lp: "log_loop es s1 = (s2, out2)" by (cases "log_loop es s1")
  have r: "s' = s2" "out = out1 @ out2" using 3(2) st lp by (simp_all del: log_step.simps)
  note a = stepD[OF st 3(3)]
  from 3(1)[OF lp a(1)] a show ?case unfolding r by (auto simp: image_iff)
next
  case (4 sent es)
  have st: "log_step sent LogEnd s = (s', out)" using 4(1) by (cases "log_step sent LogEnd s") (simp del: log_step.simps)
  from stepD[OF st 4(2)] show ?case by auto
qed


definition sample_decision :: decision_msg where
  "sample_decision = \<lparr>dn_tenant_id = Some (replicate 16 2), dn_device_id = Some (replicate 16 3), dn_session_id = [],
     dn_destination = [], dn_allow = True, dn_policy_ids = [], dn_reason = [], dn_decided_at_unix = 150\<rparr>"


end
