(* ===== verification/Control_Sessions.thy ===== *)
theory Control_Sessions
  imports Decision_Log Control_Enroll "HOL-Library.List_Lexorder"
begin

text \<open>
  The sessions the control plane brokers (\<open>avon-control/src/sessions.rs\<close>, \<open>peer.rs\<close>), the closing of
  sessions with suspension and revocation (\<open>gateway_stream.rs\<close>) and the liveness sweep (\<open>liveness.rs\<close>).
  A handler that waits for the other side is split where it waits: what it does before, and what it does
  with the answer or when none came within five seconds.  Statements that are not in a transaction take
  effect one by one, so a handler that fails halfway leaves what it has written.
\<close>

section \<open>Text of addresses\<close>

text \<open>\<open>Display\<close> of \<open>Ipv4Addr\<close> and \<open>Ipv6Addr\<close> in the standard library: the first longest run of at least two
  zero segments is written \<open>::\<close>, and a mapped IPv4 address in decimal.\<close>

definition show_v4 :: "u32 \<Rightarrow> bytes" where
  "show_v4 a = join (ascii ''.'') (map (\<lambda>b. dec (unat b)) (to_be_bytes a))"

definition segments :: "u128 \<Rightarrow> nat list" where
  "segments a = map (\<lambda>i. unat (drop_bit (112 - 16 * i) a) mod 65536) [0..<8]"

text \<open>The longest run of zeros as start and length, from position \<open>i\<close> on; \<open>cur\<close> and \<open>best\<close> are those so far.\<close>

fun zero_run :: "nat \<Rightarrow> nat \<times> nat \<Rightarrow> nat \<times> nat \<Rightarrow> nat list \<Rightarrow> nat \<times> nat" where
  "zero_run i cur best [] = best"
| "zero_run i cur best (x # xs) =
    (if x = 0
     then let cur' = (if snd cur = 0 then i else fst cur, Suc (snd cur))
          in zero_run (Suc i) cur' (if snd best < snd cur' then cur' else best) xs
     else zero_run (Suc i) (0, 0) best xs)"

definition show_v6 :: "u128 \<Rightarrow> bytes" where
  "show_v6 a =
     (let s = segments a; subslice = (\<lambda>xs. join (ascii '':'') (map hex_text xs)); z = zero_run 0 (0, 0) (0, 0) s
      in if take 6 s = [0, 0, 0, 0, 0, 65535] then ascii ''::ffff:'' @ show_v4 (ucast a)
         else if 1 < snd z then subslice (take (fst z) s) @ ascii ''::'' @ subslice (drop (fst z + snd z) s)
         else subslice s)"

fun show_ip :: "ip_addr \<Rightarrow> bytes" where
  "show_ip (V4 a) = show_v4 a"
| "show_ip (V6 a) = show_v6 a"

text \<open>What generated code and the crate \<open>ipnetwork\<close> supply: the \<open>Debug\<close> text of a suite, and the text of a
  network and its parser.\<close>

record broker_libs =
  bl_suite_debug :: "suite \<Rightarrow> bytes"
  bl_net_show :: "ip_network \<Rightarrow> bytes"
  bl_net_parse :: "bytes \<Rightarrow> ip_network option"

section \<open>Pending answers\<close>

text \<open>The waiting calls, by session id; a call is named by the number of its one-shot channel.\<close>

definition answers_register :: "bytes \<Rightarrow> nat \<Rightarrow> (bytes \<times> nat) list \<Rightarrow> (bytes \<times> nat) list" where
  "answers_register session_id rx m = AList.update session_id rx m"

text \<open>The call that receives the answer, if any, and the remaining calls; \<open>waiting\<close> tells whether the call is
  still there.\<close>

definition answers_resolve :: "(nat \<Rightarrow> bool) \<Rightarrow> bytes \<Rightarrow> (bytes \<times> nat) list \<Rightarrow> nat option \<times> (bytes \<times> nat) list" where
  "answers_resolve waiting session_id m =
     (case map_of m session_id of
        Some rx \<Rightarrow> (if waiting rx then Some rx else None, AList.delete session_id m)
      | None \<Rightarrow> (None, m))"

definition answers_cancel :: "bytes \<Rightarrow> (bytes \<times> nat) list \<Rightarrow> (bytes \<times> nat) list" where
  "answers_cancel session_id m = AList.delete session_id m"

section \<open>Opening a session\<close>

datatype sess_stmt =
    SLoadDevice | SInsertSession | SProtected | SPeerRoutes | SPools | SCloseTimeout | SActivate | SGatewayCert
  | SReport | SCloseDevice | SSetStatus | SSelectTenant | SSelectAttrs | SSelectSerials | SStale | SOffline
  | SLoadPeer nat | SPeerTenant | SSelectSession | SClosePeer

record open_request =
  oq_eph_kem_pk :: bytes
  oq_suites :: "int list"
  oq_wants_overlay_ip :: bool
  oq_initiator_index :: u32

definition pb_suite :: "int \<Rightarrow> suite option" where
  "pb_suite v = (if v = 1 then Some Aes256Gcm else if v = 2 then Some ChaCha20Poly1305 else None)"

definition suite_pb :: "suite \<Rightarrow> int" where
  "suite_pb s = (case s of Aes256Gcm \<Rightarrow> 1 | ChaCha20Poly1305 \<Rightarrow> 2)"

definition pick_suite :: "int list \<Rightarrow> status + suite" where
  "pick_suite vs =
     (let suites = List.map_filter pb_suite vs
      in if Aes256Gcm \<in> set suites then Inr Aes256Gcm
         else ok_or (InvalidArgument, ascii ''no supported suite'') (case suites of [] \<Rightarrow> None | s # _ \<Rightarrow> Some s))"

definition open_check :: "open_request \<Rightarrow> status + suite" where
  "open_check req =
     (if length (oq_eph_kem_pk req) \<noteq> HYBRID_KEM_PUBLIC_KEY_BYTES then Inl (InvalidArgument, ascii ''eph_kem_pk length'')
      else if oq_initiator_index req = 0 then Inl (InvalidArgument, ascii ''initiator_index must be nonzero'')
      else pick_suite (oq_suites req))"

text \<open>The newest certificate of a subject that is neither revoked nor expired.\<close>

definition valid_cert :: "int \<Rightarrow> uuid \<Rightarrow> control_db \<Rightarrow> bytes option" where
  "valid_cert dbnow subject db =
     map_option cr_certificate
       (newest_cert (filter (\<lambda>c. cr_subject c = subject \<and> cr_revoked_at c = None \<and> cr_not_after c > dbnow) (db_certs db)))"

definition active_device :: "uuid \<Rightarrow> control_db \<Rightarrow> device_row option" where
  "active_device i db = find (\<lambda>d. dv_id d = i \<and> dv_status d = Active) (db_devices db)"

record sess_device =
  sv_overlay_v4 :: ip_network
  sv_overlay_v6 :: ip_network
  sv_advertised :: "ip_network list"
  sv_certificate :: bytes

definition load_device :: "(sess_stmt \<Rightarrow> bool) \<Rightarrow> int \<Rightarrow> session_info \<Rightarrow> control_db \<Rightarrow> status + sess_device" where
  "load_device up dbnow info db =
     (if \<not> up SLoadDevice then Inl db_down
      else
        bind_res (ok_or (PermissionDenied, ascii ''device not active'') (active_device (in_device info) db)) (\<lambda>d.
        bind_res (ok_or (FailedPrecondition, ascii ''device has no overlay address'') (dv_overlay_v4 d)) (\<lambda>v4.
        bind_res (ok_or (FailedPrecondition, ascii ''device has no overlay address'') (dv_overlay_v6 d)) (\<lambda>v6.
        bind_res (ok_or (FailedPrecondition, ascii ''device has no valid certificate'')
          (valid_cert dbnow (in_device info) db)) (\<lambda>cert.
        Inr \<lparr>sv_overlay_v4 = v4, sv_overlay_v6 = v6, sv_advertised = dv_advertised d, sv_certificate = cert\<rparr>)))))"

definition pool_prefixes :: "(sess_stmt \<Rightarrow> bool) \<Rightarrow> session_info \<Rightarrow> control_db \<Rightarrow> status + nat \<times> nat" where
  "pool_prefixes up info db =
     (if \<not> up SPools then Inl db_down
      else bind_res (ok_or db_down (map_of (db_pools db) (in_tenant info))) (\<lambda>(v4, v6). Inr (snd v4, snd v6)))"

text \<open>The admission check: only an explicit forbid refuses.  The destination of a session with a gateway is
  the fixed address 10.20.0.1.\<close>

definition ADMISSION_IP :: ip_addr where "ADMISSION_IP = V4 0x0A140001"

definition admission ::
  "('z, 'n, 'c) control_libs \<Rightarrow> uuid \<Rightarrow> uuid \<Rightarrow> destination \<Rightarrow> ('n, 'c) app_state \<Rightarrow> status + unit" where
  "admission C tenant device dst st =
     (case map_of (ap_engines st) tenant of
        None \<Rightarrow> Inr ()
      | Some e \<Rightarrow>
          let res = decide (cl_policy C) e
            \<lparr>rq_device = device, rq_destination = dst, rq_dst_ip = ADMISSION_IP, rq_protocol = AnyProtocol, rq_dst_port = 0,
             rq_admission = True\<rparr>
          in if \<not> dr_allow res \<and> dr_reason res = ascii ''forbid'' then Inl (PermissionDenied, dr_reason res) else Inr ())"

text \<open>The insertion of a session row: the primary key has 16 bytes, and the device, the gateway and the peer
  are foreign keys.\<close>

definition insert_session :: "bool \<Rightarrow> session_row \<Rightarrow> control_db \<Rightarrow> status + control_db" where
  "insert_session up s db =
     (if \<not> up \<or> length (sr_id s) \<noteq> 16 \<or> sr_id s \<in> sr_id ` set (db_sessions db) \<or>
         sr_device s \<notin> dv_id ` set (db_devices db) \<or>
         (case sr_gateway s of Some g \<Rightarrow> g \<notin> gr_id ` set (db_gateways db) | None \<Rightarrow> False) \<or>
         (case sr_peer s of Some p \<Rightarrow> p \<notin> dv_id ` set (db_devices db) | None \<Rightarrow> False)
      then Inl db_down
      else Inr (db\<lparr>db_sessions := db_sessions db @ [s]\<rparr>))"

definition new_session :: "bytes \<Rightarrow> session_info \<Rightarrow> uuid option \<Rightarrow> uuid option \<Rightarrow> bytes \<Rightarrow> session_row" where
  "new_session session_id info gateway peer suite =
     \<lparr>sr_id = session_id, sr_tenant = in_tenant info, sr_device = in_device info, sr_gateway = gateway, sr_peer = peer,
      sr_state = Offered, sr_suite = suite, sr_activated_at = None, sr_closed_at = None, sr_close_reason = None,
      sr_bytes_tx = 0, sr_bytes_rx = 0\<rparr>"

definition routes_for :: "broker_libs \<Rightarrow> (sess_stmt \<Rightarrow> bool) \<Rightarrow> session_info \<Rightarrow> uuid \<Rightarrow> control_db \<Rightarrow> status + bytes list" where
  "routes_for B up info gateway db =
     (if \<not> up SProtected then Inl db_down
      else
        bind_res (ok_or db_down (find (\<lambda>g. gr_id g = gateway) (db_gateways db))) (\<lambda>g.
        if \<not> up SPeerRoutes then Inl db_down
        else
          let peers = filter (\<lambda>d. dv_tenant d = in_tenant info \<and> dv_id d \<noteq> in_device info \<and> dv_status d = Active \<and>
                dv_advertised d \<noteq> []) (db_devices db)
          in Inr (remdups_adj (sort (concat (map (\<lambda>d. map (bl_net_show B) (dv_advertised d)) peers) @
               map (bl_net_show B) (gr_protected g))))))"

text \<open>A call that waits for the gateway's answer.\<close>

record open_pending =
  op_session_id :: bytes
  op_gateway :: uuid
  op_device :: sess_device
  op_routes :: "bytes list"
  op_prefixes :: "nat \<times> nat"

definition session_offer_of :: "broker_libs \<Rightarrow> bytes \<Rightarrow> sess_device \<Rightarrow> suite \<Rightarrow> open_request \<Rightarrow> session_offer" where
  "session_offer_of B session_id d suite req =
     \<lparr>so_session_id = session_id, so_device_certificate = Some (sv_certificate d), so_eph_kem_pk = oq_eph_kem_pk req,
      so_suite = suite_pb suite, so_overlay_ipv4 = bl_net_show B (sv_overlay_v4 d),
      so_overlay_ipv6 = bl_net_show B (sv_overlay_v6 d), so_advertised_routes = map (bl_net_show B) (sv_advertised d),
      so_initiator_index = oq_initiator_index req\<rparr>"

text \<open>From the insertion on: \<open>draw\<close> is the session id, \<open>rx\<close> the channel of this call, and \<open>open_tx\<close> tells whether
  the stream of the gateway is still open.\<close>

definition open_send ::
  "broker_libs \<Rightarrow> (sess_stmt \<Rightarrow> bool) \<Rightarrow> (nat \<Rightarrow> bool) \<Rightarrow> bytes \<Rightarrow> nat \<Rightarrow> session_info \<Rightarrow> open_request \<Rightarrow> suite \<Rightarrow> sess_device \<Rightarrow>
   uuid \<times> gateway_handle \<Rightarrow> ('n, 'c) app_state \<Rightarrow> (status + open_pending) \<times> ('n, 'c) app_state \<times> (nat \<times> gateway_down) list" where
  "open_send B up open_tx session_id rx info req suite d g st =
     (case insert_session (up SInsertSession) (new_session session_id info (Some (fst g)) None (bl_suite_debug B suite)) (ap_db st) of
        Inl e \<Rightarrow> (Inl e, st, [])
      | Inr db \<Rightarrow>
          let st1 = st\<lparr>ap_db := db\<rparr> in
          (case bind_res (routes_for B up info (fst g) db) (\<lambda>routes.
                bind_res (pool_prefixes up info db) (\<lambda>prefixes. Inr (routes, prefixes))) of
             Inl e \<Rightarrow> (Inl e, st1, [])
           | Inr (routes, prefixes) \<Rightarrow>
               let st2 = st1\<lparr>ap_pending_answers := answers_register session_id rx (ap_pending_answers st1)\<rparr> in
               if \<not> open_tx (gh_tx (snd g)) then (Inl (Unavailable, ascii ''gateway stream closed''), st2, [])
               else (Inr \<lparr>op_session_id = session_id, op_gateway = fst g, op_device = d, op_routes = routes, op_prefixes = prefixes\<rparr>,
                     st2, [(gh_tx (snd g), GdOffer (session_offer_of B session_id d suite req))])))"

definition open_session ::
  "('z, 'n, 'c) control_libs \<Rightarrow> broker_libs \<Rightarrow> (sess_stmt \<Rightarrow> bool) \<Rightarrow> (nat \<Rightarrow> bool) \<Rightarrow> int \<Rightarrow> crypto_error + bytes \<Rightarrow> nat \<Rightarrow>
   session_info \<Rightarrow> open_request \<Rightarrow> ('n, 'c) app_state \<Rightarrow>
   (status + open_pending) \<times> ('n, 'c) app_state \<times> (nat \<times> gateway_down) list" where
  "open_session C B up open_tx dbnow draw rx info req st =
     (case bind_res (open_check req) (\<lambda>suite.
           bind_res (load_device up dbnow info (ap_db st)) (\<lambda>d.
           bind_res (admission C (in_tenant info) (in_device info) (ToIp ADMISSION_IP) st) (\<lambda>_.
           bind_res (ok_or (Unavailable, ascii ''no gateway available'') (pick None (ap_gateways st))) (\<lambda>g.
           bind_res (map_err (\<lambda>_. (Internal, ascii ''rng'')) draw) (\<lambda>session_id.
           Inr (suite, d, g, session_id)))))) of
        Inl e \<Rightarrow> (Inl e, st, [])
      | Inr (suite, d, g, session_id) \<Rightarrow> open_send B up open_tx session_id rx info req suite d g st)"

definition close_rows :: "int \<Rightarrow> (session_row \<Rightarrow> bool) \<Rightarrow> bytes \<Rightarrow> control_db \<Rightarrow> control_db" where
  "close_rows dbnow p reason db =
     set_sessions p (\<lambda>s. s\<lparr>sr_state := session_state.Closed, sr_closed_at := Some dbnow, sr_close_reason := Some reason\<rparr>) db"

definition activate_row :: "int \<Rightarrow> bytes \<Rightarrow> control_db \<Rightarrow> control_db" where
  "activate_row dbnow session_id db =
     set_sessions (\<lambda>s. sr_id s = session_id) (\<lambda>s. s\<lparr>sr_state := Live, sr_activated_at := Some dbnow\<rparr>) db"

record open_response =
  or_session_id :: bytes
  or_answer :: session_answer
  or_gateway_certificate :: bytes
  or_overlay_ipv4 :: bytes
  or_overlay_ipv6 :: bytes
  or_routes :: "route_update list"

text \<open>The rest of the call, with the answer or, after the timeout, with none.\<close>

definition open_finish ::
  "(sess_stmt \<Rightarrow> bool) \<Rightarrow> int \<Rightarrow> open_pending \<Rightarrow> session_answer option \<Rightarrow> ('n, 'c) app_state \<Rightarrow>
   (status + open_response) \<times> ('n, 'c) app_state" where
  "open_finish up dbnow p reply st =
     (let session_id = op_session_id p in
      case reply of
        None \<Rightarrow>
          (Inl (Unavailable, ascii ''gateway did not answer''),
           st\<lparr>ap_pending_answers := answers_cancel session_id (ap_pending_answers st),
              ap_db := (if up SCloseTimeout then close_rows dbnow (\<lambda>s. sr_id s = session_id) (ascii ''offer timeout'') (ap_db st)
                else ap_db st)\<rparr>)
      | Some a \<Rightarrow>
          if \<not> up SActivate then (Inl db_down, st)
          else
            let st1 = st\<lparr>ap_db := activate_row dbnow session_id (ap_db st)\<rparr> in
            (bind_res (ok_or (Unavailable, ascii ''gateway certificate'')
               (if up SGatewayCert then valid_cert dbnow (op_gateway p) (ap_db st1) else None)) (\<lambda>cert.
             Inr \<lparr>or_session_id = session_id, or_answer = a, or_gateway_certificate = cert,
               or_overlay_ipv4 = show_ip (fst (sv_overlay_v4 (op_device p))) @ ascii ''/'' @ dec (fst (op_prefixes p)),
               or_overlay_ipv6 = show_ip (fst (sv_overlay_v6 (op_device p))) @ ascii ''/'' @ dec (snd (op_prefixes p)),
               or_routes = [\<lparr>ru_session_id = session_id, ru_cidrs = op_routes p, ru_remove = False\<rparr>]\<rparr>), st1))"

definition report_session ::
  "(sess_stmt \<Rightarrow> bool) \<Rightarrow> int \<Rightarrow> session_info \<Rightarrow> bytes \<Rightarrow> bytes \<Rightarrow> bytes \<Rightarrow> ('n, 'c) app_state \<Rightarrow>
   (status + unit) \<times> ('n, 'c) app_state" where
  "report_session up dbnow info session_id event reason st =
     (if event \<noteq> ascii ''closed'' then (Inr (), st)
      else if \<not> up SReport then (Inl db_down, st)
      else (Inr (), st\<lparr>ap_db := close_rows dbnow (\<lambda>s. sr_id s = session_id \<and> sr_device s = in_device info) reason (ap_db st)\<rparr>))"

section \<open>Sessions between devices\<close>

record candidate =
  ca_address :: bytes
  ca_priority :: u32
  ca_kind :: bytes

record peer_request =
  pq_target :: "bytes option"
  pq_eph_kem_pk :: bytes
  pq_suites :: "int list"
  pq_candidates :: "candidate list"
  pq_initiator_index :: u32

record peer_offer =
  pf_session_id :: bytes
  pf_initiator_certificate :: bytes
  pf_eph_kem_pk :: bytes
  pf_suite :: int
  pf_candidates :: "candidate list"
  pf_overlay_ipv4 :: bytes
  pf_overlay_ipv6 :: bytes
  pf_initiator_index :: u32

record peer_answer =
  pa_session_id :: bytes
  pa_answer :: "session_answer option"
  pa_candidates :: "candidate list"

record peer_response =
  ps_session_id :: bytes
  ps_answer :: session_answer
  ps_candidates :: "candidate list"
  ps_responder_certificate :: bytes
  ps_overlay_ipv4 :: bytes
  ps_overlay_ipv6 :: bytes

datatype pulse_down =
  PdAck bytes | PdPeerOffer peer_offer | PdClose bytes bytes | PdRoutes bytes "bytes list" bool | PdAttest bytes | PdCrl bytes bytes

definition load_cert_and_overlay ::
  "broker_libs \<Rightarrow> bool \<Rightarrow> int \<Rightarrow> uuid \<Rightarrow> control_db \<Rightarrow> status + bytes \<times> bytes \<times> bytes" where
  "load_cert_and_overlay B up dbnow device db =
     (if \<not> up then Inl db_down
      else
        bind_res (ok_or (NotFound, ascii ''peer device not found'') (active_device device db)) (\<lambda>d.
        bind_res (ok_or (FailedPrecondition, ascii ''peer has no certificate'') (valid_cert dbnow device db)) (\<lambda>cert.
        let text = (\<lambda>n. case n of Some n \<Rightarrow> bl_net_show B n | None \<Rightarrow> [])
        in Inr (cert, text (dv_overlay_v4 d), text (dv_overlay_v6 d)))))"

definition peer_target :: "session_info \<Rightarrow> peer_request \<Rightarrow> status + uuid" where
  "peer_target info req =
     (if length (pq_eph_kem_pk req) \<noteq> HYBRID_KEM_PUBLIC_KEY_BYTES then Inl (InvalidArgument, ascii ''eph_kem_pk length'')
      else
        bind_res (ok_or (InvalidArgument, ascii ''target_device'') (pq_target req)) (\<lambda>target.
        if length target \<noteq> 16 then Inl (InvalidArgument, ascii ''target_device length'')
        else if target = in_device info then Inl (InvalidArgument, ascii ''cannot dial self'')
        else Inr target))"

text \<open>What is checked before anything is written; the result is the suite, the target and the initiator's
  certificate and addresses.\<close>

definition peer_check ::
  "('z, 'n, 'c) control_libs \<Rightarrow> broker_libs \<Rightarrow> (sess_stmt \<Rightarrow> bool) \<Rightarrow> int \<Rightarrow> session_info \<Rightarrow> peer_request \<Rightarrow> ('n, 'c) app_state \<Rightarrow>
   status + suite \<times> uuid \<times> bytes \<times> bytes \<times> bytes" where
  "peer_check C B up dbnow info req st =
     (let db = ap_db st in
      bind_res (peer_target info req) (\<lambda>target.
      bind_res (pick_suite (pq_suites req)) (\<lambda>suite.
      bind_res (load_cert_and_overlay B (up (SLoadPeer 0)) dbnow target db) (\<lambda>_.
      bind_res (ok_or db_down (if up SPeerTenant then map_option dv_tenant (find_device target db) else None)) (\<lambda>tenant.
      if tenant \<noteq> in_tenant info then Inl (PermissionDenied, ascii ''peer in different tenant'')
      else if \<not> is_connected target (ap_devices st) then Inl (Unavailable, ascii ''peer offline'')
      else
        bind_res (if map_of (ap_engines st) (in_tenant info) = None then Inr ()
            else bind_res (load_cert_and_overlay B (up (SLoadPeer 1)) dbnow target db) (\<lambda>_.
                 admission C (in_tenant info) (in_device info) (ToDevice target) st)) (\<lambda>_.
        bind_res (load_cert_and_overlay B (up (SLoadPeer 2)) dbnow (in_device info) db) (\<lambda>(cert, v4, v6).
        Inr (suite, target, cert, v4, v6))))))))"

record peer_pending =
  pp_session_id :: bytes
  pp_target :: uuid

definition request_peer_session ::
  "('z, 'n, 'c) control_libs \<Rightarrow> broker_libs \<Rightarrow> (sess_stmt \<Rightarrow> bool) \<Rightarrow> (nat \<Rightarrow> bool) \<Rightarrow> int \<Rightarrow> crypto_error + bytes \<Rightarrow> nat \<Rightarrow>
   session_info \<Rightarrow> peer_request \<Rightarrow> ('n, 'c) app_state \<Rightarrow>
   (status + peer_pending) \<times> ('n, 'c) app_state \<times> (nat \<times> pulse_down) list" where
  "request_peer_session C B up room dbnow draw rx info req st =
     (case bind_res (peer_check C B up dbnow info req st) (\<lambda>(suite, target, cert, v4, v6).
           bind_res (map_err (\<lambda>_. (Internal, ascii ''rng'')) draw) (\<lambda>session_id.
           bind_res (insert_session (up SInsertSession)
             (new_session session_id info None (Some target) (bl_suite_debug B suite)) (ap_db st)) (\<lambda>db.
           Inr (suite, target, cert, v4, v6, session_id, db)))) of
        Inl e \<Rightarrow> (Inl e, st, [])
      | Inr (suite, target, cert, v4, v6, session_id, db) \<Rightarrow>
          let st1 = st\<lparr>ap_db := db, ap_peer_pending := answers_register session_id rx (ap_peer_pending st)\<rparr>;
              offer = \<lparr>pf_session_id = session_id, pf_initiator_certificate = cert, pf_eph_kem_pk = pq_eph_kem_pk req,
                pf_suite = suite_pb suite, pf_candidates = pq_candidates req, pf_overlay_ipv4 = v4, pf_overlay_ipv6 = v6,
                pf_initiator_index = pq_initiator_index req\<rparr>
          in case streams_send room target (ap_devices st1) of
               Some tx \<Rightarrow> (Inr \<lparr>pp_session_id = session_id, pp_target = target\<rparr>, st1, [(tx, PdPeerOffer offer)])
             | None \<Rightarrow>
                 (Inl (Unavailable, ascii ''peer offline''),
                  st1\<lparr>ap_peer_pending := answers_cancel session_id (ap_peer_pending st1),
                      ap_db := (if up SClosePeer then close_rows dbnow (\<lambda>s. sr_id s = session_id) (ascii ''peer offline'') db else db)\<rparr>, []))"

definition peer_finish ::
  "broker_libs \<Rightarrow> (sess_stmt \<Rightarrow> bool) \<Rightarrow> int \<Rightarrow> peer_pending \<Rightarrow> peer_answer option \<Rightarrow> ('n, 'c) app_state \<Rightarrow>
   (status + peer_response) \<times> ('n, 'c) app_state" where
  "peer_finish B up dbnow p reply st =
     (let session_id = pp_session_id p in
      case reply of
        None \<Rightarrow>
          (Inl (Unavailable, ascii ''peer did not answer''),
           st\<lparr>ap_peer_pending := answers_cancel session_id (ap_peer_pending st),
              ap_db := (if up SCloseTimeout then close_rows dbnow (\<lambda>s. sr_id s = session_id) (ascii ''offer timeout'') (ap_db st)
                else ap_db st)\<rparr>)
      | Some a \<Rightarrow>
          (case
             if pa_session_id a \<noteq> session_id then Inl (InvalidArgument, ascii ''answer session id mismatch'')
             else
               bind_res (ok_or (InvalidArgument, ascii ''answer missing'') (pa_answer a)) (\<lambda>ans.
               bind_res (load_cert_and_overlay B (up (SLoadPeer 3)) dbnow (pp_target p) (ap_db st)) (\<lambda>(cert, v4, v6).
               if \<not> up SActivate then Inl db_down else Inr (ans, cert, v4, v6))) of
             Inl e \<Rightarrow> (Inl e, st)
           | Inr (ans, cert, v4, v6) \<Rightarrow>
               (Inr \<lparr>ps_session_id = session_id, ps_answer = ans, ps_candidates = pa_candidates a,
                  ps_responder_certificate = cert, ps_overlay_ipv4 = v4, ps_overlay_ipv6 = v6\<rparr>,
                st\<lparr>ap_db := activate_row dbnow session_id (ap_db st)\<rparr>)))"

text \<open>The row of a session with a gateway has no peer, and reading it fails to decode.\<close>

definition answer_peer_session ::
  "(sess_stmt \<Rightarrow> bool) \<Rightarrow> (nat \<Rightarrow> bool) \<Rightarrow> session_info \<Rightarrow> peer_answer \<Rightarrow> ('n, 'c) app_state \<Rightarrow>
   (status + unit) \<times> ('n, 'c) app_state \<times> nat option" where
  "answer_peer_session up waiting info a st =
     (case
        if pa_session_id a = [] then Inl (InvalidArgument, ascii ''session_id'')
        else if \<not> up SSelectSession then Inl db_down
        else
          bind_res (ok_or (NotFound, ascii ''session not found'') (find (\<lambda>s. sr_id s = pa_session_id a) (db_sessions (ap_db st)))) (\<lambda>s.
          bind_res (ok_or db_down (sr_peer s)) (\<lambda>peer.
          if peer \<noteq> in_device info \<and> sr_device s \<noteq> in_device info then Inl (PermissionDenied, ascii ''not a participant'')
          else if sr_state s \<noteq> Offered then Inl (FailedPrecondition, ascii ''session not offered'')
          else Inr ())) of
        Inl e \<Rightarrow> (Inl e, st, None)
      | Inr _ \<Rightarrow>
          (case answers_resolve waiting (pa_session_id a) (ap_peer_pending st) of
             (to, pending) \<Rightarrow>
               (if to = None then Inl (NotFound, ascii ''no pending peer offer'') else Inr (), st\<lparr>ap_peer_pending := pending\<rparr>, to)))"

section \<open>Closing, suspension and revocation\<close>

text \<open>The messages a handler sends: to gateways and to devices.\<close>

type_synonym sent = "(nat \<times> gateway_down) list \<times> (nat \<times> pulse_down) list"

definition close_messages ::
  "(nat \<Rightarrow> bool) \<Rightarrow> uuid \<Rightarrow> bytes \<Rightarrow> session_row list \<Rightarrow> ('n, 'c) app_state \<Rightarrow> sent" where
  "close_messages room device reason rows st =
     (concat (map (\<lambda>s. case Option.bind (sr_gateway s) (map_of (ap_gateways st)) of
          Some h \<Rightarrow> if room (gh_tx h) then [(gh_tx h, GdClose (sr_id s) reason)] else []
        | None \<Rightarrow> []) rows),
      concat (map (\<lambda>s. case streams_send room device (ap_devices st) of
          Some tx \<Rightarrow> [(tx, PdClose (sr_id s) reason)]
        | None \<Rightarrow> []) rows))"

definition close_device_sessions ::
  "(sess_stmt \<Rightarrow> bool) \<Rightarrow> (nat \<Rightarrow> bool) \<Rightarrow> int \<Rightarrow> uuid \<Rightarrow> bytes \<Rightarrow> ('n, 'c) app_state \<Rightarrow> ('n, 'c) app_state \<times> sent" where
  "close_device_sessions up room dbnow device reason st =
     (if \<not> up SCloseDevice then (st, [], [])
      else
        let p = (\<lambda>s. sr_device s = device \<and> sr_state s \<noteq> session_state.Closed)
        in (st\<lparr>ap_db := close_rows dbnow p reason (ap_db st)\<rparr>,
            close_messages room device reason (filter p (db_sessions (ap_db st))) st))"

text \<open>\<open>UPDATE devices SET status\<close>, with its trigger.\<close>

definition set_status :: "uuid \<Rightarrow> device_status \<Rightarrow> control_db \<Rightarrow> control_db" where
  "set_status device status db = set_device_bump device (\<lambda>d. d\<lparr>dv_status := status\<rparr>) db"

record suspend_env =
  sq_up :: "sess_stmt \<Rightarrow> bool"
  sq_redis :: "redis_cmd \<Rightarrow> bool"
  sq_room :: "nat \<Rightarrow> bool"
  sq_inst :: nat
  sq_now :: int

definition suspend_device ::
  "('z, 'n, 'c) control_libs \<Rightarrow> auth_libs \<Rightarrow> 'r redis_lib \<Rightarrow> suspend_env \<Rightarrow> uuid \<Rightarrow> bytes \<Rightarrow> ('n, 'c) app_state \<Rightarrow> 'r \<Rightarrow>
   (status + unit) \<times> ('n, 'c) app_state \<times> 'r \<times> sent" where
  "suspend_device C L R e device reason st rd =
     (if \<not> sq_up e SSetStatus then (Inl db_down, st, rd, [], [])
      else
        let st1 = st\<lparr>ap_db := set_status device Suspended (ap_db st)\<rparr> in
        case store_revoke L R (sq_redis e) (sq_now e) (ap_session_ttl_secs st) device rd of
          (Inl er, rd) \<Rightarrow> (Inl er, st1, rd, [], [])
        | (Inr _, rd) \<Rightarrow>
            if \<not> sq_up e SSelectTenant then (Inl db_down, st1, rd, [], [])
            else
              let (st2, m2) = (case find_device device (ap_db st1) of
                    Some d \<Rightarrow> patch_device_attrs C (sq_up e SSelectAttrs) (sq_room e) (sq_inst e) (sq_now e) (dv_tenant d) device st1
                  | None \<Rightarrow> (st1, []));
                  (st3, m3, p3) = close_device_sessions (sq_up e) (sq_room e) (sq_now e) device reason st2
              in (Inr (), st3, rd, m2 @ m3, p3))"

text \<open>The calls of the certificate authority, one per serial, until one fails.  \<open>ca\<close> is the authority's
  answer to a request to revoke, and what it does to the database it shares with the control plane.\<close>

fun revoke_serials ::
  "(bytes \<Rightarrow> control_db \<Rightarrow> (status + bytes \<times> bytes) \<times> control_db) \<Rightarrow> bytes list \<Rightarrow> (bytes \<times> bytes) option \<Rightarrow> control_db \<Rightarrow>
   (status + (bytes \<times> bytes) option) \<times> control_db" where
  "revoke_serials ca [] latest db = (Inr latest, db)"
| "revoke_serials ca (s # ss) latest db =
    (case ca s db of
       (Inl e, db) \<Rightarrow> (Inl e, db)
     | (Inr crl, db) \<Rightarrow> revoke_serials ca ss (Some crl) db)"

text \<open>The new list in the cache of the control plane, and its broadcast.\<close>

definition adopt_crl :: "prims \<Rightarrow> bytes \<times> bytes \<Rightarrow> ('n, 'c) app_state \<Rightarrow> ('n, 'c) app_state" where
  "adopt_crl P crl_pb st =
     (case crl_verify P (fst crl_pb) (snd crl_pb) (tb_signing_key (ce_tbs (kc_issuing (ap_chain st)))) of
        Inr crl \<Rightarrow> st\<lparr>ap_chain := (ap_chain st)\<lparr>kc_crl := crl, kc_crl_raw := crl_pb\<rparr>\<rparr>
      | Inl _ \<Rightarrow> st)"

definition device_serials :: "uuid \<Rightarrow> control_db \<Rightarrow> bytes list" where
  "device_serials device db = map cr_serial (filter (\<lambda>c. cr_subject c = device \<and> cr_revoked_at c = None) (db_certs db))"

definition revoke_device ::
  "prims \<Rightarrow> auth_libs \<Rightarrow> 'r redis_lib \<Rightarrow> (bytes \<Rightarrow> control_db \<Rightarrow> (status + bytes \<times> bytes) \<times> control_db) \<Rightarrow> suspend_env \<Rightarrow> uuid \<Rightarrow> bytes \<Rightarrow>
   ('n, 'c) app_state \<Rightarrow> 'r \<Rightarrow> (status + unit) \<times> ('n, 'c) app_state \<times> 'r \<times> sent" where
  "revoke_device P L R ca e device reason st rd =
     (if \<not> sq_up e SSetStatus then (Inl db_down, st, rd, [], [])
      else
        let db1 = set_status device Revoked (ap_db st) in
        if \<not> sq_up e SSelectSerials then (Inl db_down, st\<lparr>ap_db := db1\<rparr>, rd, [], [])
        else case revoke_serials ca (device_serials device db1) None db1 of
          (Inl er, db2) \<Rightarrow> (Inl er, st\<lparr>ap_db := db2\<rparr>, rd, [], [])
        | (Inr latest, db2) \<Rightarrow>
            let st2 = st\<lparr>ap_db := db2\<rparr>;
                (st3, m3) = (case latest of
                    None \<Rightarrow> (st2, [])
                  | Some crl \<Rightarrow> (adopt_crl P crl st2, broadcast (sq_room e) (GdCrl (fst crl) (snd crl)) (ap_gateways st2)))
            in case store_revoke L R (sq_redis e) (sq_now e) (ap_session_ttl_secs st) device rd of
                 (Inl er, rd) \<Rightarrow> (Inl er, st3, rd, m3, [])
               | (Inr _, rd) \<Rightarrow>
                   let (st4, m4, p4) = close_device_sessions (sq_up e) (sq_room e) (sq_now e) device reason st3
                   in (Inr (), st4, rd, m3 @ m4, p4))"

section \<open>Liveness\<close>

text \<open>A row whose \<open>last_seen_at\<close> is null is not older than anything.\<close>

definition seen_before :: "int \<Rightarrow> device_row \<Rightarrow> bool" where
  "seen_before t d = (case dv_last_seen d of Some s \<Rightarrow> s < t | None \<Rightarrow> False)"

definition sweep_once ::
  "(sess_stmt \<Rightarrow> bool) \<Rightarrow> int \<Rightarrow> nat \<Rightarrow> nat \<Rightarrow> control_db \<Rightarrow> (unit + uuid list) \<times> control_db" where
  "sweep_once up dbnow stale offline db =
     (if \<not> up SStale then (Inl (), db)
      else
        let db1 = set_devices (\<lambda>d. dv_liveness d = Online \<and> seen_before (dbnow - int stale) d)
                    (\<lambda>d. d\<lparr>dv_liveness := liveness.Stale\<rparr>) db in
        if \<not> up SOffline then (Inl (), db1)
        else
          let p = (\<lambda>d. dv_liveness d \<in> {Online, liveness.Stale} \<and> seen_before (dbnow - int offline) d)
          in (Inr (map dv_id (filter p (db_devices db1))), set_devices p (\<lambda>d. d\<lparr>dv_liveness := Offline\<rparr>) db1))"

fun close_offline ::
  "(sess_stmt \<Rightarrow> bool) \<Rightarrow> (nat \<Rightarrow> bool) \<Rightarrow> int \<Rightarrow> uuid list \<Rightarrow> ('n, 'c) app_state \<Rightarrow> ('n, 'c) app_state \<times> sent" where
  "close_offline up room dbnow [] st = (st, [], [])"
| "close_offline up room dbnow (i # is) st =
    (let (st1, m1, p1) = close_device_sessions up room dbnow i (ascii ''device offline'') st;
         (st2, m2, p2) = close_offline up room dbnow is st1
     in (st2, m1 @ m2, p1 @ p2))"

text \<open>One tick of \<open>liveness_sweeper\<close>.\<close>

definition liveness_tick ::
  "(sess_stmt \<Rightarrow> bool) \<Rightarrow> (nat \<Rightarrow> bool) \<Rightarrow> int \<Rightarrow> nat \<Rightarrow> nat \<Rightarrow> ('n, 'c) app_state \<Rightarrow> ('n, 'c) app_state \<times> sent" where
  "liveness_tick up room dbnow stale offline st =
     (case sweep_once up dbnow stale offline (ap_db st) of
        (Inl _, db) \<Rightarrow> (st\<lparr>ap_db := db\<rparr>, [], [])
      | (Inr ids, db) \<Rightarrow> close_offline up room dbnow ids (st\<lparr>ap_db := db\<rparr>))"

section \<open>The streams of the gateways\<close>

text \<open>The messages of a gateway; \<open>GuNothing\<close> is a message without content.\<close>

record gateway_event =
  ge_session_id :: bytes
  ge_event :: bytes
  ge_reason :: bytes
  ge_bytes_tx :: u64
  ge_bytes_rx :: u64

datatype gateway_up = GuAnswer session_answer | GuEvent gateway_event | GuStats u32 | GuDecisions "decision_msg list" | GuNothing

definition gateway_id :: "prims \<Rightarrow> auth_libs \<Rightarrow> request \<Rightarrow> status + uuid" where
  "gateway_id P L req =
     bind_res (require_service P L req [ascii ''gateway'']) (\<lambda>(_, inst).
     ok_or (PermissionDenied, ascii ''gateway certificate must name a gateway instance'') inst)"

definition record_session_event :: "bool \<Rightarrow> int \<Rightarrow> gateway_event \<Rightarrow> control_db \<Rightarrow> control_db" where
  "record_session_event up dbnow e db =
     (if \<not> up then db
      else set_sessions (\<lambda>s. sr_id s = ge_session_id e)
        (\<lambda>s. let s1 = s\<lparr>sr_bytes_tx := ge_bytes_tx e, sr_bytes_rx := ge_bytes_rx e\<rparr> in
          if ge_event e = ascii ''closed''
          then s1\<lparr>sr_state := session_state.Closed, sr_close_reason := Some (ge_reason e), sr_closed_at := Some dbnow\<rparr>
          else if ge_event e = ascii ''active'' then s1\<lparr>sr_state := Live\<rparr>
          else s1) db)"

definition record_stats :: "bool \<Rightarrow> int \<Rightarrow> uuid \<Rightarrow> u32 \<Rightarrow> control_db \<Rightarrow> control_db" where
  "record_stats up dbnow i active db =
     (if \<not> up then db
      else db\<lparr>db_gateways := update_where (\<lambda>g. gr_id g = i)
        (\<lambda>g. g\<lparr>gr_active_sessions := active, gr_last_seen := Some dbnow\<rparr>) (db_gateways db)\<rparr>)"

text \<open>The registration: the row of the gateway, whose id is that of a device.  The reply carries the chain,
  the list and the snapshots of the policies.\<close>

record registration =
  rg_public_endpoint :: bytes
  rg_region :: bytes
  rg_capacity :: u32
  rg_protected_cidrs :: "bytes list"

definition upsert_gateway :: "bool \<Rightarrow> int \<Rightarrow> uuid \<Rightarrow> registration \<Rightarrow> ip_network list \<Rightarrow> control_db \<Rightarrow> status + control_db" where
  "upsert_gateway up dbnow i r protected db =
     (if \<not> up \<or> i \<notin> dv_id ` set (db_devices db) then Inl db_down
      else if i \<in> gr_id ` set (db_gateways db)
      then Inr (db\<lparr>db_gateways := update_where (\<lambda>g. gr_id g = i)
        (\<lambda>g. g\<lparr>gr_endpoint := rg_public_endpoint r, gr_region := rg_region r, gr_capacity := rg_capacity r,
               gr_protected := protected, gr_last_seen := Some dbnow\<rparr>) (db_gateways db)\<rparr>)
      else Inr (db\<lparr>db_gateways := db_gateways db @
        [\<lparr>gr_id = i, gr_endpoint = rg_public_endpoint r, gr_region = rg_region r, gr_capacity = rg_capacity r,
          gr_protected = protected, gr_active_sessions = 0, gr_last_seen = Some dbnow\<rparr>]\<rparr>))"

text \<open>Every tenant's snapshot, loaded into its engine; \<open>tenants\<close> are the rows of the table \<open>tenants\<close>.\<close>

fun snapshots_for_registration ::
  "('z, 'n, 'c) control_libs \<Rightarrow> (uuid \<Rightarrow> bool) \<Rightarrow> int \<Rightarrow> uuid list \<Rightarrow> ('n, 'c) app_state \<Rightarrow>
   (push_error + (u64 \<times> bytes) list) \<times> ('n, 'c) app_state" where
  "snapshots_for_registration C up now [] st = (Inr [], st)"
| "snapshots_for_registration C up now (t # ts) st =
    (if \<not> up t then (Inl PushDb, st)
     else
       let data = load_snapshot C now t (ap_db st);
           loaded = engine_load (cl_policy C) (engine_for st t) data now;
           st' = st\<lparr>ap_engines := AList.update t (snd loaded) (ap_engines st)\<rparr>
       in case fst loaded of
         Inl e \<Rightarrow> (Inl (PushCompile e), st')
       | Inr _ \<Rightarrow>
           (case snapshots_for_registration C up now ts st' of
              (r, st'') \<Rightarrow> (bind_res r (\<lambda>rest. Inr ((sd_version data, cl_snapshot_json C data) # rest)), st'')))"

definition register_gateway ::
  "prims \<Rightarrow> auth_libs \<Rightarrow> broker_libs \<Rightarrow> ('z, 'n, 'c) control_libs \<Rightarrow> bool \<Rightarrow> (uuid \<Rightarrow> bool) \<Rightarrow> int \<Rightarrow> uuid list option \<Rightarrow>
   request \<Rightarrow> registration \<Rightarrow> ('n, 'c) app_state \<Rightarrow>
   (status + gateway_config \<times> (u64 \<times> bytes) list) \<times> ('n, 'c) app_state" where
  "register_gateway P L B C up up_snap now tenants req r st =
     (case bind_res (gateway_id P L req) (\<lambda>i.
           let protected = List.map_filter (bl_net_parse B) (rg_protected_cidrs r) in
           if length protected \<noteq> length (rg_protected_cidrs r) then Inl (InvalidArgument, ascii ''protected_cidrs must be CIDRs'')
           else upsert_gateway up now i r protected (ap_db st)) of
        Inl e \<Rightarrow> (Inl e, st)
      | Inr db \<Rightarrow>
          (case (case tenants of None \<Rightarrow> (Inl PushDb, st\<lparr>ap_db := db\<rparr>)
                 | Some ts \<Rightarrow> snapshots_for_registration C up_snap now ts (st\<lparr>ap_db := db\<rparr>)) of
             (snaps, st') \<Rightarrow>
               (Inr (\<lparr>gc_chain = Some (Some (cert_encode (kc_root (ap_chain st))), Some (cert_encode (kc_issuing (ap_chain st)))),
                      gc_crl = Some (kc_crl_raw (ap_chain st))\<rparr>,
                    (case snaps of Inr l \<Rightarrow> l | Inl _ \<Rightarrow> [])), st')))"

definition events_open ::
  "prims \<Rightarrow> auth_libs \<Rightarrow> bool \<Rightarrow> request \<Rightarrow> nat \<Rightarrow> ('n, 'c) app_state \<Rightarrow> (status + uuid) \<times> ('n, 'c) app_state" where
  "events_open P L up req tx st =
     (case bind_res (gateway_id P L req) (\<lambda>i.
           if \<not> up then Inl db_down
           else bind_res (ok_or (FailedPrecondition, ascii ''register before opening events'')
             (find (\<lambda>g. gr_id g = i) (db_gateways (ap_db st)))) (\<lambda>g. Inr (i, g))) of
        Inl e \<Rightarrow> (Inl e, st)
      | Inr (i, g) \<Rightarrow>
          (Inr i, st\<lparr>ap_gateways := registry_insert i \<lparr>gh_tx = tx, gh_endpoint = gr_endpoint g, gh_region = gr_region g\<rparr> (ap_gateways st)\<rparr>))"

text \<open>One message of the stream of gateway \<open>i\<close>; the result also names the call that received an answer.\<close>

fun events_message ::
  "auth_libs \<Rightarrow> (nat \<Rightarrow> bool) \<Rightarrow> bool \<Rightarrow> (nat \<Rightarrow> bool) \<Rightarrow> int \<Rightarrow> uuid \<Rightarrow> gateway_up \<Rightarrow> ('n, 'c) app_state \<Rightarrow> ('n, 'c) app_state \<times> (nat \<times> session_answer) option" where
  "events_message L ups up waiting dbnow i (GuEvent e) st = (st\<lparr>ap_db := record_session_event up dbnow e (ap_db st)\<rparr>, None)"
| "events_message L ups up waiting dbnow i (GuStats n) st = (st\<lparr>ap_db := record_stats up dbnow i n (ap_db st)\<rparr>, None)"
| "events_message L ups up waiting dbnow i (GuAnswer a) st =
    (case answers_resolve waiting (an_session_id a) (ap_pending_answers st) of
       (to, pending) \<Rightarrow> (st\<lparr>ap_pending_answers := pending\<rparr>, map_option (\<lambda>rx. (rx, a)) to))"
| "events_message L ups up waiting dbnow i (GuDecisions records) st =
    (st\<lparr>ap_db := (case record_decisions L ups records (ap_db st) of Inl _ \<Rightarrow> ap_db st | Inr db \<Rightarrow> db)\<rparr>, None)"
| "events_message L ups up waiting dbnow i GuNothing st = (st, None)"

definition events_close :: "uuid \<Rightarrow> ('n, 'c) app_state \<Rightarrow> ('n, 'c) app_state" where
  "events_close i st = st\<lparr>ap_gateways := registry_remove i (ap_gateways st)\<rparr>"

end
