(* ===== verification/Ca_Keys.thy ===== *)
theory Ca_Keys
  imports Cert_Chain Rust_Text
begin

text \<open>
  The keys of the certificate authority (\<open>avon-ca/src/keys\<close>): the sealed-file provider, the ceremony that
  creates root, issuing and TLS keys in one transaction, and their loading.  The X.509 crate \<open>rcgen\<close> and
  base64 are a record of functions; random draws, the clock and the umask are arguments, a file is its
  mode and content, and the table \<open>ca_keys\<close> is a list of rows.
\<close>

section \<open>Errors and libraries\<close>

datatype key_error =
    KeUnseal
  | KeIo
  | KeDb
  | NotInitialized
  | KeMissing bytes
  | KeX509 bytes
  | KeRandom
  | KePermissions bytes

text \<open>\<open>CertError\<close>'s \<open>Display\<close>.\<close>

fun kind_debug :: "subject_kind \<Rightarrow> string" where
  "kind_debug RootCa = ''RootCa''"
| "kind_debug IssuingCa = ''IssuingCa''"
| "kind_debug Device = ''Device''"
| "kind_debug Gateway = ''Gateway''"
| "kind_debug Service = ''Service''"

fun cert_display :: "cert_error \<Rightarrow> string" where
  "cert_display (Encoding s) = ''certificate encoding error: '' @ s"
| "cert_display Signature = ''certificate signature invalid''"
| "cert_display Expired = ''certificate expired''"
| "cert_display NotYetValid = ''certificate not yet valid''"
| "cert_display UnknownIssuer = ''certificate issuer unknown''"
| "cert_display (WrongKind e k) = ''wrong certificate kind: expected '' @ e @ '', found '' @ kind_debug k"
| "cert_display (Chain s) = ''chain error: '' @ s"

datatype san_type = SanUri bytes | SanDns bytes

text \<open>\<open>rcgen\<close>: key pairs \<open>'t\<close>, signing requests \<open>'q\<close> with a public key, and the certificates they are signed
  into.  An error is its text.  \<open>xl_self_signed\<close> is the CA certificate of the ceremony (common name, \<open>CA\<close>
  constraint and key usages as there), \<open>xl_sign\<close> a leaf with the given names, serial and validity.\<close>

record ('t, 'q) x509_lib =
  xl_generate :: "bytes \<Rightarrow> bytes + 't"
  xl_self_signed :: "'t \<Rightarrow> bytes + bytes"
  xl_key_der :: "'t \<Rightarrow> bytes"
  xl_key_of :: "bytes \<Rightarrow> bytes + 't"
  xl_csr_of_pem :: "bytes \<Rightarrow> bytes + 'q"
  xl_name_ok :: "san_type \<Rightarrow> bool"
  xl_timestamp :: "i64 \<Rightarrow> bytes + int"
  xl_ca_issuer :: "bytes \<Rightarrow> 't \<Rightarrow> bytes + bytes"
  xl_sign :: "'q \<Rightarrow> san_type list \<Rightarrow> bytes \<Rightarrow> int \<Rightarrow> int \<Rightarrow> bytes \<Rightarrow> 't \<Rightarrow> bytes + bytes \<times> bytes"
  xl_base64 :: "bytes \<Rightarrow> bytes"

section \<open>The sealed-file provider\<close>

record key_file =
  kf_mode :: u32
  kf_data :: bytes

fun show_oct :: "nat \<Rightarrow> bytes" where
  "show_oct n = (if n < 8 then [word_of_nat (48 + n)] else show_oct (n div 8) @ [word_of_nat (48 + n mod 8)])"

declare show_oct.simps [simp del]

unbundle bit_operations_syntax

text \<open>The modes are \<open>0o600\<close>, \<open>0o777\<close> and \<open>0o077\<close>.\<close>

definition write_private :: "u32 \<Rightarrow> bytes \<Rightarrow> key_file option \<Rightarrow> key_error + key_file" where
  "write_private umask data file =
     (case file of Some _ \<Rightarrow> Inl KeIo | None \<Rightarrow> Inr \<lparr>kf_mode = 384 AND NOT umask, kf_data = data\<rparr>)"

definition check_permissions :: "bytes \<Rightarrow> key_file option \<Rightarrow> key_error + unit" where
  "check_permissions path file =
     bind_res (ok_or KeIo file) (\<lambda>f.
     let mode = kf_mode f AND 511
     in if mode AND 63 \<noteq> 0
        then Inl (KePermissions (path @ ascii '' is mode '' @ show_oct (unat mode) @ ascii ''; expected 0600''))
        else Inr ())"

definition generate_master_key :: "u32 \<Rightarrow> crypto_error + bytes \<Rightarrow> key_file option \<Rightarrow> key_error + key_file" where
  "generate_master_key umask draw file =
     bind_res (map_err (\<lambda>_. KeRandom) draw) (\<lambda>key. write_private umask key file)"

definition from_file :: "bytes \<Rightarrow> key_file option \<Rightarrow> key_error + aead_key" where
  "from_file path file =
     bind_res (check_permissions path file) (\<lambda>_.
     bind_res (ok_or KeIo file) (\<lambda>f.
     if length (kf_data f) \<noteq> 32 then Inl KeUnseal else Inr (aead_new Aes256Gcm (kf_data f))))"

definition seal :: "prims \<Rightarrow> aead_key \<Rightarrow> crypto_error + bytes \<Rightarrow> bytes \<Rightarrow> bytes \<Rightarrow> key_error + bytes" where
  "seal P key draw kid secret =
     bind_res (map_err (\<lambda>_. KeRandom) draw) (\<lambda>nonce.
     bind_res (map_err (\<lambda>_. KeUnseal) (seal_in_place P key nonce kid secret)) (\<lambda>buf.
     Inr (nonce @ buf)))"

definition unseal :: "prims \<Rightarrow> aead_key \<Rightarrow> bytes \<Rightarrow> bytes \<Rightarrow> key_error + bytes" where
  "unseal P key kid sealed =
     (if length sealed < 12 + 16 then Inl KeUnseal
      else map_err (\<lambda>_. KeUnseal) (open_in_place P key (take 12 sealed) kid (drop 12 sealed)))"

section \<open>Keys\<close>

definition ROOT_LIFETIME_SECS :: int where "ROOT_LIFETIME_SECS = 10 * 365 * 86400"
definition ISSUING_LIFETIME_SECS :: int where "ISSUING_LIFETIME_SECS = 2 * 365 * 86400"

record 't ca_keys =
  ck_root :: "hybrid_signing_keypair option"
  ck_issuing :: hybrid_signing_keypair
  ck_tls_ca :: 't
  ck_root_cert :: certificate
  ck_issuing_cert :: certificate
  ck_tls_ca_cert_pem :: bytes
  ck_tls_ca_cert_der :: bytes

definition ca_tbs ::
  "prims \<Rightarrow> int \<Rightarrow> crypto_error + bytes \<Rightarrow> subject_kind \<Rightarrow> hybrid_signing_keypair \<Rightarrow> hybrid_signing_keypair \<Rightarrow> int \<Rightarrow>
   key_error + tbs_certificate" where
  "ca_tbs P now draw kind kp issuer lifetime =
     bind_res (map_err (\<lambda>_. KeRandom) draw) (\<lambda>serial.
     Inr \<lparr>tb_version = 2, tb_serial = serial, tb_tenant_id = [], tb_subject_id = replicate 16 0,
          tb_kind = kind, tb_signing_key = verifying_key kp, tb_kem_key = None,
          tb_not_before = word_of_int (now - 300), tb_not_after = word_of_int (now + lifetime),
          tb_issuer_key_id = key_id P (verifying_key issuer), tb_sans = [], tb_tls_cert_sha256 = None,
          tb_hardware_binding = None\<rparr>)"

record key_row =
  kr_kind :: bytes
  kr_key_id :: bytes
  kr_certificate :: bytes
  kr_sealed :: bytes
  kr_provider :: bytes
  kr_active :: bool

datatype key_stmt = SelectKeys nat | BeginKeys | CountKeys | InsertKey bytes | CommitKeys

text \<open>\<open>key_id\<close> is \<open>UNIQUE\<close> with 32 bytes, and one row of each kind may be active.\<close>

definition insert_key ::
  "prims \<Rightarrow> aead_key \<Rightarrow> (key_stmt \<Rightarrow> bool) \<Rightarrow> crypto_error + bytes \<Rightarrow> bytes \<Rightarrow> bytes \<Rightarrow> bytes \<Rightarrow> bytes \<Rightarrow>
   key_row list \<Rightarrow> key_error + key_row list" where
  "insert_key P master up draw kind kid cert secret rows =
     bind_res (seal P master draw kid secret) (\<lambda>sealed.
     if \<not> up (InsertKey kind) \<or> length kid \<noteq> 32 \<or> kid \<in> kr_key_id ` set rows \<or>
        kind \<in> kr_kind ` set (filter kr_active rows)
     then Inl KeDb
     else Inr (rows @ [\<lparr>kr_kind = kind, kr_key_id = kid, kr_certificate = cert, kr_sealed = sealed,
                        kr_provider = ascii ''sealed-file'', kr_active = True\<rparr>]))"

text \<open>The draws of the ceremony, in the order they are made.\<close>

record init_coins =
  ic_root :: "crypto_error + bytes \<times> bytes"
  ic_root_serial :: "crypto_error + bytes"
  ic_root_sign :: bytes
  ic_issuing :: "crypto_error + bytes \<times> bytes"
  ic_issuing_serial :: "crypto_error + bytes"
  ic_issuing_sign :: bytes
  ic_tls :: bytes
  ic_nonces :: "(crypto_error + bytes) \<times> (crypto_error + bytes) \<times> (crypto_error + bytes)"

text \<open>The key material, before the transaction.\<close>

record 't ceremony =
  cy_root :: hybrid_signing_keypair
  cy_root_cert :: certificate
  cy_issuing :: hybrid_signing_keypair
  cy_issuing_cert :: certificate
  cy_tls :: 't
  cy_tls_der :: bytes

definition create_keys :: "prims \<Rightarrow> ('t, 'q) x509_lib \<Rightarrow> int \<Rightarrow> init_coins \<Rightarrow> key_error + 't ceremony" where
  "create_keys P X now coins =
     bind_res (map_err (\<lambda>_. KeRandom) (ic_root coins)) (\<lambda>(r1, r2).
     let root_kp = signing_generate P r1 r2 in
     bind_res (ca_tbs P now (ic_root_serial coins) RootCa root_kp root_kp ROOT_LIFETIME_SECS) (\<lambda>root_tbs.
     bind_res (map_err (\<lambda>_. KeRandom) (cert_sign P (ic_root_sign coins) root_tbs root_kp)) (\<lambda>root_cert.
     bind_res (map_err (\<lambda>_. KeRandom) (ic_issuing coins)) (\<lambda>(s1, s2).
     let issuing_kp = signing_generate P s1 s2 in
     bind_res (ca_tbs P now (ic_issuing_serial coins) IssuingCa issuing_kp root_kp ISSUING_LIFETIME_SECS) (\<lambda>issuing_tbs.
     bind_res (map_err (\<lambda>_. KeRandom) (cert_sign P (ic_issuing_sign coins) issuing_tbs root_kp)) (\<lambda>issuing_cert.
     bind_res (map_err KeX509 (xl_generate X (ic_tls coins))) (\<lambda>tls_key.
     bind_res (map_err KeX509 (xl_self_signed X tls_key)) (\<lambda>tls_der.
     Inr \<lparr>cy_root = root_kp, cy_root_cert = root_cert, cy_issuing = issuing_kp,
          cy_issuing_cert = issuing_cert, cy_tls = tls_key, cy_tls_der = tls_der\<rparr>))))))))"

definition initialize ::
  "prims \<Rightarrow> ('t, 'q) x509_lib \<Rightarrow> aead_key \<Rightarrow> (key_stmt \<Rightarrow> bool) \<Rightarrow> int \<Rightarrow> init_coins \<Rightarrow> key_row list \<Rightarrow>
   key_error + key_row list" where
  "initialize P X master up now coins rows =
     bind_res (create_keys P X now coins) (\<lambda>c.
     if \<not> up BeginKeys \<or> \<not> up CountKeys then Inl KeDb
     else if length rows > 0 then Inr rows
     else case ic_nonces coins of (n1, n2, n3) \<Rightarrow>
       bind_res (insert_key P master up n1 (ascii ''root'') (key_id P (verifying_key (cy_root c)))
         (cert_encode (cy_root_cert c)) (signing_to_secret_bytes (cy_root c)) rows) (\<lambda>rows.
       bind_res (insert_key P master up n2 (ascii ''issuing'') (key_id P (verifying_key (cy_issuing c)))
         (cert_encode (cy_issuing_cert c)) (signing_to_secret_bytes (cy_issuing c)) rows) (\<lambda>rows.
       bind_res (insert_key P master up n3 (ascii ''tls'') (p_sha256 P (cy_tls_der c))
         (cy_tls_der c) (xl_key_der X (cy_tls c)) rows) (\<lambda>rows.
       if up CommitKeys then Inr rows else Inl KeDb))))"

section \<open>Loading\<close>

fun chunks :: "nat \<Rightarrow> bytes \<Rightarrow> bytes list" where
  "chunks n bs = (if bs = [] \<or> n = 0 then [] else take n bs # chunks n (drop n bs))"

declare chunks.simps [simp del]

definition pem_encode :: "('t, 'q) x509_lib \<Rightarrow> bytes \<Rightarrow> bytes \<Rightarrow> bytes" where
  "pem_encode X tag der =
     ascii ''-----BEGIN '' @ tag @ ascii ''-----'' @ [10] @
     concat (map (\<lambda>c. c @ [10]) (chunks 64 (xl_base64 X der))) @
     ascii ''-----END '' @ tag @ ascii ''-----'' @ [10]"

definition find_row :: "bytes \<Rightarrow> key_row list \<Rightarrow> key_error + key_row" where
  "find_row kind rows = ok_or (KeMissing kind) (find (\<lambda>r. kr_kind r = kind) rows)"

definition row_key_id :: "key_row \<Rightarrow> key_error + bytes" where
  "row_key_id r = (if length (kr_key_id r) = 32 then Inr (kr_key_id r) else Inl (KeMissing (ascii ''key_id'')))"

definition unseal_row :: "prims \<Rightarrow> aead_key \<Rightarrow> key_row \<Rightarrow> key_error + bytes" where
  "unseal_row P master r = bind_res (row_key_id r) (\<lambda>kid. unseal P master kid (kr_sealed r))"

definition load_signing :: "prims \<Rightarrow> aead_key \<Rightarrow> key_row \<Rightarrow> key_error + hybrid_signing_keypair" where
  "load_signing P master r =
     bind_res (unseal_row P master r) (\<lambda>s. map_err (\<lambda>_. KeUnseal) (signing_from_secret_bytes P s))"

definition load_cert :: "prims \<Rightarrow> key_row \<Rightarrow> key_error + certificate" where
  "load_cert P r = map_err (\<lambda>e. KeX509 (ascii (cert_display e))) (cert_decode P (kr_certificate r))"

definition load_rows ::
  "prims \<Rightarrow> ('t, 'q) x509_lib \<Rightarrow> aead_key \<Rightarrow> bool \<Rightarrow> key_row list \<Rightarrow> key_error + 't ca_keys" where
  "load_rows P X master load_root rows =
     bind_res (find_row (ascii ''root'') rows) (\<lambda>root_row.
     bind_res (find_row (ascii ''issuing'') rows) (\<lambda>issuing_row.
     bind_res (find_row (ascii ''tls'') rows) (\<lambda>tls_row.
     bind_res (load_signing P master issuing_row) (\<lambda>issuing.
     bind_res (if load_root then bind_res (load_signing P master root_row) (\<lambda>r. Inr (Some r)) else Inr None) (\<lambda>root.
     bind_res (unseal_row P master tls_row) (\<lambda>tls_secret.
     bind_res (map_err KeX509 (xl_key_of X tls_secret)) (\<lambda>tls_ca.
     bind_res (load_cert P root_row) (\<lambda>root_cert.
     bind_res (load_cert P issuing_row) (\<lambda>issuing_cert.
     Inr \<lparr>ck_root = root, ck_issuing = issuing, ck_tls_ca = tls_ca, ck_root_cert = root_cert,
          ck_issuing_cert = issuing_cert,
          ck_tls_ca_cert_pem = pem_encode X (ascii ''CERTIFICATE'') (kr_certificate tls_row),
          ck_tls_ca_cert_der = kr_certificate tls_row\<rparr>)))))))))"

text \<open>The second call after \<open>initialize\<close> is the same function with \<open>init\<close> off; \<open>SelectKeys i\<close> is the query of
  the \<open>i\<close>-th call.\<close>

definition load_existing ::
  "prims \<Rightarrow> ('t, 'q) x509_lib \<Rightarrow> aead_key \<Rightarrow> (key_stmt \<Rightarrow> bool) \<Rightarrow> nat \<Rightarrow> bool \<Rightarrow> key_row list \<Rightarrow>
   key_error + 't ca_keys" where
  "load_existing P X master up i load_root rows =
     (if \<not> up (SelectKeys i) then Inl KeDb
      else if filter kr_active rows = [] then Inl NotInitialized
      else load_rows P X master load_root (filter kr_active rows))"

definition load_or_init ::
  "prims \<Rightarrow> ('t, 'q) x509_lib \<Rightarrow> aead_key \<Rightarrow> (key_stmt \<Rightarrow> bool) \<Rightarrow> int \<Rightarrow> init_coins \<Rightarrow> bool \<Rightarrow> bool \<Rightarrow> key_row list \<Rightarrow>
   (key_error + 't ca_keys) \<times> key_row list" where
  "load_or_init P X master up now coins load_root init rows =
     (if up (SelectKeys 0) \<and> filter kr_active rows = [] \<and> init then
        (case initialize P X master up now coins rows of
           Inl e \<Rightarrow> (Inl e, rows)
         | Inr rows' \<Rightarrow> (load_existing P X master up 1 load_root rows', rows'))
      else (load_existing P X master up 0 load_root rows, rows))"

section \<open>Lemmas\<close>

text \<open>What the code relies on of \<open>rcgen\<close>: a generated key can be self-signed and is read back from its DER,
  which is small.\<close>

definition x509_laws :: "('t, 'q) x509_lib \<Rightarrow> bool" where
  "x509_laws X = (\<forall>r k. xl_generate X r = Inr k \<longrightarrow>
     (\<exists>der. xl_self_signed X k = Inr der) \<and> xl_key_of X (xl_key_der X k) = Inr k \<and> length (xl_key_der X k) \<le> 4096)"

definition seal_prims :: "prims \<Rightarrow> bool" where
  "seal_prims P = (ed25519_correct P \<and> mldsa_correct P \<and> aead_correct P \<and> aead_seals P \<and> digest_sized P)"

lemma master_key_read_back:
  assumes "length k = 32" and "generate_master_key umask (Inr k) None = Inr file"
  shows "from_file path (Some file) = Inr (aead_new Aes256Gcm k)"
proof -
  have "(kf_mode file AND 511) AND 63 = 0"
    using assms(2) by (auto simp: generate_master_key_def write_private_def and.assoc and.left_commute)
  then show ?thesis
    using assms by (auto simp: from_file_def check_permissions_def generate_master_key_def write_private_def Let_def)
qed

lemma sealed_opens:
  assumes "aead_correct P" and "aead_seals P" and "length nonce = 12" and "length secret \<le> 65536"
  shows "\<exists>sealed. seal P master (Inr nonce) kid secret = Inr sealed \<and> unseal P master kid sealed = Inr secret"
proof -
  obtain buf where "seal_in_place P master nonce kid secret = Inr buf" using seal_succeeds[OF assms(2,4)] by blast
  with open_seal[OF assms(1) this] assms(3) show ?thesis by (simp add: seal_def unseal_def)
qed

lemma secret_bytes_read_back:
  assumes "mldsa_correct P" and "length r1 = 32"
  shows "signing_from_secret_bytes P (signing_to_secret_bytes (signing_generate P r1 r2)) = Inr (signing_generate P r1 r2)"
    and "length (signing_to_secret_bytes (signing_generate P r1 r2)) = 6016"
proof -
  obtain pk sk where k: "p_mldsa_keypair P r2 = (pk, sk)" by fastforce
  then have "length pk = 1952" "length sk = 4032" using assms(1) by (auto simp: mldsa_correct_def)
  with k assms(2) show "signing_from_secret_bytes P (signing_to_secret_bytes (signing_generate P r1 r2)) = Inr (signing_generate P r1 r2)"
    "length (signing_to_secret_bytes (signing_generate P r1 r2)) = 6016"
    by (simp_all add: signing_from_secret_bytes_def signing_to_secret_bytes_def signing_generate_def mldsa_generate_def
        ed_from_seed_def hybrid_from_defs HYBRID_SECRET_BYTES_def slice_def Let_def)
qed

lemma key_id_length: "digest_sized P \<Longrightarrow> length (key_id P vk) = 32"
  by (simp add: key_id_def digest_sized_def)

lemma sint_i64: "- (2 ^ 63) \<le> x \<Longrightarrow> x < 2 ^ 63 \<Longrightarrow> sint (word_of_int x :: i64) = x"
  by (simp add: sint_sbintrunc' signed_take_bit_int_eq_self)

lemma ca_cert:
  assumes "ed25519_correct P" and "mldsa_correct P" and "digest_sized P" and "length r1 = 32" and "length i1 = 32"
    and "length serial = 16" and "kp = signing_generate P r1 r2" and "issuer = signing_generate P i1 i2"
    and "0 \<le> now - 300" and "now + lifetime < 2 ^ 63" and "0 < lifetime"
  shows "\<exists>tbs c. ca_tbs P now (Inr serial) kind kp issuer lifetime = Inr tbs \<and> cert_sign P r tbs issuer = Inr c \<and>
    cert_ok P c \<and> signed_by P c (verifying_key issuer) \<and> ce_tbs c = tbs \<and> tb_kind tbs = kind \<and>
    tb_signing_key tbs = verifying_key kp \<and> tb_issuer_key_id tbs = key_id P (verifying_key issuer) \<and>
    (\<forall>t. is_valid_at c t \<longleftrightarrow> now - 300 \<le> t \<and> t \<le> now + lifetime)"
proof -
  obtain tbs where tbs: "ca_tbs P now (Inr serial) kind kp issuer lifetime = Inr tbs"
    by (simp add: ca_tbs_def)
  obtain s where s: "hybrid_sign P r issuer Cert (tbs_encode tbs) = Inr s" "sig_wf s"
    "hybrid_verify P (verifying_key issuer) Cert (tbs_encode tbs) s = Inr ()"
    using sign_generated[OF assms(1,2,5,8)] by blast
  have vk: "vk_wf P (verifying_key kp)" using generated_vk_wf[OF assms(1,2,4)] assms(7) by simp
  have "sint (word_of_int (now - 300) :: i64) = now - 300" "sint (word_of_int (now + lifetime) :: i64) = now + lifetime"
    using sint_i64[of "now - 300"] sint_i64[of "now + lifetime"] assms(9-11) by simp_all
  moreover have "tbs_ok P tbs"
    using tbs vk vk_bytes_length[OF vk] key_id_length[OF assms(3)] assms(6)
    by (auto simp: ca_tbs_def tbs_ok_def string_ok_def kem_opt_ok_def sans_ok_def tls_ok_def hw_ok_def tbs_encode_def
        put_kem_def put_sans_def put_tls_def put_hw_def put16_def HYBRID_VERIFYING_KEY_BYTES_def key_sizes)
  ultimately show ?thesis using s tbs
    by (auto simp: cert_sign_def cert_ok_def signed_by_def ca_tbs_def is_valid_at_def)
qed

text \<open>The keys a CA works with: the issuing key is the one its certificate names, and that certificate is
  signed by a self-signed root.\<close>

definition ca_ok :: "prims \<Rightarrow> 't ca_keys \<Rightarrow> bool" where
  "ca_ok P keys =
     ((\<exists>r1 r2. length r1 = 32 \<and> ck_issuing keys = signing_generate P r1 r2) \<and>
      cert_ok P (ck_root_cert keys) \<and> cert_ok P (ck_issuing_cert keys) \<and>
      verifier_new P [ck_root_cert keys] = Inr [ck_root_cert keys] \<and>
      tb_kind (ce_tbs (ck_issuing_cert keys)) = IssuingCa \<and>
      tb_signing_key (ce_tbs (ck_issuing_cert keys)) = verifying_key (ck_issuing keys) \<and>
      tb_issuer_key_id (ce_tbs (ck_issuing_cert keys)) = key_id P (tb_signing_key (ce_tbs (ck_root_cert keys))) \<and>
      signed_by P (ck_issuing_cert keys) (tb_signing_key (ce_tbs (ck_root_cert keys))))"

text \<open>Draws that the random source made without an error.\<close>

record drawn =
  dr_root :: "bytes \<times> bytes"
  dr_root_serial :: bytes
  dr_issuing :: "bytes \<times> bytes"
  dr_issuing_serial :: bytes
  dr_nonces :: "bytes \<times> bytes \<times> bytes"

definition coins_ok :: "init_coins \<Rightarrow> drawn \<Rightarrow> bool" where
  "coins_ok coins d =
     (ic_root coins = Inr (dr_root d) \<and> length (fst (dr_root d)) = 32 \<and>
      ic_root_serial coins = Inr (dr_root_serial d) \<and> length (dr_root_serial d) = 16 \<and>
      ic_issuing coins = Inr (dr_issuing d) \<and> length (fst (dr_issuing d)) = 32 \<and>
      ic_issuing_serial coins = Inr (dr_issuing_serial d) \<and> length (dr_issuing_serial d) = 16 \<and>
      (case dr_nonces d of (n1, n2, n3) \<Rightarrow> ic_nonces coins = (Inr n1, Inr n2, Inr n3) \<and>
         length n1 = 12 \<and> length n2 = 12 \<and> length n3 = 12))"

abbreviation drawn_kp :: "prims \<Rightarrow> bytes \<times> bytes \<Rightarrow> hybrid_signing_keypair" where
  "drawn_kp P r \<equiv> signing_generate P (fst r) (snd r)"

lemma keys_created:
  assumes P: "seal_prims P" and coins: "coins_ok coins d" and tls: "xl_generate X (ic_tls coins) = Inr tk" "xl_self_signed X tk = Inr der"
    and now: "300 \<le> now" "now + ROOT_LIFETIME_SECS < 2 ^ 63"
  obtains rc ic where
    "create_keys P X now coins = Inr \<lparr>cy_root = drawn_kp P (dr_root d), cy_root_cert = rc, cy_issuing = drawn_kp P (dr_issuing d),
       cy_issuing_cert = ic, cy_tls = tk, cy_tls_der = der\<rparr>"
    "cert_ok P rc" "cert_ok P ic" "verifier_new P [rc] = Inr [rc]" "tb_kind (ce_tbs ic) = IssuingCa"
    "tb_signing_key (ce_tbs ic) = verifying_key (drawn_kp P (dr_issuing d))"
    "tb_issuer_key_id (ce_tbs ic) = key_id P (tb_signing_key (ce_tbs rc))" "signed_by P ic (tb_signing_key (ce_tbs rc))"
    "\<And>t. is_valid_at rc t \<longleftrightarrow> now - 300 \<le> t \<and> t \<le> now + ROOT_LIFETIME_SECS"
    "\<And>t. is_valid_at ic t \<longleftrightarrow> now - 300 \<le> t \<and> t \<le> now + ISSUING_LIFETIME_SECS"
proof -
  let ?root = "drawn_kp P (dr_root d)" and ?iss = "drawn_kp P (dr_issuing d)"
  note P = P[unfolded seal_prims_def] and c = coins[unfolded coins_ok_def]
  have n: "0 \<le> now - 300" "0 < ROOT_LIFETIME_SECS" "0 < ISSUING_LIFETIME_SECS" "now + ISSUING_LIFETIME_SECS < 2 ^ 63"
    using now by (simp_all add: ROOT_LIFETIME_SECS_def ISSUING_LIFETIME_SECS_def)
  obtain rtbs rc where r: "ca_tbs P now (Inr (dr_root_serial d)) RootCa ?root ?root ROOT_LIFETIME_SECS = Inr rtbs"
    "cert_sign P (ic_root_sign coins) rtbs ?root = Inr rc" "cert_ok P rc" "signed_by P rc (verifying_key ?root)"
    "ce_tbs rc = rtbs" "tb_kind rtbs = RootCa" "tb_signing_key rtbs = verifying_key ?root"
    "tb_issuer_key_id rtbs = key_id P (verifying_key ?root)"
    "\<forall>t. is_valid_at rc t \<longleftrightarrow> now - 300 \<le> t \<and> t \<le> now + ROOT_LIFETIME_SECS"
    using ca_cert[where serial = "dr_root_serial d" and kp = ?root and issuer = ?root, OF _ _ _ _ _ _ refl refl n(1) now(2) n(2)] P c by blast
  obtain itbs ic where i: "ca_tbs P now (Inr (dr_issuing_serial d)) IssuingCa ?iss ?root ISSUING_LIFETIME_SECS = Inr itbs"
    "cert_sign P (ic_issuing_sign coins) itbs ?root = Inr ic" "cert_ok P ic" "signed_by P ic (verifying_key ?root)"
    "ce_tbs ic = itbs" "tb_kind itbs = IssuingCa" "tb_signing_key itbs = verifying_key ?iss"
    "tb_issuer_key_id itbs = key_id P (verifying_key ?root)"
    "\<forall>t. is_valid_at ic t \<longleftrightarrow> now - 300 \<le> t \<and> t \<le> now + ISSUING_LIFETIME_SECS"
    using ca_cert[where serial = "dr_issuing_serial d" and kp = ?iss and issuer = ?root, OF _ _ _ _ _ _ refl refl n(1,4,3)] P c by blast
  have "create_keys P X now coins = Inr \<lparr>cy_root = ?root, cy_root_cert = rc, cy_issuing = ?iss,
       cy_issuing_cert = ic, cy_tls = tk, cy_tls_der = der\<rparr>"
    using c r(1,2) i(1,2) tls by (cases "dr_root d"; cases "dr_issuing d") (simp add: create_keys_def Let_def)
  moreover have "verifier_new P [rc] = Inr [rc]"
    using r verify_signature_iff[of P rc "verifying_key ?root"] by (simp add: verifier_new_def check_root_def)
  ultimately show ?thesis using that r i by simp
qed

text \<open>A row the provider sealed is opened again.\<close>

definition sealed_row :: "prims \<Rightarrow> aead_key \<Rightarrow> bytes \<Rightarrow> bytes \<Rightarrow> bytes \<Rightarrow> bytes \<Rightarrow> key_row \<Rightarrow> bool" where
  "sealed_row P master kind kid cert secret r =
     (kr_kind r = kind \<and> kr_key_id r = kid \<and> kr_certificate r = cert \<and> kr_active r \<and> unseal_row P master r = Inr secret)"

lemma key_inserted:
  assumes "seal_prims P" and "length nonce = 12" and "length secret \<le> 65536" and "length kid = 32"
    and "kid \<notin> kr_key_id ` set rows" and "kind \<notin> kr_kind ` set rows"
  shows "\<exists>r. insert_key P master (\<lambda>_. True) (Inr nonce) kind kid cert secret rows = Inr (rows @ [r]) \<and>
    sealed_row P master kind kid cert secret r"
proof -
  obtain sealed where "seal P master (Inr nonce) kid secret = Inr sealed" "unseal P master kid sealed = Inr secret"
    using sealed_opens[OF _ _ assms(2,3)] assms(1) unfolding seal_prims_def by blast
  moreover have "kind \<notin> kr_kind ` set (filter kr_active rows)" using assms(6) by auto
  ultimately show ?thesis using assms(4-5)
    by (auto simp: insert_key_def sealed_row_def unseal_row_def row_key_id_def simp del: ascii_simps)
qed

lemma rows_inserted:
  assumes "seal_prims P" and "length n1 = 12" and "length n2 = 12" and "length n3 = 12"
    and seeds: "length (fst r) = 32" "length (fst i) = 32" and "length tls \<le> 65536"
    and "distinct [key_id P (verifying_key (drawn_kp P r)), key_id P (verifying_key (drawn_kp P i)), p_sha256 P der]"
  shows "\<exists>a b e.
    insert_key P master (\<lambda>_. True) (Inr n1) (ascii ''root'') (key_id P (verifying_key (drawn_kp P r))) rc (signing_to_secret_bytes (drawn_kp P r)) [] = Inr [a] \<and>
    sealed_row P master (ascii ''root'') (key_id P (verifying_key (drawn_kp P r))) rc (signing_to_secret_bytes (drawn_kp P r)) a \<and>
    insert_key P master (\<lambda>_. True) (Inr n2) (ascii ''issuing'') (key_id P (verifying_key (drawn_kp P i))) ic (signing_to_secret_bytes (drawn_kp P i)) [a] = Inr [a, b] \<and>
    sealed_row P master (ascii ''issuing'') (key_id P (verifying_key (drawn_kp P i))) ic (signing_to_secret_bytes (drawn_kp P i)) b \<and>
    insert_key P master (\<lambda>_. True) (Inr n3) (ascii ''tls'') (p_sha256 P der) der tls [a, b] = Inr [a, b, e] \<and>
    sealed_row P master (ascii ''tls'') (p_sha256 P der) der tls e"
proof -
  let ?k1 = "key_id P (verifying_key (drawn_kp P r))" and ?k2 = "key_id P (verifying_key (drawn_kp P i))"
  have ids: "length ?k1 = 32" "length ?k2 = 32" "length (p_sha256 P der) = 32"
    and lens: "length (signing_to_secret_bytes (drawn_kp P r)) \<le> 65536" "length (signing_to_secret_bytes (drawn_kp P i)) \<le> 65536"
    using assms(1) key_id_length secret_bytes_read_back(2)[OF _ seeds(1)] secret_bytes_read_back(2)[OF _ seeds(2)]
    by (auto simp: seal_prims_def digest_sized_def)
  have kinds: "ascii ''root'' \<noteq> ascii ''issuing''" "ascii ''root'' \<noteq> ascii ''tls''" "ascii ''issuing'' \<noteq> ascii ''tls''" by simp_all
  obtain a where a: "insert_key P master (\<lambda>_. True) (Inr n1) (ascii ''root'') ?k1 rc (signing_to_secret_bytes (drawn_kp P r)) [] = Inr [a]"
    "sealed_row P master (ascii ''root'') ?k1 rc (signing_to_secret_bytes (drawn_kp P r)) a"
    using key_inserted[OF assms(1,2) lens(1) ids(1), where rows = "[]" and kind = "ascii ''root''"] by force
  have "?k2 \<notin> kr_key_id ` set [a]" "ascii ''issuing'' \<notin> kr_kind ` set [a]"
    using a(2) assms(8) kinds by (auto simp: sealed_row_def simp del: ascii_simps)
  then obtain b where b: "insert_key P master (\<lambda>_. True) (Inr n2) (ascii ''issuing'') ?k2 ic (signing_to_secret_bytes (drawn_kp P i)) [a] = Inr [a, b]"
    "sealed_row P master (ascii ''issuing'') ?k2 ic (signing_to_secret_bytes (drawn_kp P i)) b"
    using key_inserted[OF assms(1,3) lens(2) ids(2), where rows = "[a]" and kind = "ascii ''issuing''"] by force
  have "p_sha256 P der \<notin> kr_key_id ` set [a, b]" "ascii ''tls'' \<notin> kr_kind ` set [a, b]"
    using a(2) b(2) assms(8) kinds by (auto simp: sealed_row_def simp del: ascii_simps)
  then obtain e where "insert_key P master (\<lambda>_. True) (Inr n3) (ascii ''tls'') (p_sha256 P der) der tls [a, b] = Inr [a, b, e]"
    "sealed_row P master (ascii ''tls'') (p_sha256 P der) der tls e"
    using key_inserted[OF assms(1,4,7) ids(3), where rows = "[a, b]" and kind = "ascii ''tls''"] by force
  with a b show ?thesis by blast
qed

lemma rows_load:
  assumes "x509_laws X" and "xl_generate X r = Inr tk" and "mldsa_correct P" and "length r1 = 32" and "length i1 = 32"
    and "sealed_row P master (ascii ''root'') k1 (cert_encode rc) (signing_to_secret_bytes (signing_generate P r1 r2)) a"
    and "sealed_row P master (ascii ''issuing'') k2 (cert_encode ic) (signing_to_secret_bytes (signing_generate P i1 i2)) b"
    and "sealed_row P master (ascii ''tls'') k3 der (xl_key_der X tk) c" and "cert_ok P rc" and "cert_ok P ic"
  shows "load_rows P X master load_root [a, b, c] =
    Inr \<lparr>ck_root = (if load_root then Some (signing_generate P r1 r2) else None), ck_issuing = signing_generate P i1 i2,
         ck_tls_ca = tk, ck_root_cert = rc, ck_issuing_cert = ic,
         ck_tls_ca_cert_pem = pem_encode X (ascii ''CERTIFICATE'') der, ck_tls_ca_cert_der = der\<rparr>"
proof -
  have kinds: "ascii ''root'' \<noteq> ascii ''issuing''" "ascii ''root'' \<noteq> ascii ''tls''" "ascii ''issuing'' \<noteq> ascii ''tls''" by simp_all
  have "xl_key_of X (xl_key_der X tk) = Inr tk" using assms(1,2) by (simp add: x509_laws_def)
  with assms(6-10) kinds secret_bytes_read_back(1)[OF assms(3,4)] secret_bytes_read_back(1)[OF assms(3,5)]
    cert.from_to[of P rc] cert.from_to[of P ic]
  show ?thesis
    by (simp add: load_rows_def find_row_def sealed_row_def load_signing_def load_cert_def del: ascii_simps)
qed

section \<open>Properties\<close>


definition toy_x509 :: "(bytes, bytes) x509_lib" where
  "toy_x509 = \<lparr>xl_generate = (\<lambda>r. Inr (take 32 r)), xl_self_signed = (\<lambda>k. Inr (9 # k)), xl_key_der = (\<lambda>k. k), xl_key_of = Inr,
     xl_csr_of_pem = Inr, xl_name_ok = (\<lambda>_. True), xl_timestamp = (\<lambda>t. Inr (sint t)), xl_ca_issuer = (\<lambda>der _. Inr der),
     xl_sign = (\<lambda>q _ serial _ _ _ _. Inr (q, serial @ q)), xl_base64 = (\<lambda>b. b)\<rparr>"

definition sample_coins_ca :: init_coins where
  "sample_coins_ca = \<lparr>ic_root = Inr (replicate 32 1, []), ic_root_serial = Inr (replicate 16 1), ic_root_sign = [],
     ic_issuing = Inr (replicate 32 2, []), ic_issuing_serial = Inr (replicate 16 2), ic_issuing_sign = [], ic_tls = [],
     ic_nonces = (Inr (replicate 12 0), Inr (replicate 12 1), Inr (replicate 12 2))\<rparr>"

definition sample_drawn :: drawn where
  "sample_drawn = \<lparr>dr_root = (replicate 32 1, []), dr_root_serial = replicate 16 1, dr_issuing = (replicate 32 2, []),
     dr_issuing_serial = replicate 16 2, dr_nonces = (replicate 12 0, replicate 12 1, replicate 12 2)\<rparr>"

lemma toy_seal_prims: "seal_prims toy"
  using toy_ed25519 toy_mldsa toy_aead toy_sizes by (simp add: seal_prims_def)

lemma toy_x509_laws: "x509_laws toy_x509"
  by (auto simp: x509_laws_def toy_x509_def min_def)

lemma sample_coins_drawn: "coins_ok sample_coins_ca sample_drawn"
  by (simp add: coins_ok_def sample_coins_ca_def sample_drawn_def)

lemma sample_ids_distinct:
  "distinct [key_id toy (verifying_key (drawn_kp toy (dr_root sample_drawn))),
     key_id toy (verifying_key (drawn_kp toy (dr_issuing sample_drawn))), p_sha256 toy [9]]"
proof -
  have k: "key_id toy (verifying_key (signing_generate toy (replicate 32 b) [])) = replicate 32 b" for b
    using sample_key_id[of b] by (simp only: sample_kp_def)
  have h: "p_sha256 toy [9] = 9 # replicate 31 0" by (simp add: toy_def pad_def take_Cons' min_def)
  have "(replicate 32 1 :: bytes) \<noteq> replicate 32 2" by (simp add: replicate_eq_replicate)
  moreover have "(replicate 32 b :: bytes) \<noteq> 9 # replicate 31 0" for b
  proof
    assume e: "(replicate 32 b :: bytes) = 9 # replicate 31 0"
    have "b = 9" using arg_cong[OF e, of hd] by simp
    moreover have "b = 0" using arg_cong[OF e, of last] by simp
    ultimately show False by simp
  qed
  ultimately show ?thesis unfolding sample_drawn_def drawn.simps fst_conv snd_conv k h by (simp del: replicate.simps)
qed


end
