(* ===== verification/Ca_Service.thy ===== *)
theory Ca_Service
  imports Ca_Keys Control_Auth Control_Enroll "HOL-Library.List_Lexorder"
begin

text \<open>
  The certificate authority (\<open>avon-ca/src/pki\<close>, \<open>store.rs\<close>, \<open>service.rs\<close>): signing requests and their proof of
  possession, issuance, revocation lists, and the gRPC service.  It shares the tables \<open>certificates\<close> and
  \<open>crl_versions\<close> with the control plane's database.  The database clock (\<open>dbnow\<close>), the system clock and
  random draws are arguments, and \<open>up\<close> says which statements succeed.
\<close>

section \<open>Errors\<close>

datatype pki_error =
    CsrProof
  | CsrTemplate bytes
  | PkX509 bytes
  | PkCrypto crypto_error
  | PkCert cert_error
  | PkDb bytes
  | PkRandom

fun pki_display :: "pki_error \<Rightarrow> bytes" where
  "pki_display CsrProof = ascii ''csr proof of possession failed''"
| "pki_display (CsrTemplate t) = ascii ''csr template invalid: '' @ t"
| "pki_display (PkX509 t) = ascii ''x509: '' @ t"
| "pki_display (PkCrypto e) = ascii ''crypto: '' @ ascii (crypto_display e)"
| "pki_display (PkCert e) = ascii ''cert: '' @ ascii (cert_display e)"
| "pki_display (PkDb t) = ascii ''database: '' @ t"
| "pki_display PkRandom = ascii ''randomness unavailable''"

definition pki_status :: "pki_error \<Rightarrow> status" where
  "pki_status e =
     (case e of
        CsrProof \<Rightarrow> (InvalidArgument, pki_display e)
      | CsrTemplate _ \<Rightarrow> (InvalidArgument, pki_display e)
      | PkDb _ \<Rightarrow> (Unavailable, ascii ''database'')
      | _ \<Rightarrow> (Internal, pki_display e))"

datatype ca_stmt =
    CaInsertCert | CaUpdateCert | CaBegin | CaSelectRevoked | CaSelectVersion | CaInsertCrl | CaCommit
  | CaSelectCrl | CaSelectCert

abbreviation ca_db_down :: pki_error where "ca_db_down \<equiv> PkDb []"

section \<open>Signing requests\<close>

definition DEVICE_LIFETIME_SECS :: int where "DEVICE_LIFETIME_SECS = 86400"
definition SERVICE_LIFETIME_SECS :: int where "SERVICE_LIFETIME_SECS = 7 * 86400"

record csr_data =
  cd_template :: tbs_certificate
  cd_tls_csr_pem :: bytes
  cd_hardware_binding :: "hardware_binding option"

definition verify_csr :: "prims \<Rightarrow> csr \<Rightarrow> pki_error + csr_data" where
  "verify_csr P csr =
     bind_res (map_err (\<lambda>e. CsrTemplate (ascii (cert_display e))) (tbs_decode P (csr_tbs_template csr))) (\<lambda>template.
     if tb_kind template \<notin> {Device, Gateway, Service}
     then Inl (CsrTemplate (ascii ''kind must be device, gateway or service''))
     else if tb_serial template \<noteq> replicate 16 0 \<or> tb_issuer_key_id template \<noteq> replicate 32 0 \<or>
        tb_not_before template \<noteq> 0 \<or> tb_not_after template \<noteq> 0
     then Inl (CsrTemplate (ascii ''serial, issuer and validity must be zero''))
     else if tb_kem_key template = None then Inl (CsrTemplate (ascii ''kem key required''))
     else
       bind_res (map_err (\<lambda>_. CsrProof) (sig_from_bytes (csr_proof csr))) (\<lambda>proof.
       bind_res (map_err (\<lambda>_. CsrProof) (hybrid_verify P (tb_signing_key template) Csr (csr_tbs_template csr) proof)) (\<lambda>_.
       bind_res (if csr_hardware_binding csr = [] then Inr None
           else bind_res (map_err (\<lambda>e. CsrTemplate (ascii (cert_display e))) (binding_decode (csr_hardware_binding csr))) (\<lambda>b. Inr (Some b))) (\<lambda>binding.
       Inr \<lparr>cd_template = template, cd_tls_csr_pem = csr_tls_csr_pem csr, cd_hardware_binding = binding\<rparr>))))"

section \<open>Issuance\<close>

text \<open>The names \<open>rcgen\<close> accepts, in order.\<close>

fun tls_names :: "('t, 'q) x509_lib \<Rightarrow> bytes list \<Rightarrow> pki_error + san_type list" where
  "tls_names X [] = Inr []"
| "tls_names X (san # sans) =
    (if strip_prefix (ascii ''spiffe://'') san \<noteq> None then
       (if xl_name_ok X (SanUri san) then bind_res (tls_names X sans) (\<lambda>ns. Inr (SanUri san # ns))
        else Inl (PkX509 (ascii ''bad uri san'')))
     else if xl_name_ok X (SanDns san) then bind_res (tls_names X sans) (\<lambda>ns. Inr (SanDns san # ns))
     else Inl (PkX509 (ascii ''bad dns san'')))"

definition sign_tls_csr ::
  "('t, 'q) x509_lib \<Rightarrow> 't ca_keys \<Rightarrow> bytes \<Rightarrow> bytes \<Rightarrow> bytes list \<Rightarrow> i64 \<Rightarrow> i64 \<Rightarrow> pki_error + bytes \<times> bytes" where
  "sign_tls_csr X keys csr_pem serial sans not_before not_after =
     bind_res (map_err PkX509 (xl_csr_of_pem X csr_pem)) (\<lambda>csr.
     bind_res (tls_names X sans) (\<lambda>names.
     bind_res (map_err PkX509 (xl_timestamp X not_before)) (\<lambda>from.
     bind_res (map_err PkX509 (xl_timestamp X not_after)) (\<lambda>until.
     bind_res (map_err PkX509 (xl_ca_issuer X (ck_tls_ca_cert_der keys) (ck_tls_ca keys))) (\<lambda>ca_cert.
     map_err PkX509 (xl_sign X csr names serial from until ca_cert (ck_tls_ca keys)))))))"

record issued =
  is_certificate :: certificate
  is_tls_cert_pem :: bytes
  is_tls_cert_der :: bytes
  is_serial :: bytes
  is_not_after :: i64

definition issue ::
  "prims \<Rightarrow> (uuid \<Rightarrow> bytes) \<Rightarrow> ('t, 'q) x509_lib \<Rightarrow> 't ca_keys \<Rightarrow> int \<Rightarrow> crypto_error + bytes \<Rightarrow> bytes \<Rightarrow> csr_data \<Rightarrow>
   subject_kind \<Rightarrow> uuid option \<Rightarrow> uuid \<Rightarrow> bytes list \<Rightarrow> int \<Rightarrow> pki_error + issued" where
  "issue P uuid_show X keys now draw rnd csr kind tenant subject sans lifetime_secs =
     bind_res (map_err (\<lambda>_. PkRandom) draw) (\<lambda>serial.
     let not_before = word_of_int (now - 300);
         not_after = word_of_int (now + lifetime_secs)
     in
     bind_res (sign_tls_csr X keys (cd_tls_csr_pem csr) serial sans not_before not_after) (\<lambda>(tls_cert_pem, tls_cert_der).
     let tbs = \<lparr>tb_version = 2, tb_serial = serial,
           tb_tenant_id = (case tenant of Some t \<Rightarrow> uuid_show t | None \<Rightarrow> []), tb_subject_id = subject,
           tb_kind = kind, tb_signing_key = tb_signing_key (cd_template csr), tb_kem_key = tb_kem_key (cd_template csr),
           tb_not_before = not_before, tb_not_after = not_after,
           tb_issuer_key_id = key_id P (verifying_key (ck_issuing keys)), tb_sans = sans,
           tb_tls_cert_sha256 = Some (p_sha256 P tls_cert_der), tb_hardware_binding = cd_hardware_binding csr\<rparr>
     in
     bind_res (map_err PkCrypto (cert_sign P rnd tbs (ck_issuing keys))) (\<lambda>certificate.
     Inr \<lparr>is_certificate = certificate, is_tls_cert_pem = tls_cert_pem, is_tls_cert_der = tls_cert_der,
          is_serial = serial, is_not_after = not_after\<rparr>)))"

text \<open>\<open>serial\<close> is \<open>UNIQUE\<close> with 16 bytes.\<close>

definition store_issued ::
  "(ca_stmt \<Rightarrow> bool) \<Rightarrow> issued \<Rightarrow> uuid option \<Rightarrow> uuid \<Rightarrow> bytes \<Rightarrow> bytes \<Rightarrow> control_db \<Rightarrow> pki_error + control_db" where
  "store_issued up issued tenant subject kind issuer_key_id db =
     (if \<not> up CaInsertCert \<or> length (is_serial issued) \<noteq> 16 \<or> is_serial issued \<in> cr_serial ` set (db_certs db)
      then Inl ca_db_down
      else Inr (db\<lparr>db_certs := db_certs db @
        [\<lparr>cr_serial = is_serial issued, cr_tenant = tenant, cr_subject = subject, cr_kind = kind,
          cr_certificate = cert_encode (is_certificate issued), cr_tls_der = is_tls_cert_der issued,
          cr_not_before = sint (tb_not_before (ce_tbs (is_certificate issued))), cr_not_after = sint (is_not_after issued),
          cr_issuer_key_id = issuer_key_id, cr_revoked_at = None, cr_reason = None\<rparr>]\<rparr>))"

definition ca_is_revoked :: "(ca_stmt \<Rightarrow> bool) \<Rightarrow> bytes \<Rightarrow> control_db \<Rightarrow> pki_error + bool" where
  "ca_is_revoked up serial db =
     (if \<not> up CaSelectCert then Inl ca_db_down
      else Inr (case find (\<lambda>c. cr_serial c = serial) (db_certs db) of Some c \<Rightarrow> cr_revoked_at c \<noteq> None | None \<Rightarrow> False))"

section \<open>Revocation lists\<close>

text \<open>\<open>build_and_store\<close> is one transaction at the default isolation level, in which every statement sees what
  was committed before it: the read of the serials, the read of the next version, and the insertion.\<close>

definition revoked_serials :: "int \<Rightarrow> control_db \<Rightarrow> bytes list" where
  "revoked_serials dbnow db =
     filter (\<lambda>s. length s = 16)
       (sort (map cr_serial (filter (\<lambda>c. cr_revoked_at c \<noteq> None \<and> cr_not_after c > dbnow) (db_certs db))))"

definition next_version :: "control_db \<Rightarrow> int" where
  "next_version db = (case map fst (db_crls db) of [] \<Rightarrow> 0 | v # vs \<Rightarrow> fold max vs v) + 1"

definition insert_crl ::
  "prims \<Rightarrow> (ca_stmt \<Rightarrow> bool) \<Rightarrow> bytes \<Rightarrow> int \<Rightarrow> 't ca_keys \<Rightarrow> bytes list \<Rightarrow> int \<Rightarrow> control_db \<Rightarrow>
   pki_error + (bytes \<times> bytes) \<times> control_db" where
  "insert_crl P up rnd now keys serials version db =
     (let crl = \<lparr>cr_version = word_of_int version, cr_issued_at = word_of_int now, cr_serials = serials\<rparr>;
          tbs = crl_encode_tbs crl
      in bind_res (map_err PkCrypto (crl_sign P rnd crl (ck_issuing keys))) (\<lambda>signature.
         if \<not> up CaInsertCrl \<or> version \<in> fst ` set (db_crls db) \<or> \<not> up CaCommit then Inl ca_db_down
         else Inr ((tbs, signature), db\<lparr>db_crls := db_crls db @
            [(version, to_be_bytes (word_of_nat (length tbs) :: u32) @ tbs @ signature)]\<rparr>)))"

definition build_and_store ::
  "prims \<Rightarrow> (ca_stmt \<Rightarrow> bool) \<Rightarrow> bytes \<Rightarrow> int \<Rightarrow> int \<Rightarrow> 't ca_keys \<Rightarrow> control_db \<Rightarrow>
   pki_error + (bytes \<times> bytes) \<times> control_db" where
  "build_and_store P up rnd dbnow now keys db =
     (if \<not> up CaBegin \<or> \<not> up CaSelectRevoked \<or> \<not> up CaSelectVersion \<or> next_version db \<ge> 2 ^ 63 then Inl ca_db_down
      else insert_crl P up rnd now keys (revoked_serials dbnow db) (next_version db) db)"

definition split_crl :: "bytes \<Rightarrow> (bytes \<times> bytes) option" where
  "split_crl encoded =
     (if length encoded < 4 then None
      else let len = unat (from_be_bytes (take 4 encoded) :: u32)
           in if length encoded < 4 + len then None
              else Some (slice encoded 4 (4 + len), drop (4 + len) encoded))"

fun newest_crl :: "(int \<times> bytes) list \<Rightarrow> (int \<times> bytes) option" where
  "newest_crl [] = None"
| "newest_crl (c # cs) = (case newest_crl cs of None \<Rightarrow> Some c | Some d \<Rightarrow> if fst c < fst d then Some d else Some c)"

definition current_crl ::
  "prims \<Rightarrow> (ca_stmt \<Rightarrow> bool) \<Rightarrow> bytes \<Rightarrow> int \<Rightarrow> int \<Rightarrow> 't ca_keys \<Rightarrow> control_db \<Rightarrow> pki_error + (bytes \<times> bytes) \<times> control_db" where
  "current_crl P up rnd dbnow now keys db =
     (if \<not> up CaSelectCrl then Inl ca_db_down
      else case Option.bind (newest_crl (db_crls db)) (\<lambda>c. split_crl (snd c)) of
        Some crl \<Rightarrow> Inr (crl, db)
      | None \<Rightarrow> build_and_store P up rnd dbnow now keys db)"

definition mark_revoked :: "int \<Rightarrow> bytes \<Rightarrow> bytes \<Rightarrow> control_db \<Rightarrow> control_db" where
  "mark_revoked dbnow serial reason db =
     db\<lparr>db_certs := update_where (\<lambda>c. cr_serial c = serial)
       (\<lambda>c. c\<lparr>cr_revoked_at := (case cr_revoked_at c of Some t \<Rightarrow> Some t | None \<Rightarrow> Some dbnow), cr_reason := Some reason\<rparr>)
       (db_certs db)\<rparr>"

text \<open>The \<open>UPDATE\<close> is committed whatever becomes of the list.\<close>

definition revoke ::
  "prims \<Rightarrow> (ca_stmt \<Rightarrow> bool) \<Rightarrow> bytes \<Rightarrow> int \<Rightarrow> int \<Rightarrow> 't ca_keys \<Rightarrow> bytes \<Rightarrow> bytes \<Rightarrow> control_db \<Rightarrow>
   (pki_error + bytes \<times> bytes) \<times> control_db" where
  "revoke P up rnd dbnow now keys serial reason db =
     (if \<not> up CaUpdateCert then (Inl ca_db_down, db)
      else if serial \<notin> cr_serial ` set (db_certs db) then (Inl (PkX509 (ascii ''unknown serial'')), db)
      else
        let db1 = mark_revoked dbnow serial reason db
        in case build_and_store P up rnd dbnow now keys db1 of
             Inl e \<Rightarrow> (Inl e, db1)
           | Inr (crl, db2) \<Rightarrow> (Inr crl, db2))"

section \<open>The service\<close>

definition ca_require :: "prims \<Rightarrow> auth_libs \<Rightarrow> request \<Rightarrow> bytes list \<Rightarrow> status + unit" where
  "ca_require P L req allowed =
     bind_res (map_err (\<lambda>_. (Unauthenticated, ascii ''client certificate required'')) (peer_identity P L req)) (\<lambda>peer.
     case map_option sp_kind (pi_spiffe peer) of
       Some (SpiffeService name _) \<Rightarrow>
         if name \<in> set allowed then Inr () else Inl (PermissionDenied, ascii ''not authorized for CaService'')
     | _ \<Rightarrow> Inl (PermissionDenied, ascii ''not authorized for CaService''))"

record ca_chain =
  ch_root :: bytes
  ch_issuing :: bytes
  ch_tls_ca_pem :: bytes

definition ca_chain_of :: "'t ca_keys \<Rightarrow> ca_chain" where
  "ca_chain_of keys =
     \<lparr>ch_root = cert_encode (ck_root_cert keys), ch_issuing = cert_encode (ck_issuing_cert keys),
      ch_tls_ca_pem = ck_tls_ca_cert_pem keys\<rparr>"

record credential =
  cn_certificate :: bytes
  cn_tls_certificate_pem :: bytes
  cn_chain :: ca_chain
  cn_renew_after_unix :: int

text \<open>\<open>/\<close> on \<open>i64\<close> rounds towards zero.\<close>

definition credential_of :: "'t ca_keys \<Rightarrow> issued \<Rightarrow> credential" where
  "credential_of keys issued =
     (let not_before = sint (tb_not_before (ce_tbs (is_certificate issued)));
          lifetime = sint (is_not_after issued) - not_before
      in \<lparr>cn_certificate = cert_encode (is_certificate issued), cn_tls_certificate_pem = is_tls_cert_pem issued,
          cn_chain = ca_chain_of keys,
          cn_renew_after_unix = not_before + (if lifetime < 0 then - (- lifetime div 2) else lifetime div 2)\<rparr>)"

definition uuid_of :: "bytes option \<Rightarrow> bytes \<Rightarrow> status + uuid" where
  "uuid_of u what =
     bind_res (ok_or (InvalidArgument, what @ ascii '' required'') u) (\<lambda>bs.
     if length bs = 16 then Inr bs else Inl (InvalidArgument, what @ ascii '' must be 16 bytes''))"

record issue_device_request =
  iq_tenant :: "bytes option"
  iq_device :: "bytes option"
  iq_csr :: "csr option"
  iq_kind :: u32
  iq_sans :: "bytes list"

definition template_ok :: "(uuid \<Rightarrow> bytes) \<Rightarrow> tbs_certificate \<Rightarrow> subject_kind \<Rightarrow> uuid \<Rightarrow> uuid \<Rightarrow> bool" where
  "template_ok uuid_show template kind tenant device =
     (tb_kind template = kind \<and>
      (tb_tenant_id template = [] \<or> tb_tenant_id template = uuid_show tenant) \<and>
      (tb_subject_id template = replicate 16 0 \<or> tb_subject_id template = device))"

definition issue_device_credential ::
  "prims \<Rightarrow> auth_libs \<Rightarrow> ('t, 'q) x509_lib \<Rightarrow> (ca_stmt \<Rightarrow> bool) \<Rightarrow> int \<Rightarrow> crypto_error + bytes \<Rightarrow> bytes \<Rightarrow> 't ca_keys \<Rightarrow> int \<Rightarrow>
   request \<Rightarrow> issue_device_request \<Rightarrow> control_db \<Rightarrow> status + (credential \<times> bytes) \<times> control_db" where
  "issue_device_credential P L X up now draw rnd keys device_lifetime_secs req r db =
     bind_res (ca_require P L req [ascii ''control'']) (\<lambda>_.
     bind_res (uuid_of (iq_tenant r) (ascii ''tenant_id'')) (\<lambda>tenant.
     bind_res (uuid_of (iq_device r) (ascii ''device_id'')) (\<lambda>device.
     bind_res (if iq_kind r = 3 then Inr Device else if iq_kind r = 4 then Inr Gateway
         else Inl (InvalidArgument, ascii ''kind must be 3 or 4'')) (\<lambda>kind.
     bind_res (ok_or (InvalidArgument, ascii ''csr required'') (iq_csr r)) (\<lambda>csr_pb.
     bind_res (map_err pki_status (verify_csr P csr_pb)) (\<lambda>csr.
     if \<not> template_ok (al_uuid_show L) (cd_template csr) kind tenant device
     then Inl (InvalidArgument, ascii ''csr template does not match request'')
     else
       bind_res (map_err pki_status
         (issue P (al_uuid_show L) X keys now draw rnd csr kind (Some tenant) device (iq_sans r) device_lifetime_secs)) (\<lambda>issued.
       bind_res (map_err pki_status
         (store_issued up issued (Some tenant) device (if kind = Device then ascii ''device'' else ascii ''gateway'')
           (key_id P (verifying_key (ck_issuing keys))) db)) (\<lambda>db'.
       Inr ((credential_of keys issued, is_serial issued), db')))))))))"

record issue_service_request =
  vq_service :: "bytes option"
  vq_csr :: "csr option"
  vq_service_name :: bytes
  vq_dns_sans :: "bytes list"

definition issue_service_credential ::
  "prims \<Rightarrow> auth_libs \<Rightarrow> ('t, 'q) x509_lib \<Rightarrow> (ca_stmt \<Rightarrow> bool) \<Rightarrow> int \<Rightarrow> crypto_error + bytes \<Rightarrow> bytes \<Rightarrow> 't ca_keys \<Rightarrow>
   request \<Rightarrow> issue_service_request \<Rightarrow> control_db \<Rightarrow> status + (credential \<times> bytes) \<times> control_db" where
  "issue_service_credential P L X up now draw rnd keys req r db =
     bind_res (ca_require P L req [ascii ''control'', ascii ''bootstrap'']) (\<lambda>_.
     bind_res (uuid_of (vq_service r) (ascii ''service_id'')) (\<lambda>service_id.
     bind_res (ok_or (InvalidArgument, ascii ''csr required'') (vq_csr r)) (\<lambda>csr_pb.
     bind_res (map_err pki_status (verify_csr P csr_pb)) (\<lambda>csr.
     if tb_kind (cd_template csr) \<noteq> Service then Inl (InvalidArgument, ascii ''csr kind must be service'')
     else
       let sans = (ascii ''spiffe://avon/service/'' @ vq_service_name r) # vq_dns_sans r in
       bind_res (map_err pki_status
         (issue P (al_uuid_show L) X keys now draw rnd csr Service None service_id sans SERVICE_LIFETIME_SECS)) (\<lambda>issued.
       bind_res (map_err pki_status
         (store_issued up issued None service_id (ascii ''service'') (key_id P (verifying_key (ck_issuing keys))) db)) (\<lambda>db'.
       Inr ((credential_of keys issued, is_serial issued), db')))))))"

definition get_chain :: "prims \<Rightarrow> auth_libs \<Rightarrow> 't ca_keys \<Rightarrow> request \<Rightarrow> status + ca_chain" where
  "get_chain P L keys req =
     bind_res (ca_require P L req [ascii ''control'', ascii ''gateway'', ascii ''admin'', ascii ''bootstrap'']) (\<lambda>_.
     Inr (ca_chain_of keys))"

definition ca_revoke ::
  "prims \<Rightarrow> auth_libs \<Rightarrow> (ca_stmt \<Rightarrow> bool) \<Rightarrow> bytes \<Rightarrow> int \<Rightarrow> int \<Rightarrow> 't ca_keys \<Rightarrow> request \<Rightarrow> bytes \<Rightarrow> bytes \<Rightarrow> control_db \<Rightarrow>
   (status + bytes \<times> bytes) \<times> control_db" where
  "ca_revoke P L up rnd dbnow now keys req serial reason db =
     (case ca_require P L req [ascii ''control'', ascii ''admin''] of
        Inl e \<Rightarrow> (Inl e, db)
      | Inr _ \<Rightarrow>
          if length serial \<noteq> 16 then (Inl (InvalidArgument, ascii ''serial must be 16 bytes''), db)
          else case revoke P up rnd dbnow now keys serial reason db of
            (Inr crl, db') \<Rightarrow> (Inr crl, db')
          | (Inl (PkX509 _), db') \<Rightarrow> (Inl (NotFound, ascii ''serial''), db')
          | (Inl e, db') \<Rightarrow> (Inl (pki_status e), db'))"

definition ca_current_crl ::
  "prims \<Rightarrow> auth_libs \<Rightarrow> (ca_stmt \<Rightarrow> bool) \<Rightarrow> bytes \<Rightarrow> int \<Rightarrow> int \<Rightarrow> 't ca_keys \<Rightarrow> request \<Rightarrow> control_db \<Rightarrow>
   status + (bytes \<times> bytes) \<times> control_db" where
  "ca_current_crl P L up rnd dbnow now keys req db =
     bind_res (ca_require P L req [ascii ''control'', ascii ''admin'']) (\<lambda>_.
     map_err pki_status (current_crl P up rnd dbnow now keys db))"

end
