(* ===== verification/Ca_Revocation.thy ===== *)
theory Ca_Revocation
  imports Ca_Service
begin

text \<open>
  Revocation lists over runs of the certificate authority: what a stored list says, that every list
  supersedes the earlier ones when the operations follow one another, and what happens when two
  revocations overlap.
\<close>

section \<open>Lemmas\<close>

lemma below_next: "(v, e) \<in> set (db_crls db) \<Longrightarrow> v < next_version db"
proof -
  have fold: "x \<le> fold max vs x \<and> (\<forall>v\<in>set vs. v \<le> fold max vs x)" for vs and x :: int
  proof (induction vs arbitrary: x)
    case (Cons a vs)
    have "max a x \<le> fold max vs (max a x)" "\<forall>v\<in>set vs. v \<le> fold max vs (max a x)" using Cons by blast+
    then show ?case by auto
  qed simp
  assume "(v, e) \<in> set (db_crls db)"
  then obtain w ws where l: "map fst (db_crls db) = w # ws" "v \<in> set (w # ws)" by (cases "map fst (db_crls db)") force+
  then show ?thesis using fold[of w ws] by (auto simp: next_version_def)
qed

lemma next_positive: "\<forall>d\<in>set (db_crls db). 0 < fst d \<Longrightarrow> 0 < next_version db"
proof (cases "db_crls db")
  case (Cons c cs)
  assume "\<forall>d\<in>set (db_crls db). 0 < fst d"
  then have "0 < fst c" using Cons by auto
  moreover have "fst c < next_version db" using below_next[of "fst c" "snd c" db] Cons by simp
  ultimately show ?thesis by simp
qed (simp add: next_version_def)

lemma newest_append: "(\<And>d. d \<in> set cs \<Longrightarrow> fst d < fst c) \<Longrightarrow> newest_crl (cs @ [c]) = Some c"
proof (induction cs)
  case (Cons a cs)
  then have "fst a < fst c" "newest_crl (cs @ [c]) = Some c" by simp_all
  then show ?case by simp
qed simp

lemma newest_mem: "newest_crl cs = Some c \<Longrightarrow> c \<in> set cs"
  by (induction cs) (auto split: option.splits if_splits)

lemma split_encoded:
  "length tbs < 2 ^ 32 \<Longrightarrow> split_crl (to_be_bytes (word_of_nat (length tbs) :: u32) @ tbs @ sg) = Some (tbs, sg)"
  by (simp add: split_crl_def unat_word_of_nat32 slice_def be_simps Let_def)

text \<open>A stored list: what it says, and that it is signed.\<close>

definition list_stored :: "prims \<Rightarrow> 't ca_keys \<Rightarrow> control_db \<Rightarrow> int \<Rightarrow> bytes \<times> bytes \<Rightarrow> crl \<Rightarrow> bool" where
  "list_stored P keys db v p c =
     (fst p = crl_encode_tbs c \<and> cr_version c = word_of_int v \<and> 0 < v \<and> v < 2 ^ 63 \<and> crl_ok c \<and>
      crl_verify P (fst p) (snd p) (verifying_key (ck_issuing keys)) = Inr c \<and>
      (\<forall>s\<in>set (cr_serials c). s \<in> cr_serial ` set (db_certs db) \<and>
         (\<forall>r\<in>set (db_certs db). cr_serial r = s \<longrightarrow> cr_revoked_at r \<noteq> None)))"

definition crl_inv :: "prims \<Rightarrow> 't ca_keys \<Rightarrow> control_db \<Rightarrow> bool" where
  "crl_inv P keys db = (\<forall>d\<in>set (db_crls db). \<exists>p c. split_crl (snd d) = Some p \<and> list_stored P keys db (fst d) p c)"

definition revoked_now :: "int \<Rightarrow> control_db \<Rightarrow> bytes \<Rightarrow> bool" where
  "revoked_now t db s = (\<exists>r\<in>set (db_certs db). cr_serial r = s \<and> cr_revoked_at r \<noteq> None \<and> cr_not_after r > t)"

lemma mem_revoked_serials:
  "s \<in> set (revoked_serials t db) \<longleftrightarrow> length s = 16 \<and> revoked_now t db s"
  by (auto simp: revoked_serials_def revoked_now_def)

lemma length_revoked_serials: "length (revoked_serials t db) \<le> length (db_certs db)"
  unfolding revoked_serials_def by (rule order.trans[OF length_filter_le]) (simp add: length_filter_le)

definition serials_ok :: "control_db \<Rightarrow> bytes list \<Rightarrow> bool" where
  "serials_ok db serials =
     (length serials \<le> 1000000 \<and> (\<forall>s\<in>set serials. length s = 16 \<and> s \<in> cr_serial ` set (db_certs db) \<and>
        (\<forall>r\<in>set (db_certs db). cr_serial r = s \<longrightarrow> cr_revoked_at r \<noteq> None)))"

lemma unique_row:
  "\<lbrakk>distinct (map cr_serial rows); r \<in> set rows; r' \<in> set rows; cr_serial r' = cr_serial r\<rbrakk> \<Longrightarrow> r' = r"
  unfolding distinct_map by (metis inj_onD)

lemma read_serials_ok:
  assumes "distinct (map cr_serial (db_certs db))" and "length (db_certs db) \<le> 1000000"
  shows "serials_ok db (revoked_serials t db)"
proof -
  have rv: "s \<in> cr_serial ` set (db_certs db) \<and> (\<forall>r\<in>set (db_certs db). cr_serial r = s \<longrightarrow> cr_revoked_at r \<noteq> None)"
    if s: "revoked_now t db s" for s
  proof -
    obtain r where r: "r \<in> set (db_certs db)" "cr_serial r = s" "cr_revoked_at r \<noteq> None" using s unfolding revoked_now_def by blast
    have "cr_revoked_at r' \<noteq> None" if "r' \<in> set (db_certs db)" "cr_serial r' = s" for r'
      using unique_row[OF assms(1) r(1) that(1)] that(2) r(2,3) by simp
    moreover have "s \<in> cr_serial ` set (db_certs db)" using r(1,2) by blast
    ultimately show ?thesis by blast
  qed
  have "length s = 16 \<and> s \<in> cr_serial ` set (db_certs db) \<and>
      (\<forall>r\<in>set (db_certs db). cr_serial r = s \<longrightarrow> cr_revoked_at r \<noteq> None)" if "s \<in> set (revoked_serials t db)" for s
    using that rv[of s] unfolding mem_revoked_serials by blast
  moreover have "length (revoked_serials t db) \<le> 1000000" using assms(2) length_revoked_serials[of t db] by simp
  ultimately show ?thesis unfolding serials_ok_def by blast
qed

lemma list_inserted:
  assumes sig: "ed25519_correct P" "mldsa_correct P" and ca: "ca_ok P keys" and inv: "crl_inv P keys db"
    and ok: "serials_ok db serials" and ver: "0 < v" "v < 2 ^ 63" "\<And>d. d \<in> set (db_crls db) \<Longrightarrow> fst d < v"
    and up: "up CaInsertCrl" "up CaCommit"
  shows "\<exists>p db' c. insert_crl P up rnd now keys serials v db = Inr (p, db') \<and> list_stored P keys db' v p c \<and> cr_serials c = serials \<and> crl_inv P keys db' \<and>
    Option.bind (newest_crl (db_crls db')) (\<lambda>c. split_crl (snd c)) = Some p \<and> db_certs db' = db_certs db \<and>
    (\<forall>d\<in>set (db_crls db'). d \<in> set (db_crls db) \<or> fst d = v \<and> split_crl (snd d) = Some p) \<and> set (db_crls db) \<subseteq> set (db_crls db')"
proof -
  let ?c = "\<lparr>cr_version = word_of_int v, cr_issued_at = word_of_int now, cr_serials = serials\<rparr>"
  obtain r1 r2 where kp: "length r1 = 32" "ck_issuing keys = signing_generate P r1 r2" using ca by (auto simp: ca_ok_def)
  obtain sg where sg: "hybrid_sign P rnd (ck_issuing keys) Crl (crl_encode_tbs ?c) = Inr sg" "sig_wf sg"
    "hybrid_verify P (verifying_key (ck_issuing keys)) Crl (crl_encode_tbs ?c) sg = Inr ()"
    using sign_generated[OF sig kp] by blast
  have ok': "crl_ok ?c" using ok by (simp add: crl_ok_def serials_ok_def list_all_iff)
  define p where p: "p = (crl_encode_tbs ?c, sig_to_bytes sg)"
  define db' where db': "db' = db\<lparr>db_crls := db_crls db @ [(v, to_be_bytes (word_of_nat (length (fst p)) :: u32) @ fst p @ snd p)]\<rparr>"
  have "v \<notin> fst ` set (db_crls db)" using ver(3) by fastforce
  then have ins: "insert_crl P up rnd now keys serials v db = Inr (p, db')"
    using sg(1) up by (simp add: insert_crl_def crl_sign_def Let_def p db')
  have len: "length (fst p) < 2 ^ 32"
    using ok' length_concat16[of serials] by (simp add: p crl_encode_tbs_def crl_ok_def)
  have ver': "crl_verify P (fst p) (snd p) (verifying_key (ck_issuing keys)) = Inr ?c"
    using sg(3) sig.from_to[OF sg(2)] crl.from_to[OF ok'] by (simp add: p crl_verify_def)
  have stored: "list_stored P keys db' v p ?c"
    using ver' ok ok' ver(1,2) by (simp add: list_stored_def serials_ok_def p db')
  moreover have "crl_inv P keys db'"
    using inv stored split_encoded[OF len, of "snd p"] by (auto simp: crl_inv_def list_stored_def db')
  moreover have "newest_crl (db_crls db') = Some (v, to_be_bytes (word_of_nat (length (fst p)) :: u32) @ fst p @ snd p)"
    unfolding db' using ver(3) by (simp add: newest_append)
  ultimately show ?thesis using split_encoded[OF len, of "snd p"] ins
    by (intro exI[of _ p] exI[of _ db'] exI[of _ ?c]) (auto simp: db')
qed

section \<open>Runs of the authority\<close>

text \<open>Whole operations, one after the other: issuance ends in \<open>store_issued\<close>.  The outputs of a run are the
  lists it handed out.\<close>

datatype ca_event =
    CeStore "ca_stmt \<Rightarrow> bool" issued "uuid option" uuid bytes bytes
  | CeRevoke "ca_stmt \<Rightarrow> bool" bytes int int bytes bytes
  | CeCurrent "ca_stmt \<Rightarrow> bool" bytes int int

fun ca_step :: "prims \<Rightarrow> 't ca_keys \<Rightarrow> control_db \<Rightarrow> ca_event \<Rightarrow> (bytes \<times> bytes) list \<times> control_db" where
  "ca_step P keys db (CeStore up issued tenant subject kind kid) =
     (case store_issued up issued tenant subject kind kid db of Inr db' \<Rightarrow> ([], db') | Inl _ \<Rightarrow> ([], db))"
| "ca_step P keys db (CeRevoke up rnd dbnow now serial reason) =
     (case revoke P up rnd dbnow now keys serial reason db of (Inr p, db') \<Rightarrow> ([p], db') | (Inl _, db') \<Rightarrow> ([], db'))"
| "ca_step P keys db (CeCurrent up rnd dbnow now) =
     (case current_crl P up rnd dbnow now keys db of Inr (p, db') \<Rightarrow> ([p], db') | Inl _ \<Rightarrow> ([], db))"

fun ca_run :: "prims \<Rightarrow> 't ca_keys \<Rightarrow> control_db \<Rightarrow> ca_event list \<Rightarrow> (bytes \<times> bytes) list \<times> control_db" where
  "ca_run P keys db [] = ([], db)"
| "ca_run P keys db (e # es) =
    (case ca_step P keys db e of (out, db1) \<Rightarrow> case ca_run P keys db1 es of (outs, db2) \<Rightarrow> (out @ outs, db2))"

definition lists_in :: "control_db \<Rightarrow> (bytes \<times> bytes) set" where
  "lists_in db = {p. \<exists>d\<in>set (db_crls db). split_crl (snd d) = Some p}"

definition ca_inv :: "prims \<Rightarrow> 't ca_keys \<Rightarrow> control_db \<Rightarrow> bool" where
  "ca_inv P keys db = (crl_inv P keys db \<and> distinct (map cr_serial (db_certs db)))"

lemma marked:
  "map cr_serial (db_certs (mark_revoked t serial reason db)) = map cr_serial (db_certs db)"
  "db_crls (mark_revoked t serial reason db) = db_crls db"
  "length (db_certs (mark_revoked t serial reason db)) = length (db_certs db)"
  by (simp_all add: mark_revoked_def map_update_where)

definition mark_cert :: "int \<Rightarrow> bytes \<Rightarrow> cert_row \<Rightarrow> cert_row" where
  "mark_cert t reason c = c\<lparr>cr_revoked_at := (case cr_revoked_at c of Some t \<Rightarrow> Some t | None \<Rightarrow> Some t), cr_reason := Some reason\<rparr>"

lemma mark_cert_simps [simp]: "cr_serial (mark_cert t reason c) = cr_serial c" "cr_revoked_at (mark_cert t reason c) \<noteq> None"
  "cr_not_after (mark_cert t reason c) = cr_not_after c" "cr_subject (mark_cert t reason c) = cr_subject c"
  by (simp_all add: mark_cert_def split: option.split)

lemma mark_revoked_certs:
  "db_certs (mark_revoked t serial reason db) = map (\<lambda>c. if cr_serial c = serial then mark_cert t reason c else c) (db_certs db)"
  by (simp add: mark_revoked_def update_where_def mark_cert_def)

lemma marked_cases:
  assumes "r \<in> set (db_certs (mark_revoked t serial reason db))"
  obtains (marked) c where "c \<in> set (db_certs db)" "cr_serial c = serial" "r = mark_cert t reason c"
    | (kept) "r \<in> set (db_certs db)" "cr_serial r \<noteq> serial"
proof -
  from assms obtain c where c: "c \<in> set (db_certs db)" "r = (if cr_serial c = serial then mark_cert t reason c else c)"
    unfolding mark_revoked_certs set_map by (rule imageE)
  show thesis
  proof (cases "cr_serial c = serial")
    case True
    with c show thesis using marked[of c] by (simp only: if_True)
  next
    case False
    with c have "r = c" by (simp only: if_False)
    with c False kept show thesis by (simp only:) blast
  qed
qed

lemma marked_all:
  "r \<in> set (db_certs (mark_revoked t serial reason db)) \<Longrightarrow> cr_serial r = serial \<Longrightarrow> cr_revoked_at r \<noteq> None"
  by (erule marked_cases) (simp_all del: not_None_eq)

lemma stored_mark:
  assumes "list_stored P keys db v p c"
  shows "list_stored P keys (mark_revoked t serial reason db) v p c"
proof -
  have "cr_serial ` set (db_certs (mark_revoked t serial reason db)) = cr_serial ` set (db_certs db)"
    using marked(1)[of t serial reason db] by (metis set_map)
  moreover have "cr_revoked_at r \<noteq> None" if "r \<in> set (db_certs (mark_revoked t serial reason db))" "cr_serial r \<in> set (cr_serials c)" for r
    using that(1)
  proof (cases rule: marked_cases)
    case kept
    then show ?thesis using assms that(2) unfolding list_stored_def by blast
  qed (simp del: not_None_eq)
  ultimately show ?thesis using assms unfolding list_stored_def by blast
qed

lemma ca_inv_mark:
  assumes "ca_inv P keys db"
  shows "ca_inv P keys (mark_revoked t serial reason db)"
  using assms stored_mark[of P keys db _ _ _ t serial reason] unfolding ca_inv_def crl_inv_def marked(1,2) by meson

lemma ca_inv_store:
  assumes "store_issued up issued tenant subject kind kid db = Inr db'" and "ca_inv P keys db"
  shows "ca_inv P keys db'" and "db_crls db' = db_crls db" and "length (db_certs db) \<le> length (db_certs db')"
proof -
  obtain row where db': "db' = db\<lparr>db_certs := db_certs db @ [row]\<rparr>" and fresh: "cr_serial row \<notin> cr_serial ` set (db_certs db)"
    using assms(1) by (auto simp: store_issued_def split: if_splits)
  have "list_stored P keys db' v p c" if "list_stored P keys db v p c" for v p c
    using that fresh by (auto simp: list_stored_def db')
  then show "ca_inv P keys db'" using assms(2) fresh by (fastforce simp: ca_inv_def crl_inv_def db')
qed (use assms(1) in \<open>auto simp: store_issued_def split: if_splits\<close>)

lemma built:
  assumes "ed25519_correct P" and "mldsa_correct P" and "ca_ok P keys" and inv: "ca_inv P keys db"
    and "length (db_certs db) \<le> 1000000" and ok: "build_and_store P up rnd dbnow now keys db = Inr (p, db')"
  shows "\<exists>c. list_stored P keys db' (next_version db) p c \<and> cr_serials c = revoked_serials dbnow db \<and> ca_inv P keys db' \<and>
    Option.bind (newest_crl (db_crls db')) (\<lambda>c. split_crl (snd c)) = Some p \<and> db_certs db' = db_certs db \<and>
    lists_in db' = insert p (lists_in db)"
proof -
  have pos: "0 < next_version db"
    using inv by (intro next_positive) (auto simp: ca_inv_def crl_inv_def list_stored_def)
  have max: "fst d < next_version db" if "d \<in> set (db_crls db)" for d
    using below_next[of "fst d" "snd d"] that by simp
  have small: "next_version db < 2 ^ 63" and ins: "insert_crl P up rnd now keys (revoked_serials dbnow db) (next_version db) db = Inr (p, db')"
    using ok by (auto simp: build_and_store_def split: if_splits)
  have up: "up CaInsertCrl" "up CaCommit" using ins by (auto simp: insert_crl_def Let_def res_simps split: if_splits)
  have "crl_inv P keys db" "serials_ok db (revoked_serials dbnow db)" using inv read_serials_ok[OF _ assms(5)] by (auto simp: ca_inv_def)
  from list_inserted[OF assms(1-3) this pos small max up, of rnd now] ins obtain c where
    c: "list_stored P keys db' (next_version db) p c" "cr_serials c = revoked_serials dbnow db" "crl_inv P keys db'"
    "Option.bind (newest_crl (db_crls db')) (\<lambda>c. split_crl (snd c)) = Some p" "db_certs db' = db_certs db"
    "\<forall>d\<in>set (db_crls db'). d \<in> set (db_crls db) \<or> fst d = next_version db \<and> split_crl (snd d) = Some p"
    "set (db_crls db) \<subseteq> set (db_crls db')"
    by auto
  obtain d where d: "newest_crl (db_crls db') = Some d" "split_crl (snd d) = Some p" using c(4) by (auto simp: bind_eq_Some_conv)
  have "lists_in db' = insert p (lists_in db)"
    unfolding lists_in_def using c(6,7) newest_mem[OF d(1)] d(2) by auto
  with c inv show ?thesis by (auto simp: ca_inv_def)
qed

lemma revokedD:
  assumes "revoke P up rnd dbnow now keys serial reason db = (res, db')"
  obtains (kept) e where "res = Inl e" "db' = db"
    | (marked) e where "res = Inl e" "db' = mark_revoked dbnow serial reason db"
    | (listed) p where "res = Inr p" "serial \<in> cr_serial ` set (db_certs db)"
        "build_and_store P up rnd dbnow now keys (mark_revoked dbnow serial reason db) = Inr (p, db')"
  using assms by (auto simp: revoke_def Let_def split: if_splits sum.splits)

lemma currentD:
  assumes "current_crl P up rnd dbnow now keys db = Inr (p, db')"
  obtains (stored) "db' = db" "p \<in> lists_in db"
    | (fresh) "build_and_store P up rnd dbnow now keys db = Inr (p, db')"
  using assms newest_mem
  by (fastforce simp: current_crl_def lists_in_def bind_eq_Some_conv split: if_splits option.splits)

lemma certs_grow: "ca_step P keys db e = (out, db') \<Longrightarrow> length (db_certs db) \<le> length (db_certs db')"
proof (cases e)
  case (CeStore up issued tenant subject kind kid)
  moreover assume "ca_step P keys db e = (out, db')"
  ultimately show ?thesis by (auto simp: store_issued_def split: if_splits)
next
  case (CeRevoke up rnd dbnow now serial reason)
  moreover assume "ca_step P keys db e = (out, db')"
  ultimately show ?thesis
    by (auto simp: revoke_def build_and_store_def insert_crl_def marked Let_def split: sum.splits if_splits prod.splits)
       (auto simp: res_simps marked)
next
  case (CeCurrent up rnd dbnow now)
  moreover assume "ca_step P keys db e = (out, db')"
  ultimately show ?thesis
    by (auto simp: current_crl_def build_and_store_def insert_crl_def Let_def split: sum.splits if_splits prod.splits option.splits)
       (auto simp: res_simps)
qed

lemma run_grows: "ca_run P keys db es = (out, db') \<Longrightarrow> length (db_certs db) \<le> length (db_certs db')"
  by (induction es arbitrary: db out) (fastforce dest: certs_grow split: prod.splits)+

lemma listed_crl:
  "\<lbrakk>ca_inv P keys db; d \<in> set (db_crls db); split_crl (snd d) = Some p\<rbrakk> \<Longrightarrow> \<exists>c. list_stored P keys db (fst d) p c"
  unfolding ca_inv_def crl_inv_def by fastforce

lemma stored_verifies:
  "list_stored P keys db v p c \<Longrightarrow> crl_verify P (fst p) (snd p) (verifying_key (ck_issuing keys)) = Inr c"
  unfolding list_stored_def by (elim conjE)

lemma version_less:
  assumes "list_stored P keys db v p c" and "list_stored P keys db' v' p' c'" and "v < v'"
  shows "cr_version c < cr_version c'"
proof -
  have "uint (word_of_int v :: u64) = v" "uint (word_of_int v' :: u64) = v'"
    using assms(1,2) by (auto simp: list_stored_def uint_word_of_int)
  with assms show ?thesis by (simp add: list_stored_def word_less_def)
qed

text \<open>What an operation keeps and hands out.\<close>

definition ca_kept :: "prims \<Rightarrow> 't ca_keys \<Rightarrow> control_db \<Rightarrow> (bytes \<times> bytes) list \<Rightarrow> control_db \<Rightarrow> bool" where
  "ca_kept P keys db out db' = (ca_inv P keys db' \<and> set out \<subseteq> lists_in db' \<and> lists_in db \<subseteq> lists_in db')"

lemma step_keeps:
  assumes "ed25519_correct P" and "mldsa_correct P" and "ca_ok P keys" and inv: "ca_inv P keys db"
    and st: "ca_step P keys db e = (out, db')" and few: "length (db_certs db') \<le> 1000000"
  shows "ca_kept P keys db out db'"
proof (cases e)
  case (CeStore up issued tenant subject kind kid)
  show ?thesis
  proof (cases "store_issued up issued tenant subject kind kid db")
    case (Inr b)
    with ca_inv_store(1,2)[OF Inr inv] st CeStore show ?thesis by (auto simp: ca_kept_def lists_in_def)
  qed (use st inv CeStore in \<open>auto simp: ca_kept_def\<close>)
next
  case (CeRevoke up rnd dbnow now serial reason)
  obtain res where r: "revoke P up rnd dbnow now keys serial reason db = (res, db')"
    and out: "out = (case res of Inr p \<Rightarrow> [p] | Inl _ \<Rightarrow> [])"
    using st CeRevoke by (auto split: prod.splits sum.splits)
  let ?db1 = "mark_revoked dbnow serial reason db"
  from r show ?thesis
  proof (cases rule: revokedD)
    case (listed p)
    have "length (db_certs ?db1) \<le> 1000000" using few certs_grow[OF st] by (simp add: marked)
    with built[OF assms(1-3) ca_inv_mark[OF inv] _ listed(3)] show ?thesis
      by (auto simp: ca_kept_def out listed(1) lists_in_def[of db] lists_in_def[of ?db1] marked)
  qed (use inv out ca_inv_mark[OF inv] in \<open>auto simp: ca_kept_def lists_in_def marked\<close>)
next
  case (CeCurrent up rnd dbnow now)
  then show ?thesis
  proof (cases "current_crl P up rnd dbnow now keys db")
    case (Inr q)
    then have c: "current_crl P up rnd dbnow now keys db = Inr (fst q, db')" and out: "out = [fst q]"
      using st CeCurrent by (auto split: prod.splits)
    from c show ?thesis
    proof (cases rule: currentD)
      case fresh
      have "length (db_certs db) \<le> 1000000" using few certs_grow[OF st] by simp
      from built[OF assms(1-3) inv this fresh] show ?thesis by (auto simp: ca_kept_def out)
    qed (use inv out in \<open>auto simp: ca_kept_def\<close>)
  qed (use st inv CeCurrent in \<open>auto simp: ca_kept_def\<close>)
qed

lemma run_keeps:
  assumes "ed25519_correct P" and "mldsa_correct P" and "ca_ok P keys"
    and "ca_inv P keys db" and "ca_run P keys db es = (out, db')" and "length (db_certs db') \<le> 1000000"
  shows "ca_kept P keys db out db'"
  using assms(4-6)
proof (induction es arbitrary: db out)
  case (Cons e es)
  obtain o1 db1 o2 where s: "ca_step P keys db e = (o1, db1)" "ca_run P keys db1 es = (o2, db')" "out = o1 @ o2"
    using Cons.prems(2) by (auto split: prod.splits)
  have few: "length (db_certs db1) \<le> 1000000" using run_grows[OF s(2)] Cons.prems(3) by simp
  note k = step_keeps[OF assms(1-3) Cons.prems(1) s(1) few]
  have "ca_inv P keys db1" using k unfolding ca_kept_def by blast
  then have "ca_kept P keys db1 o2 db'" using Cons.IH[OF _ s(2) Cons.prems(3)] by blast
  with k show ?case unfolding ca_kept_def s(3) set_append by blast
next
  case Nil
  then show ?case by (simp add: ca_kept_def)
qed

section \<open>Properties\<close>


lemma crl_applied:
  assumes "crl_verify P tbs sg (tb_signing_key (ce_tbs (cc_issuing (gw_chain gw)))) = Inr c"
    and "cr_version (cc_crl (gw_chain gw)) \<le> cr_version c"
  shows "gw_chain (fst (apply_crl P R gw tbs sg)) = (gw_chain gw)\<lparr>cc_crl := c\<rparr>"
  using assms by (simp add: apply_crl_def Let_def close_all_chain not_less del: ascii_simps)

lemma built_version:
  "build_and_store P up rnd dbnow now keys db = Inr (p, db') \<Longrightarrow> \<exists>e. (next_version db, e) \<in> set (db_crls db')"
  by (auto simp: build_and_store_def insert_crl_def Let_def res_simps split: if_splits)

lemma serials_ok_mark: "serials_ok db ss \<Longrightarrow> serials_ok (mark_revoked t serial reason db) ss"
proof -
  assume ok: "serials_ok db ss"
  have "cr_serial ` set (db_certs (mark_revoked t serial reason db)) = cr_serial ` set (db_certs db)"
    using marked(1)[of t serial reason db] by (metis set_map)
  moreover have "cr_revoked_at r \<noteq> None" if "r \<in> set (db_certs (mark_revoked t serial reason db))" "cr_serial r \<in> set ss" for r
    using that(1)
  proof (cases rule: marked_cases)
    case kept
    then show ?thesis using ok that(2) unfolding serials_ok_def by blast
  qed (simp del: not_None_eq)
  ultimately show ?thesis using ok unfolding serials_ok_def by blast
qed

text \<open>C35. Two overlapping revocations can undo one of them.  If one revocation has read the serials for its
  list, and another revokes \<open>b\<close> and completes before the first reads the next version, then the first
  still succeeds: its list has the larger version and does not name \<open>b\<close>.  It is the list the authority
  answers from then on, and a gateway that has applied the second list accepts the first after it and
  no longer takes \<open>b\<close> for revoked.\<close>

theorem overlapping_revocations_undo:
  assumes "ed25519_correct P" and "mldsa_correct P" and "ca_ok P keys" and "ca_inv P keys db"
    and "length (db_certs db) \<le> 1000000" and "length b = 16"
    and "\<exists>r\<in>set (db_certs db). cr_serial r = b \<and> cr_revoked_at r = None \<and> cr_not_after r > t"
    and "revoke P up rnd t now keys b reason db = (Inr pb, db2)"
    and "next_version db2 < 2 ^ 63" and "up' CaInsertCrl" and "up' CaCommit"
    and "tb_signing_key (ce_tbs (cc_issuing (gw_chain gw))) = verifying_key (ck_issuing keys)"
    and "cr_version (cc_crl (gw_chain gw)) \<le> word_of_int (next_version db)"
  shows "\<exists>pa db3 ca cb.
    insert_crl P up' rnd' now' keys (revoked_serials t' db) (next_version db2) db2 = Inr (pa, db3) \<and>
    crl_verify P (fst pa) (snd pa) (verifying_key (ck_issuing keys)) = Inr ca \<and>
    crl_verify P (fst pb) (snd pb) (verifying_key (ck_issuing keys)) = Inr cb \<and>
    cr_version cb < cr_version ca \<and> crl_contains cb b \<and> \<not> crl_contains ca b \<and>
    (\<forall>up rnd t now. up CaSelectCrl \<longrightarrow> current_crl P up rnd t now keys db3 = Inr (pa, db3)) \<and>
    is_revoked (gw_chain (fst (apply_crl P R gw (fst pb) (snd pb)))) b \<and>
    \<not> is_revoked (gw_chain (fst (apply_crl P R (fst (apply_crl P R gw (fst pb) (snd pb))) (fst pa) (snd pa)))) b"
proof -
  let ?db1 = "mark_revoked t b reason db" and ?vk = "verifying_key (ck_issuing keys)"
  have bs: "build_and_store P up rnd t now keys ?db1 = Inr (pb, db2)" using assms(8) by (cases rule: revokedD) auto
  have few: "length (db_certs ?db1) \<le> 1000000" using assms(5) by (simp add: marked)
  obtain cb where cb: "list_stored P keys db2 (next_version ?db1) pb cb" "cr_serials cb = revoked_serials t ?db1" "ca_inv P keys db2"
    "db_certs db2 = db_certs ?db1"
    using built[OF assms(1-3) ca_inv_mark[OF assms(4)] few bs] by blast
  obtain r where r: "r \<in> set (db_certs db)" "cr_serial r = b" "cr_revoked_at r = None" "cr_not_after r > t" using assms(7) by blast
  have "mark_cert t reason r \<in> set (db_certs ?db1)" using r(1,2) unfolding mark_revoked_certs set_map by force
  then have "revoked_now t ?db1 b" unfolding revoked_now_def using r by (intro bexI[of _ "mark_cert t reason r"]) (simp_all del: not_None_eq)
  then have b_in: "b \<in> set (cr_serials cb)" unfolding cb(2) mem_revoked_serials using assms(6) by blast
  have uniq: "distinct (map cr_serial (db_certs db))" using assms(4) by (simp add: ca_inv_def)
  have b_out: "b \<notin> set (revoked_serials t' db)"
  proof
    assume "b \<in> set (revoked_serials t' db)"
    then obtain r' where "r' \<in> set (db_certs db)" "cr_serial r' = b" "cr_revoked_at r' \<noteq> None"
      unfolding mem_revoked_serials revoked_now_def by blast
    with unique_row[OF uniq r(1), of r'] r(2,3) show False by simp
  qed
  have nv: "next_version ?db1 = next_version db" by (simp add: next_version_def marked)
  have newer: "fst d < next_version db2" if "d \<in> set (db_crls db2)" for d using below_next[of "fst d" "snd d"] that by simp
  have pos: "0 < next_version db2"
    using cb(3) by (intro next_positive) (auto simp: ca_inv_def crl_inv_def list_stored_def)
  have ok: "serials_ok db2 (revoked_serials t' db)"
    unfolding serials_ok_def cb(4) by (rule serials_ok_mark[OF read_serials_ok[OF uniq assms(5)], unfolded serials_ok_def])
  have "crl_inv P keys db2" using cb(3) by (simp add: ca_inv_def)
  from list_inserted[OF assms(1-3) this ok pos assms(9) newer assms(10,11), of rnd' now'] obtain pa db3 ca where
    ca: "insert_crl P up' rnd' now' keys (revoked_serials t' db) (next_version db2) db2 = Inr (pa, db3)"
      "list_stored P keys db3 (next_version db2) pa ca" "cr_serials ca = revoked_serials t' db"
      "Option.bind (newest_crl (db_crls db3)) (\<lambda>c. split_crl (snd c)) = Some pa"
    by blast
  have "next_version ?db1 < next_version db2"
    using built_version[OF bs] newer by fastforce
  note less = version_less[OF cb(1) ca(2) this]
  have g1: "gw_chain (fst (apply_crl P R gw (fst pb) (snd pb))) = (gw_chain gw)\<lparr>cc_crl := cb\<rparr>" (is "gw_chain ?g = _")
    using crl_applied[of P "fst pb" "snd pb" gw cb R] stored_verifies[OF cb(1)] assms(12,13) cb(1) by (simp add: list_stored_def nv)
  have g2: "gw_chain (fst (apply_crl P R ?g (fst pa) (snd pa))) = (gw_chain gw)\<lparr>cc_crl := ca\<rparr>"
    using crl_applied[of P "fst pa" "snd pa" ?g ca R] stored_verifies[OF ca(2)] assms(12) less g1 by simp
  have "\<forall>up rnd t now. up CaSelectCrl \<longrightarrow> current_crl P up rnd t now keys db3 = Inr (pa, db3)"
    using ca(4) by (simp add: current_crl_def)
  then show ?thesis
    using ca(1,3) less stored_verifies[OF ca(2)] stored_verifies[OF cb(1)] b_in b_out g1 g2
    by (intro exI[of _ pa] exI[of _ db3] exI[of _ ca] exI[of _ cb]) (simp add: is_revoked_def crl_contains_def list_ex_iff)
qed

section \<open>A sample authority\<close>

definition sample_ca :: "bytes ca_keys" where
  "sample_ca = \<lparr>ck_root = None, ck_issuing = sample_kp 2, ck_tls_ca = [], ck_root_cert = sample_cert RootCa 1 1,
     ck_issuing_cert = sample_cert IssuingCa 2 1, ck_tls_ca_cert_pem = [], ck_tls_ca_cert_der = []\<rparr>"

definition sample_cert_row :: "byte \<Rightarrow> cert_row" where
  "sample_cert_row b = \<lparr>cr_serial = replicate 16 b, cr_tenant = None, cr_subject = replicate 16 b, cr_kind = ascii ''device'',
     cr_certificate = [], cr_tls_der = [], cr_not_before = 0, cr_not_after = 1000, cr_issuer_key_id = [], cr_revoked_at = None,
     cr_reason = None\<rparr>"

definition sample_ca_db :: control_db where
  "sample_ca_db = sample_control_db\<lparr>db_certs := [sample_cert_row 3, sample_cert_row 4]\<rparr>"

lemma sample_cert_wf: "cert_ok toy (sample_cert k s i)"
proof -
  have "vk_wf toy (verifying_key (sample_kp s))" unfolding sample_kp_def by (rule generated_vk_wf[OF toy_ed25519 toy_mldsa]) simp
  then show ?thesis
    using sample_signed(2)[of k s i]
    by (simp add: cert_ok_def sample_fields tbs_ok_def sample_tbs_def string_ok_def kem_opt_ok_def
        sans_ok_def tls_ok_def hw_ok_def sample_key_id tbs_encode_def put16_def put_kem_def put_sans_def put_tls_def put_hw_def
        vk_to_bytes_def vk_wf_def)
qed

lemma sample_ca_ok: "ca_ok toy sample_ca"
proof -
  have "\<exists>r1 r2. length r1 = 32 \<and> sample_kp 2 = signing_generate toy r1 r2"
    by (rule exI[of _ "replicate 32 2"], rule exI[of _ "[]"]) (simp add: sample_kp_def)
  moreover have "signed_by toy (sample_cert IssuingCa 2 1) (tb_signing_key (ce_tbs (sample_cert RootCa 1 1)))"
    using sample_signed(1)[of IssuingCa 2 1] by (simp add: sample_fields)
  ultimately show ?thesis
    using sample_chain_verifies(1) by (simp add: ca_ok_def sample_ca_def sample_cert_wf sample_fields sample_key_id)
qed

lemma sample_ca_inv: "ca_inv toy sample_ca sample_ca_db"
  by (simp add: ca_inv_def crl_inv_def sample_ca_db_def sample_control_db_def sample_cert_row_def replicate_eq_replicate)

lemma revoke_succeeds:
  assumes "ed25519_correct P" and "mldsa_correct P" and "ca_ok P keys" and inv: "ca_inv P keys db"
    and few: "length (db_certs db) \<le> 1000000" and "serial \<in> cr_serial ` set (db_certs db)" and "next_version db < 2 ^ 63"
  shows "\<exists>p db'. revoke P (\<lambda>_. True) rnd dbnow now keys serial reason db = (Inr p, db') \<and> length (db_certs db') = length (db_certs db) \<and>
    (\<exists>e. db_crls db' = db_crls db @ [(next_version db, e)])"
proof -
  let ?db1 = "mark_revoked dbnow serial reason db"
  have inv1: "crl_inv P keys ?db1" "serials_ok ?db1 (revoked_serials dbnow ?db1)"
    using ca_inv_mark[OF inv] read_serials_ok[of ?db1 dbnow] few by (auto simp: ca_inv_def marked)
  have nv: "next_version ?db1 = next_version db" by (simp add: next_version_def marked)
  have pos: "0 < next_version ?db1" using inv1(1) by (intro next_positive) (auto simp: crl_inv_def list_stored_def)
  have max: "fst d < next_version ?db1" if "d \<in> set (db_crls ?db1)" for d using below_next[of "fst d" "snd d"] that by simp
  have small: "next_version ?db1 < 2 ^ 63" using assms(7) nv by simp
  obtain p db' where i: "insert_crl P (\<lambda>_. True) rnd now keys (revoked_serials dbnow ?db1) (next_version ?db1) ?db1 = Inr (p, db')"
    "db_certs db' = db_certs ?db1"
    using list_inserted[OF assms(1-3) inv1 pos small max, of "\<lambda>_. True" rnd now] by blast
  moreover obtain e where "db_crls db' = db_crls db @ [(next_version db, e)]"
    using i(1) by (auto simp: insert_crl_def Let_def res_simps marked nv split: if_splits)
  ultimately show ?thesis using assms(6) small by (auto simp: revoke_def build_and_store_def Let_def marked)
qed

lemma rows_stay:
  assumes "r \<in> set (db_certs db)"
  shows "(if cr_serial r = serial then mark_cert t reason r else r) \<in> set (db_certs (mark_revoked t serial reason db))"
  unfolding mark_revoked_certs set_map using assms by (intro image_eqI[where x = r]) simp_all


definition sample_ca_gateway :: "(ip_addr \<times> nat, ((ip_addr \<times> nat) \<times> bytes) list, unit) gateway" where
  "sample_ca_gateway = sample_gateway\<lparr>gw_chain := (gw_chain sample_gateway)\<lparr>cc_issuing := sample_cert IssuingCa 2 1\<rparr>\<rparr>"

theorem overlapping_revocations_undo_witness:
  "\<exists>pb db2 pa db3. revoke toy (\<lambda>_. True) [] 10 10 sample_ca (replicate 16 4) [] sample_ca_db = (Inr pb, db2) \<and>
     insert_crl toy (\<lambda>_. True) [] 11 sample_ca (revoked_serials 9 sample_ca_db) (next_version db2) db2 = Inr (pa, db3) \<and>
     is_revoked (gw_chain (fst (apply_crl toy toy_lpm sample_ca_gateway (fst pb) (snd pb)))) (replicate 16 4) \<and>
     \<not> is_revoked (gw_chain (fst (apply_crl toy toy_lpm (fst (apply_crl toy toy_lpm sample_ca_gateway (fst pb) (snd pb)))
         (fst pa) (snd pa)))) (replicate 16 4)"
proof -
  have db0: "db_crls sample_ca_db = []" "length (db_certs sample_ca_db) \<le> 1000000" "next_version sample_ca_db = 1"
    "replicate 16 4 \<in> cr_serial ` set (db_certs sample_ca_db)"
    "\<exists>r\<in>set (db_certs sample_ca_db). cr_serial r = replicate 16 4 \<and> cr_revoked_at r = None \<and> cr_not_after r > 10"
    by (simp_all add: sample_ca_db_def sample_control_db_def sample_cert_row_def next_version_def)
  obtain pb db2 e where one: "revoke toy (\<lambda>_. True) [] 10 10 sample_ca (replicate 16 4) [] sample_ca_db = (Inr pb, db2)"
    "db_crls db2 = [(1, e)]"
    using revoke_succeeds[OF toy_ed25519 toy_mldsa sample_ca_ok sample_ca_inv db0(2,4), of "[]" 10 10 "[]"] db0(1,3) by auto
  have len: "length (replicate 16 4 :: bytes) = 16" and nv: "next_version db2 < 2 ^ 63" using one(2) by (simp_all add: next_version_def)
  have gw: "tb_signing_key (ce_tbs (cc_issuing (gw_chain sample_ca_gateway))) = verifying_key (ck_issuing sample_ca)"
    "cr_version (cc_crl (gw_chain sample_ca_gateway)) \<le> word_of_int (next_version sample_ca_db)"
    by (simp_all add: sample_ca_gateway_def sample_fields sample_ca_def sample_gateway_def)
  from overlapping_revocations_undo[OF toy_ed25519 toy_mldsa sample_ca_ok sample_ca_inv db0(2) len db0(5) one(1) nv _ _ gw,
      where up' = "\<lambda>_. True" and rnd' = "[]" and now' = 11 and t' = 9 and R = toy_lpm]
  obtain pa db3 where
    "insert_crl toy (\<lambda>_. True) [] 11 sample_ca (revoked_serials 9 sample_ca_db) (next_version db2) db2 = Inr (pa, db3)"
    "is_revoked (gw_chain (fst (apply_crl toy toy_lpm sample_ca_gateway (fst pb) (snd pb)))) (replicate 16 4)"
    "\<not> is_revoked (gw_chain (fst (apply_crl toy toy_lpm (fst (apply_crl toy toy_lpm sample_ca_gateway (fst pb) (snd pb)))
         (fst pa) (snd pa)))) (replicate 16 4)"
    by blast
  with one(1) show ?thesis by (intro exI conjI) assumption+
qed

end
