(* ===== verification/Ca_Issuance.thy ===== *)
theory Ca_Issuance
  imports Ca_Revocation
begin

text \<open>
  What the certificate authority signs: a credential is issued only to a key that proved possession, for
  the subject the control plane named, and it verifies through the issued chain while it is valid.
\<close>

lemma verify_csrD:
  assumes "verify_csr P csr = Inr d"
  obtains sig where "sig_from_bytes (csr_proof csr) = Inr sig"
    "hybrid_verify P (tb_signing_key (cd_template d)) Csr (csr_tbs_template csr) sig = Inr ()"
    "tbs_ok P (cd_template d)" "tb_kem_key (cd_template d) \<noteq> None" "hw_ok (cd_hardware_binding d)"
proof -
  obtain template sig binding where t: "tbs_decode P (csr_tbs_template csr) = Inr template" "tb_kem_key template \<noteq> None"
    "sig_from_bytes (csr_proof csr) = Inr sig" "hybrid_verify P (tb_signing_key template) Csr (csr_tbs_template csr) sig = Inr ()"
    "(if csr_hardware_binding csr = [] then Inr None
      else bind_res (map_err (\<lambda>e. CsrTemplate (ascii (cert_display e))) (binding_decode (csr_hardware_binding csr))) (\<lambda>b. Inr (Some b))) = Inr binding"
    "d = \<lparr>cd_template = template, cd_tls_csr_pem = csr_tls_csr_pem csr, cd_hardware_binding = binding\<rparr>"
    using assms unfolding verify_csr_def res_simps by (auto split: if_splits simp del: ascii_simps)
  have "hw_ok binding"
    using t(5) hb.to_from by (auto simp: hw_ok_def res_simps split: if_splits option.splits)
  with t tbs.to_from[OF t(1)] that show ?thesis by simp
qed

lemma issueD:
  assumes "issue P uuid_show X keys now draw rnd csr kind tenant subject sans lifetime = Inr i"
  obtains pem der where
    "draw = Inr (is_serial i)" "is_tls_cert_pem i = pem" "is_tls_cert_der i = der" "is_not_after i = word_of_int (now + lifetime)"
    "ce_tbs (is_certificate i) = \<lparr>tb_version = 2, tb_serial = is_serial i,
       tb_tenant_id = (case tenant of Some t \<Rightarrow> uuid_show t | None \<Rightarrow> []), tb_subject_id = subject,
       tb_kind = kind, tb_signing_key = tb_signing_key (cd_template csr), tb_kem_key = tb_kem_key (cd_template csr),
       tb_not_before = word_of_int (now - 300), tb_not_after = word_of_int (now + lifetime),
       tb_issuer_key_id = key_id P (verifying_key (ck_issuing keys)), tb_sans = sans,
       tb_tls_cert_sha256 = Some (p_sha256 P der), tb_hardware_binding = cd_hardware_binding csr\<rparr>"
    "hybrid_sign P rnd (ck_issuing keys) Cert (tbs_encode (ce_tbs (is_certificate i))) = Inr (ce_signature (is_certificate i))"
  using assms unfolding issue_def Let_def res_simps
  by (clarsimp simp: cert_sign_def res_simps)

lemma stored_issuedD:
  assumes "store_issued up i tenant subject kind kid db = Inr db'"
  shows "length (is_serial i) = 16" and "is_serial i \<notin> cr_serial ` set (db_certs db)"
    and "\<exists>row. db' = db\<lparr>db_certs := db_certs db @ [row]\<rparr> \<and> cr_serial row = is_serial i \<and> cr_subject row = subject \<and>
      cr_tenant row = tenant \<and> cr_certificate row = cert_encode (is_certificate i) \<and> cr_tls_der row = is_tls_cert_der i \<and>
      cr_not_after row = sint (is_not_after i) \<and> cr_revoked_at row = None"
  using assms by (auto simp: store_issued_def split: if_splits)

text \<open>A certificate the issuing key signed is accepted through the chain while it is valid.\<close>

lemma issued_verifies:
  assumes "ed25519_correct P" and "mldsa_correct P" and ca: "ca_ok P keys"
    and kind: "tb_kind (ce_tbs c) \<in> {Device, Gateway, Service}"
    and issuer: "tb_issuer_key_id (ce_tbs c) = key_id P (verifying_key (ck_issuing keys))"
    and sign: "hybrid_sign P rnd (ck_issuing keys) Cert (tbs_encode (ce_tbs c)) = Inr (ce_signature c)"
  shows "sig_wf (ce_signature c)"
    and "\<lbrakk>is_valid_at c t; is_valid_at (ck_issuing_cert keys) t; is_valid_at (ck_root_cert keys) t\<rbrakk> \<Longrightarrow>
      chain_verify P [ck_root_cert keys] c [ck_issuing_cert keys] t =
        Inr \<lparr>vc_cert = c, vc_chain = [cert_id P (ck_root_cert keys), cert_id P (ck_issuing_cert keys), cert_id P c]\<rparr>"
proof -
  obtain r1 r2 where kp: "length r1 = 32" "ck_issuing keys = signing_generate P r1 r2" using ca by (auto simp: ca_ok_def)
  obtain sg where sg: "hybrid_sign P rnd (ck_issuing keys) Cert (tbs_encode (ce_tbs c)) = Inr sg" "sig_wf sg"
    "hybrid_verify P (verifying_key (ck_issuing keys)) Cert (tbs_encode (ce_tbs c)) sg = Inr ()"
    using sign_generated[OF assms(1,2) kp] by blast
  then show "sig_wf (ce_signature c)" using sign by simp
  have leaf: "verify_signature P c (verifying_key (ck_issuing keys)) = Inr ()"
    using sg sign by (simp add: verify_signature_def)
  have iss: "verify_signature P (ck_issuing_cert keys) (tb_signing_key (ce_tbs (ck_root_cert keys))) = Inr ()"
    using ca verify_signature_iff unfolding ca_ok_def by metis
  show "chain_verify P [ck_root_cert keys] c [ck_issuing_cert keys] t =
        Inr \<lparr>vc_cert = c, vc_chain = [cert_id P (ck_root_cert keys), cert_id P (ck_issuing_cert keys), cert_id P c]\<rparr>"
    if "is_valid_at c t" "is_valid_at (ck_issuing_cert keys) t" "is_valid_at (ck_root_cert keys) t"
    using ca kind issuer leaf iss that check_validity_iff[of c t] check_validity_iff[of "ck_issuing_cert keys" t]
      check_validity_iff[of "ck_root_cert keys" t]
    by (simp add: chain_verify_def ca_ok_def)
qed

lemma issue_deviceD:
  assumes "issue_device_credential P L X up now draw rnd keys lifetime req r db = Inr ((cred, serial), db')"
  obtains tenant device kind csr d i where
    "ca_require P L req [ascii ''control''] = Inr ()" "iq_tenant r = Some tenant" "iq_device r = Some device" "length device = 16"
    "kind = (if iq_kind r = 3 then Device else Gateway)" "iq_kind r \<in> {3, 4}" "iq_csr r = Some csr" "verify_csr P csr = Inr d"
    "template_ok (al_uuid_show L) (cd_template d) kind tenant device"
    "issue P (al_uuid_show L) X keys now draw rnd d kind (Some tenant) device (iq_sans r) lifetime = Inr i"
    "store_issued up i (Some tenant) device (if kind = Device then ascii ''device'' else ascii ''gateway'')
       (key_id P (verifying_key (ck_issuing keys))) db = Inr db'"
    "cred = credential_of keys i" "serial = is_serial i"
  using assms unfolding issue_device_credential_def res_simps uuid_of_def
  by (clarsimp simp del: ascii_simps split: if_splits)

section \<open>Properties\<close>


definition sample_ca_auth :: auth_libs where
  "sample_ca_auth = toy_auth\<lparr>al_uuid_show := (\<lambda>_. ascii ''acme''), al_uris := (\<lambda>_. Some [ascii ''spiffe://avon/service/control''])\<rparr>"

definition sample_csr_tbs :: tbs_certificate where
  "sample_csr_tbs = (sample_tbs Device 3 2)\<lparr>tb_serial := replicate 16 0, tb_tenant_id := [], tb_subject_id := replicate 16 0,
     tb_kem_key := Some (kem_public sample_kem), tb_not_before := 0, tb_not_after := 0, tb_issuer_key_id := replicate 32 0\<rparr>"

lemma sample_csr_tbs_ok: "tbs_ok toy sample_csr_tbs"
proof -
  have "kem_pk_wf (kem_public sample_kem)" unfolding sample_kem_def by (rule generated_kem_pk_wf[OF toy_x25519 toy_mlkem])
  moreover have "vk_wf toy (verifying_key (sample_kp 3))" unfolding sample_kp_def by (rule generated_vk_wf[OF toy_ed25519 toy_mldsa]) simp
  ultimately show ?thesis
    using length_kem_pk_bytes[of "kem_public sample_kem"]
    by (simp add: sample_csr_tbs_def tbs_ok_def sample_tbs_def string_ok_def kem_opt_ok_def
        sans_ok_def tls_ok_def hw_ok_def tbs_encode_def put16_def put_kem_def put_sans_def put_tls_def put_hw_def
        vk_to_bytes_def vk_wf_def)
qed

definition sample_csr :: "hybrid_signature \<Rightarrow> csr" where
  "sample_csr sg = \<lparr>csr_tbs_template = tbs_encode sample_csr_tbs, csr_proof = sig_to_bytes sg, csr_tls_csr_pem = [5],
     csr_hardware_binding = []\<rparr>"

lemma sample_csr_verifies:
  assumes "sig_wf sg" and "hybrid_verify toy (verifying_key (sample_kp 3)) Csr (tbs_encode sample_csr_tbs) sg = Inr ()"
  shows "verify_csr toy (sample_csr sg) = Inr \<lparr>cd_template = sample_csr_tbs, cd_tls_csr_pem = [5], cd_hardware_binding = None\<rparr>"
proof -
  have f: "tb_kind sample_csr_tbs = Device" "tb_serial sample_csr_tbs = replicate 16 0" "tb_issuer_key_id sample_csr_tbs = replicate 32 0"
    "tb_not_before sample_csr_tbs = 0" "tb_not_after sample_csr_tbs = 0" "tb_kem_key sample_csr_tbs = Some (kem_public sample_kem)"
    "tb_signing_key sample_csr_tbs = verifying_key (sample_kp 3)"
    by (simp_all add: sample_csr_tbs_def sample_fields)
  show ?thesis using assms sig.from_to[OF assms(1)] tbs.from_to[OF sample_csr_tbs_ok]
    by (simp add: verify_csr_def sample_csr_def f del: ascii_simps replicate.simps)
qed

lemma sample_control_call: "ca_require toy sample_ca_auth sample_call [ascii ''control''] = Inr ()"
proof -
  have "spiffe_parse Some (ascii ''spiffe://avon/service/control'') =
      Inr \<lparr>sp_raw = ascii ''spiffe://avon/service/control'', sp_kind = SpiffeService (ascii ''control'') None\<rparr>"
    by (simp add: spiffe_parse_def spiffe_path_def TRUST_DOMAIN_def)
  then show ?thesis
    by (simp add: ca_require_def peer_identity_def sample_call_def spiffe_from_cert_der_def sample_ca_auth_def toy_auth_def del: ascii_simps)
qed

definition sample_issue :: "hybrid_signature \<Rightarrow> issue_device_request" where
  "sample_issue sg = \<lparr>iq_tenant = Some (replicate 16 7), iq_device = Some (replicate 16 3), iq_csr = Some (sample_csr sg), iq_kind = 3,
     iq_sans = []\<rparr>"

lemma sample_issued:
  assumes "sig_wf sg" and "hybrid_verify toy (verifying_key (sample_kp 3)) Csr (tbs_encode sample_csr_tbs) sg = Inr ()"
  shows "\<exists>cred db'. issue_device_credential toy sample_ca_auth toy_x509 (\<lambda>_. True) 1000 (Inr (replicate 16 9)) [] sample_ca 3600
      sample_call (sample_issue sg) sample_ca_db = Inr ((cred, replicate 16 9), db') \<and>
    length (cn_certificate cred) \<le> 4 + 16384 + HYBRID_SIGNATURE_BYTES"
proof -
  let ?tbs = "\<lparr>tb_version = 2, tb_serial = replicate 16 9, tb_tenant_id = ascii ''acme'', tb_subject_id = replicate 16 3, tb_kind = Device,
     tb_signing_key = tb_signing_key sample_csr_tbs, tb_kem_key = tb_kem_key sample_csr_tbs,
     tb_not_before = word_of_int (1000 - 300), tb_not_after = word_of_int (1000 + 3600),
     tb_issuer_key_id = key_id toy (verifying_key (ck_issuing sample_ca)), tb_sans = [],
     tb_tls_cert_sha256 = Some (p_sha256 toy (replicate 16 9 @ [5])), tb_hardware_binding = None\<rparr>"
  obtain sg' where sg': "hybrid_sign toy [] (sample_kp 2) Cert (tbs_encode ?tbs) = Inr sg'" "sig_wf sg'"
    using sign_generated[OF toy_ed25519 toy_mldsa _ sample_kp_def] by fastforce
  let ?i = "\<lparr>is_certificate = \<lparr>ce_tbs = ?tbs, ce_signature = sg'\<rparr>, is_tls_cert_pem = [5], is_tls_cert_der = replicate 16 9 @ [5],
      is_serial = replicate 16 9, is_not_after = word_of_int (1000 + 3600)\<rparr>"
  let ?d = "\<lparr>cd_template = sample_csr_tbs, cd_tls_csr_pem = [5], cd_hardware_binding = None\<rparr>"
  have tls: "sign_tls_csr toy_x509 sample_ca [5] (replicate 16 9) [] nb na = Inr ([5], replicate 16 9 @ [5])" for nb na
    by (simp add: sign_tls_csr_def toy_x509_def)
  have iss: "issue toy (al_uuid_show sample_ca_auth) toy_x509 sample_ca 1000 (Inr (replicate 16 9)) [] ?d Device (Some (replicate 16 7))
      (replicate 16 3) [] 3600 = Inr ?i"
    using sg'(1) unfolding issue_def map_err.simps bind_res.simps Let_def csr_data.simps tls
    by (simp add: cert_sign_def sample_ca_auth_def sample_ca_def del: ascii_simps replicate.simps)
  have fresh: "replicate 16 9 \<notin> cr_serial ` set (db_certs sample_ca_db)"
    by (simp add: sample_ca_db_def sample_cert_row_def replicate_eq_replicate)
  obtain db' where st: "store_issued (\<lambda>_. True) ?i (Some (replicate 16 7)) (replicate 16 3) (ascii ''device'')
       (key_id toy (verifying_key (ck_issuing sample_ca))) sample_ca_db = Inr db'"
    using fresh by (simp add: store_issued_def del: ascii_simps replicate.simps)
  have tok: "template_ok (al_uuid_show sample_ca_auth) sample_csr_tbs Device (replicate 16 7) (replicate 16 3)"
    by (simp add: template_ok_def sample_csr_tbs_def sample_fields)
  have vk: "length (vk_to_bytes (tb_signing_key sample_csr_tbs)) = HYBRID_VERIFYING_KEY_BYTES" "kem_opt_ok (tb_kem_key sample_csr_tbs)"
    using sample_csr_tbs_ok vk_bytes_length[of toy] by (auto simp: tbs_ok_def)
  have "length (put_kem (tb_kem_key sample_csr_tbs)) \<le> 1218"
    using vk(2) by (auto simp: put_kem_def put16_def kem_opt_ok_def length_kem_pk_bytes split: option.splits)
  then have "length (cert_encode (is_certificate ?i)) \<le> 4 + 16384 + HYBRID_SIGNATURE_BYTES"
    using vk(1) sig_bytes_length[OF sg'(2)] key_id_length[OF toy_sizes(1)] toy_sizes(1)
    by (simp add: cert_encode_def tbs_encode_def Let_def put16_def put_sans_def put_tls_def put_hw_def digest_sized_def
        HYBRID_VERIFYING_KEY_BYTES_def key_sizes)
  moreover have "issue_device_credential toy sample_ca_auth toy_x509 (\<lambda>_. True) 1000 (Inr (replicate 16 9)) [] sample_ca 3600
      sample_call (sample_issue sg) sample_ca_db = Inr ((credential_of sample_ca ?i, replicate 16 9), db')"
    using iss st tok sample_csr_verifies[OF assms]
    by (simp add: issue_device_credential_def sample_control_call uuid_of_def sample_issue_def del: ascii_simps replicate.simps)
  ultimately show ?thesis by (intro exI conjI) (assumption | simp add: credential_of_def Let_def)+
qed


end
