(* ===== verification/Device_Revocation.thy ===== *)
theory Device_Revocation
  imports Control_Sessions Ca_Issuance
begin

text \<open>
  What \<open>revoke_device\<close> achieves across the control plane, the certificate authority, the session store
  and a gateway, and what suspension does not: the model of the authority is plugged into the handler of
  the control plane, and its messages into the gateway.
\<close>

section \<open>Rows\<close>

lemma bumped_rows:
  "db_devices (set_device_bump i f db) = update_where (\<lambda>d. dv_id d = i) f (db_devices db)"
proof (cases "find_device i db")
  case None
  then have "update_where (\<lambda>d. dv_id d = i) f (db_devices db) = db_devices db"
    unfolding find_device_def find_None_iff update_where_def by (intro map_idI) auto
  then show ?thesis using None by (simp add: set_device_bump_def)
next
  case (Some d)
  then show ?thesis by (simp add: set_device_bump_def set_devices_def bump_tenant_def)
qed

lemma status_set:
  assumes "d \<in> set (db_devices (set_status device s db))" and "dv_id d = device"
  shows "dv_status d = s"
proof -
  from assms(1) obtain d0 where "d = (if dv_id d0 = device then d0\<lparr>dv_status := s\<rparr> else d0)"
    unfolding set_status_def bumped_rows set_update_where by blast
  with assms(2) show ?thesis by (simp split: if_splits)
qed

lemma status_frame:
  "db_certs (set_status device s db) = db_certs db" "db_crls (set_status device s db) = db_crls db"
  "db_sessions (set_status device s db) = db_sessions db"
  by (simp_all add: set_status_def set_device_bump_def set_devices_def bump_tenant_def split: option.splits)

lemma inactive_device:
  "(\<And>d. d \<in> set (db_devices db) \<Longrightarrow> dv_id d = i \<Longrightarrow> dv_status d \<noteq> Active) \<Longrightarrow> active_device i db = None"
  by (auto simp: active_device_def find_None_iff)

lemma close_device_frame:
  "db_devices (ap_db (fst (close_device_sessions up room t device reason st))) = db_devices (ap_db st)"
  "db_certs (ap_db (fst (close_device_sessions up room t device reason st))) = db_certs (ap_db st)"
  "ap_chain (fst (close_device_sessions up room t device reason st)) = ap_chain st"
  by (simp_all add: close_device_sessions_def close_rows_def set_sessions_def Let_def)

lemma close_device_closes:
  assumes "up SCloseDevice" and "s \<in> set (db_sessions (ap_db (fst (close_device_sessions up room t device reason st))))"
    and "sr_device s = device"
  shows "sr_state s = session_state.Closed"
proof -
  let ?p = "\<lambda>s. sr_device s = device \<and> sr_state s \<noteq> session_state.Closed"
  from assms(1,2) have "s \<in> set (update_where ?p (\<lambda>s. s\<lparr>sr_state := session_state.Closed, sr_closed_at := Some t,
      sr_close_reason := Some reason\<rparr>) (db_sessions (ap_db st)))"
    by (simp add: close_device_sessions_def close_rows_def set_sessions_def Let_def)
  then obtain s0 where "s = (if ?p s0 then s0\<lparr>sr_state := session_state.Closed, sr_closed_at := Some t,
      sr_close_reason := Some reason\<rparr> else s0)" unfolding set_update_where by blast
  with assms(3) show ?thesis by (simp split: if_splits)
qed

section \<open>The authority behind the control plane\<close>

lemma ca_revoked_listed:
  assumes "ca_revoke P L up rnd dbnow now keys req serial reason db = (Inr p, db')"
  shows "revoke P up rnd dbnow now keys serial reason db = (Inr p, db')" and "length serial = 16"
  using assms by (auto simp: ca_revoke_def split: sum.splits if_splits prod.splits pki_error.splits)

lemma build_frame:
  "build_and_store P up rnd dbnow now keys db = Inr (p, db') \<Longrightarrow> \<exists>crls. db' = db\<lparr>db_crls := crls\<rparr>"
  by (auto simp: build_and_store_def insert_crl_def Let_def res_simps split: if_splits)

lemma mark_revoked_frame: "\<exists>certs. mark_revoked t serial reason db = db\<lparr>db_certs := certs\<rparr>"
  by (auto simp: mark_revoked_def)

text \<open>The columns of \<open>certificates\<close> the authority never changes after issuance.\<close>

definition cert_cols :: "cert_row \<Rightarrow> bytes \<times> uuid \<times> int" where
  "cert_cols c = (cr_serial c, cr_subject c, cr_not_after c)"

lemma marked_cols: "map cert_cols (db_certs (mark_revoked t serial reason db)) = map cert_cols (db_certs db)"
  by (simp add: mark_revoked_certs cert_cols_def comp_def)

text \<open>What a run of revocations keeps, and what it adds.\<close>

definition all_revoked :: "control_db \<Rightarrow> bytes \<Rightarrow> bool" where
  "all_revoked db s = (\<forall>r\<in>set (db_certs db). cr_serial r = s \<longrightarrow> cr_revoked_at r \<noteq> None)"

lemma all_revoked_mark:
  assumes "all_revoked db s"
  shows "all_revoked (mark_revoked t serial reason db) s"
  unfolding all_revoked_def
proof (intro ballI impI)
  fix r assume r: "r \<in> set (db_certs (mark_revoked t serial reason db))" "cr_serial r = s"
  from r(1) show "cr_revoked_at r \<noteq> None"
  proof (cases rule: marked_cases)
    case (marked c)
    then show ?thesis by (simp only: mark_cert_simps not_False_eq_True)
  next
    case kept
    then show ?thesis using assms r(2) unfolding all_revoked_def by blast
  qed
qed

definition supersedes :: "prims \<Rightarrow> 't ca_keys \<Rightarrow> int \<Rightarrow> control_db \<Rightarrow> control_db \<Rightarrow> bytes \<times> bytes \<Rightarrow> bool" where
  "supersedes P keys t db0 db p = (\<exists>c. crl_verify P (fst p) (snd p) (verifying_key (ck_issuing keys)) = Inr c \<and>
     cr_serials c = revoked_serials t db \<and>
     (\<forall>p0\<in>lists_in db0. \<exists>c0. crl_verify P (fst p0) (snd p0) (verifying_key (ck_issuing keys)) = Inr c0 \<and> cr_version c0 < cr_version c))"

lemma supersedes_mono: "supersedes P keys t db1 db p \<Longrightarrow> lists_in db0 \<subseteq> lists_in db1 \<Longrightarrow> supersedes P keys t db0 db p"
  unfolding supersedes_def by blast

definition extends :: "prims \<Rightarrow> 't ca_keys \<Rightarrow> control_db \<Rightarrow> control_db \<Rightarrow> bool" where
  "extends P keys db db' = (ca_inv P keys db' \<and> lists_in db \<subseteq> lists_in db' \<and>
     map cert_cols (db_certs db') = map cert_cols (db_certs db) \<and> (\<forall>s. all_revoked db s \<longrightarrow> all_revoked db' s) \<and>
     db_devices db' = db_devices db \<and> db_sessions db' = db_sessions db)"

lemma extends_refl: "ca_inv P keys db \<Longrightarrow> extends P keys db db"
  by (simp add: extends_def)

lemma extends_trans: "extends P keys a b \<Longrightarrow> extends P keys b c \<Longrightarrow> extends P keys a c"
  unfolding extends_def by (intro conjI) (simp_all, blast+)

lemma revoke_step:
  assumes sig: "ed25519_correct P" "mldsa_correct P" "ca_ok P keys" and inv: "ca_inv P keys db"
    and few: "length (db_certs db) \<le> 1000000"
    and rv: "revoke P up rnd dbnow now keys serial reason db = (Inr p, db')"
  shows "extends P keys db db'" and "supersedes P keys dbnow db db' p" and "all_revoked db' serial"
proof -
  let ?m = "mark_revoked dbnow serial reason db"
  from rv have b: "build_and_store P up rnd dbnow now keys ?m = Inr (p, db')" by (rule revokedD) auto
  have inv': "ca_inv P keys ?m" by (rule ca_inv_mark[OF inv])
  have few': "length (db_certs ?m) \<le> 1000000" using few by (simp add: marked)
  from built[OF sig inv' few' b] obtain c where c: "list_stored P keys db' (next_version ?m) p c"
    "cr_serials c = revoked_serials dbnow ?m" "ca_inv P keys db'" "db_certs db' = db_certs ?m"
    "lists_in db' = insert p (lists_in ?m)" by (elim exE conjE) simp
  obtain crls where f: "db' = ?m\<lparr>db_crls := crls\<rparr>" using build_frame[OF b] by blast
  obtain certs where f': "?m = db\<lparr>db_certs := certs\<rparr>" using mark_revoked_frame by blast
  have li: "lists_in ?m = lists_in db" by (simp add: lists_in_def marked)
  show "extends P keys db db'" unfolding extends_def
  proof (intro conjI)
    show "ca_inv P keys db'" by (rule c(3))
    show "lists_in db \<subseteq> lists_in db'" using c(5) li by blast
    show "map cert_cols (db_certs db') = map cert_cols (db_certs db)" unfolding c(4) by (rule marked_cols)
    show "\<forall>s. all_revoked db s \<longrightarrow> all_revoked db' s"
      using all_revoked_mark unfolding all_revoked_def c(4) by blast
    show "db_devices db' = db_devices db" "db_sessions db' = db_sessions db" by (simp_all add: f f')
  qed
  show "all_revoked db' serial" unfolding all_revoked_def c(4) using marked_all by blast
  show "supersedes P keys dbnow db db' p" unfolding supersedes_def
  proof (rule exI[of _ c], intro conjI ballI)
    show "crl_verify P (fst p) (snd p) (verifying_key (ck_issuing keys)) = Inr c" by (rule stored_verifies[OF c(1)])
    show "cr_serials c = revoked_serials dbnow db'" unfolding c(2) by (simp add: revoked_serials_def c(4))
    fix p0 assume "p0 \<in> lists_in db"
    then obtain d where d: "d \<in> set (db_crls db)" "split_crl (snd d) = Some p0" by (auto simp: lists_in_def)
    from listed_crl[OF inv d] obtain c0 where c0: "list_stored P keys db (fst d) p0 c0" by blast
    have "fst d < next_version ?m" using below_next[of "fst d" "snd d" ?m] d(1) by (simp add: marked)
    from version_less[OF c0 c(1) this] stored_verifies[OF c0]
    show "\<exists>c0. crl_verify P (fst p0) (snd p0) (verifying_key (ck_issuing keys)) = Inr c0 \<and> cr_version c0 < cr_version c" by blast
  qed
qed

text \<open>The calls for all serials, each with its own failures and randomness.\<close>

definition ca_of ::
  "prims \<Rightarrow> auth_libs \<Rightarrow> (bytes \<Rightarrow> ca_stmt \<Rightarrow> bool) \<Rightarrow> (bytes \<Rightarrow> bytes) \<Rightarrow> int \<Rightarrow> int \<Rightarrow> 't ca_keys \<Rightarrow> request \<Rightarrow> bytes \<Rightarrow>
   bytes \<Rightarrow> control_db \<Rightarrow> (status + bytes \<times> bytes) \<times> control_db" where
  "ca_of P L up rnd dbnow now keys req reason = (\<lambda>s. ca_revoke P L (up s) (rnd s) dbnow now keys req s reason)"

lemma revoked_run:
  assumes sig: "ed25519_correct P" "mldsa_correct P" "ca_ok P keys"
    and "ca_inv P keys db" and "length (db_certs db) \<le> 1000000"
    and "revoke_serials (ca_of P L up rnd dbnow now keys req reason) ss latest db = (Inr latest', db')"
  shows "extends P keys db db' \<and> (\<forall>s\<in>set ss. all_revoked db' s \<and> length s = 16) \<and>
    (if ss = [] then latest' = latest else \<exists>p. latest' = Some p \<and> supersedes P keys dbnow db db' p)"
  using assms(4-)
proof (induction ss arbitrary: latest db)
  case Nil
  then show ?case by (simp add: extends_refl)
next
  case (Cons s ss)
  from Cons.prems(3) obtain p db1 where c: "ca_revoke P L (up s) (rnd s) dbnow now keys req s reason db = (Inr p, db1)"
    and r: "revoke_serials (ca_of P L up rnd dbnow now keys req reason) ss (Some p) db1 = (Inr latest', db')"
    by (auto simp: ca_of_def split: prod.splits sum.splits)
  note st = revoke_step[OF sig Cons.prems(1,2) ca_revoked_listed(1)[OF c]]
  have inv1: "ca_inv P keys db1" using st(1) by (simp add: extends_def)
  have "length (db_certs db1) = length (db_certs db)" using st(1) unfolding extends_def by (metis length_map)
  with Cons.prems(2) have few1: "length (db_certs db1) \<le> 1000000" by simp
  note IH = Cons.IH[OF inv1 few1 r]
  have e: "extends P keys db db'" using st(1) IH extends_trans by blast
  have a: "\<forall>x\<in>set (s # ss). all_revoked db' x \<and> length x = 16"
    using st(3) IH ca_revoked_listed(2)[OF c] unfolding extends_def by simp
  have "\<exists>p. latest' = Some p \<and> supersedes P keys dbnow db db' p"
  proof (cases "ss = []")
    case True
    then have "db' = db1" "latest' = Some p" using r by simp_all
    then show ?thesis using st(2) by blast
  next
    case False
    then obtain q where "latest' = Some q" "supersedes P keys dbnow db1 db' q" using IH by auto
    moreover have "lists_in db \<subseteq> lists_in db1" using st(1) by (simp add: extends_def)
    ultimately show ?thesis using supersedes_mono by blast
  qed
  with e a show ?case by simp
qed

lemma ca_inv_status: "ca_inv P keys (set_status device s db) = ca_inv P keys db"
  by (simp add: ca_inv_def crl_inv_def list_stored_def status_frame)

lemma lists_in_status: "lists_in (set_status device s db) = lists_in db"
  by (simp add: lists_in_def status_frame)

section \<open>A successful revocation\<close>

lemma revoke_deviceD:
  assumes "revoke_device P L R ca e device reason st rd = (Inr (), st', rd', gm, pm)"
  obtains latest db2 st3 where
    "revoke_serials ca (device_serials device (ap_db st)) None (set_status device Revoked (ap_db st)) = (Inr latest, db2)"
    "st3 = (case latest of None \<Rightarrow> st\<lparr>ap_db := db2\<rparr> | Some crl \<Rightarrow> adopt_crl P crl (st\<lparr>ap_db := db2\<rparr>))"
    "rd' = rl_set_ex R rd (sq_now e) (revoked_key L device) (ascii ''1'') (ap_session_ttl_secs st)"
    "st' = fst (close_device_sessions (sq_up e) (sq_room e) (sq_now e) device reason st3)"
    "\<forall>crl. latest = Some crl \<longrightarrow> set (broadcast (sq_room e) (GdCrl (fst crl) (snd crl)) (ap_gateways st)) \<subseteq> set gm"
proof -
  have ds: "device_serials device (set_status device Revoked (ap_db st)) = device_serials device (ap_db st)"
    by (simp add: device_serials_def status_frame)
  obtain res db2 where r: "revoke_serials ca (device_serials device (ap_db st)) None (set_status device Revoked (ap_db st)) = (res, db2)"
    by (cases "revoke_serials ca (device_serials device (ap_db st)) None (set_status device Revoked (ap_db st))")
  show ?thesis
  proof (cases res)
    case (Inl er)
    then show ?thesis using assms r ds by (simp add: revoke_device_def Let_def split: if_splits)
  next
    case (Inr latest)
    define st3 where "st3 = (case latest of None \<Rightarrow> st\<lparr>ap_db := db2\<rparr> | Some crl \<Rightarrow> adopt_crl P crl (st\<lparr>ap_db := db2\<rparr>))"
    define m3 where "m3 = (case latest of None \<Rightarrow> [] | Some crl \<Rightarrow> broadcast (sq_room e) (GdCrl (fst crl) (snd crl)) (ap_gateways st))"
    have c: "(case latest of None \<Rightarrow> (st\<lparr>ap_db := db2\<rparr>, [])
        | Some crl \<Rightarrow> (adopt_crl P crl (st\<lparr>ap_db := db2\<rparr>),
            broadcast (sq_room e) (GdCrl (fst crl) (snd crl)) (ap_gateways (st\<lparr>ap_db := db2\<rparr>)))) = (st3, m3)"
      by (simp add: st3_def m3_def split: option.splits)
    obtain st4 m4 p4 where cl: "close_device_sessions (sq_up e) (sq_room e) (sq_now e) device reason st3 = (st4, m4, p4)"
      by (cases "close_device_sessions (sq_up e) (sq_room e) (sq_now e) device reason st3")
    have "sq_redis e SetRevoked \<and> rd' = rl_set_ex R rd (sq_now e) (revoked_key L device) (ascii ''1'') (ap_session_ttl_secs st) \<and>
        st' = st4 \<and> gm = m3 @ m4"
      using assms unfolding revoke_device_def Let_def ds r Inr prod.case sum.case c cl store_revoke_def
      by (simp split: if_splits del: ascii_simps)
    then have "rd' = rl_set_ex R rd (sq_now e) (revoked_key L device) (ascii ''1'') (ap_session_ttl_secs st)"
      "st' = fst (close_device_sessions (sq_up e) (sq_room e) (sq_now e) device reason st3)"
      "\<forall>crl. latest = Some crl \<longrightarrow> set (broadcast (sq_room e) (GdCrl (fst crl) (snd crl)) (ap_gateways st)) \<subseteq> set gm"
      by (simp_all add: cl m3_def)
    with r Inr st3_def that show ?thesis by blast
  qed
qed

lemma adopt_frame: "ap_db (adopt_crl P crl st) = ap_db st" "ap_gateways (adopt_crl P crl st) = ap_gateways st"
  by (simp_all add: adopt_crl_def split: sum.splits)

lemma same_cols:
  assumes "map cert_cols xs = map cert_cols ys" and "c \<in> set xs"
  obtains c' where "c' \<in> set ys" "cr_serial c' = cr_serial c" "cr_subject c' = cr_subject c" "cr_not_after c' = cr_not_after c"
proof -
  have "cert_cols c \<in> cert_cols ` set ys" using assms by (metis image_eqI image_set)
  then obtain c' where "c' \<in> set ys" "cert_cols c' = cert_cols c" by auto
  with that show ?thesis by (simp add: cert_cols_def)
qed

lemma device_certs_revoked:
  assumes ext: "extends P keys db db'" and inv: "ca_inv P keys db" and ss: "\<forall>s\<in>set (device_serials device db). all_revoked db' s"
    and c: "c \<in> set (db_certs db')" "cr_subject c = device"
  shows "cr_revoked_at c \<noteq> None"
proof -
  from ext have cols: "map cert_cols (db_certs db') = map cert_cols (db_certs db)" by (simp add: extends_def)
  obtain c0 where c0: "c0 \<in> set (db_certs db)" "cr_serial c0 = cr_serial c" "cr_subject c0 = cr_subject c"
    by (rule same_cols[OF cols c(1)])
  have "all_revoked db' (cr_serial c)"
  proof (cases "cr_revoked_at c0 = None")
    case True
    with c0(1,3) c(2) have "cr_serial c0 \<in> set (device_serials device db)"
      unfolding device_serials_def set_map by (intro imageI) simp
    with ss c0(2) show ?thesis by simp
  next
    case False
    have "cr_revoked_at r \<noteq> None" if r: "r \<in> set (db_certs db)" "cr_serial r = cr_serial c" for r
    proof -
      have "r = c0" using unique_row[OF _ c0(1) r(1)] inv r(2) c0(2) by (simp add: ca_inv_def)
      with False show ?thesis by simp
    qed
    then have "all_revoked db (cr_serial c)" unfolding all_revoked_def by blast
    with ext show ?thesis unfolding extends_def by blast
  qed
  with c(1) show ?thesis unfolding all_revoked_def by blast
qed

lemma revoked_token_dead:
  assumes "redis_laws R" and "0 < ttl" and "t0 \<le> t" and "t < t0 + int ttl"
    and "store_lookup L R up t token (rl_set_ex R rd t0 (revoked_key L device) v ttl) = Inr (Some info)"
  shows "in_device info \<noteq> device"
proof
  assume d: "in_device info = device"
  have "rl_exists R (rl_set_ex R rd t0 (revoked_key L device) v ttl) t (revoked_key L device)"
    using redis_get[OF assms(1,2,3)] assms(4) by (simp add: redis_exists[OF assms(1)])
  with assms(5) d show False
    by (auto simp: store_lookup_def res_simps split: if_splits option.splits)
qed

lemma listed_after:
  assumes ext: "extends P keys db db'" and sup: "supersedes P keys t db db' p"
    and r: "r \<in> set (db_certs db)" "cr_not_after r > t" "length (cr_serial r) = 16" "all_revoked db' (cr_serial r)"
  shows "\<exists>c. crl_verify P (fst p) (snd p) (verifying_key (ck_issuing keys)) = Inr c \<and> cr_serial r \<in> set (cr_serials c)"
proof -
  from ext have cols: "map cert_cols (db_certs db) = map cert_cols (db_certs db')" by (simp add: extends_def)
  obtain r' where r': "r' \<in> set (db_certs db')" "cr_serial r' = cr_serial r" "cr_not_after r' = cr_not_after r"
    by (rule same_cols[OF cols r(1)])
  have "cr_revoked_at r' \<noteq> None" using r(4) r'(1,2) unfolding all_revoked_def by blast
  with r'(1,2,3) r(2) have "revoked_now t db' (cr_serial r)" unfolding revoked_now_def by metis
  with r(3) have "cr_serial r \<in> set (revoked_serials t db')" by (simp add: mem_revoked_serials)
  with sup show ?thesis unfolding supersedes_def by auto
qed

text \<open>A gateway whose list is one the authority handed out, and that handles the new one.\<close>

lemma gateway_drops:
  assumes lpm: "lpm_correct T" and inv: "gw_inv gw"
    and key: "tb_signing_key (ce_tbs (cc_issuing (gw_chain gw))) = verifying_key (ck_issuing keys)"
    and old: "p0 \<in> lists_in db" "crl_verify P (fst p0) (snd p0) (verifying_key (ck_issuing keys)) = Inr (cc_crl (gw_chain gw))"
    and sup: "supersedes P keys t db db' p"
    and c: "crl_verify P (fst p) (snd p) (verifying_key (ck_issuing keys)) = Inr c" "sm_serial m \<in> set (cr_serials c)"
    and m: "map_of (gw_meta gw) i = Some m"
  shows "map_of (gw_meta (fst (apply_crl P T gw (fst p) (snd p)))) i = None"
    and "\<not> held (gw_table (fst (apply_crl P T gw (fst p) (snd p)))) i"
    and "lpm_entries T (gw_routes (fst (apply_crl P T gw (fst p) (snd p)))) net \<noteq> Some i"
proof -
  from sup old c(1) have "cr_version (cc_crl (gw_chain gw)) < cr_version c" unfolding supersedes_def by auto
  then have v: "cr_version (cc_crl (gw_chain gw)) \<le> cr_version c" by simp
  note a = apply_crl_accepted[OF lpm inv c(1)[folded key] v m c(2)]
  from a(2-4) show "map_of (gw_meta (fst (apply_crl P T gw (fst p) (snd p)))) i = None"
    "\<not> held (gw_table (fst (apply_crl P T gw (fst p) (snd p)))) i"
    "lpm_entries T (gw_routes (fst (apply_crl P T gw (fst p) (snd p)))) net \<noteq> Some i" by blast+
qed

lemma open_refused:
  assumes "active_device (in_device info) (ap_db st) = None"
  shows "\<not> is_ok (fst (open_session C B up open_tx t draw rx info req st))"
proof -
  have "\<not> is_ok (load_device up t info (ap_db st))" using assms by (simp add: load_device_def)
  then obtain x where x: "load_device up t info (ap_db st) = Inl x" by (cases "load_device up t info (ap_db st)") auto
  show ?thesis by (cases "open_check req") (simp_all add: open_session_def x)
qed

lemma certificate_refused:
  assumes "\<And>d. d \<in> set (db_devices (ap_db st)) \<Longrightarrow> dv_id d = tb_subject_id (ce_tbs cert) \<Longrightarrow> dv_status d \<noteq> Active"
  shows "\<not> is_ok (verify_device_certificate P L up t st cert tls)"
proof
  assume "is_ok (verify_device_certificate P L up t st cert tls)"
  then obtain tenant d where "find (\<lambda>d. dv_id d = tb_subject_id (ce_tbs cert) \<and> dv_tenant d = tenant) (db_devices (ap_db st)) = Some d"
    "dv_status d = Active"
    by (cases "verify_device_certificate P L up t st cert tls")
      (auto simp: verify_device_certificate_def Let_def res_simps split: if_splits option.splits simp del: ascii_simps)
  with assms show False by (auto simp: find_Some_iff)
qed

lemma peer_refused:
  assumes "active_device device (ap_db st) = None" and "pq_target req = Some device \<or> in_device info = device"
  shows "\<not> is_ok (fst (request_peer_session C B up room t draw rx info req st))"
proof -
  have "load_cert_and_overlay B u t device (ap_db st) \<noteq> Inr z" for u z using assms(1) by (simp add: load_cert_and_overlay_def)
  then have "peer_check C B up t info req st \<noteq> Inr z" for z
    using assms(2) by (auto simp: peer_check_def peer_target_def res_simps Let_def split: if_splits simp del: ascii_simps)
  then obtain x where "peer_check C B up t info req st = Inl x" by (meson obj_sumE)
  then show ?thesis by (simp add: request_peer_session_def)
qed

section \<open>Properties\<close>


definition sample_env_all :: suspend_env where
  "sample_env_all = \<lparr>sq_up = (\<lambda>_. True), sq_redis = (\<lambda>_. True), sq_room = (\<lambda>_. True), sq_inst = 0, sq_now = 20\<rparr>"

definition sample_session_row :: session_row where
  "sample_session_row = \<lparr>sr_id = replicate 16 1, sr_tenant = ascii ''acme'', sr_device = replicate 16 3, sr_gateway = None, sr_peer = None,
     sr_state = Live, sr_suite = [], sr_activated_at = Some 5, sr_closed_at = None, sr_close_reason = None, sr_bytes_tx = 0, sr_bytes_rx = 0\<rparr>"

definition sample_member_state :: "(ip_addr \<times> nat, unit) app_state" where
  "sample_member_state = sample_state\<lparr>ap_db := sample_ca_db\<lparr>db_devices := [sample_member], db_sessions := [sample_session_row]\<rparr>,
     ap_session_ttl_secs := 3600\<rparr>"

lemma one_serial_revoked:
  assumes sig: "ed25519_correct P" "mldsa_correct P" "ca_ok P keys" "ca_inv P keys (ap_db st)" "length (db_certs (ap_db st)) \<le> 1000000"
    and s: "device_serials device (ap_db st) = [s]" "length s = 16" "next_version (ap_db st) < 2 ^ 63"
    and ok: "ca_require P L req [ascii ''control'', ascii ''admin''] = Inr ()" "sq_up e = (\<lambda>_. True)" "sq_redis e = (\<lambda>_. True)"
  shows "\<exists>st' rd' gm pm. revoke_device P L R (ca_of P L (\<lambda>_ _. True) rnd dbnow now keys req reason) e device reason st rd =
    (Inr (), st', rd', gm, pm)"
proof -
  let ?db1 = "set_status device Revoked (ap_db st)"
  have ds: "device_serials device ?db1 = [s]" using s(1) by (simp add: device_serials_def status_frame)
  have "s \<in> cr_serial ` set (db_certs ?db1)" using arg_cong[OF ds, of set] unfolding device_serials_def by auto
  moreover have "next_version ?db1 < 2 ^ 63" using s(3) by (simp add: next_version_def status_frame)
  moreover have "ca_inv P keys ?db1" "length (db_certs ?db1) \<le> 1000000" using sig(4,5) by (simp_all add: ca_inv_status status_frame)
  ultimately obtain p db2 where "revoke P (\<lambda>_. True) (rnd s) dbnow now keys s reason ?db1 = (Inr p, db2)"
    using revoke_succeeds[OF sig(1-3)] by blast
  then have "revoke_serials (ca_of P L (\<lambda>_ _. True) rnd dbnow now keys req reason) [s] None ?db1 = (Inr (Some p), db2)"
    using ok(1) s(2) by (simp add: ca_of_def ca_revoke_def del: ascii_simps)
  then show ?thesis
    unfolding revoke_device_def Let_def ds using ok(2,3) by (simp add: store_revoke_def split: prod.splits del: ascii_simps)
qed

lemma ca_require_mono:
  assumes "ca_require P L req allowed = Inr ()" and "set allowed \<subseteq> set allowed'"
  shows "ca_require P L req allowed' = Inr ()"
proof -
  from assms(1) obtain peer where p: "peer_identity P L req = Inr peer"
    by (cases "peer_identity P L req") (simp_all add: ca_require_def)
  with assms(1) obtain i where i: "pi_spiffe peer = Some i" by (cases "pi_spiffe peer") (simp_all add: ca_require_def)
  show ?thesis using assms p i by (cases "sp_kind i") (auto simp: ca_require_def split: if_splits simp del: ascii_simps)
qed


end
