(* ===== verification/Session_Broker.thy ===== *)
theory Session_Broker
  imports Device_Revocation
begin

text \<open>
  Properties of the broker of sessions: what a call that opened a session has done, the answers that
  reach it, the agreement of both ends of a session the control plane brokered, and the races between a
  call that waits and the closing of its session.
\<close>

section \<open>Opening\<close>

lemma open_sendD:
  assumes "open_send B up open_tx sid rx info req suite d g st = (Inr p, st1, msgs)"
  obtains db routes prefixes where
    "insert_session (up SInsertSession) (new_session sid info (Some (fst g)) None (bl_suite_debug B suite)) (ap_db st) = Inr db"
    "routes_for B up info (fst g) db = Inr routes" "pool_prefixes up info db = Inr prefixes"
    "p = \<lparr>op_session_id = sid, op_gateway = fst g, op_device = d, op_routes = routes, op_prefixes = prefixes\<rparr>"
    "st1 = st\<lparr>ap_db := db, ap_pending_answers := answers_register sid rx (ap_pending_answers st)\<rparr>"
    "msgs = [(gh_tx (snd g), GdOffer (session_offer_of B sid d suite req))]"
proof -
  obtain db where db: "insert_session (up SInsertSession) (new_session sid info (Some (fst g)) None (bl_suite_debug B suite)) (ap_db st) = Inr db"
    using assms by (cases "insert_session (up SInsertSession) (new_session sid info (Some (fst g)) None (bl_suite_debug B suite)) (ap_db st)")
      (simp_all add: open_send_def)
  obtain routes where routes: "routes_for B up info (fst g) db = Inr routes"
    using assms by (cases "routes_for B up info (fst g) db") (simp_all add: open_send_def db)
  obtain prefixes where prefixes: "pool_prefixes up info db = Inr prefixes"
    using assms by (cases "pool_prefixes up info db") (simp_all add: open_send_def db routes)
  show ?thesis
    using assms that[OF db routes prefixes] by (simp add: open_send_def db routes prefixes Let_def split: if_splits del: ascii_simps)
qed

lemma open_sessionD:
  assumes "open_session C B up open_tx dbnow draw rx info req st = (Inr p, st1, msgs)"
  obtains suite d g sid where "open_check req = Inr suite" "load_device up dbnow info (ap_db st) = Inr d"
    "admission C (in_tenant info) (in_device info) (ToIp ADMISSION_IP) st = Inr ()"
    "pick None (ap_gateways st) = Some g" "draw = Inr sid" "open_send B up open_tx sid rx info req suite d g st = (Inr p, st1, msgs)"
proof -
  obtain suite where 1: "open_check req = Inr suite" using assms by (cases "open_check req") (simp_all add: open_session_def)
  obtain d where 2: "load_device up dbnow info (ap_db st) = Inr d"
    using assms by (cases "load_device up dbnow info (ap_db st)") (simp_all add: open_session_def 1)
  have 3: "admission C (in_tenant info) (in_device info) (ToIp ADMISSION_IP) st = Inr ()"
    using assms by (cases "admission C (in_tenant info) (in_device info) (ToIp ADMISSION_IP) st") (simp_all add: open_session_def 1 2)
  obtain g where 4: "pick None (ap_gateways st) = Some g"
    using assms by (cases "pick None (ap_gateways st)") (simp_all add: open_session_def 1 2 3)
  obtain sid where 5: "draw = Inr sid" using assms by (cases draw) (simp_all add: open_session_def 1 2 3 4)
  show ?thesis using that[OF 1 2 3 4 5] assms by (simp add: open_session_def 1 2 3 4 5)
qed

lemma inserted:
  "insert_session up s db = Inr db' \<Longrightarrow> db' = db\<lparr>db_sessions := db_sessions db @ [s]\<rparr> \<and> length (sr_id s) = 16 \<and>
     sr_id s \<notin> sr_id ` set (db_sessions db)"
  by (simp add: insert_session_def split: if_splits)

lemma new_session_fields [simp]:
  "sr_id (new_session i info g p su) = i" "sr_device (new_session i info g p su) = in_device info"
  "sr_state (new_session i info g p su) = Offered" "sr_tenant (new_session i info g p su) = in_tenant info"
  "sr_gateway (new_session i info g p su) = g" "sr_peer (new_session i info g p su) = p"
  by (simp_all add: new_session_def)

lemma opened_row:
  assumes "open_session C B up open_tx dbnow draw rx info req st = (Inr p, st1, msgs)"
  shows "\<exists>s\<in>set (db_sessions (ap_db st1)). sr_id s = op_session_id p \<and> sr_device s = in_device info"
proof -
  obtain suite d g sid where o: "open_send B up open_tx sid rx info req suite d g st = (Inr p, st1, msgs)"
    by (rule open_sessionD[OF assms])
  obtain db where
    i: "insert_session (up SInsertSession) (new_session sid info (Some (fst g)) None (bl_suite_debug B suite)) (ap_db st) = Inr db"
    and p: "op_session_id p = sid" "ap_db st1 = db"
    by (rule open_sendD[OF o]) simp
  from inserted[OF i] p show ?thesis by (intro bexI[of _ "new_session sid info (Some (fst g)) None (bl_suite_debug B suite)"]) auto
qed

section \<open>Closing while a call waits\<close>

lemma patch_db: "ap_db (fst (patch_device_attrs C up room inst now tenant device st)) = ap_db st"
  by (simp add: patch_device_attrs_def push_attrs_def Let_def split: option.splits)

lemma suspendD:
  assumes "suspend_device C L R e device reason st rd = (Inr (), st', rd', gm, pm)"
  obtains st2 where "ap_db st2 = set_status device Suspended (ap_db st)"
    "st' = fst (close_device_sessions (sq_up e) (sq_room e) (sq_now e) device reason st2)"
proof -
  let ?st1 = "st\<lparr>ap_db := set_status device Suspended (ap_db st)\<rparr>"
  let ?x = "case find_device device (ap_db ?st1) of
      Some d \<Rightarrow> patch_device_attrs C (sq_up e SSelectAttrs) (sq_room e) (sq_inst e) (sq_now e) (dv_tenant d) device ?st1
    | None \<Rightarrow> (?st1, [])"
  obtain st2 m2 where x: "?x = (st2, m2)" by (cases ?x)
  have "ap_db (fst ?x) = set_status device Suspended (ap_db st)" by (simp add: patch_db split: option.splits)
  then have d: "ap_db st2 = set_status device Suspended (ap_db st)" unfolding x by simp
  obtain st3 m3 p3 where c: "close_device_sessions (sq_up e) (sq_room e) (sq_now e) device reason st2 = (st3, m3, p3)"
    by (cases "close_device_sessions (sq_up e) (sq_room e) (sq_now e) device reason st2")
  have "st' = st3"
    using assms unfolding suspend_device_def Let_def x store_revoke_def by (simp add: c split: if_splits del: ascii_simps)
  with that[OF d] c show ?thesis by simp
qed

lemma close_device_rows:
  assumes "up SCloseDevice" and "s \<in> set (db_sessions (ap_db st))"
  shows "\<exists>s'\<in>set (db_sessions (ap_db (fst (close_device_sessions up room t device reason st)))).
    sr_id s' = sr_id s \<and> sr_device s' = sr_device s"
proof -
  let ?p = "\<lambda>s. sr_device s = device \<and> sr_state s \<noteq> session_state.Closed"
  let ?f = "\<lambda>s :: session_row. s\<lparr>sr_state := session_state.Closed, sr_closed_at := Some t, sr_close_reason := Some reason\<rparr>"
  have e: "db_sessions (ap_db (fst (close_device_sessions up room t device reason st))) = update_where ?p ?f (db_sessions (ap_db st))"
    using assms(1) by (simp add: close_device_sessions_def close_rows_def set_sessions_def Let_def)
  have "(if ?p s then ?f s else s) \<in> set (update_where ?p ?f (db_sessions (ap_db st)))"
    unfolding set_update_where by (rule imageI[OF assms(2)])
  then show ?thesis unfolding e by (rule bexI[rotated]) simp
qed

section \<open>Both ends of a brokered session\<close>

lemma accept_offerD:
  assumes "accept_offer P L R ck now ep coins rnd draws ok gw r off = Some (Inr (), gw', [an])"
  obtains dc suite idx est tenant where
    "check_offer P (gw_chain gw) now off = Inr (so_session_id off, dc, suite)"
    "answer P coins rnd (so_session_id off) dc (so_eph_kem_pk off) suite (cert_id P (gw_cert gw)) (gw_signing gw) idx (Some ep) = Inr (an, est)"
    "gw_table gw' = table_insert (gw_table gw) r (session_new ck (so_session_id off) Responder (eb_suite est) (cert_id P dc) (eb_keys est)
       idx (so_initiator_index off) None)"
    "map_of (gw_meta gw') (so_session_id off) = Some (offer_meta L off dc tenant)"
    "pl_uuid_parse L (tb_tenant_id (ce_tbs dc)) = Some tenant"
proof -
  obtain sid dc suite where c: "check_offer P (gw_chain gw) now off = Inr (sid, dc, suite)"
    using assms by (cases "check_offer P (gw_chain gw) now off") (auto simp: accept_offer_def)
  have sid: "sid = so_session_id off" using c by (auto simp: check_offer_def res_simps split: if_splits)
  obtain idx where i: "allocate_index (gw_table gw) draws = Some (Inr idx)"
    using assms by (cases "allocate_index (gw_table gw) draws") (auto simp: accept_offer_def c split: sum.splits)
  obtain an' est where a: "answer P coins rnd sid dc (so_eph_kem_pk off) suite (cert_id P (gw_cert gw)) (gw_signing gw) idx (Some ep) = Inr (an', est)"
    using assms by (cases "answer P coins rnd sid dc (so_eph_kem_pk off) suite (cert_id P (gw_cert gw)) (gw_signing gw) idx (Some ep)")
      (auto simp: accept_offer_def c i)
  obtain tenant where t: "pl_uuid_parse L (tb_tenant_id (ce_tbs dc)) = Some tenant"
    using assms by (cases "pl_uuid_parse L (tb_tenant_id (ce_tbs dc))") (auto simp: accept_offer_def c i a Let_def)
  have r: "an' = an" "gw_table gw' = table_insert (gw_table gw) r (session_new ck sid Responder (eb_suite est) (cert_id P dc) (eb_keys est)
       idx (so_initiator_index off) None)" "gw_meta gw' = AList.update sid (offer_meta L off dc tenant) (gw_meta gw)"
    using assms by (auto simp: accept_offer_def c i a t Let_def split: if_splits)
  show ?thesis
    by (rule that[OF c[unfolded sid] _ r(2)[unfolded sid] _ t])
      (use a r(1,3) sid in \<open>simp_all add: AList.update_conv'\<close>)
qed

lemma check_offer_suite:
  assumes "check_offer P ch now off = Inr (sid, dc, su)" and "so_suite off = suite_pb s"
  shows "su = s"
  using assms by (cases s) (auto simp: check_offer_def suite_pb_def suite_from_id_def res_simps split: if_splits)

lemma check_offer_cert:
  "check_offer P ch now off = Inr (sid, dc, su) \<Longrightarrow> so_device_certificate off = Some enc \<Longrightarrow> cert_decode P enc = Inr dc"
  by (auto simp: check_offer_def res_simps split: if_splits)

lemma pick_suite_offered: "pick_suite (map suite_pb suites) = Inr s \<Longrightarrow> s \<in> set suites"
proof -
  have "List.map_filter pb_suite (map suite_pb suites) = suites"
    by (induction suites) (simp_all add: pb_suite_def suite_pb_def map_filter_simps split: suite.splits)
  then show "pick_suite (map suite_pb suites) = Inr s \<Longrightarrow> s \<in> set suites"
    by (auto simp: pick_suite_def Let_def split: if_splits list.splits)
qed

lemma answer_reaches:
  assumes "waiting rx" and "an_session_id a = sid"
  shows "events_message L ups up waiting t i (GuAnswer a) (st\<lparr>ap_pending_answers := answers_register sid rx m\<rparr>) =
    (st\<lparr>ap_pending_answers := AList.delete sid (AList.update sid rx m)\<rparr>, Some (rx, a))"
  using assms by (simp add: answers_register_def answers_resolve_def AList.update_conv')

lemma answer_ends:
  "answer P coins rnd sid ic eph su cid kp idx (Some ep) = Inr (an, est) \<Longrightarrow> an_responder_index an = idx \<and> an_responder_endpoint an = ep"
  by (auto simp: answer_def res_simps Let_def)

lemma brokered_run:
  assumes "ed25519_correct P" and "mldsa_correct P" and "x25519_commutes P" and "mlkem_correct P" and "length r1 = 32"
    and "gw_signing gw = signing_generate P r1 r2" and "tb_signing_key (ce_tbs (gw_cert gw)) = verifying_key (gw_signing gw)"
    and "oq_eph_kem_pk req = po_eph_pk_bytes (initiator_offer P rx rm suites)" and "oq_suites req = map suite_pb suites"
    and "open_session C B up open_tx t draw call info req st = (Inr p, st1, [(tx, GdOffer off)])"
    and "cert_decode P (sv_certificate (op_device p)) = Inr ic"
    and "tb_kem_key (ce_tbs ic) = Some (kem_public (kem_generate P sx sm))"
    and "accept_offer P L R ck now ep coins rnd draws ok gw r off = Some (Inr (), gw', [an])"
    and "waiting call" and "up' SActivate" and "up' SGatewayCert" and "valid_cert t' (op_gateway p) (ap_db st1) = Some gc"
  shows "\<exists>st2 resp st3 est idx m.
    length (or_session_id resp) = 16 \<and> or_answer resp = an \<and> an_responder_index an = idx \<and> an_responder_endpoint an = ep \<and>
    or_gateway_certificate resp = gc \<and> or_routes resp = [\<lparr>ru_session_id = or_session_id resp, ru_cidrs = op_routes p, ru_remove = False\<rparr>] \<and>
    or_overlay_ipv4 resp = show_ip (fst (sv_overlay_v4 (op_device p))) @ ascii ''/'' @ dec (fst (op_prefixes p)) \<and>
    or_overlay_ipv6 resp = show_ip (fst (sv_overlay_v6 (op_device p))) @ ascii ''/'' @ dec (snd (op_prefixes p)) \<and>
    events_message L' ups upm waiting tm (op_gateway p) (GuAnswer an) st1 = (st2, Some (call, an)) \<and>
    open_finish up' t' p (Some an) st2 = (Inr resp, st3) \<and>
    map_of (ap_pending_answers st3) (or_session_id resp) = None \<and>
    complete P (initiator_offer P rx rm suites) (or_answer resp) (or_session_id resp) (cert_id P ic) (kem_generate P sx sm)
      (gw_cert gw) = Inr est \<and>
    gw_table gw' = table_insert (gw_table gw) r (session_new ck (or_session_id resp) Responder (eb_suite est) (cert_id P ic)
      (eb_keys est) idx (oq_initiator_index req) None) \<and>
    map_of (gw_meta gw') (or_session_id resp) = Some m \<and> sm_device_id m = tb_subject_id (ce_tbs ic) \<and>
    (\<exists>s\<in>set (db_sessions (ap_db st3)). sr_id s = or_session_id resp \<and> sr_device s = in_device info \<and> sr_state s = Live) \<and>
    set (db_sessions (ap_db st)) \<subseteq> set (db_sessions (ap_db st3))"
proof -
  obtain suite d g sid where o: "open_check req = Inr suite" "open_send B up open_tx sid call info req suite d g st = (Inr p, st1, [(tx, GdOffer off)])"
    by (rule open_sessionD[OF assms(10)])
  obtain db where i: "insert_session (up SInsertSession) (new_session sid info (Some (fst g)) None (bl_suite_debug B suite)) (ap_db st) = Inr db"
    and p: "op_session_id p = sid" "op_device p = d"
    and st1: "st1 = st\<lparr>ap_db := db, ap_pending_answers := answers_register sid call (ap_pending_answers st)\<rparr>"
    and off: "off = session_offer_of B sid d suite req"
    by (rule open_sendD[OF o(2)]) simp
  have of: "so_session_id off = sid" "so_device_certificate off = Some (sv_certificate d)" "so_suite off = suite_pb suite"
    "so_eph_kem_pk off = oq_eph_kem_pk req" "so_initiator_index off = oq_initiator_index req"
    by (simp_all add: off session_offer_of_def)
  obtain dc su idx est tenant where a: "check_offer P (gw_chain gw) now off = Inr (sid, dc, su)"
    "answer P coins rnd sid dc (oq_eph_kem_pk req) su (cert_id P (gw_cert gw)) (gw_signing gw) idx (Some ep) = Inr (an, est)"
    "gw_table gw' = table_insert (gw_table gw) r (session_new ck sid Responder (eb_suite est) (cert_id P dc) (eb_keys est)
       idx (oq_initiator_index req) None)"
    "map_of (gw_meta gw') sid = Some (offer_meta L off dc tenant)"
    using accept_offerD[OF assms(13)] unfolding of by metis
  have dc: "dc = ic" using check_offer_cert[OF a(1) of(2)] assms(11) p(2) by simp
  have su: "su = suite" by (rule check_offer_suite[OF a(1) of(3)])
  have "pick_suite (oq_suites req) = Inr suite" using o(1) by (simp add: open_check_def split: if_splits)
  then have mem: "suite \<in> set suites" using pick_suite_offered assms(9) by metis
  have comp: "complete P (initiator_offer P rx rm suites) an sid (cert_id P ic) (kem_generate P sx sm) (gw_cert gw) = Inr est"
    by (rule established_agree[OF assms(1-5) mem assms(12)]) (use a(2) assms(6-8) dc su in simp_all)
  have an: "an_session_id an = sid" by (rule answerD[OF a(2)]) simp
  have ends: "an_responder_index an = idx" "an_responder_endpoint an = ep" using answer_ends[OF a(2)] by simp_all
  let ?st2 = "st\<lparr>ap_db := db, ap_pending_answers := AList.delete sid (AList.update sid call (ap_pending_answers st))\<rparr>"
  have ev: "events_message L' ups upm waiting tm (op_gateway p) (GuAnswer an) st1 = (?st2, Some (call, an))"
    using answer_reaches[where waiting = waiting and rx = call and a = an and sid = sid and st = "st\<lparr>ap_db := db\<rparr>" and
        m = "ap_pending_answers st"] assms(14) an by (simp add: st1)
  let ?st3 = "?st2\<lparr>ap_db := activate_row t' sid db\<rparr>"
  have "valid_cert t' (op_gateway p) (ap_db ?st3) = Some gc"
    using assms(17) by (simp add: st1 activate_row_def set_sessions_def valid_cert_def)
  then have fin: "open_finish up' t' p (Some an) ?st2 = (Inr
      \<lparr>or_session_id = sid, or_answer = an, or_gateway_certificate = gc,
       or_overlay_ipv4 = show_ip (fst (sv_overlay_v4 (op_device p))) @ ascii ''/'' @ dec (fst (op_prefixes p)),
       or_overlay_ipv6 = show_ip (fst (sv_overlay_v6 (op_device p))) @ ascii ''/'' @ dec (snd (op_prefixes p)),
       or_routes = [\<lparr>ru_session_id = sid, ru_cidrs = op_routes p, ru_remove = False\<rparr>]\<rparr>, ?st3)"
    using assms(15,16) by (simp add: open_finish_def p(1) Let_def del: ascii_simps)
  obtain resp where resp: "open_finish up' t' p (Some an) ?st2 = (Inr resp, ?st3)" "or_session_id resp = sid" "or_answer resp = an"
    "or_gateway_certificate resp = gc" "or_routes resp = [\<lparr>ru_session_id = sid, ru_cidrs = op_routes p, ru_remove = False\<rparr>]"
    "or_overlay_ipv4 resp = show_ip (fst (sv_overlay_v4 (op_device p))) @ ascii ''/'' @ dec (fst (op_prefixes p))"
    "or_overlay_ipv6 resp = show_ip (fst (sv_overlay_v6 (op_device p))) @ ascii ''/'' @ dec (snd (op_prefixes p))"
    by (rule that[OF fin]) simp_all
  have rows: "db_sessions (ap_db ?st3) = db_sessions (ap_db st) @ [(new_session sid info (Some (fst g)) None (bl_suite_debug B suite))
      \<lparr>sr_state := Live, sr_activated_at := Some t'\<rparr>]"
  proof -
    note ins = inserted[OF i, unfolded new_session_fields]
    have "update_where (\<lambda>s. sr_id s = sid) f (db_sessions (ap_db st)) = db_sessions (ap_db st)" for f
      unfolding update_where_def using ins by (intro map_idI) auto
    moreover have "update_where p f (xs @ ys) = update_where p f xs @ update_where p f ys" for p f and xs ys :: "session_row list"
      by (simp add: update_where_def)
    ultimately show ?thesis using ins by (simp add: activate_row_def set_sessions_def)
  qed
  have m: "map_of (gw_meta gw') sid = Some (offer_meta L off ic tenant)" "sm_device_id (offer_meta L off ic tenant) = tb_subject_id (ce_tbs ic)"
    using a(4) dc by (simp_all add: offer_meta_def)
  have gone: "map_of (ap_pending_answers ?st3) sid = None" by (simp add: AList.delete_conv')
  have live: "\<exists>s\<in>set (db_sessions (ap_db ?st3)). sr_id s = sid \<and> sr_device s = in_device info \<and> sr_state s = Live"
    unfolding rows by simp
  have kept: "set (db_sessions (ap_db st)) \<subseteq> set (db_sessions (ap_db ?st3))" unfolding rows by auto
  have sid: "length sid = 16" using inserted[OF i, unfolded new_session_fields] by simp
  show ?thesis
  proof (intro exI conjI)
    show "length (or_session_id resp) = 16" unfolding resp(2) by (rule sid)
    show "an_responder_index an = idx" "an_responder_endpoint an = ep" by (rule ends)+
    show "or_routes resp = [\<lparr>ru_session_id = or_session_id resp, ru_cidrs = op_routes p, ru_remove = False\<rparr>]"
      unfolding resp(2) by (rule resp(5))
    show "events_message L' ups upm waiting tm (op_gateway p) (GuAnswer an) st1 = (?st2, Some (call, an))" by (rule ev)
    show "open_finish up' t' p (Some an) ?st2 = (Inr resp, ?st3)" by (rule resp(1))
    show "map_of (ap_pending_answers ?st3) (or_session_id resp) = None" unfolding resp(2) by (rule gone)
    show "complete P (initiator_offer P rx rm suites) (or_answer resp) (or_session_id resp) (cert_id P ic) (kem_generate P sx sm)
      (gw_cert gw) = Inr est" unfolding resp(2,3) by (rule comp)
    show "gw_table gw' = table_insert (gw_table gw) r (session_new ck (or_session_id resp) Responder (eb_suite est) (cert_id P ic)
      (eb_keys est) idx (oq_initiator_index req) None)" unfolding resp(2) by (rule a(3)[unfolded dc])
    show "map_of (gw_meta gw') (or_session_id resp) = Some (offer_meta L off ic tenant)" unfolding resp(2) by (rule m(1))
    show "sm_device_id (offer_meta L off ic tenant) = tb_subject_id (ce_tbs ic)" by (rule m(2))
    show "\<exists>s\<in>set (db_sessions (ap_db ?st3)). sr_id s = or_session_id resp \<and> sr_device s = in_device info \<and> sr_state s = Live"
      unfolding resp(2) by (rule live)
  qed (rule resp(3,4,6,7) kept)+
qed

section \<open>Properties\<close>


text \<open>C38. A suspended device gets its session back.  When a device is suspended while its call to open a
  session waits for the gateway, the suspension closes the row of that session, but the answer that
  arrives afterwards makes it active again: the call succeeds, and the database lists an active session of
  a suspended device.\<close>

theorem suspended_session_revived:
  assumes "open_session C B up open_tx t draw rx info req st = (Inr p, st1, msgs)"
    and "suspend_device C L R e (in_device info) reason st1 rd = (Inr (), st2, rd', gm, pm)" and "sq_up e SCloseDevice"
    and "up' SActivate" and "up' SGatewayCert" and "valid_cert t' (op_gateway p) (ap_db st2) = Some gc"
  shows "(\<forall>s\<in>set (db_sessions (ap_db st2)). sr_device s = in_device info \<longrightarrow> sr_state s = session_state.Closed) \<and>
    (\<exists>resp st3. open_finish up' t' p (Some a) st2 = (Inr resp, st3) \<and>
      (\<forall>d\<in>set (db_devices (ap_db st3)). dv_id d = in_device info \<longrightarrow> dv_status d = Suspended) \<and>
      (\<exists>s\<in>set (db_sessions (ap_db st3)). sr_id s = or_session_id resp \<and> sr_device s = in_device info \<and> sr_state s = Live))"
proof -
  obtain st' where st': "ap_db st' = set_status (in_device info) Suspended (ap_db st1)"
    "st2 = fst (close_device_sessions (sq_up e) (sq_room e) (sq_now e) (in_device info) reason st')"
    by (rule suspendD[OF assms(2)])
  obtain s where s: "s \<in> set (db_sessions (ap_db st1))" "sr_id s = op_session_id p" "sr_device s = in_device info"
    using opened_row[OF assms(1)] by blast
  then have "s \<in> set (db_sessions (ap_db st'))" unfolding st'(1) status_frame by simp
  from close_device_rows[of "sq_up e", OF assms(3) this] obtain s' where s': "s' \<in> set (db_sessions (ap_db st2))" "sr_id s' = op_session_id p"
    "sr_device s' = in_device info" using s(2,3) unfolding st'(2) by metis
  have closed: "\<forall>s\<in>set (db_sessions (ap_db st2)). sr_device s = in_device info \<longrightarrow> sr_state s = session_state.Closed"
    using close_device_closes[of "sq_up e"] assms(3) unfolding st'(2) by blast
  have susp: "dv_status d = Suspended" if "d \<in> set (db_devices (ap_db st2))" "dv_id d = in_device info" for d
    using that status_set unfolding st'(2) close_device_frame st'(1) by metis
  let ?act = "\<lambda>s :: session_row. s\<lparr>sr_state := Live, sr_activated_at := Some t'\<rparr>"
  let ?st3 = "st2\<lparr>ap_db := activate_row t' (op_session_id p) (ap_db st2)\<rparr>"
  have gc: "valid_cert t' (op_gateway p) (ap_db ?st3) = Some gc"
    using assms(6) by (simp add: activate_row_def set_sessions_def valid_cert_def)
  then obtain resp where resp: "open_finish up' t' p (Some a) st2 = (Inr resp, ?st3)" "or_session_id resp = op_session_id p"
    using assms(4,5) by (simp add: open_finish_def Let_def del: ascii_simps)
  have "(if sr_id s' = op_session_id p then ?act s' else s') \<in> set (db_sessions (ap_db ?st3))"
    using imageI[OF s'(1), of "\<lambda>s. if sr_id s = op_session_id p then ?act s else s"]
    by (simp add: activate_row_def set_sessions_def set_update_where)
  then have "?act s' \<in> set (db_sessions (ap_db ?st3))" using s'(2) by simp
  then have live: "\<exists>s\<in>set (db_sessions (ap_db ?st3)). sr_id s = or_session_id resp \<and> sr_device s = in_device info \<and> sr_state s = Live"
    by (rule bexI[rotated]) (simp add: s' resp(2))
  have "\<forall>d\<in>set (db_devices (ap_db ?st3)). dv_id d = in_device info \<longrightarrow> dv_status d = Suspended"
    using susp by (simp add: activate_row_def set_sessions_def)
  with closed resp(1) live show ?thesis by blast
qed

section \<open>A concrete broker\<close>

definition sample_broker :: broker_libs where
  "sample_broker = \<lparr>bl_suite_debug = (\<lambda>_. []), bl_net_show = (\<lambda>_. []), bl_net_parse = (\<lambda>_. None)\<rparr>"

definition sample_open :: open_request where
  "sample_open = \<lparr>oq_eph_kem_pk = po_eph_pk_bytes (initiator_offer toy [1] [] [Aes256Gcm, ChaCha20Poly1305]), oq_suites = [1, 2], oq_wants_overlay_ip = True,
     oq_initiator_index = 7\<rparr>"

definition sample_info :: session_info where
  "sample_info = \<lparr>in_tenant = ascii ''acme'', in_device = replicate 16 3, in_tls_cert_sha256 = [], in_issued_at = 0\<rparr>"

definition sample_gateway_row :: gateway_row where
  "sample_gateway_row = \<lparr>gr_id = replicate 16 1, gr_endpoint = [], gr_region = [], gr_capacity = 0, gr_protected = [],
     gr_active_sessions = 0, gr_last_seen = None\<rparr>"

definition sample_broker_db :: control_db where
  "sample_broker_db = sample_control_db\<lparr>
     db_devices := [sample_member\<lparr>dv_overlay_v4 := Some (V4 1, 32), dv_overlay_v6 := Some (V6 1, 128)\<rparr>,
       sample_row\<lparr>dv_id := replicate 16 1, dv_kind := ascii ''gateway''\<rparr>],
     db_certs := [(sample_cert_row 3)\<lparr>cr_certificate := cert_encode sample_device_cert\<rparr>, (sample_cert_row 1)\<lparr>cr_certificate := cert_encode (sample_cert Gateway 1 1)\<rparr>],
     db_gateways := [sample_gateway_row], db_pools := [(ascii ''acme'', (V4 0, 10), (V6 0, 48))]\<rparr>"

definition sample_broker_state :: "(ip_addr \<times> nat, unit) app_state" where
  "sample_broker_state = sample_app\<lparr>ap_db := sample_broker_db,
     ap_gateways := [(replicate 16 1, \<lparr>gh_tx = 4, gh_endpoint = [], gh_region = []\<rparr>)]\<rparr>"

lemma sample_rows:
  "db_devices sample_broker_db = [sample_member\<lparr>dv_overlay_v4 := Some (V4 1, 32), dv_overlay_v6 := Some (V6 1, 128)\<rparr>,
     sample_row\<lparr>dv_id := replicate 16 1, dv_kind := ascii ''gateway''\<rparr>]"
  "db_certs sample_broker_db = [(sample_cert_row 3)\<lparr>cr_certificate := cert_encode sample_device_cert\<rparr>, (sample_cert_row 1)\<lparr>cr_certificate := cert_encode (sample_cert Gateway 1 1)\<rparr>]"
  "db_gateways sample_broker_db = [sample_gateway_row]" "db_sessions sample_broker_db = []"
  "db_pools sample_broker_db = [(ascii ''acme'', (V4 0, 10), (V6 0, 48))]"
  "dv_id sample_member = replicate 16 3" "dv_status sample_member = Active" "gr_id sample_gateway_row = replicate 16 1"
  "dv_advertised sample_member = []" "dv_advertised sample_row = []" "gr_protected sample_gateway_row = []"
  by (simp_all add: sample_broker_db_def sample_control_db_def sample_member_def sample_row_def sample_gateway_row_def del: ascii_simps)

lemma sample_valid:
  "valid_cert 150 (replicate 16 3) sample_broker_db = Some (cert_encode sample_device_cert)"
  "valid_cert 150 (replicate 16 1) sample_broker_db = Some (cert_encode (sample_cert Gateway 1 1))"
  by (simp_all add: valid_cert_def sample_rows newest_cert_def sample_cert_row_def replicate_eq_replicate)

definition sample_sess_device :: sess_device where
  "sample_sess_device = \<lparr>sv_overlay_v4 = (V4 1, 32), sv_overlay_v6 = (V6 1, 128), sv_advertised = [],
     sv_certificate = cert_encode sample_device_cert\<rparr>"

lemma sample_open_checks: "open_check sample_open = Inr Aes256Gcm"
proof -
  have "length (po_eph_pk_bytes (initiator_offer toy [1] [] [Aes256Gcm, ChaCha20Poly1305])) = HYBRID_KEM_PUBLIC_KEY_BYTES"
    using generated_kem_pk_wf[OF toy_x25519 toy_mlkem] by (simp add: initiator_offer_def Let_def length_kem_pk_bytes HYBRID_KEM_PUBLIC_KEY_BYTES_def key_sizes)
  then show ?thesis by (simp add: open_check_def sample_open_def pick_suite_def pb_suite_def map_filter_simps)
qed

lemma sample_loads: "load_device (\<lambda>_. True) 150 sample_info sample_broker_db = Inr sample_sess_device"
  by (simp add: load_device_def active_device_def sample_info_def sample_rows sample_valid sample_sess_device_def del: ascii_simps replicate.simps)

lemma sample_opens:
  "\<exists>p st1. open_session sample_control sample_broker (\<lambda>_. True) (\<lambda>_. True) 150 (Inr (replicate 16 8)) 2 sample_info sample_open
      sample_broker_state = (Inr p, st1, [(4, GdOffer (session_offer_of sample_broker (replicate 16 8) sample_sess_device Aes256Gcm sample_open))]) \<and>
    op_device p = sample_sess_device \<and> op_gateway p = replicate 16 1 \<and> db_certs (ap_db st1) = db_certs sample_broker_db"
proof -
  have st: "ap_db sample_broker_state = sample_broker_db" "ap_engines sample_broker_state = []"
    "ap_gateways sample_broker_state = [(replicate 16 1, \<lparr>gh_tx = 4, gh_endpoint = [], gh_region = []\<rparr>)]"
    by (simp_all add: sample_broker_state_def sample_app_def)
  have adm: "admission sample_control (in_tenant sample_info) (in_device sample_info) (ToIp ADMISSION_IP) sample_broker_state = Inr ()"
    by (simp add: admission_def st)
  let ?s = "new_session (replicate 16 8) sample_info (Some (replicate 16 1)) None []"
  let ?db = "sample_broker_db\<lparr>db_sessions := [?s]\<rparr>"
  have ins: "insert_session True ?s sample_broker_db = Inr ?db"
    by (simp add: insert_session_def sample_rows sample_info_def del: replicate.simps ascii_simps)
  have rt: "routes_for sample_broker (\<lambda>_. True) sample_info (replicate 16 1) ?db = Inr []"
    by (simp add: routes_for_def sample_rows del: replicate.simps ascii_simps)
  have pl: "pool_prefixes (\<lambda>_. True) sample_info ?db = Inr (10, 48)"
    by (simp add: pool_prefixes_def sample_rows sample_info_def del: replicate.simps ascii_simps)
  have bd: "bl_suite_debug sample_broker Aes256Gcm = []" by (simp add: sample_broker_def)
  show ?thesis
    unfolding open_session_def sample_open_checks st(1) sample_loads adm open_send_def
    by (simp add: pick_def st bd ins rt pl Let_def del: replicate.simps)
qed

definition sample_session_gateway :: "(ip_addr \<times> nat, ((ip_addr \<times> nat) \<times> bytes) list, unit) gateway" where
  "sample_session_gateway = sample_gateway\<lparr>gw_up := True, gw_chain := (gw_chain sample_gateway)\<lparr>
     cc_issuing := sample_cert IssuingCa 2 1, cc_verifier := [sample_cert RootCa 1 1]\<rparr>\<rparr>"

definition sample_offer :: session_offer where
  "sample_offer = session_offer_of sample_broker (replicate 16 8) sample_sess_device Aes256Gcm sample_open"

lemma sample_decodes: "cert_decode toy (sv_certificate sample_sess_device) = Inr sample_device_cert"
  unfolding sample_sess_device_def sess_device.simps by (rule cert.from_to[OF sample_cert_ok])

lemma sample_accepts:
  "\<exists>gw' an. accept_offer toy toy_libs toy_lpm (demo_clock 0) 150 ep demo_coins [] [Inr [0, 0, 0, 9]] True sample_session_gateway 0 sample_offer =
    Some (Inr (), gw', [an])"
proof -
  have chain: "is_ok (chain_verify toy (cc_verifier (gw_chain sample_session_gateway)) sample_device_cert
      [cc_issuing (gw_chain sample_session_gateway)] 150)"
    using sample_chain by (simp add: sample_session_gateway_def)
  then obtain v where v: "chain_verify toy (cc_verifier (gw_chain sample_session_gateway)) sample_device_cert
      [cc_issuing (gw_chain sample_session_gateway)] 150 = Inr v"
    by (cases "chain_verify toy (cc_verifier (gw_chain sample_session_gateway)) sample_device_cert
      [cc_issuing (gw_chain sample_session_gateway)] 150") auto
  have off: "so_session_id sample_offer = replicate 16 8" "so_device_certificate sample_offer = Some (sv_certificate sample_sess_device)"
    "so_suite sample_offer = 1" "so_initiator_index sample_offer = 7"
    "so_eph_kem_pk sample_offer = po_eph_pk_bytes (initiator_offer toy [1] [] [Aes256Gcm, ChaCha20Poly1305])"
    by (simp_all add: sample_offer_def session_offer_of_def suite_pb_def sample_open_def)
  have "\<not> is_revoked (gw_chain sample_session_gateway) (tb_serial (ce_tbs sample_device_cert))"
    by (simp add: is_revoked_def sample_session_gateway_def sample_gateway_def)
  then have chk: "check_offer toy (gw_chain sample_session_gateway) 150 sample_offer = Inr (replicate 16 8, sample_device_cert, Aes256Gcm)"
    by (simp add: check_offer_def off sample_decodes v suite_from_id_def)
  have idx: "allocate_index (gw_table sample_session_gateway) [Inr [0, 0, 0, 9]] = Some (Inr 9)"
    by (simp add: sample_session_gateway_def sample_gateway_def table_new_def from_be_bytes_def from_be_def)
  have kem: "tb_kem_key (ce_tbs sample_device_cert) = Some (kem_public (kem_generate toy [1] []))"
    by (simp add: sample_device_cert_def sample_device_tbs_def sample_kem_def)
  obtain an est where an: "answer toy demo_coins [] (replicate 16 8) sample_device_cert (so_eph_kem_pk sample_offer) Aes256Gcm
      (cert_id toy (gw_cert sample_session_gateway)) (gw_signing sample_session_gateway) 9 (Some ep) = Inr (an, est)"
    using demo_answers[OF kem, of "replicate 16 8" "[Aes256Gcm, ChaCha20Poly1305]" Aes256Gcm "cert_id toy (gw_cert sample_session_gateway)" 1 9 "Some ep"]
    by (auto simp: off sample_session_gateway_def sample_gateway_def sample_kp_def)
  have up: "gw_up sample_session_gateway" "pl_uuid_parse toy_libs x = Some x" for x
    by (simp_all add: sample_session_gateway_def toy_libs_def)
  show ?thesis by (simp add: accept_offer_def chk idx an up Let_def del: allocate_index.simps)
qed


definition sample_answer :: session_answer where
  "sample_answer = \<lparr>an_session_id = replicate 16 8, an_ct_e = [], an_ct_s = [], an_responder_index = 1, an_responder_endpoint = [],
     an_suite = 1, an_signature = []\<rparr>"

lemma suspend_succeeds:
  assumes "sq_up e = (\<lambda>_. True)" and "sq_redis e = (\<lambda>_. True)"
  shows "\<exists>st' rd' gm pm. suspend_device C L R e device reason st rd = (Inr (), st', rd', gm, pm)"
  using assms by (simp add: suspend_device_def store_revoke_def Let_def split: prod.splits)

theorem suspended_session_revived_witness:
  "\<exists>p st1 st2 rd' gm pm resp st3.
    open_session sample_control sample_broker (\<lambda>_. True) (\<lambda>_. True) 150 (Inr (replicate 16 8)) 2 sample_info sample_open
      sample_broker_state = (Inr p, st1, [(4, GdOffer sample_offer)]) \<and>
    suspend_device sample_control sample_ca_auth toy_redis sample_env_all (replicate 16 3) [] st1 [] = (Inr (), st2, rd', gm, pm) \<and>
    open_finish (\<lambda>_. True) 150 p (Some sample_answer) st2 = (Inr resp, st3) \<and>
    (\<exists>s\<in>set (db_sessions (ap_db st3)). sr_id s = or_session_id resp \<and> sr_device s = replicate 16 3 \<and> sr_state s = Live)"
proof -
  obtain p st1 where o: "open_session sample_control sample_broker (\<lambda>_. True) (\<lambda>_. True) 150 (Inr (replicate 16 8)) 2 sample_info sample_open
      sample_broker_state = (Inr p, st1, [(4, GdOffer sample_offer)])"
    and p: "op_gateway p = replicate 16 1" "db_certs (ap_db st1) = db_certs sample_broker_db"
    using sample_opens unfolding sample_offer_def by blast
  have e: "sq_up sample_env_all = (\<lambda>_. True)" "sq_redis sample_env_all = (\<lambda>_. True)" by (simp_all add: sample_env_all_def)
  have d: "in_device sample_info = replicate 16 3" by (simp add: sample_info_def)
  obtain st2 rd' gm pm where sus:
    "suspend_device sample_control sample_ca_auth toy_redis sample_env_all (in_device sample_info) [] st1 [] = (Inr (), st2, rd', gm, pm)"
    using suspend_succeeds[OF e, of sample_control sample_ca_auth toy_redis "in_device sample_info" "[]" st1 "[]"] by (elim exE)
  have "db_certs (ap_db st2) = db_certs sample_broker_db"
    by (rule suspendD[OF sus]) (simp add: close_device_frame status_frame p(2))
  then have v: "valid_cert 150 (op_gateway p) (ap_db st2) = Some (cert_encode (sample_cert Gateway 1 1))" using sample_valid(2) unfolding valid_cert_def p(1) by simp
  have up: "sq_up sample_env_all SCloseDevice" "(\<lambda>_. True) SActivate" "(\<lambda>_. True) SGatewayCert" by (simp_all add: e)
  from suspended_session_revived[OF o sus up(1), where up' = "\<lambda>_. True" and a = sample_answer, OF up(2,3) v]
  obtain resp st3 where "open_finish (\<lambda>_. True) 150 p (Some sample_answer) st2 = (Inr resp, st3)"
    "\<exists>s\<in>set (db_sessions (ap_db st3)). sr_id s = or_session_id resp \<and> sr_device s = in_device sample_info \<and> sr_state s = Live"
    by blast
  with o sus show ?thesis unfolding d by (intro exI conjI) assumption+
qed

end
