(* ===== verification/Control_Typing.thy ===== *)
theory Control_Typing
  imports Session_Broker Control_Attest
begin

text \<open>
  The control plane and the certificate authority as one transition system over the database they share:
  every handler that writes to it is a step.  The rows the handlers write respect the schema: keys are
  unique, identifiers have their length, and references lead to rows.
\<close>

section \<open>The schema\<close>

definition db_typed :: "control_db \<Rightarrow> bool" where
  "db_typed db =
     (distinct (map dv_id (db_devices db)) \<and> overlay_unique db \<and>
      distinct (map gr_id (db_gateways db)) \<and> (\<forall>g\<in>set (db_gateways db). gr_id g \<in> dv_id ` set (db_devices db)) \<and>
      distinct (map cr_serial (db_certs db)) \<and> (\<forall>c\<in>set (db_certs db). length (cr_serial c) = 16) \<and>
      distinct (map sr_id (db_sessions db)) \<and>
      (\<forall>s\<in>set (db_sessions db). length (sr_id s) = 16 \<and> sr_device s \<in> dv_id ` set (db_devices db) \<and>
         (\<forall>g. sr_gateway s = Some g \<longrightarrow> g \<in> gr_id ` set (db_gateways db)) \<and>
         (\<forall>p. sr_peer s = Some p \<longrightarrow> p \<in> dv_id ` set (db_devices db)) \<and> (sr_gateway s = None) \<noteq> (sr_peer s = None)) \<and>
      distinct (map fst (db_crls db)))"

text \<open>The columns it speaks of.\<close>

definition session_key :: "session_row \<Rightarrow> bytes \<times> uuid \<times> uuid option \<times> uuid option" where
  "session_key s = (sr_id s, sr_device s, sr_gateway s, sr_peer s)"

definition key_cols where
  "key_cols db = (map dv_id (db_devices db), map dv_overlay_v4 (db_devices db), map dv_overlay_v6 (db_devices db),
     map cr_serial (db_certs db), map session_key (db_sessions db), map gr_id (db_gateways db), map fst (db_crls db))"

definition session_key_ok :: "uuid set \<Rightarrow> uuid set \<Rightarrow> bytes \<times> uuid \<times> uuid option \<times> uuid option \<Rightarrow> bool" where
  "session_key_ok ids gws k = (case k of (i, d, g, p) \<Rightarrow> length i = 16 \<and> d \<in> ids \<and> (\<forall>x. g = Some x \<longrightarrow> x \<in> gws) \<and>
     (\<forall>x. p = Some x \<longrightarrow> x \<in> ids) \<and> (g = None) \<noteq> (p = None))"

fun keys_ok where
  "keys_ok (ids, v4, v6, serials, sess, gws, crls) =
     (distinct ids \<and> distinct (List.map_filter id v4) \<and> distinct (List.map_filter id v6) \<and>
      distinct gws \<and> set gws \<subseteq> set ids \<and> distinct serials \<and> (\<forall>s\<in>set serials. length s = 16) \<and>
      distinct (map fst sess) \<and> (\<forall>k\<in>set sess. session_key_ok (set ids) (set gws) k) \<and> distinct crls)"

lemma map_filter_map: "List.map_filter f (map g xs) = List.map_filter (f \<circ> g) xs"
  by (induction xs) (simp_all add: map_filter_simps split: option.splits)

lemma typed_keys: "db_typed db = keys_ok (key_cols db)"
proof -
  have k: "session_key_ok (set (map dv_id (db_devices db))) (set (map gr_id (db_gateways db))) (session_key s) =
     (length (sr_id s) = 16 \<and> sr_device s \<in> dv_id ` set (db_devices db) \<and>
         (\<forall>g. sr_gateway s = Some g \<longrightarrow> g \<in> gr_id ` set (db_gateways db)) \<and>
         (\<forall>p. sr_peer s = Some p \<longrightarrow> p \<in> dv_id ` set (db_devices db)) \<and> (sr_gateway s = None) \<noteq> (sr_peer s = None))" for s
    by (simp add: session_key_ok_def session_key_def)
  have i: "map fst (map session_key ss) = map sr_id ss" for ss by (simp add: session_key_def)
  have g: "set (map gr_id gs) \<subseteq> I \<longleftrightarrow> (\<forall>g\<in>set gs. gr_id g \<in> I)" for gs I by (simp add: image_subset_iff)
  have c: "(\<forall>s\<in>set (map cr_serial cs). length s = 16) \<longleftrightarrow> (\<forall>c\<in>set cs. length (cr_serial c) = 16)" for cs by simp
  have q: "(\<forall>x\<in>set (map session_key ss). Q x) \<longleftrightarrow> (\<forall>s\<in>set ss. Q (session_key s))" for ss Q by simp
  show ?thesis
    unfolding db_typed_def key_cols_def keys_ok.simps overlay_unique_def map_filter_map id_comp i g c q k conj_assoc by (simp only: set_map)
qed

lemma typed_cong: "key_cols db' = key_cols db \<Longrightarrow> db_typed db' = db_typed db"
  by (simp add: typed_keys)

section \<open>Statements that keep the columns\<close>

lemma cols_set_devices:
  "(\<And>d. dv_id (f d) = dv_id d \<and> dv_overlay_v4 (f d) = dv_overlay_v4 d \<and> dv_overlay_v6 (f d) = dv_overlay_v6 d) \<Longrightarrow>
   key_cols (set_devices p f db) = key_cols db"
  by (simp add: key_cols_def set_devices_def map_update_where)

lemma cols_set_sessions: "(\<And>s. session_key (f s) = session_key s) \<Longrightarrow> key_cols (set_sessions p f db) = key_cols db"
  by (simp add: key_cols_def set_sessions_def map_update_where)

lemma cols_bump [simp]: "key_cols (bump_tenant t db) = key_cols db" "key_cols (bump_pod pod db) = key_cols db"
  by (simp_all add: key_cols_def bump_pod_def bump_tenant_def split: option.splits)

lemma cols_set_device_bump:
  "(\<And>d. dv_id (f d) = dv_id d \<and> dv_overlay_v4 (f d) = dv_overlay_v4 d \<and> dv_overlay_v6 (f d) = dv_overlay_v6 d) \<Longrightarrow>
   key_cols (set_device_bump i f db) = key_cols db"
  by (simp add: set_device_bump_def cols_set_devices split: option.splits)

lemma cols_rows [simp]:
  "key_cols (close_rows t p r db) = key_cols db" "key_cols (activate_row t i db) = key_cols db"
  "key_cols (set_status device status db) = key_cols db" "key_cols (record_session_event up t e db) = key_cols db"
  by (simp_all add: close_rows_def activate_row_def set_status_def record_session_event_def cols_set_sessions cols_set_device_bump
      session_key_def Let_def)

lemma cols_stats [simp]: "key_cols (record_stats up t i n db) = key_cols db"
  by (simp add: record_stats_def key_cols_def map_update_where)

lemma cols_marked [simp]: "key_cols (mark_revoked t serial reason db) = key_cols db"
  by (simp add: mark_revoked_def key_cols_def map_update_where)

lemma cols_other [simp]:
  "key_cols (db\<lparr>db_tokens := a\<rparr>) = key_cols db" "key_cols (db\<lparr>db_device_pods := b\<rparr>) = key_cols db"
  "key_cols (db\<lparr>db_enrollments := c\<rparr>) = key_cols db" "key_cols (db\<lparr>db_notified := d\<rparr>) = key_cols db"
  "key_cols (db\<lparr>db_decisions := e\<rparr>) = key_cols db"
  by (simp_all add: key_cols_def)

lemma cols_close_device [simp]: "key_cols (ap_db (fst (close_device_sessions up room t device reason st))) = key_cols (ap_db st)"
  by (simp add: close_device_sessions_def Let_def)

section \<open>Statements that add rows\<close>

lemma map_filter_None: "List.map_filter id (xs @ [None]) = List.map_filter id xs"
  by (induction xs) (simp_all add: map_filter_simps split: option.splits)

lemma typed_device:
  assumes "db_typed db" and "dv_id d \<notin> set (map dv_id (db_devices db))" and "dv_overlay_v4 d = None" and "dv_overlay_v6 d = None"
  shows "db_typed (db\<lparr>db_devices := db_devices db @ [d]\<rparr>)"
proof -
  have "\<forall>k\<in>set (map session_key (db_sessions db)).
      session_key_ok (set (map dv_id (db_devices db))) (set (map gr_id (db_gateways db))) k"
    "set (map gr_id (db_gateways db)) \<subseteq> set (map dv_id (db_devices db))"
    using assms(1) by (simp_all add: typed_keys key_cols_def)
  then have "\<forall>k\<in>set (map session_key (db_sessions db)).
      session_key_ok (set (map dv_id (db_devices db @ [d]))) (set (map gr_id (db_gateways db))) k"
    "set (map gr_id (db_gateways db)) \<subseteq> set (map dv_id (db_devices db @ [d]))"
    by (auto simp: session_key_ok_def split: prod.splits)
  with assms show ?thesis by (simp add: typed_keys key_cols_def map_filter_None)
qed

lemma typed_session:
  assumes "insert_session up s db = Inr db'" and "(sr_gateway s = None) \<noteq> (sr_peer s = None)" and "db_typed db"
  shows "db_typed db'"
proof -
  from assms(1) have db': "db' = db\<lparr>db_sessions := db_sessions db @ [s]\<rparr>" "length (sr_id s) = 16" "sr_id s \<notin> sr_id ` set (db_sessions db)"
    "sr_device s \<in> dv_id ` set (db_devices db)" "\<And>g. sr_gateway s = Some g \<Longrightarrow> g \<in> gr_id ` set (db_gateways db)"
    "\<And>p. sr_peer s = Some p \<Longrightarrow> p \<in> dv_id ` set (db_devices db)"
    by (simp_all add: insert_session_def split: if_splits)
  have "session_key_ok (set (map dv_id (db_devices db))) (set (map gr_id (db_gateways db))) (session_key s)"
    using db'(2,4,5,6) assms(2) by (simp add: session_key_ok_def session_key_def)
  moreover have "fst (session_key s) \<notin> fst ` set (map session_key (db_sessions db))"
    using db'(3) by (simp add: session_key_def image_image)
  ultimately show ?thesis using assms(3) unfolding typed_keys db'(1) by (simp add: key_cols_def image_image)
qed

lemma typed_gateway:
  assumes "upsert_gateway up t i r protected db = Inr db'" and "db_typed db"
  shows "db_typed db'"
proof (cases "i \<in> gr_id ` set (db_gateways db)")
  case True
  then have "Inr (db\<lparr>db_gateways := update_where (\<lambda>g. gr_id g = i)
      (\<lambda>g. g\<lparr>gr_endpoint := rg_public_endpoint r, gr_region := rg_region r, gr_capacity := rg_capacity r,
             gr_protected := protected, gr_last_seen := Some t\<rparr>) (db_gateways db)\<rparr>) = (Inr db' :: status + control_db)"
    using assms(1) by (simp only: upsert_gateway_def if_True sum.distinct split: if_splits)
  note e = Inr_inject[OF this]
  have "key_cols db' = key_cols db" unfolding e[symmetric] by (simp add: key_cols_def map_update_where)
  from typed_cong[OF this] assms(2) show ?thesis by blast
next
  case False
  define g where "g = \<lparr>gr_id = i, gr_endpoint = rg_public_endpoint r, gr_region = rg_region r, gr_capacity = rg_capacity r,
    gr_protected = protected, gr_active_sessions = 0, gr_last_seen = Some t\<rparr>"
  have g: "db' = db\<lparr>db_gateways := db_gateways db @ [g]\<rparr>" "gr_id g = i" "i \<in> dv_id ` set (db_devices db)"
    using False assms(1) by (simp_all add: upsert_gateway_def g_def split: if_splits)
  have "\<forall>k\<in>set (map session_key (db_sessions db)).
      session_key_ok (set (map dv_id (db_devices db))) (set (map gr_id (db_gateways db @ [g]))) k"
    using assms(2) by (auto simp: typed_keys key_cols_def session_key_ok_def split: prod.splits)
  with assms(2) g False show ?thesis by (simp add: typed_keys key_cols_def)
qed

lemma typed_cert:
  assumes "store_issued up issued tenant subject kind kid db = Inr db'" and "db_typed db"
  shows "db_typed db'"
proof -
  define c where "c = \<lparr>cr_serial = is_serial issued, cr_tenant = tenant, cr_subject = subject, cr_kind = kind,
    cr_certificate = cert_encode (is_certificate issued), cr_tls_der = is_tls_cert_der issued,
    cr_not_before = sint (tb_not_before (ce_tbs (is_certificate issued))), cr_not_after = sint (is_not_after issued),
    cr_issuer_key_id = kid, cr_revoked_at = None, cr_reason = None\<rparr>"
  have c: "db' = db\<lparr>db_certs := db_certs db @ [c]\<rparr>" "length (is_serial issued) = 16" "is_serial issued \<notin> cr_serial ` set (db_certs db)"
    "cr_serial c = is_serial issued"
    using assms(1) by (simp_all add: store_issued_def c_def split: if_splits)
  with assms(2) show ?thesis by (simp add: typed_keys key_cols_def)
qed

lemma typed_list:
  assumes "insert_crl P up rnd now keys serials version db = Inr (p, db')" and "db_typed db"
  shows "db_typed db'"
proof -
  from assms(1) obtain e where "db' = db\<lparr>db_crls := db_crls db @ [(version, e)]\<rparr>" "version \<notin> fst ` set (db_crls db)"
    by (auto simp: insert_crl_def Let_def res_simps split: if_splits)
  with assms(2) show ?thesis by (simp add: typed_keys key_cols_def)
qed

lemma typed_overlay:
  assumes "db_typed db" and "overlay_unique (set_devices p f db)" and "\<And>d. dv_id (f d) = dv_id d"
  shows "db_typed (set_devices p f db)"
proof -
  have ids: "map dv_id (db_devices (set_devices p f db)) = map dv_id (db_devices db)"
    using assms(3) by (simp add: set_devices_def map_update_where)
  from assms(2) have "distinct (List.map_filter id (map dv_overlay_v4 (db_devices (set_devices p f db))))"
    "distinct (List.map_filter id (map dv_overlay_v6 (db_devices (set_devices p f db))))"
    by (simp_all add: overlay_unique_def map_filter_map)
  with assms(1) show ?thesis
    unfolding typed_keys key_cols_def keys_ok.simps ids by (simp add: set_devices_def)
qed

section \<open>Enrollment\<close>

lemma allocate_fresh_typed:
  assumes "allocate_fresh N up tenant device n4 n6 db = Inr (x, db')" and "db_typed db"
  shows "db_typed db'"
proof -
  from assms(1) obtain v4 v6 where "db' = set_devices (\<lambda>d. dv_id d = device)
      (\<lambda>d. d\<lparr>dv_overlay_v4 := Some (V4 v4, 32), dv_overlay_v6 := Some (V6 v6, 128)\<rparr>) db" "overlay_unique db'"
    unfolding allocate_fresh_def Let_def by (auto simp: res_simps split: if_splits)
  then show ?thesis using typed_overlay[OF assms(2)] by simp
qed

lemma overlay_case:
  assumes "(case x of Some (Some (V4 v4, _), Some (V6 v6, _)) \<Rightarrow> g v4 v6 | _ \<Rightarrow> f) = Inr (r, db')"
    and "\<And>v4 v6 r' d. g v4 v6 = Inr (r', d) \<Longrightarrow> d = db"
  shows "db' = db \<or> f = Inr (r, db')"
  using assms by (auto split: option.splits prod.splits ip_addr.splits)

lemma ipam_typed:
  assumes "ipam_allocate N up tenant device db = Inr (x, db')" and "db_typed db"
  shows "db_typed db'"
proof -
  let ?g = "\<lambda>n4 n6 v4 v6. bind_res (net_or N (V4 v4) (ipnet_prefix_len N n4)) (\<lambda>a.
    bind_res (net_or N (V6 v6) (ipnet_prefix_len N n6)) (\<lambda>b. Inr ((a, b), db)))"
  define F where "F n4 n6 =
    (case map_option (\<lambda>d. (dv_overlay_v4 d, dv_overlay_v6 d)) (find (\<lambda>d. dv_id d = device \<and> dv_tenant d = tenant) (db_devices db)) of
        Some (Some (V4 v4, _), Some (V6 v6, _)) \<Rightarrow> ?g n4 n6 v4 v6
      | _ \<Rightarrow> allocate_fresh N up tenant device n4 n6 db)" for n4 n6
  from assms(1) obtain n4 n6 where "F n4 n6 = Inr (x, db')"
    unfolding ipam_allocate_def F_def[symmetric] by (auto simp: res_simps split: if_splits)
  from overlay_case[OF this[unfolded F_def], of db] have "db' = db \<or> allocate_fresh N up tenant device n4 n6 db = Inr (x, db')"
    by (auto simp: res_simps)
  then show ?thesis
  proof
    assume "allocate_fresh N up tenant device n4 n6 db = Inr (x, db')"
    then show ?thesis by (rule allocate_fresh_typed) (rule assms(2))
  qed (use assms(2) in simp)
qed

lemma pods_cols: "add_device_pods up device pods db = Inr db' \<Longrightarrow> key_cols db' = key_cols db"
  by (induction up device pods db rule: add_device_pods.induct) (simp_all split: if_splits)

lemma enroll_typed:
  assumes "enroll P L up now device_id iss req ip db = (r, db')" and "db_typed db"
  shows "db_typed db'"
proof (cases r)
  case (Inl e)
  then have "db' = db" using assms(1) by (auto simp: enroll_def split: sum.splits prod.splits)
  then show ?thesis using assms(2) by simp
next
  case (Inr response)
  then obtain csr template where "enroll_tx P L up now device_id iss req csr template ip db = Inr (response, db')"
    using assms(1) by (auto simp: enroll_def res_simps split: sum.splits if_splits)
  then obtain token db1 name st prov db2 db3 x db4 where
    1: "consume_token up now (hash_token P (er_token req)) db = Inr (token, db1)"
    and 2: "create_device up (et_tenant token) device_id name (et_device_kind token) st (et_class token) (enroll_fingerprint req) prov db1 = Inr db2"
    and 3: "add_device_pods up device_id (et_pod_ids token) db2 = Inr db3"
    and 4: "ipam_allocate (el_net L) up (et_tenant token) device_id db3 = Inr (x, db4)"
    and 5: "record_enrollment up (et_id token) device_id ip db4 = Inr db'"
    unfolding enroll_tx_def Let_def by (auto simp: res_simps split: if_splits)
  have "key_cols db1 = key_cols db"
    using 1 by (auto simp: consume_token_def res_simps split: if_splits)
  from typed_cong[OF this] assms(2) have t1: "db_typed db1" by blast
  have "device_id \<notin> set (map dv_id (db_devices db1))" "db2 = db1\<lparr>db_devices := db_devices db1 @
      [new_device (et_tenant token) device_id name (et_device_kind token) st (et_class token) (enroll_fingerprint req) prov]\<rparr>"
    using 2 by (simp_all add: create_device_def split: if_splits)
  then have t2: "db_typed db2" using typed_device[OF t1] by (simp add: new_device_def)
  from typed_cong[OF pods_cols[OF 3]] t2 have "db_typed db3" by blast
  then have t4: "db_typed db4" by (rule ipam_typed[OF 4])
  have "key_cols db' = key_cols db4" using 5 by (auto simp: record_enrollment_def split: if_splits)
  from typed_cong[OF this] t4 show ?thesis by blast
qed

section \<open>The authority\<close>

lemma build_typed:
  assumes "build_and_store P up rnd dbnow now keys db = Inr (p, db')" and "db_typed db"
  shows "db_typed db'"
proof -
  have "insert_crl P up rnd now keys (revoked_serials dbnow db) (next_version db) db = Inr (p, db')"
    using assms(1) by (simp add: build_and_store_def split: if_splits)
  then show ?thesis by (rule typed_list) (rule assms(2))
qed

lemma mark_typed: "db_typed (mark_revoked t serial reason db) = db_typed db"
  by (rule typed_cong) simp

lemma revoke_typed:
  assumes "revoke P up rnd dbnow now keys serial reason db = (res, db')" and "db_typed db"
  shows "db_typed db'"
  using assms(1)
proof (cases rule: revokedD)
  case kept
  then show ?thesis using assms(2) by simp
next
  case marked
  then show ?thesis using assms(2) by (simp add: mark_typed)
next
  case (listed p)
  then show ?thesis using build_typed[OF listed(3)] assms(2) by (simp add: mark_typed)
qed

lemma ca_revoke_typed:
  assumes "ca_revoke P L up rnd dbnow now keys req serial reason db = (res, db')" and "db_typed db"
  shows "db_typed db'"
proof -
  obtain r d where r: "revoke P up rnd dbnow now keys serial reason db = (r, d)" by (cases "revoke P up rnd dbnow now keys serial reason db")
  have "db' = db \<or> db' = d"
    using assms(1) by (auto simp: ca_revoke_def r split: sum.splits if_splits pki_error.splits)
  then show ?thesis using revoke_typed[OF r assms(2)] assms(2) by blast
qed

lemma revoke_serials_typed:
  "revoke_serials (ca_of P L up rnd dbnow now keys req reason) ss latest db = (res, db') \<Longrightarrow> db_typed db \<Longrightarrow> db_typed db'"
proof (induction ss arbitrary: latest db)
  case (Cons s ss)
  obtain r d where r: "ca_revoke P L (up s) (rnd s) dbnow now keys req s reason db = (r, d)"
    by (cases "ca_revoke P L (up s) (rnd s) dbnow now keys req s reason db")
  have d: "db_typed d" by (rule ca_revoke_typed[OF r Cons.prems(2)])
  show ?case
  proof (cases r)
    case Inl
    then show ?thesis using Cons.prems(1) d by (simp add: ca_of_def r)
  next
    case (Inr crl)
    then show ?thesis using Cons.prems(1) Cons.IH[OF _ d] by (simp add: ca_of_def r)
  qed
qed simp

lemma current_typed:
  assumes "current_crl P up rnd dbnow now keys db = Inr (p, db')" and "db_typed db"
  shows "db_typed db'"
  using assms(1)
proof (cases rule: currentD)
  case stored
  then show ?thesis using assms(2) by simp
next
  case fresh
  then show ?thesis by (rule build_typed) (rule assms(2))
qed

section \<open>Handlers of the control plane\<close>

lemma auth_cols: "auth_proof P L R up dbs now coins p inb sent st rd = (r, st', rd') \<Longrightarrow> key_cols (ap_db st') = key_cols (ap_db st)"
  by (auto simp: auth_proof_def Let_def cols_set_devices split: sum.splits prod.splits if_splits)

lemma patch_cols [simp]: "key_cols (ap_db (fst (patch_device_attrs C up room inst now tenant device st))) = key_cols (ap_db st)"
  by (simp add: patch_db)

lemma record_cols: "key_cols (ap_db (fst (snd (record_attestation H C e device tenant result detail reason st)))) = key_cols (ap_db st)"
  by (simp add: record_attestation_def Let_def cols_set_device_bump patch_db split: prod.splits)

lemma evidence_cols: "key_cols (ap_db (fst (snd (handle_evidence P E H C e device tenant ev st)))) = key_cols (ap_db st)"
proof -
  have t: "ap_db (snd (challenge_take device (av_inst e) st)) = ap_db st"
    by (simp add: challenge_take_def challenge_forget_def split: option.splits)
  obtain n st1 where c: "challenge_take device (av_inst e) st = (n, st1)" by (cases "challenge_take device (av_inst e) st")
  with t have st1: "ap_db st1 = ap_db st" by simp
  show ?thesis
    by (cases n) (simp_all add: handle_evidence_def c st1 recorded_def record_cols Let_def split: sum.splits)
qed

lemma heartbeat_cols: "key_cols (ap_db (fst (snd (handle_heartbeat C up stat_up e tenant device posture sessions st)))) = key_cols (ap_db st)"
proof -
  define step where "step = (\<lambda>(s :: session_stat) (db :: control_db). if stat_up (ss_session_id s)
      then set_sessions (\<lambda>r. sr_id r = ss_session_id s \<and> sr_device r = device)
             (\<lambda>r. r\<lparr>sr_bytes_tx := ss_bytes_tx s, sr_bytes_rx := ss_bytes_rx s\<rparr>) db else db)"
  have f: "key_cols (fold step ss db) = key_cols db" for ss db
    by (induction ss arbitrary: db) (simp_all add: step_def cols_set_sessions session_key_def)
  have d: "key_cols (set_devices (\<lambda>d. dv_id d = device)
      (case posture of Some p \<Rightarrow> (\<lambda>d. (d\<lparr>dv_last_seen := Some (av_now e), dv_liveness := Online\<rparr>)\<lparr>dv_posture := Some (posture_json p)\<rparr>)
       | None \<Rightarrow> (\<lambda>d. d\<lparr>dv_last_seen := Some (av_now e), dv_liveness := Online\<rparr>)) db) = key_cols db" for db
    by (cases posture) (simp_all add: cols_set_devices)
  show ?thesis
    unfolding handle_heartbeat_def Let_def step_def[symmetric] by (simp add: f d split_beta)
qed

lemma open_send_typed:
  assumes "db_typed (ap_db st)"
  shows "db_typed (ap_db (fst (snd (open_send B up open_tx sid rx info req suite d g st))))"
proof (cases "insert_session (up SInsertSession) (new_session sid info (Some (fst g)) None (bl_suite_debug B suite)) (ap_db st)")
  case (Inl e)
  then show ?thesis using assms by (simp add: open_send_def)
next
  case (Inr db)
  have "db_typed db" by (rule typed_session[OF Inr]) (use assms in simp_all)
  then show ?thesis by (simp add: open_send_def Inr Let_def split: sum.splits prod.splits)
qed

lemma open_typed:
  assumes "db_typed (ap_db st)"
  shows "db_typed (ap_db (fst (snd (open_session C B up open_tx t draw rx info req st))))"
  unfolding open_session_def using assms open_send_typed[OF assms] by (auto split: sum.splits prod.splits)

lemma finish_cols: "key_cols (ap_db (snd (open_finish up t p reply st))) = key_cols (ap_db st)"
  by (simp add: open_finish_def Let_def split: option.splits)

lemma report_cols: "key_cols (ap_db (snd (report_session up t info sid event reason st))) = key_cols (ap_db st)"
  by (simp add: report_session_def)

lemma peer_typed:
  assumes "db_typed (ap_db st)"
  shows "db_typed (ap_db (fst (snd (request_peer_session C B up room t draw rx info req st))))"
proof -
  let ?r = "bind_res (peer_check C B up t info req st) (\<lambda>(suite, target, cert, v4, v6).
           bind_res (map_err (\<lambda>_. (Internal, ascii ''rng'')) draw) (\<lambda>session_id.
           bind_res (insert_session (up SInsertSession)
             (new_session session_id info None (Some target) (bl_suite_debug B suite)) (ap_db st)) (\<lambda>db.
           Inr (suite, target, cert, v4, v6, session_id, db))))"
  show ?thesis
  proof (cases ?r)
    case (Inl e)
    then show ?thesis using assms by (simp add: request_peer_session_def)
  next
    case (Inr x)
    obtain suite target cert v4 v6 sid db where x: "x = (suite, target, cert, v4, v6, sid, db)" by (cases x)
    from Inr x have "insert_session (up SInsertSession) (new_session sid info None (Some target) (bl_suite_debug B suite)) (ap_db st) = Inr db"
      by (auto simp: res_simps)
    then have "db_typed db" by (rule typed_session) (use assms in simp_all)
    moreover have "key_cols (ap_db (fst (snd (request_peer_session C B up room t draw rx info req st)))) = key_cols db"
      unfolding request_peer_session_def Inr x by (simp add: Let_def split: option.splits)
    ultimately show ?thesis using typed_cong by blast
  qed
qed

lemma peer_finish_cols: "key_cols (ap_db (snd (peer_finish B up t p reply st))) = key_cols (ap_db st)"
  by (simp add: peer_finish_def Let_def split: option.splits sum.splits prod.splits)

lemma answer_cols: "key_cols (ap_db (fst (snd (answer_peer_session up waiting info a st)))) = key_cols (ap_db st)"
  by (simp add: answer_peer_session_def split: sum.splits prod.splits)

lemma close_cols: "close_device_sessions up room t device reason st = (st', m) \<Longrightarrow> key_cols (ap_db st') = key_cols (ap_db st)"
  using cols_close_device[of up room t device reason st] by simp

lemma suspend_cols: "key_cols (ap_db (fst (snd (suspend_device C L R e device reason st rd)))) = key_cols (ap_db st)"
proof -
  let ?st1 = "st\<lparr>ap_db := set_status device Suspended (ap_db st)\<rparr>"
  let ?x = "case find_device device (ap_db ?st1) of
      Some d \<Rightarrow> patch_device_attrs C (sq_up e SSelectAttrs) (sq_room e) (sq_inst e) (sq_now e) (dv_tenant d) device ?st1
    | None \<Rightarrow> (?st1, [])"
  obtain st2 m2 where x: "?x = (st2, m2)" by (cases ?x)
  have "ap_db (fst ?x) = set_status device Suspended (ap_db st)" by (simp add: patch_db split: option.splits)
  then have d: "key_cols (ap_db st2) = key_cols (ap_db st)" unfolding x by simp
  obtain st4 m4 p4 where cl: "close_device_sessions (sq_up e) (sq_room e) (sq_now e) device reason st2 = (st4, m4, p4)"
    by (cases "close_device_sessions (sq_up e) (sq_room e) (sq_now e) device reason st2")
  show ?thesis
    unfolding suspend_device_def Let_def x store_revoke_def using close_cols[OF cl] by (simp add: cl d)
qed

lemma revoke_device_typed:
  assumes "db_typed (ap_db st)"
  shows "db_typed (ap_db (fst (snd (revoke_device P L R (ca_of P AL cup rnd dbnow now keys req why) e device reason st rd))))"
proof -
  let ?db1 = "set_status device Revoked (ap_db st)"
  have t1: "db_typed ?db1" using assms typed_cong[of ?db1 "ap_db st"] by simp
  obtain res db2 where r: "revoke_serials (ca_of P AL cup rnd dbnow now keys req why) (device_serials device ?db1) None ?db1 = (res, db2)"
    by (cases "revoke_serials (ca_of P AL cup rnd dbnow now keys req why) (device_serials device ?db1) None ?db1")
  have t2: "db_typed db2" by (rule revoke_serials_typed[OF r t1])
  show ?thesis
  proof (cases res)
    case (Inl er)
    then show ?thesis using assms t1 t2 by (simp add: revoke_device_def Let_def r)
  next
    case (Inr latest)
    define st3 where "st3 = (case latest of None \<Rightarrow> st\<lparr>ap_db := db2\<rparr> | Some crl \<Rightarrow> adopt_crl P crl (st\<lparr>ap_db := db2\<rparr>))"
    define m3 where "m3 = (case latest of None \<Rightarrow> [] | Some crl \<Rightarrow> broadcast (sq_room e) (GdCrl (fst crl) (snd crl)) (ap_gateways st))"
    have c: "(case latest of None \<Rightarrow> (st\<lparr>ap_db := db2\<rparr>, [])
        | Some crl \<Rightarrow> (adopt_crl P crl (st\<lparr>ap_db := db2\<rparr>),
            broadcast (sq_room e) (GdCrl (fst crl) (snd crl)) (ap_gateways (st\<lparr>ap_db := db2\<rparr>)))) = (st3, m3)"
      by (simp add: st3_def m3_def split: option.splits)
    have db3: "ap_db st3 = db2" by (simp add: st3_def adopt_frame split: option.splits)
    obtain st4 m4 p4 where cl: "close_device_sessions (sq_up e) (sq_room e) (sq_now e) device reason st3 = (st4, m4, p4)"
      by (cases "close_device_sessions (sq_up e) (sq_room e) (sq_now e) device reason st3")
    have t4: "db_typed (ap_db st4)" using typed_cong[OF close_cols[OF cl]] t2 db3 by simp
    show ?thesis
      unfolding revoke_device_def Let_def r Inr prod.case sum.case c store_revoke_def
      using assms t1 t2 t4 by (simp add: cl db3)
  qed
qed

lemma sweep_cols: "key_cols (snd (sweep_once up t stale offline db)) = key_cols db"
  by (simp add: sweep_once_def Let_def cols_set_devices)

lemma close_offline_cols: "key_cols (ap_db (fst (close_offline up room t is st))) = key_cols (ap_db st)"
proof (induction "is" arbitrary: st)
  case (Cons i "is")
  obtain st1 m1 p1 where c: "close_device_sessions up room t i (ascii ''device offline'') st = (st1, m1, p1)"
    by (cases "close_device_sessions up room t i (ascii ''device offline'') st")
  obtain st2 m2 p2 where r: "close_offline up room t is st1 = (st2, m2, p2)" by (cases "close_offline up room t is st1")
  show ?case using Cons.IH[of st1] close_cols[OF c] by (simp add: c r del: ascii_simps)
qed simp

lemma liveness_cols: "key_cols (ap_db (fst (liveness_tick up room t stale offline st))) = key_cols (ap_db st)"
proof -
  obtain r db where w: "sweep_once up t stale offline (ap_db st) = (r, db)" by (cases "sweep_once up t stale offline (ap_db st)")
  then have "key_cols db = key_cols (ap_db st)" using sweep_cols[of up t stale offline "ap_db st"] by simp
  then show ?thesis by (cases r) (simp_all add: liveness_tick_def w close_offline_cols)
qed

lemma snapshots_db: "ap_db (snd (snapshots_for_registration C up now ts st)) = ap_db st"
proof (induction ts arbitrary: st)
  case (Cons t ts)
  let ?l = "engine_load (cl_policy C) (engine_for st t) (load_snapshot C now t (ap_db st)) now"
  let ?st = "st\<lparr>ap_engines := AList.update t (snd ?l) (ap_engines st)\<rparr>"
  obtain r st2 where r: "snapshots_for_registration C up now ts ?st = (r, st2)" by (cases "snapshots_for_registration C up now ts ?st")
  then have "ap_db st2 = ap_db st" using Cons.IH[of ?st] by simp
  then show ?case by (cases "fst ?l") (simp_all add: Let_def r)
qed simp

lemma register_typed:
  assumes "db_typed (ap_db st)"
  shows "db_typed (ap_db (snd (register_gateway P L B C up up_snap now tenants req r st)))"
proof -
  let ?r = "bind_res (gateway_id P L req) (\<lambda>i.
           let protected = List.map_filter (bl_net_parse B) (rg_protected_cidrs r) in
           if length protected \<noteq> length (rg_protected_cidrs r) then Inl (InvalidArgument, ascii ''protected_cidrs must be CIDRs'')
           else upsert_gateway up now i r protected (ap_db st))"
  show ?thesis
  proof (cases ?r)
    case (Inl e)
    then show ?thesis using assms by (simp add: register_gateway_def)
  next
    case (Inr db)
    then obtain i protected where "upsert_gateway up now i r protected (ap_db st) = Inr db"
      by (auto simp: res_simps Let_def split: if_splits)
    then have "db_typed db" by (rule typed_gateway) (rule assms)
    then show ?thesis
      unfolding register_gateway_def Inr using snapshots_db[of C up_snap now _ "st\<lparr>ap_db := db\<rparr>"]
      by (cases tenants) (simp_all add: split_beta)
  qed
qed

lemma decisions_cols: "record_decisions L ups records db = Inr db' \<Longrightarrow> key_cols db' = key_cols db"
  by (auto simp: record_decisions_def res_simps split: if_splits)

lemma events_cols:
  "key_cols (ap_db (snd (events_open P L up' req tx st))) = key_cols (ap_db st)"
  "key_cols (ap_db (fst (events_message L ups up waiting t i msg st))) = key_cols (ap_db st)"
proof -
  show "key_cols (ap_db (snd (events_open P L up' req tx st))) = key_cols (ap_db st)"
    by (simp add: events_open_def split: sum.splits prod.splits)
  show "key_cols (ap_db (fst (events_message L ups up waiting t i msg st))) = key_cols (ap_db st)"
    by (cases msg) (simp_all add: decisions_cols split: prod.splits sum.splits)
qed

section \<open>The control plane as a transition system\<close>

text \<open>One handler with whatever values its caller, the network, the clock and the failing statements supply.
  The handlers that wait are two steps each.\<close>

inductive control_step ::
  "prims \<Rightarrow> ('m, 'k, 's, 'r, 'q) enroll_libs \<Rightarrow> ('k1, 's1) p256_lib \<Rightarrow> hex_lib \<Rightarrow> ('z, 'n, 'c) control_libs \<Rightarrow> broker_libs \<Rightarrow>
   auth_libs \<Rightarrow> 'rd redis_lib \<Rightarrow> ('t, 'x) x509_lib \<Rightarrow> 't ca_keys \<Rightarrow> ('n, 'c) app_state \<Rightarrow> ('n, 'c) app_state \<Rightarrow> bool"
  for P EL E H C B L R X keys where
  enrolls: "enroll P EL up now i (iss :: uuid \<Rightarrow> uuid \<Rightarrow> csr \<Rightarrow> bytes list \<Rightarrow> credential option) req ip (ap_db st) = (r, db') \<Longrightarrow>
    control_step P EL E H C B L R X keys st (st\<lparr>ap_db := db'\<rparr>)"
| authenticates: "auth_proof P L R up dbs now coins p inb sent st rd = (r, st', rd') \<Longrightarrow> control_step P EL E H C B L R X keys st st'"
| attests: "handle_evidence P E H C e device tenant ev st = (r, st', msgs) \<Longrightarrow> control_step P EL E H C B L R X keys st st'"
| beats: "handle_heartbeat C up stat_up e tenant device posture sessions st = (r, st', msgs) \<Longrightarrow> control_step P EL E H C B L R X keys st st'"
| opens: "open_session C B up open_tx t draw rx info req st = (r, st', msgs) \<Longrightarrow> control_step P EL E H C B L R X keys st st'"
| opened: "open_finish up t p reply st = (r, st') \<Longrightarrow> control_step P EL E H C B L R X keys st st'"
| reports: "report_session up t info sid event reason st = (r, st') \<Longrightarrow> control_step P EL E H C B L R X keys st st'"
| dials: "request_peer_session C B up room t draw rx info preq st = (r, st', pms) \<Longrightarrow> control_step P EL E H C B L R X keys st st'"
| dialled: "peer_finish B up t pp preply st = (r, st') \<Longrightarrow> control_step P EL E H C B L R X keys st st'"
| answers: "answer_peer_session up waiting info pa st = (r, st', rx) \<Longrightarrow> control_step P EL E H C B L R X keys st st'"
| suspends: "suspend_device C L R e device reason st rd = (r, st', rest) \<Longrightarrow> control_step P EL E H C B L R X keys st st'"
| revokes: "revoke_device P L R (ca_of P L cup rnd dbnow now keys req why) e device reason st rd = (r, st', rest) \<Longrightarrow>
    control_step P EL E H C B L R X keys st st'"
| sweeps: "liveness_tick up room t stale offline st = (st', msgs) \<Longrightarrow> control_step P EL E H C B L R X keys st st'"
| registers: "register_gateway P L B C up up_snap now tenants req reg st = (r, st') \<Longrightarrow> control_step P EL E H C B L R X keys st st'"
| connects: "events_open P L up req tx st = (r, st') \<Longrightarrow> control_step P EL E H C B L R X keys st st'"
| receives: "events_message L ups up waiting t i msg st = (st', dlv) \<Longrightarrow> control_step P EL E H C B L R X keys st st'"
| leaves: "control_step P EL E H C B L R X keys st (events_close i st)"
| refreshes: "refresh_tenant C up room now tenant st = (r, st', msgs) \<Longrightarrow> control_step P EL E H C B L R X keys st st'"
| marks_changed: "note_changed inst pending st = (pending', st') \<Longrightarrow> control_step P EL E H C B L R X keys st st'"
| issues: "issue_device_credential P L X up now draw rnd keys life req dr (ap_db st) = Inr (x, db') \<Longrightarrow>
    control_step P EL E H C B L R X keys st (st\<lparr>ap_db := db'\<rparr>)"
| issues_service: "issue_service_credential P L X up now draw rnd keys req sr (ap_db st) = Inr (x, db') \<Longrightarrow>
    control_step P EL E H C B L R X keys st (st\<lparr>ap_db := db'\<rparr>)"
| revokes_cert: "ca_revoke P L up rnd dbnow now keys req serial reason (ap_db st) = (r, db') \<Longrightarrow>
    control_step P EL E H C B L R X keys st (st\<lparr>ap_db := db'\<rparr>)"
| lists: "ca_current_crl P L up rnd dbnow now keys req (ap_db st) = Inr (x, db') \<Longrightarrow>
    control_step P EL E H C B L R X keys st (st\<lparr>ap_db := db'\<rparr>)"

inductive control_run ::
  "prims \<Rightarrow> ('m, 'k, 's, 'r, 'q) enroll_libs \<Rightarrow> ('k1, 's1) p256_lib \<Rightarrow> hex_lib \<Rightarrow> ('z, 'n, 'c) control_libs \<Rightarrow> broker_libs \<Rightarrow>
   auth_libs \<Rightarrow> 'rd redis_lib \<Rightarrow> ('t, 'x) x509_lib \<Rightarrow> 't ca_keys \<Rightarrow> ('n, 'c) app_state \<Rightarrow> ('n, 'c) app_state \<Rightarrow> bool"
  for P EL E H C B L R X keys and st0 where
  none: "control_run P EL E H C B L R X keys st0 st0"
| more: "control_run P EL E H C B L R X keys st0 st \<Longrightarrow> control_step P EL E H C B L R X keys st st' \<Longrightarrow>
    control_run P EL E H C B L R X keys st0 st'"

lemma refresh_db: "ap_db (fst (snd (refresh_tenant C up room now tenant st))) = ap_db st"
  by (simp add: refresh_tenant_def Let_def split: sum.splits)

lemma issue_device_typed:
  assumes "issue_device_credential P L X up now draw rnd keys life req dr db = Inr (x, db')" and "db_typed db"
  shows "db_typed db'"
proof -
  from assms(1) obtain i tenant device kind kid where "store_issued up i tenant device kind kid db = Inr db'"
    unfolding issue_device_credential_def by (auto simp: res_simps split: if_splits simp del: ascii_simps)
  then show ?thesis by (rule typed_cert) (rule assms(2))
qed

lemma issue_service_typed:
  assumes "issue_service_credential P L X up now draw rnd keys req sr db = Inr (x, db')" and "db_typed db"
  shows "db_typed db'"
proof -
  from assms(1) obtain i tenant device kind kid where "store_issued up i tenant device kind kid db = Inr db'"
    unfolding issue_service_credential_def Let_def by (auto simp: res_simps split: if_splits simp del: ascii_simps)
  then show ?thesis by (rule typed_cert) (rule assms(2))
qed

lemma lists_typed:
  assumes "ca_current_crl P L up rnd dbnow now keys req db = Inr (x, db')" and "db_typed db"
  shows "db_typed db'"
proof -
  have "current_crl P up rnd dbnow now keys db = Inr (x, db')" using assms(1) by (auto simp: ca_current_crl_def res_simps)
  then show ?thesis by (rule current_typed) (rule assms(2))
qed

lemma step_typed:
  assumes "control_step P EL E H C B L R X keys st st'" and "db_typed (ap_db st)"
  shows "db_typed (ap_db st')"
  using assms
proof (induction rule: control_step.induct)
  case (enrolls up now i iss req ip st r db')
  then show ?case using enroll_typed by simp
next
  case (authenticates up dbs now coins p inb sent st rd r st' rd')
  from typed_cong[OF auth_cols[OF this(1)]] this(2) show ?case by simp
next
  case (attests e device tenant ev st r st' msgs)
  then show ?case using typed_cong[OF evidence_cols[of P E H C e device tenant ev st]] by simp
next
  case (beats up stat_up e tenant device posture sessions st r st' msgs)
  then show ?case using typed_cong[OF heartbeat_cols[of C up stat_up e tenant device posture sessions st]] by simp
next
  case (opens up open_tx t draw rx info req st r st' msgs)
  then show ?case using open_typed[of st C B up open_tx t draw rx info req] by simp
next
  case (opened up t p reply st r st')
  then show ?case using typed_cong[OF finish_cols[of up t p reply st]] by simp
next
  case (reports up t info sid event reason st r st')
  then show ?case using typed_cong[OF report_cols[of up t info sid event reason st]] by simp
next
  case (dials up room t draw rx info preq st r st' pms)
  then show ?case using peer_typed[of st C B up room t draw rx info preq] by simp
next
  case (dialled up t pp preply st r st')
  then show ?case using typed_cong[OF peer_finish_cols[of B up t pp preply st]] by simp
next
  case (answers up waiting info pa st r st' rx)
  then show ?case using typed_cong[OF answer_cols[of up waiting info pa st]] by simp
next
  case (suspends e device reason st rd r st' rest)
  then show ?case using typed_cong[OF suspend_cols[of C L R e device reason st rd]] by simp
next
  case (revokes cup rnd dbnow now req why e device reason st rd r st' rest)
  then show ?case using revoke_device_typed[of st P L R L cup rnd dbnow now keys req why e device reason rd] by simp
next
  case (sweeps up room t stale offline st st' msgs)
  then show ?case using typed_cong[OF liveness_cols[of up room t stale offline st]] by simp
next
  case (registers up up_snap now tenants req reg st r st')
  then show ?case using register_typed[of st P L B C up up_snap now tenants req reg] by simp
next
  case (connects up req tx st r st')
  then show ?case using typed_cong[OF events_cols(1)[of P L up req tx st]] by simp
next
  case (receives ups up waiting t i msg st st' dlv)
  then show ?case using typed_cong[OF events_cols(2)[of L ups up waiting t i msg st]] by simp
next
  case (leaves st i)
  then show ?case by (simp add: events_close_def)
next
  case (refreshes up room now tenant st r st' msgs)
  then show ?case using refresh_db[of C up room now tenant st] by simp
next
  case (marks_changed inst pending st pending' st')
  then have "key_cols (ap_db st') = key_cols (ap_db st)" by (auto simp: note_changed_def)
  from typed_cong[OF this] marks_changed show ?case by blast
next
  case (issues up now draw rnd life req dr st x db')
  then show ?case using issue_device_typed by simp
next
  case (issues_service up now draw rnd req sr st x db')
  then show ?case using issue_service_typed by simp
next
  case (revokes_cert up rnd dbnow now req serial reason st r db')
  then show ?case using ca_revoke_typed by simp
next
  case (lists up rnd dbnow now req st x db')
  then show ?case using lists_typed by simp
qed


lemma sample_typed: "db_typed sample_broker_db"
proof -
  have s: "cr_serial ((sample_cert_row b)\<lparr>cr_certificate := c\<rparr>) = cr_serial (sample_cert_row b)" for b c by simp
  have k: "db_crls sample_broker_db = []" "dv_overlay_v4 sample_row = None" "dv_overlay_v6 sample_row = None"
    by (simp_all add: sample_broker_db_def sample_control_db_def sample_row_def)
  show ?thesis
    unfolding db_typed_def overlay_unique_def sample_rows k
    by (simp add: sample_rows k map_filter_simps sample_cert_row_def numeral_nat del: ascii_simps)
qed


end
