(* ===== verification/Agent_Core.thy ===== *)
theory Agent_Core
  imports Control_Sessions Gateway_Control Gateway_Dataplane "HOL-Library.Sublist"
begin

text \<open>
  The agent on a device (\<open>avon-agent-core\<close>): the router (\<open>router.rs\<close>), the resolution of the gateway's endpoint
  (\<open>resolve.rs\<close>), the session manager with its hub session and rekeys (\<open>session_manager.rs\<close>), the direct sessions
  with other devices (\<open>peer.rs\<close>) and what the run loop does with messages on the pulse stream (\<open>agent.rs\<close>).
  A method that waits for the control plane is split where it waits.  Session objects live in the store of the table,
  and every other reference to one is a reference into it; a method that creates a session takes the fresh
  reference as an argument.  Datagrams to send are returned.
\<close>

section \<open>State\<close>

datatype resolve_error = RsEmpty | RsUnresolvable | RsNoAddressInFamily

text \<open>\<open>AgentError\<close>, as far as these modules return it.  \<open>AeSessionId\<close>, \<open>AeCert\<close> and \<open>AeChain\<close> are the variants
  \<open>Protocol\<close> whose text is made from such an error.\<close>

datatype agent_error =
    AeTunnel tunnel_error
  | AeProtocol string
  | AeSessionId nat
  | AeCert cert_error
  | AeChain cert_error
  | AeEndpoint resolve_error
  | AeControl status

datatype peer_state = Probing | Direct | Failed

record 'n peer_entry =
  pe_session :: sref
  pe_peer_device :: uuid
  pe_overlay_v4 :: 'n
  pe_state :: peer_state

text \<open>The session manager together with its peer manager, which shares its table and router.  \<open>ag_need_open\<close> is the
  run loop's \<open>hub_need_open\<close>.\<close>

record ('n, 't) agent =
  ag_table :: table
  ag_routes :: 't
  ag_hub :: "sref option"
  ag_pending_rekey :: "(kem_keypair \<times> u32) option"
  ag_peers :: "(uuid \<times> 'n peer_entry) list"
  ag_need_open :: bool

text \<open>What the agent uses of its identity: its certificate, the pinned chain, and its key provider.\<close>

record agent_identity =
  id_certificate :: certificate
  id_issuing :: certificate
  id_verifier :: "certificate list"
  id_decapsulate :: "kem_ciphertext \<Rightarrow> tunnel_error + bytes"
  id_sign :: "domain \<Rightarrow> bytes \<Rightarrow> tunnel_error + hybrid_signature"

text \<open>The system resolver, and the parsers of the network crates for one address family and for socket addresses.\<close>

record 'n agent_libs =
  gl_net :: "'n net_lib"
  gl_v4_parse :: "bytes \<Rightarrow> 'n option"
  gl_v6_parse :: "bytes \<Rightarrow> 'n option"
  gl_lookup_host :: "bytes \<Rightarrow> socket_addr list option"
  gl_sock_parse :: "bytes \<Rightarrow> socket_addr option"
  gl_sock_show :: "socket_addr \<Rightarrow> bytes"
  gl_frame :: "tunnel_msg \<Rightarrow> bytes"

definition manager_new :: "('p, 't) lpm_lib \<Rightarrow> ('n, 't) agent" where
  "manager_new R = \<lparr>ag_table = table_new, ag_routes = lpm_new R, ag_hub = None, ag_pending_rekey = None, ag_peers = [],
     ag_need_open = True\<rparr>"

definition session_at :: "('n, 't) agent \<Rightarrow> sref \<Rightarrow> session option" where
  "session_at ag r = tb_store (ag_table ag) r"

definition id_at :: "('n, 't) agent \<Rightarrow> sref \<Rightarrow> bytes option" where
  "id_at ag r = map_option se_id (session_at ag r)"

section \<open>The router\<close>

definition set_routes :: "'n net_lib \<Rightarrow> ('p, 't) lpm_lib \<Rightarrow> 't \<Rightarrow> 'n list \<Rightarrow> bytes \<Rightarrow> 't" where
  "set_routes N R t routes session =
     foldl (\<lambda>t net. route_insert N R t net session) (route_remove_session R t session) routes"

section \<open>The endpoint of the gateway\<close>

fun is_ipv4 :: "socket_addr \<Rightarrow> bool" where
  "is_ipv4 (SockV4 _ _) = True"
| "is_ipv4 (SockV6 _ _ _ _) = False"

definition resolve_endpoint :: "'n agent_libs \<Rightarrow> socket_addr \<Rightarrow> bytes \<Rightarrow> resolve_error + socket_addr" where
  "resolve_endpoint G local endpoint =
     (if trim endpoint = [] then Inl RsEmpty
      else case gl_lookup_host G endpoint of
        None \<Rightarrow> Inl RsUnresolvable
      | Some found \<Rightarrow>
          if found = [] then Inl RsUnresolvable
          else (case filter (\<lambda>a. is_ipv4 a = is_ipv4 local) found of
                  [] \<Rightarrow> Inl RsNoAddressInFamily
                | chosen # _ \<Rightarrow> Inr chosen))"

section \<open>Direct sessions with other devices\<close>

definition has_direct_peer :: "uuid \<Rightarrow> ('n, 't) agent \<Rightarrow> bool" where
  "has_direct_peer device ag =
     (case map_of (ag_peers ag) device of Some e \<Rightarrow> pe_state e = Direct | None \<Rightarrow> False)"

definition lookup_for_dst :: "'n net_lib \<Rightarrow> ip_addr \<Rightarrow> ('n, 't) agent \<Rightarrow> bytes option" where
  "lookup_for_dst N dst ag =
     (case find (\<lambda>e. pe_state (snd e) = Direct \<and> ipnet_contains N (pe_overlay_v4 (snd e)) dst) (ag_peers ag) of
        Some e \<Rightarrow> id_at ag (pe_session (snd e))
      | None \<Rightarrow> None)"

definition gather_candidates :: "'n agent_libs \<Rightarrow> candidate list option \<Rightarrow> socket_addr \<Rightarrow> bytes option \<Rightarrow> candidate list" where
  "gather_candidates G blackholed local whoami =
     (case blackholed of
        Some cands \<Rightarrow> cands
      | None \<Rightarrow>
          \<lparr>ca_address = gl_sock_show G local, ca_priority = 100, ca_kind = ascii ''host''\<rparr> #
          (case whoami of
             Some reflexive \<Rightarrow>
               if reflexive \<noteq> [] \<and> reflexive \<noteq> gl_sock_show G local
               then [\<lparr>ca_address = reflexive, ca_priority = 50, ca_kind = ascii ''srflx''\<rparr>] else []
           | None \<Rightarrow> []))"

definition peer_add_route :: "'n net_lib \<Rightarrow> ('p, 't) lpm_lib \<Rightarrow> 'n \<Rightarrow> sref \<Rightarrow> ('n, 't) agent \<Rightarrow> ('n, 't) agent" where
  "peer_add_route N R overlay r ag =
     (case id_at ag r of
        Some sid \<Rightarrow> ag\<lparr>ag_routes := route_insert N R (ag_routes ag) overlay sid\<rparr>
      | None \<Rightarrow> ag)"

definition succeed_peer ::
  "'n net_lib \<Rightarrow> ('p, 't) lpm_lib \<Rightarrow> uuid \<Rightarrow> 'n \<Rightarrow> sref \<Rightarrow> ('n, 't) agent \<Rightarrow> ('n, 't) agent" where
  "succeed_peer N R device overlay r ag =
     (case map_of (ag_peers ag) device of
        Some e \<Rightarrow>
          if pe_state e = Probing
          then peer_add_route N R overlay r (ag\<lparr>ag_peers := AList.update device (e\<lparr>pe_state := Direct\<rparr>) (ag_peers ag)\<rparr>)
          else ag
      | None \<Rightarrow> ag)"

definition fail_peer :: "('p, 't) lpm_lib \<Rightarrow> uuid \<Rightarrow> sref \<Rightarrow> ('n, 't) agent \<Rightarrow> ('n, 't) agent" where
  "fail_peer R device r ag =
     (case map_of (ag_peers ag) device of
        Some _ \<Rightarrow>
          (case id_at ag r of
             Some sid \<Rightarrow> ag\<lparr>ag_peers := AList.delete device (ag_peers ag), ag_table := snd (table_remove (ag_table ag) sid),
               ag_routes := route_remove_session R (ag_routes ag) sid\<rparr>
           | None \<Rightarrow> ag\<lparr>ag_peers := AList.delete device (ag_peers ag)\<rparr>)
      | None \<Rightarrow> ag)"

definition on_endpoint_changed :: "'n net_lib \<Rightarrow> ('p, 't) lpm_lib \<Rightarrow> sref \<Rightarrow> ('n, 't) agent \<Rightarrow> ('n, 't) agent" where
  "on_endpoint_changed N R r ag =
     (case find (\<lambda>e. id_at ag (pe_session (snd e)) = id_at ag r) (ag_peers ag) of
        Some (device, e) \<Rightarrow>
          if pe_state e = Probing
          then peer_add_route N R (pe_overlay_v4 e) r
            (ag\<lparr>ag_peers := AList.update device (e\<lparr>pe_state := Direct\<rparr>) (ag_peers ag)\<rparr>)
          else ag
      | None \<Rightarrow> ag)"

definition peer_remove_session :: "('p, 't) lpm_lib \<Rightarrow> bytes \<Rightarrow> ('n, 't) agent \<Rightarrow> ('n, 't) agent" where
  "peer_remove_session R sid ag =
     (case find (\<lambda>e. id_at ag (pe_session (snd e)) = Some sid) (ag_peers ag) of
        Some (device, _) \<Rightarrow>
          ag\<lparr>ag_peers := AList.delete device (ag_peers ag), ag_routes := route_remove_session R (ag_routes ag) sid\<rparr>
      | None \<Rightarrow> ag)"

text \<open>The suites an agent offers, in order of preference.\<close>

definition offer_suites :: "suite list" where
  "offer_suites = [Aes256Gcm, ChaCha20Poly1305]"

definition chain_ok :: "prims \<Rightarrow> agent_identity \<Rightarrow> int \<Rightarrow> certificate \<Rightarrow> agent_error + unit" where
  "chain_ok P ident now c =
     map_err AeChain (bind_res (chain_verify P (id_verifier ident) c [id_issuing ident] now) (\<lambda>_. Inr ()))"

definition session_id_of :: "bytes \<Rightarrow> agent_error + bytes" where
  "session_id_of b = (if length b = 16 then Inr b else Inl (AeSessionId (length b)))"

text \<open>The response to \<open>request_peer_session\<close> as it is decoded: its messages may be missing.\<close>

record peer_reply =
  yr_session_id :: bytes
  yr_answer :: "session_answer option"
  yr_candidates :: "candidate list"
  yr_responder_certificate :: "bytes option"
  yr_overlay_ipv4 :: bytes

text \<open>\<open>dial_peer\<close> up to the request; no request is made for a device that has an entry.\<close>

definition dial_request ::
  "prims \<Rightarrow> 'n agent_libs \<Rightarrow> candidate list option \<Rightarrow> socket_addr \<Rightarrow> bytes option \<Rightarrow> bytes \<Rightarrow> bytes \<Rightarrow> (crypto_error + bytes) list \<Rightarrow>
   uuid \<Rightarrow> ('n, 't) agent \<Rightarrow> (agent_error + (pending_offer \<times> peer_request) option) option" where
  "dial_request P G blackholed local whoami rnd_x rnd_m draws target ag =
     (if map_of (ag_peers ag) target \<noteq> None then Some (Inr None)
      else
        let pending = initiator_offer P rnd_x rnd_m offer_suites
        in map_option (\<lambda>r. bind_res (map_err AeTunnel r) (\<lambda>idx.
             Inr (Some (pending,
               \<lparr>pq_target = Some target, pq_eph_kem_pk = po_eph_pk_bytes pending,
                pq_suites = map (\<lambda>s. uint (suite_id s)) offer_suites,
                pq_candidates = gather_candidates G blackholed local whoami, pq_initiator_index = idx\<rparr>))))
             (allocate_index (ag_table ag) draws))"

text \<open>The rest of \<open>dial_peer\<close>; the probe loop of the new session starts when it succeeds.\<close>

definition dial_session ::
  "prims \<Rightarrow> 'n agent_libs \<Rightarrow> clock \<Rightarrow> int \<Rightarrow> agent_identity \<Rightarrow> pending_offer \<Rightarrow> u32 \<Rightarrow> peer_reply \<Rightarrow> agent_error + session \<times> 'n" where
  "dial_session P G ck now ident pending idx resp =
     bind_res (session_id_of (yr_session_id resp)) (\<lambda>sid.
     bind_res (ok_or (AeProtocol ''no answer'') (yr_answer resp)) (\<lambda>ans.
     bind_res (ok_or (AeProtocol ''no responder cert'') (yr_responder_certificate resp)) (\<lambda>cb.
     bind_res (map_err AeCert (cert_decode P cb)) (\<lambda>cert.
     bind_res (chain_ok P ident now cert) (\<lambda>_.
     bind_res (map_err AeTunnel (complete_with P pending ans sid (cert_id P (id_certificate ident)) (id_decapsulate ident) cert)) (\<lambda>est.
     if yr_overlay_ipv4 resp = [] then Inl (AeProtocol ''no overlay in response'')
     else
       bind_res (ok_or (AeProtocol ''overlay v4'') (gl_v4_parse G (yr_overlay_ipv4 resp))) (\<lambda>overlay.
         Inr (session_new ck sid Initiator (eb_suite est) (cert_id P cert) (eb_keys est) idx (an_responder_index ans) None, overlay))))))))"

definition dial_finish ::
  "prims \<Rightarrow> 'n agent_libs \<Rightarrow> clock \<Rightarrow> int \<Rightarrow> agent_identity \<Rightarrow> sref \<Rightarrow> pending_offer \<Rightarrow> u32 \<Rightarrow> uuid \<Rightarrow> peer_reply \<Rightarrow> ('n, 't) agent \<Rightarrow>
   (agent_error + unit) \<times> ('n, 't) agent" where
  "dial_finish P G ck now ident r pending idx target resp ag =
     (case dial_session P G ck now ident pending idx resp of
        Inl e \<Rightarrow> (Inl e, ag)
      | Inr (s, overlay) \<Rightarrow>
          (Inr (), ag\<lparr>ag_table := table_insert (ag_table ag) r s,
             ag_peers := AList.update target
               \<lparr>pe_session = r, pe_peer_device = target, pe_overlay_v4 = overlay, pe_state = Probing\<rparr> (ag_peers ag)\<rparr>))"

text \<open>\<open>handle_offer\<close>: the checks, the session, and the answer it sends.  \<open>cert\<close> is the initiator's certificate, if
  the offer carries one.  \<open>Inr None\<close>: there is an entry for the initiator already.\<close>

definition offer_check ::
  "prims \<Rightarrow> int \<Rightarrow> agent_identity \<Rightarrow> peer_offer \<Rightarrow> bytes option \<Rightarrow> agent_error + bytes \<times> certificate \<times> suite" where
  "offer_check P now ident offer cert =
     bind_res (session_id_of (pf_session_id offer)) (\<lambda>sid.
     bind_res (ok_or (AeProtocol ''no initiator cert'') cert) (\<lambda>cb.
     bind_res (map_err AeCert (cert_decode P cb)) (\<lambda>ic.
     bind_res (chain_ok P ident now ic) (\<lambda>_.
     bind_res (if pf_suite offer = 0 then Inl (AeProtocol ''unknown suite'') else ok_or (AeProtocol ''bad suite'') (pb_suite (pf_suite offer))) (\<lambda>su.
       Inr (sid, ic, su))))))"

definition offer_session ::
  "prims \<Rightarrow> 'n agent_libs \<Rightarrow> clock \<Rightarrow> agent_identity \<Rightarrow> answer_coins \<Rightarrow> u32 \<Rightarrow> peer_offer \<Rightarrow> bytes \<Rightarrow> certificate \<Rightarrow> suite \<Rightarrow>
   agent_error + session_answer \<times> session \<times> 'n" where
  "offer_session P G ck ident coins idx offer sid ic su =
     bind_res (map_err AeTunnel (answer_with P coins sid ic (pf_eph_kem_pk offer) su (cert_id P (id_certificate ident)) (id_sign ident) idx None))
       (\<lambda>(ans, est).
     if pf_overlay_ipv4 offer = [] then Inl (AeProtocol ''offer missing overlay'')
     else
       bind_res (ok_or (AeProtocol ''overlay v4'') (gl_v4_parse G (pf_overlay_ipv4 offer))) (\<lambda>overlay.
       if pf_initiator_index offer = 0 then Inl (AeProtocol ''initiator_index missing'')
       else Inr (ans,
         session_new ck sid Responder (eb_suite est) (cert_id P ic) (eb_keys est) idx (pf_initiator_index offer) None, overlay)))"

definition handle_offer ::
  "prims \<Rightarrow> 'n agent_libs \<Rightarrow> clock \<Rightarrow> int \<Rightarrow> agent_identity \<Rightarrow> answer_coins \<Rightarrow> (crypto_error + bytes) list \<Rightarrow> sref \<Rightarrow>
   peer_offer \<Rightarrow> bytes option \<Rightarrow> ('n, 't) agent \<Rightarrow> ((agent_error + (session_answer \<times> 'n) option) \<times> ('n, 't) agent) option" where
  "handle_offer P G ck now ident coins draws r offer cert ag =
     (case offer_check P now ident offer cert of
        Inl e \<Rightarrow> Some (Inl e, ag)
      | Inr (sid, ic, su) \<Rightarrow>
          let device = tb_subject_id (ce_tbs ic) in
          if map_of (ag_peers ag) device \<noteq> None then Some (Inr None, ag)
          else map_option (\<lambda>i.
            case bind_res (map_err AeTunnel i) (\<lambda>idx. offer_session P G ck ident coins idx offer sid ic su) of
              Inl e \<Rightarrow> (Inl e, ag)
            | Inr (ans, s, overlay) \<Rightarrow>
                (Inr (Some (ans, overlay)),
                 ag\<lparr>ag_table := table_insert (ag_table ag) r s,
                    ag_peers := AList.update device
                      \<lparr>pe_session = r, pe_peer_device = device, pe_overlay_v4 = overlay, pe_state = Probing\<rparr> (ag_peers ag)\<rparr>))
            (allocate_index (ag_table ag) draws))"

text \<open>What follows once the control plane has taken the answer.\<close>

definition offer_answered :: "'n net_lib \<Rightarrow> ('p, 't) lpm_lib \<Rightarrow> 'n \<Rightarrow> sref \<Rightarrow> ('n, 't) agent \<Rightarrow> ('n, 't) agent" where
  "offer_answered N R overlay r ag = peer_add_route N R overlay r ag"

text \<open>The probe loop of one session: the candidates it can send to, one tick of its interval, and its end after three
  seconds.  A tick gives the keepalives it sends.\<close>

definition probe_blackholed :: "candidate list \<Rightarrow> bool" where
  "probe_blackholed cands = (\<exists>c\<in>set cands. sublist (ascii ''192.0.2.1'') (ca_address c))"

definition probe_addrs :: "'n agent_libs \<Rightarrow> candidate list \<Rightarrow> socket_addr list" where
  "probe_addrs G cands = List.map_filter (\<lambda>c. gl_sock_parse G (ca_address c)) cands"

definition endpoint_known :: "sref \<Rightarrow> ('n, 't) agent \<Rightarrow> bool" where
  "endpoint_known r ag = (case session_at ag r of Some s \<Rightarrow> se_peer_endpoint s \<noteq> None | None \<Rightarrow> False)"

fun probe_send :: "prims \<Rightarrow> clock \<Rightarrow> sref \<Rightarrow> socket_addr list \<Rightarrow> ('n, 't) agent \<Rightarrow> ('n, 't) agent \<times> (socket_addr \<times> bytes) list" where
  "probe_send P ck r [] ag = (ag, [])"
| "probe_send P ck r (a # as) ag =
    (case session_at ag r of
       None \<Rightarrow> (ag, [])
     | Some s \<Rightarrow>
         (case send_inner_to P ck s a Keepalive of
            (res, s') \<Rightarrow>
              (case probe_send P ck r as (ag\<lparr>ag_table := put_session (ag_table ag) r s'\<rparr>) of
                 (ag', out) \<Rightarrow> (ag', (case res of Inr d \<Rightarrow> d # out | Inl _ \<Rightarrow> out)))))"

definition probe_tick ::
  "prims \<Rightarrow> 'n agent_libs \<Rightarrow> ('p, 't) lpm_lib \<Rightarrow> clock \<Rightarrow> candidate list \<Rightarrow> uuid \<Rightarrow> 'n \<Rightarrow> sref \<Rightarrow> bool \<Rightarrow> ('n, 't) agent \<Rightarrow>
   bool \<times> ('n, 't) agent \<times> (socket_addr \<times> bytes) list" where
  "probe_tick P G R ck cands device overlay r succeeded ag =
     (let now_up = endpoint_known r ag \<and> \<not> succeeded \<and> \<not> probe_blackholed cands;
          ag1 = (if now_up then succeed_peer (gl_net G) R device overlay r ag else ag)
      in (succeeded \<or> now_up, probe_send P ck r (probe_addrs G cands) ag1))"

definition probe_end ::
  "'n agent_libs \<Rightarrow> ('p, 't) lpm_lib \<Rightarrow> candidate list \<Rightarrow> uuid \<Rightarrow> 'n \<Rightarrow> sref \<Rightarrow> bool \<Rightarrow> ('n, 't) agent \<Rightarrow> ('n, 't) agent" where
  "probe_end G R cands device overlay r succeeded ag =
     (if probe_addrs G cands = []
      then (if endpoint_known r ag then succeed_peer (gl_net G) R device overlay r ag else fail_peer R device r ag)
      else if probe_blackholed cands then fail_peer R device r ag
      else if succeeded then ag
      else if endpoint_known r ag then succeed_peer (gl_net G) R device overlay r ag
      else fail_peer R device r ag)"

section \<open>The hub session\<close>

text \<open>The response to \<open>open_session\<close> as it is decoded.\<close>

record hub_reply =
  hr_session_id :: bytes
  hr_answer :: "session_answer option"
  hr_gateway_certificate :: "bytes option"
  hr_overlay_ipv4 :: bytes
  hr_overlay_ipv6 :: bytes
  hr_routes :: "route_update list"

definition hub_reply_of :: "open_response \<Rightarrow> hub_reply" where
  "hub_reply_of r = \<lparr>hr_session_id = or_session_id r, hr_answer = Some (or_answer r), hr_gateway_certificate = Some (or_gateway_certificate r),
     hr_overlay_ipv4 = or_overlay_ipv4 r, hr_overlay_ipv6 = or_overlay_ipv6 r, hr_routes = or_routes r\<rparr>"

record 'n hub_info =
  hi_session_id :: bytes
  hi_overlay_v4 :: 'n
  hi_overlay_v6 :: 'n
  hi_routes :: "'n list"
  hi_gateway_endpoint :: socket_addr
  hi_session :: sref

definition hub_request ::
  "prims \<Rightarrow> bytes \<Rightarrow> bytes \<Rightarrow> (crypto_error + bytes) list \<Rightarrow> ('n, 't) agent \<Rightarrow> (agent_error + pending_offer \<times> open_request) option" where
  "hub_request P rnd_x rnd_m draws ag =
     (let pending = initiator_offer P rnd_x rnd_m offer_suites
      in map_option (\<lambda>r. bind_res (map_err AeTunnel r) (\<lambda>idx.
           Inr (pending, \<lparr>oq_eph_kem_pk = po_eph_pk_bytes pending, oq_suites = map (\<lambda>s. uint (suite_id s)) offer_suites,
             oq_wants_overlay_ip = True, oq_initiator_index = idx\<rparr>)))
           (allocate_index (ag_table ag) draws))"

definition hub_session ::
  "prims \<Rightarrow> 'n agent_libs \<Rightarrow> clock \<Rightarrow> int \<Rightarrow> agent_identity \<Rightarrow> socket_addr \<Rightarrow> pending_offer \<Rightarrow> u32 \<Rightarrow> hub_reply \<Rightarrow>
   agent_error + session \<times> socket_addr" where
  "hub_session P G ck now ident local pending idx resp =
     bind_res (session_id_of (hr_session_id resp)) (\<lambda>sid.
     bind_res (ok_or (AeProtocol ''no answer'') (hr_answer resp)) (\<lambda>ans.
     bind_res (ok_or (AeProtocol ''no gateway cert'') (hr_gateway_certificate resp)) (\<lambda>cb.
     bind_res (map_err AeCert (cert_decode P cb)) (\<lambda>cert.
     bind_res (chain_ok P ident now cert) (\<lambda>_.
     bind_res (map_err AeTunnel (complete_with P pending ans sid (cert_id P (id_certificate ident)) (id_decapsulate ident) cert)) (\<lambda>est.
     bind_res (map_err AeEndpoint (resolve_endpoint G local (an_responder_endpoint ans))) (\<lambda>ep.
       Inr (session_new ck sid Initiator (eb_suite est) (cert_id P cert) (eb_keys est) idx (an_responder_index ans) (Some ep), ep))))))))"

definition reply_routes :: "'n net_lib \<Rightarrow> hub_reply \<Rightarrow> 'n list" where
  "reply_routes N resp = concat (map (\<lambda>ru. List.map_filter (ipnet_parse N) (ru_cidrs ru)) (hr_routes resp))"

text \<open>The session is installed before the overlay addresses are parsed, so an address that does not parse fails the
  call and leaves the session in place.  The keepalive at the end lets the gateway learn the agent's endpoint.\<close>

definition hub_finish ::
  "prims \<Rightarrow> 'n agent_libs \<Rightarrow> ('p, 't) lpm_lib \<Rightarrow> clock \<Rightarrow> int \<Rightarrow> agent_identity \<Rightarrow> socket_addr \<Rightarrow> sref \<Rightarrow> pending_offer \<Rightarrow> u32 \<Rightarrow>
   hub_reply \<Rightarrow> ('n, 't) agent \<Rightarrow> (agent_error + 'n hub_info) \<times> ('n, 't) agent \<times> (socket_addr \<times> bytes) list" where
  "hub_finish P G R ck now ident local r pending idx resp ag =
     (case hub_session P G ck now ident local pending idx resp of
        Inl e \<Rightarrow> (Inl e, ag, [])
      | Inr (s, ep) \<Rightarrow>
          let routes = reply_routes (gl_net G) resp;
              ag1 = ag\<lparr>ag_table := table_insert (ag_table ag) r s, ag_hub := Some r,
                ag_routes := set_routes (gl_net G) R (ag_routes ag) routes (se_id s)\<rparr>
          in case gl_v4_parse G (hr_overlay_ipv4 resp) of
               None \<Rightarrow> (Inl (AeProtocol ''overlay v4''), ag1, [])
             | Some v4 \<Rightarrow>
                 (case gl_v6_parse G (hr_overlay_ipv6 resp) of
                    None \<Rightarrow> (Inl (AeProtocol ''overlay v6''), ag1, [])
                  | Some v6 \<Rightarrow>
                      (case send_inner P ck s Keepalive of
                         (res, s') \<Rightarrow>
                           (Inr \<lparr>hi_session_id = se_id s, hi_overlay_v4 = v4, hi_overlay_v6 = v6, hi_routes = routes,
                              hi_gateway_endpoint = ep, hi_session = r\<rparr>,
                            ag1\<lparr>ag_table := put_session (ag_table ag1) r s'\<rparr>,
                            (case res of Inr d \<Rightarrow> [d] | Inl _ \<Rightarrow> [])))))"

section \<open>Events of the endpoint\<close>

text \<open>The clean-up after a session was closed by the other end or ran idle.\<close>

definition drop_session :: "('p, 't) lpm_lib \<Rightarrow> sref \<Rightarrow> ('n, 't) agent \<Rightarrow> ('n, 't) agent" where
  "drop_session R r ag =
     (case id_at ag r of
        None \<Rightarrow> ag
      | Some sid \<Rightarrow>
          let ag1 = peer_remove_session R sid ag;
              ag2 = ag1\<lparr>ag_routes := route_remove_session R (ag_routes ag1) sid, ag_table := snd (table_remove (ag_table ag1) sid)\<rparr>
          in if (case ag_hub ag2 of Some h \<Rightarrow> id_at ag2 h = Some sid | None \<Rightarrow> False) then ag2\<lparr>ag_hub := None\<rparr> else ag2)"

definition rekey_acked :: "prims \<Rightarrow> clock \<Rightarrow> sref \<Rightarrow> bytes \<Rightarrow> u32 \<Rightarrow> ('n, 't) agent \<Rightarrow> ('n, 't) agent" where
  "rekey_acked P ck r ct new_remote ag =
     (case (ag_pending_rekey ag, session_at ag r) of
        (Some (eph, new_local), Some s) \<Rightarrow>
          let ag1 = ag\<lparr>ag_pending_rekey := None\<rparr> in
          (case complete_rekey P s eph ct of
             Inl _ \<Rightarrow> ag1
           | Inr next \<Rightarrow> ag1\<lparr>ag_table := rebind_index (put_session (ag_table ag) r (rotate ck s next new_local new_remote)) r new_local\<rparr>)
      | _ \<Rightarrow> ag)"

text \<open>\<open>RekeyDue\<close>: the random values of the offer and of the index may fail (\<open>rnd\<close>, \<open>draws\<close>), and so may the socket.
  \<open>None\<close>: the draws ran out.\<close>

definition rekey_due ::
  "prims \<Rightarrow> 'n agent_libs \<Rightarrow> clock \<Rightarrow> (bytes \<times> bytes) option \<Rightarrow> (crypto_error + bytes) list \<Rightarrow> bool \<Rightarrow> sref \<Rightarrow> ('n, 't) agent \<Rightarrow>
   (('n, 't) agent \<times> (socket_addr \<times> bytes) list) option" where
  "rekey_due P G ck rnd draws sock r ag =
     (case session_at ag r of
        None \<Rightarrow> Some (ag, [])
      | Some s \<Rightarrow>
          let give_up = (\<lambda>s. (ag\<lparr>ag_table := put_session (ag_table ag) r (set_rekey_pending s False)\<rparr>, [])) in
          (case rnd of
             None \<Rightarrow> Some (give_up s)
           | Some (rnd_x, rnd_m) \<Rightarrow>
               (case allocate_index (ag_table ag) draws of
                  None \<Rightarrow> None
                | Some (Inl _) \<Rightarrow> Some (give_up s)
                | Some (Inr new_index) \<Rightarrow>
                    (case send_frame P (gl_frame G) ck s (MRekey (se_epoch s + 1) (snd (rekey_offer P rnd_x rnd_m)) new_index) of
                       (Inl _, s') \<Rightarrow> Some (give_up s')
                     | (Inr out, s') \<Rightarrow>
                         if sock
                         then Some (ag\<lparr>ag_table := put_session (ag_table ag) r s',
                           ag_pending_rekey := Some (fst (rekey_offer P rnd_x rnd_m), new_index)\<rparr>, [out])
                         else Some (give_up s')))))"

record agent_draws =
  gd_rnd :: "(bytes \<times> bytes) option"
  gd_draws :: "(crypto_error + bytes) list"
  gd_sock :: bool

text \<open>The event handler, with the packet it delivers to the device.\<close>

fun handle_event ::
  "prims \<Rightarrow> 'n agent_libs \<Rightarrow> ('p, 't) lpm_lib \<Rightarrow> clock \<Rightarrow> agent_draws \<Rightarrow> tunnel_msg option endpoint_event \<Rightarrow> ('n, 't) agent \<Rightarrow>
   (('n, 't) agent \<times> (socket_addr \<times> bytes) list \<times> bytes list) option" where
  "handle_event P G R ck d (EvIp r packet) ag = Some (ag, [], [packet])"
| "handle_event P G R ck d (EvControl r (Some (MRekeyAck ep ct new_index))) ag = Some (rekey_acked P ck r ct new_index ag, [], [])"
| "handle_event P G R ck d (EvControl r (Some (MClose reason))) ag = Some (drop_session R r ag, [], [])"
| "handle_event P G R ck d (EvControl r other) ag = Some (ag, [], [])"
| "handle_event P G R ck d (EvRekeyDue r) ag =
    map_option (\<lambda>(ag', out). (ag', out, [])) (rekey_due P G ck (gd_rnd d) (gd_draws d) (gd_sock d) r ag)"
| "handle_event P G R ck d (EvIdle r) ag = Some (drop_session R r ag, [], [])"
| "handle_event P G R ck d (EvPeerEndpointChanged r a) ag = Some (on_endpoint_changed (gl_net G) R r ag, [], [])"

section \<open>Packets of the device\<close>

definition parse_dst :: "bytes \<Rightarrow> ip_addr option" where
  "parse_dst packet =
     (case packet of
        [] \<Rightarrow> None
      | b0 # _ \<Rightarrow>
          if drop_bit 4 b0 = 4
          then (if length packet < 20 then None else Some (V4 (from_be_bytes [packet ! 16, packet ! 17, packet ! 18, packet ! 19])))
          else if drop_bit 4 b0 = 6
          then (if length packet < 40 then None else Some (V6 (from_be_bytes (slice packet 24 40))))
          else None)"

text \<open>The session for a destination: a direct peer, else the most specific route, else the hub.\<close>

definition route_for :: "'n net_lib \<Rightarrow> ('p, 't) lpm_lib \<Rightarrow> ip_addr \<Rightarrow> ('n, 't) agent \<Rightarrow> bytes option" where
  "route_for N R dst ag =
     (case lookup_for_dst N dst ag of
        Some sid \<Rightarrow> Some sid
      | None \<Rightarrow>
          (case route_lookup R (ag_routes ag) dst of
             Some sid \<Rightarrow> Some sid
           | None \<Rightarrow> Option.bind (ag_hub ag) (id_at ag)))"

definition forward_from_tun ::
  "prims \<Rightarrow> 'n net_lib \<Rightarrow> ('p, 't) lpm_lib \<Rightarrow> clock \<Rightarrow> bytes \<Rightarrow> ('n, 't) agent \<Rightarrow>
   (agent_error + socket_addr \<times> bytes) \<times> ('n, 't) agent" where
  "forward_from_tun P N R ck packet ag =
     (case parse_dst packet of
        None \<Rightarrow> (Inl (AeProtocol ''malformed packet''), ag)
      | Some dst \<Rightarrow>
          (case route_for N R dst ag of
             None \<Rightarrow> (Inl (AeProtocol ''no route''), ag)
           | Some sid \<Rightarrow>
               (case Option.bind (by_id (ag_table ag) sid) (\<lambda>r. map_option (Pair r) (session_at ag r)) of
                  None \<Rightarrow> (Inl (AeProtocol ''no session''), ag)
                | Some (r, s) \<Rightarrow>
                    (case send_inner P ck s (Ip packet) of
                       (res, s') \<Rightarrow> (map_err AeTunnel res, ag\<lparr>ag_table := put_session (ag_table ag) r s'\<rparr>)))))"

text \<open>\<open>close_all\<close>, over the sessions \<open>table.iter()\<close> collected.\<close>

fun close_sessions ::
  "prims \<Rightarrow> 'n agent_libs \<Rightarrow> ('p, 't) lpm_lib \<Rightarrow> clock \<Rightarrow> bytes \<Rightarrow> sref list \<Rightarrow> ('n, 't) agent \<Rightarrow> ('n, 't) agent \<times> (socket_addr \<times> bytes) list" where
  "close_sessions P G R ck reason [] ag = (ag, [])"
| "close_sessions P G R ck reason (r # rs) ag =
    (case session_at ag r of
       None \<Rightarrow> close_sessions P G R ck reason rs ag
     | Some s \<Rightarrow>
         (case send_frame P (gl_frame G) ck s (MClose reason) of
            (res, s') \<Rightarrow>
              (case close_sessions P G R ck reason rs
                 (ag\<lparr>ag_table := snd (table_remove (put_session (ag_table ag) r s') (se_id s)),
                     ag_routes := route_remove_session R (ag_routes ag) (se_id s)\<rparr>) of
                 (ag', out) \<Rightarrow> (ag', (case res of Inr d \<Rightarrow> d # out | Inl _ \<Rightarrow> out)))))"

definition agent_close_all ::
  "prims \<Rightarrow> 'n agent_libs \<Rightarrow> ('p, 't) lpm_lib \<Rightarrow> clock \<Rightarrow> bytes \<Rightarrow> sref list \<Rightarrow> ('n, 't) agent \<Rightarrow> ('n, 't) agent \<times> (socket_addr \<times> bytes) list" where
  "agent_close_all P G R ck reason rs ag =
     (case close_sessions P G R ck reason rs ag of (ag', out) \<Rightarrow> (ag'\<lparr>ag_hub := None\<rparr>, out))"

section \<open>Messages of the control plane\<close>

text \<open>What the run loop does with a close message and with routes; it answers the other messages without touching
  the sessions, and hands an offer to \<open>handle_offer\<close> in a task of its own.\<close>

definition pulse_close :: "('p, 't) lpm_lib \<Rightarrow> bytes \<Rightarrow> ('n, 't) agent \<Rightarrow> ('n, 't) agent" where
  "pulse_close R sid ag =
     (if length sid \<noteq> 16 then ag
      else
        let ag1 = ag\<lparr>ag_table := snd (table_remove (ag_table ag) sid), ag_routes := route_remove_session R (ag_routes ag) sid\<rparr>
        in if (case ag_hub ag1 of Some h \<Rightarrow> id_at ag1 h = Some sid | None \<Rightarrow> False)
           then ag1\<lparr>ag_hub := None, ag_need_open := True\<rparr> else ag1)"

definition pulse_routes :: "'n net_lib \<Rightarrow> ('p, 't) lpm_lib \<Rightarrow> bytes \<Rightarrow> bytes list \<Rightarrow> bool \<Rightarrow> ('n, 't) agent \<Rightarrow> ('n, 't) agent" where
  "pulse_routes N R sid cidrs rm ag =
     (if length sid \<noteq> 16 then ag
      else ag\<lparr>ag_routes := foldl (\<lambda>t net. if rm then route_remove N R t net else route_insert N R t net sid)
        (ag_routes ag) (List.map_filter (ipnet_parse N) cidrs)\<rparr>)"

fun pulse_message :: "'n net_lib \<Rightarrow> ('p, 't) lpm_lib \<Rightarrow> pulse_down \<Rightarrow> ('n, 't) agent \<Rightarrow> ('n, 't) agent" where
  "pulse_message N R (PdClose sid reason) ag = pulse_close R sid ag"
| "pulse_message N R (PdRoutes sid cidrs rm) ag = pulse_routes N R sid cidrs rm ag"
| "pulse_message N R other ag = ag"

text \<open>One event of the endpoint in the run loop, which then asks for a new hub session if there is none.\<close>

definition loop_event ::
  "prims \<Rightarrow> 'n agent_libs \<Rightarrow> ('p, 't) lpm_lib \<Rightarrow> clock \<Rightarrow> agent_draws \<Rightarrow> tunnel_msg option endpoint_event \<Rightarrow> ('n, 't) agent \<Rightarrow>
   (('n, 't) agent \<times> (socket_addr \<times> bytes) list \<times> bytes list) option" where
  "loop_event P G R ck d ev ag =
     map_option (\<lambda>(ag', out, up). (if ag_hub ag' = None then ag'\<lparr>ag_need_open := True\<rparr> else ag', out, up))
       (handle_event P G R ck d ev ag)"

end
