(* ===== verification/Agent_Safety.thy ===== *)
theory Agent_Safety
  imports Agent_Core
begin

text \<open>
  The agent as a transition system: every method of the session manager and the peer manager, the endpoint's receive
  and timer loops and the messages of the control plane are steps, in any order.  Every session an agent ever holds
  was established with a certificate of the pinned root.  One slot for pending rekeys serves all sessions, and what
  comes of that.
\<close>

section \<open>Steps\<close>

inductive agent_step ::
  "prims \<Rightarrow> 'n agent_libs \<Rightarrow> ('p, 't) lpm_lib \<Rightarrow> agent_identity \<Rightarrow> ('n, 't) agent \<Rightarrow> ('n, 't) agent \<Rightarrow> bool"
  for P G R ident where
  opens_hub: "tb_store (ag_table ag) r = None \<Longrightarrow> hub_finish P G R ck now ident local r pending idx resp ag = (res, ag', out) \<Longrightarrow>
    agent_step P G R ident ag ag'"
| dials_peer: "tb_store (ag_table ag) r = None \<Longrightarrow> dial_finish P G ck now ident r pending idx target yresp ag = (res, ag') \<Longrightarrow>
    agent_step P G R ident ag ag'"
| takes_offer: "tb_store (ag_table ag) r = None \<Longrightarrow> handle_offer P G ck now ident coins draws r offer cert ag = Some (res, ag') \<Longrightarrow>
    agent_step P G R ident ag ag'"
| answered: "agent_step P G R ident ag (offer_answered (gl_net G) R overlay r ag)"
| probes: "probe_tick P G R ck cands device overlay r succeeded ag = (b, ag', out) \<Longrightarrow> agent_step P G R ident ag ag'"
| probed: "agent_step P G R ident ag (probe_end G R cands device overlay r succeeded ag)"
| handles: "loop_event P G R ck d ev ag = Some (ag', out, up) \<Longrightarrow> agent_step P G R ident ag ag'"
| forwards: "forward_from_tun P (gl_net G) R ck packet ag = (res, ag') \<Longrightarrow> agent_step P G R ident ag ag'"
| told: "agent_step P G R ident ag (pulse_message (gl_net G) R msg ag)"
| shuts: "agent_close_all P G R ck reason rs ag = (ag', out) \<Longrightarrow> agent_step P G R ident ag ag'"
| gets: "recv_datagram P dfr ck (ag_table ag) from dgram = (t, evs :: tunnel_msg option endpoint_event list) \<Longrightarrow>
    agent_step P G R ident ag (ag\<lparr>ag_table := t\<rparr>)"
| ticks: "timer_tick P ck tc (ag_table ag) rs = (t, evs :: tunnel_msg option endpoint_event list, out) \<Longrightarrow>
    agent_step P G R ident ag (ag\<lparr>ag_table := t\<rparr>)"

inductive agent_run ::
  "prims \<Rightarrow> 'n agent_libs \<Rightarrow> ('p, 't) lpm_lib \<Rightarrow> agent_identity \<Rightarrow> ('n, 't) agent \<Rightarrow> bool"
  for P G R ident where
  starts: "agent_run P G R ident (manager_new R)"
| goes: "agent_run P G R ident ag \<Longrightarrow> agent_step P G R ident ag ag' \<Longrightarrow> agent_run P G R ident ag'"

section \<open>Who a session is with\<close>

definition authenticated :: "prims \<Rightarrow> agent_identity \<Rightarrow> session \<Rightarrow> bool" where
  "authenticated P ident s =
     (\<exists>c now. se_peer_cert_id s = cert_id P c \<and> is_ok (chain_verify P (id_verifier ident) c [id_issuing ident] now) \<and>
        (se_role s = Initiator \<longrightarrow>
          (\<exists>t sig. tr_session_id t = se_id s \<and> tr_initiator_cert_id t = cert_id P (id_certificate ident) \<and>
             tr_responder_cert_id t = cert_id P c \<and>
             hybrid_verify P (tb_signing_key (ce_tbs c)) Session (transcript_hash P t) sig = Inr ())))"

definition same_peer :: "session \<Rightarrow> session \<Rightarrow> bool" where
  "same_peer s' s = (se_id s' = se_id s \<and> se_role s' = se_role s \<and> se_peer_cert_id s' = se_peer_cert_id s)"

lemma same_peer_trans: "same_peer a b \<Longrightarrow> same_peer b c \<Longrightarrow> same_peer a c"
  by (simp add: same_peer_def)

lemma same_peer_auth: "same_peer s' s \<Longrightarrow> authenticated P ident s \<Longrightarrow> authenticated P ident s'"
  by (simp add: same_peer_def authenticated_def)

lemma same_peer_simps [simp]:
  "same_peer s s" "same_peer (session_close s) s" "same_peer (set_rekey_pending s b) s" "same_peer (set_peer_endpoint s a) s"
  "same_peer (rotate ck s keys i j) s" "same_peer (set_current_cipher s c) s" "same_peer (snd (expire_previous_epoch ck s ov)) s"
  by (simp_all add: same_peer_def session_close_def set_rekey_pending_def set_peer_endpoint_def rotate_def set_current_cipher_def
      expire_previous_epoch_def split: option.splits prod.splits)

lemma same_peer_flags [simp]:
  "same_peer (set_rekey_pending s b) s' = same_peer s s'" "same_peer (set_peer_endpoint s a) s' = same_peer s s'"
  by (simp_all add: same_peer_def set_rekey_pending_def set_peer_endpoint_def)

lemma select_peer: "select_cipher s idx = Some (c, put) \<Longrightarrow> same_peer (put c') s"
  by (auto simp: select_cipher_def same_peer_def set_current_cipher_def split: if_splits option.splits)

lemma open_peer: "same_peer (snd (session_open P ck s h body)) s"
proof (cases "select_cipher s (h_receiver_index h)")
  case None
  then show ?thesis by (simp add: session_open_def)
next
  case (Some x)
  then obtain c put where x: "select_cipher s (h_receiver_index h) = Some (c, put)" by (cases x) simp
  from select_peer[OF x] have "\<And>c'. same_peer (put c') s" .
  then show ?thesis
    by (auto simp: session_open_def x Let_def same_peer_def split: prod.splits sum.splits crypto_error.splits)
qed

lemma seal_peer: "same_peer (snd (session_seal P ck s i)) s"
  by (auto simp: session_seal_def Let_def same_peer_def set_current_cipher_def split: prod.splits sum.splits)

lemma send_peer: "same_peer (snd (send_inner_to P ck s a i)) s" "same_peer (snd (send_inner P ck s i)) s"
  "same_peer (snd (send_frame P enc ck s msg)) s"
proof -
  show to: "same_peer (snd (send_inner_to P ck s a i)) s" for a i
    using seal_peer[of P ck s i] by (auto simp: send_inner_to_def split: prod.splits sum.splits)
  show inner: "same_peer (snd (send_inner P ck s i)) s" for i
    using to by (simp add: send_inner_def split: option.splits)
  show "same_peer (snd (send_frame P enc ck s msg)) s" by (simp add: send_frame_def inner)
qed

text \<open>A table whose sessions all come from those of another.\<close>

definition derived :: "table \<Rightarrow> table \<Rightarrow> bool" where
  "derived t' t = (\<forall>r s'. tb_store t' r = Some s' \<longrightarrow> (\<exists>s. tb_store t r = Some s \<and> same_peer s' s))"

lemma derived_refl [simp]: "derived t t"
  by (auto simp: derived_def)

lemma derived_trans: "derived a b \<Longrightarrow> derived b c \<Longrightarrow> derived a c"
  unfolding derived_def using same_peer_trans by meson

lemma derived_put: "tb_store t r = Some s \<Longrightarrow> same_peer s' s \<Longrightarrow> derived (put_session t r s') t"
  by (auto simp: derived_def put_session_def)

lemma derived_index [simp]: "derived (rebind_index t r i) t' = derived t t'" "derived (release_index t i) t' = derived t t'"
  by (simp_all add: derived_def rebind_index_def release_index_def)

lemma derived_remove: "derived (snd (table_remove t i)) t"
  by (auto simp: derived_def table_remove_def split: option.splits)

lemma derived_recv: "derived (fst (recv_datagram P dfr ck t from dgram)) t"
proof -
  have "derived (put_session t r s') t" if "tb_store t r = Some s" "session_open P ck s h body = (res, s1)"
      "s' = s1 \<or> s' = set_peer_endpoint s1 from" for r s s' s1 h body res
    using derived_put[OF that(1)] open_peer[of P ck s h body] same_peer_trans[of "set_peer_endpoint s1 from" s1 s] that by auto
  then show ?thesis
    by (auto simp: recv_datagram_def Let_def split: sum.splits prod.splits option.splits inner.splits)
qed

lemma derived_timer: "derived (fst (timer_session P ck tc t r)) t"
proof (cases "tb_store t r")
  case None
  then show ?thesis by (simp add: timer_session_def)
next
  case (Some s)
  show ?thesis
  proof (cases "se_closed s")
    case False
    obtain e s1 where ex: "expire_previous_epoch ck s (tc_epoch_overlap tc) = (e, s1)" by fastforce
    have s1: "same_peer s1 s" using same_peer_simps(7)[of ck s "tc_epoch_overlap tc"] ex by simp
    define t2 where "t2 = (case e of Some idx \<Rightarrow> release_index (put_session t r s1) idx | None \<Rightarrow> put_session t r s1)"
    have t2: "derived t2 t" using derived_put[OF Some s1] by (simp add: t2_def split: option.splits)
    have at: "tb_store t2 r = Some s1" by (cases e) (simp_all add: t2_def put_session_def release_index_def)
    have put: "same_peer s' s1 \<Longrightarrow> derived (put_session t2 r s') t" for s'
      using derived_trans[OF derived_put[OF at] t2] .
    define due where "due = (se_role s1 = Initiator \<and> \<not> se_rekey_pending s1 \<and>
        (epoch_age ck s1 \<ge> tc_rekey_after tc \<or> packets_sent_this_epoch s1 \<ge> tc_rekey_after_packets tc))"
    define s2 where "s2 = (if due then set_rekey_pending s1 True else s1)"
    have s2: "same_peer s2 s1" by (simp add: s2_def)
    obtain res s3 where send: "send_inner P ck s2 Keepalive = (res, s3)" by fastforce
    have s3: "same_peer s3 s1" using send_peer(2)[of P ck s2 Keepalive] send same_peer_trans[OF _ s2] by auto
    have "fst (timer_session P ck tc t r) \<in> {t2, put_session t2 r s2, put_session t2 r s3}"
      using Some False ex send
      by (simp add: timer_session_def Let_def t2_def[symmetric] due_def[symmetric] s2_def[symmetric])
        (cases res; simp add: t2_def)
    then show ?thesis using t2 put[OF s2] put[OF s3] by auto
  qed (use Some in \<open>simp add: timer_session_def\<close>)
qed

lemma derived_tick: "derived (fst (timer_tick P ck tc t rs)) t"
proof (induction rs arbitrary: t)
  case (Cons r rs)
  show ?case by (simp add: Let_def split_beta) (rule derived_trans[OF Cons derived_timer])
qed simp

section \<open>The invariant\<close>

definition peers_known :: "prims \<Rightarrow> agent_identity \<Rightarrow> table \<Rightarrow> bool" where
  "peers_known P ident t = (\<forall>r s. tb_store t r = Some s \<longrightarrow> authenticated P ident s)"

lemma known_derived: "derived t' t \<Longrightarrow> peers_known P ident t \<Longrightarrow> peers_known P ident t'"
  unfolding derived_def peers_known_def using same_peer_auth by blast

lemma known_insert: "peers_known P ident t \<Longrightarrow> authenticated P ident s \<Longrightarrow> peers_known P ident (table_insert t r s)"
  by (simp add: peers_known_def table_insert_def)

lemma chain_okD: "chain_ok P ident now c = Inr () \<Longrightarrow> is_ok (chain_verify P (id_verifier ident) c [id_issuing ident] now)"
  by (auto simp: chain_ok_def res_simps)

lemma completed_auth:
  assumes "chain_ok P ident now c = Inr ()"
    and "complete_with P pending ans sid (cert_id P (id_certificate ident)) dcap c = Inr est"
  shows "authenticated P ident (session_new ck sid Initiator su (cert_id P c) keys i j ep)"
proof -
  let ?t = "\<lambda>su. \<lparr>tr_session_id = sid, tr_initiator_cert_id = cert_id P (id_certificate ident), tr_responder_cert_id = cert_id P c,
      tr_eph_kem_pk = po_eph_pk_bytes pending, tr_ct_e = an_ct_e ans, tr_ct_s = an_ct_s ans, tr_suite = su\<rparr>"
  obtain su sig where v: "hybrid_verify P (tb_signing_key (ce_tbs c)) Session (transcript_hash P (?t su)) sig = Inr ()"
    using assms(2) by (auto simp: complete_with_def res_simps Let_def split: if_splits)
  show ?thesis
    unfolding authenticated_def
    by (rule exI[of _ c], rule exI[of _ now], intro conjI impI, simp add: session_new_def, rule chain_okD[OF assms(1)],
        rule exI[of _ "?t su"], rule exI[of _ sig]) (use v in \<open>simp add: session_new_def\<close>)
qed

lemma offered_auth:
  "chain_ok P ident now c = Inr () \<Longrightarrow> authenticated P ident (session_new ck sid Responder su (cert_id P c) keys i j ep)"
  unfolding authenticated_def by (rule exI[of _ c], rule exI[of _ now]) (simp add: session_new_def chain_okD)

lemma hub_session_auth: "hub_session P G ck now ident local pending idx resp = Inr (s, ep) \<Longrightarrow> authenticated P ident s"
  by (auto simp: hub_session_def res_simps intro: completed_auth)

lemma dial_session_auth: "dial_session P G ck now ident pending idx resp = Inr (s, ov) \<Longrightarrow> authenticated P ident s"
  by (auto simp: dial_session_def res_simps intro: completed_auth split: if_splits)

lemma offer_session_auth:
  assumes "offer_check P now ident offer cert = Inr (sid, ic, su)" and "offer_session P G ck ident coins idx offer sid ic su = Inr (ans, s, ov)"
  shows "authenticated P ident s"
proof -
  have "chain_ok P ident now ic = Inr ()" using assms(1) by (auto simp: offer_check_def res_simps split: if_splits)
  then show ?thesis using assms(2) by (auto simp: offer_session_def res_simps intro: offered_auth split: if_splits)
qed

text \<open>Methods that create no session.\<close>

lemma table_add_route [simp]: "ag_table (peer_add_route N R ov r ag) = ag_table ag"
  by (simp add: peer_add_route_def split: option.splits)

lemma table_succeed [simp]: "ag_table (succeed_peer N R dev ov r ag) = ag_table ag"
  by (simp add: succeed_peer_def split: option.splits)

lemma table_changed [simp]: "ag_table (on_endpoint_changed N R r ag) = ag_table ag"
  by (simp add: on_endpoint_changed_def split: option.splits prod.splits)

lemma table_peer_remove [simp]: "ag_table (peer_remove_session R sid ag) = ag_table ag"
  by (simp add: peer_remove_session_def split: option.splits prod.splits)

lemma derived_fail: "derived (ag_table (fail_peer R dev r ag)) (ag_table ag)"
  by (simp add: fail_peer_def derived_remove split: option.splits)

lemma derived_probe_send: "derived (ag_table (fst (probe_send P ck r as ag))) (ag_table ag)"
proof (induction "as" arbitrary: ag)
  case (Cons a "as")
  show ?case
  proof (cases "session_at ag r")
    case None
    then show ?thesis by simp
  next
    case (Some s)
    obtain res s' where x: "send_inner_to P ck s a Keepalive = (res, s')" by (cases "send_inner_to P ck s a Keepalive")
    have "same_peer s' s" using send_peer(1)[of P ck s a Keepalive] x by simp
    then have d: "derived (put_session (ag_table ag) r s') (ag_table ag)"
      by (rule derived_put[rotated]) (use Some in \<open>simp add: session_at_def\<close>)
    obtain ag' out where p: "probe_send P ck r as (ag\<lparr>ag_table := put_session (ag_table ag) r s'\<rparr>) = (ag', out)"
      by (cases "probe_send P ck r as (ag\<lparr>ag_table := put_session (ag_table ag) r s'\<rparr>)")
    have "derived (ag_table ag') (put_session (ag_table ag) r s')"
      using Cons[of "ag\<lparr>ag_table := put_session (ag_table ag) r s'\<rparr>"] p by simp
    from derived_trans[OF this d] show ?thesis by (simp add: Some x p)
  qed
qed simp

lemma derived_drop: "derived (ag_table (drop_session R r ag)) (ag_table ag)"
  by (simp add: drop_session_def Let_def derived_remove split: option.splits)

lemma derived_acked: "derived (ag_table (rekey_acked P ck r ct n ag)) (ag_table ag)"
  by (auto simp: rekey_acked_def session_at_def Let_def intro!: derived_put split: option.splits prod.splits sum.splits)

lemma derived_due:
  assumes "rekey_due P G ck rnd draws sock r ag = Some (ag', out)"
  shows "derived (ag_table ag') (ag_table ag)"
proof (cases "session_at ag r")
  case None
  then show ?thesis using assms by (simp add: rekey_due_def)
next
  case (Some s)
  then have at: "tb_store (ag_table ag) r = Some s" by (simp add: session_at_def)
  note put = derived_put[OF at]
  have frame: "same_peer x s" if "send_frame P enc ck s msg = (res, x)" for res x enc msg
    using send_peer(3)[of P enc ck s msg] that by simp
  show ?thesis using assms Some
    by (auto simp: rekey_due_def Let_def dest!: frame intro!: put split: option.splits prod.splits sum.splits if_splits)
qed

lemma derived_event: "handle_event P G R ck d ev ag = Some (ag', out, up) \<Longrightarrow> derived (ag_table ag') (ag_table ag)"
  by (induction P G R ck d ev ag rule: handle_event.induct) (auto simp: derived_drop derived_acked intro: derived_due)

lemma derived_forward:
  assumes "forward_from_tun P N R ck packet ag = (res, ag')"
  shows "derived (ag_table ag') (ag_table ag)"
proof -
  have "derived (put_session (ag_table ag) r s') (ag_table ag)" if "session_at ag r = Some s" "send_inner P ck s i = (x, s')" for r s s' x i
    using derived_put[of "ag_table ag" r s s'] send_peer(2)[of P ck s i] that by (simp add: session_at_def)
  then show ?thesis using assms
    by (auto simp: forward_from_tun_def split: option.splits prod.splits bind_splits)
qed

lemma derived_close: "derived (ag_table (fst (close_sessions P G R ck reason rs ag))) (ag_table ag)"
proof (induction rs arbitrary: ag)
  case (Cons r rs)
  show ?case
  proof (cases "session_at ag r")
    case None
    then show ?thesis using Cons by simp
  next
    case (Some s)
    obtain res s' where x: "send_frame P (gl_frame G) ck s (MClose reason) = (res, s')" by (cases "send_frame P (gl_frame G) ck s (MClose reason)")
    have "same_peer s' s" using send_peer(3)[of P "gl_frame G" ck s "MClose reason"] x by simp
    then have "derived (put_session (ag_table ag) r s') (ag_table ag)"
      by (rule derived_put[rotated]) (use Some in \<open>simp add: session_at_def\<close>)
    then have d: "derived (snd (table_remove (put_session (ag_table ag) r s') (se_id s))) (ag_table ag)"
      using derived_trans[OF derived_remove] by blast
    let ?ag = "ag\<lparr>ag_table := snd (table_remove (put_session (ag_table ag) r s') (se_id s)),
                     ag_routes := route_remove_session R (ag_routes ag) (se_id s)\<rparr>"
    obtain ag' out where p: "close_sessions P G R ck reason rs ?ag = (ag', out)" by (cases "close_sessions P G R ck reason rs ?ag")
    have "derived (ag_table ag') (ag_table ?ag)" using Cons[of ?ag] p by (metis fst_conv)
    from derived_trans[OF this] d show ?thesis by (simp add: Some x p)
  qed
qed simp

lemma derived_pulse: "derived (ag_table (pulse_message N R msg ag)) (ag_table ag)"
  by (cases msg) (simp_all add: pulse_close_def pulse_routes_def Let_def derived_remove split: option.splits)

end
