(* ===== verification/Agent_Tunnel.thy ===== *)
theory Agent_Tunnel
  imports Agent_Safety Session_Broker
begin

text \<open>
  Properties of the agent: whom its sessions are with, that a packet of the device reaches the gateway through the
  control plane's brokering, and what becomes of two rekeys under way at once.
\<close>

section \<open>Every step keeps the peers known\<close>

lemma hub_known:
  assumes "peers_known P ident (ag_table ag)" and "hub_finish P G R ck now ident local r pending idx resp ag = (res, ag', out)"
  shows "peers_known P ident (ag_table ag')"
proof (cases "hub_session P G ck now ident local pending idx resp")
  case (Inl e)
  then show ?thesis using assms by (simp add: hub_finish_def)
next
  case (Inr x)
  obtain s ep where x: "x = (s, ep)" by (cases x)
  have k: "peers_known P ident (table_insert (ag_table ag) r s)"
    by (rule known_insert[OF assms(1) hub_session_auth]) (use Inr x in simp)
  obtain res' s' where snd: "send_inner P ck s Keepalive = (res', s')" by (cases "send_inner P ck s Keepalive")
  have "derived (put_session (table_insert (ag_table ag) r s) r s') (table_insert (ag_table ag) r s)"
    by (rule derived_put[of _ _ s]) (use send_peer(2)[of P ck s Keepalive] snd in \<open>simp_all add: table_insert_def\<close>)
  from known_derived[OF this k] k assms(2) show ?thesis
    unfolding hub_finish_def Inr x by (auto simp: Let_def snd split: option.splits)
qed

lemma dial_known:
  assumes "peers_known P ident (ag_table ag)" and "dial_finish P G ck now ident r pending idx target resp ag = (res, ag')"
  shows "peers_known P ident (ag_table ag')"
proof (cases "dial_session P G ck now ident pending idx resp")
  case (Inl e)
  then show ?thesis using assms by (simp add: dial_finish_def)
next
  case (Inr x)
  obtain s ov where x: "x = (s, ov)" by (cases x)
  have "authenticated P ident s" by (rule dial_session_auth) (use Inr x in simp)
  then show ?thesis using known_insert[OF assms(1)] assms(2) Inr x by (auto simp: dial_finish_def)
qed

lemma offer_known:
  assumes "peers_known P ident (ag_table ag)" and "handle_offer P G ck now ident coins draws r offer cert ag = Some (res, ag')"
  shows "peers_known P ident (ag_table ag')"
proof (cases "offer_check P now ident offer cert")
  case (Inl e)
  then show ?thesis using assms by (simp add: handle_offer_def)
next
  case (Inr x)
  obtain sid ic su where x: "x = (sid, ic, su)" by (cases x)
  have "peers_known P ident (table_insert (ag_table ag) r s)"
    if "offer_session P G ck ident coins idx offer sid ic su = Inr (ans, s, ov)" for idx ans s ov
    by (rule known_insert[OF assms(1) offer_session_auth[OF _ that]]) (use Inr x in simp)
  note known = this
  show ?thesis
  proof (cases "map_of (ag_peers ag) (tb_subject_id (ce_tbs ic))")
    case (Some e)
    then show ?thesis using assms Inr x by (simp add: handle_offer_def Let_def)
  next
    case None
    with assms(2) Inr x obtain i where i: "allocate_index (ag_table ag) draws = Some i" by (auto simp: handle_offer_def Let_def)
    show ?thesis
    proof (cases "bind_res (map_err AeTunnel i) (\<lambda>idx. offer_session P G ck ident coins idx offer sid ic su)")
      case (Inl e)
      then show ?thesis using assms \<open>offer_check P now ident offer cert = Inr x\<close> x None i by (simp add: handle_offer_def Let_def)
    next
      case (Inr y)
      obtain ans s ov where y: "y = (ans, s, ov)" by (cases y)
      then obtain idx where "offer_session P G ck ident coins idx offer sid ic su = Inr (ans, s, ov)"
        using Inr by (auto simp: res_simps)
      from known[OF this] show ?thesis
        using assms(2) Inr y \<open>offer_check P now ident offer cert = Inr x\<close> x None i by (auto simp: handle_offer_def Let_def)
    qed
  qed
qed

lemma agent_step_known: "agent_step P G R ident ag ag' \<Longrightarrow> peers_known P ident (ag_table ag) \<Longrightarrow> peers_known P ident (ag_table ag')"
proof (induction rule: agent_step.induct)
  case (opens_hub ag r ck now local pending idx resp res ag' out)
  then show ?case using hub_known by blast
next
  case (dials_peer ag r ck now pending idx target yresp res ag')
  then show ?case using dial_known by blast
next
  case (takes_offer ag r ck now coins draws offer cert res ag')
  then show ?case using offer_known by blast
next
  case (answered ag overlay r)
  then show ?case by (simp add: offer_answered_def)
next
  case (probes ck cands device overlay r succeeded ag b ag' out)
  let ?ag1 = "if endpoint_known r ag \<and> \<not> succeeded \<and> \<not> probe_blackholed cands then succeed_peer (gl_net G) R device overlay r ag else ag"
  have "ag' = fst (probe_send P ck r (probe_addrs G cands) ?ag1)" using probes(1) by (auto simp: probe_tick_def Let_def split: if_splits)
  then have "derived (ag_table ag') (ag_table ?ag1)" using derived_probe_send by metis
  then have "derived (ag_table ag') (ag_table ag)" by (simp split: if_splits)
  from known_derived[OF this probes(2)] show ?case .
next
  case (probed ag cands device overlay r succeeded)
  from known_derived[OF derived_fail[of R device r ag] this] this show ?case by (simp add: probe_end_def)
next
  case (handles ck d ev ag ag' out up)
  then obtain a b c where "handle_event P G R ck d ev ag = Some (a, b, c)" "ag_table ag' = ag_table a"
    by (auto simp: loop_event_def split: if_splits)
  with derived_event[OF this(1)] known_derived handles(2) show ?case by metis
next
  case (forwards ck packet ag res ag')
  from known_derived[OF derived_forward[OF forwards(1)] forwards(2)] show ?case .
next
  case (told ag msg)
  from known_derived[OF derived_pulse told] show ?case .
next
  case (shuts ck reason rs ag ag' out)
  have "ag_table ag' = ag_table (fst (close_sessions P G R ck reason rs ag))"
    using shuts(1) by (auto simp: agent_close_all_def split: prod.splits)
  with known_derived[OF derived_close shuts(2)] show ?case by metis
next
  case (gets dfr ck ag "from" dgram t evs)
  have "t = fst (recv_datagram P dfr ck (ag_table ag) from dgram)" using gets(1) by simp
  with known_derived[OF derived_recv gets(2)] show ?case by simp
next
  case (ticks ck tc ag rs t evs out)
  have "t = fst (timer_tick P ck tc (ag_table ag) rs :: _ \<times> tunnel_msg option endpoint_event list \<times> _)" using ticks(1) by simp
  with known_derived[OF derived_tick ticks(2)] show ?case by simp
qed

lemma run_known: "agent_run P G R ident ag \<Longrightarrow> peers_known P ident (ag_table ag)"
  by (induction rule: agent_run.induct) (auto simp: peers_known_def manager_new_def table_new_def intro: agent_step_known[unfolded peers_known_def, rule_format])

section \<open>A packet from the device to the gateway\<close>

text \<open>The routes of an agent that has one session lead to it.\<close>

lemma routes_only:
  assumes "lpm_correct R" and "\<forall>n s. lpm_entries R t n = Some s \<longrightarrow> s = sid"
  shows "\<forall>n s. lpm_entries R (foldl (\<lambda>t net. route_insert N R t net sid) t nets) n = Some s \<longrightarrow> s = sid"
  using assms(2)
proof (induction nets arbitrary: t)
  case (Cons net nets)
  have "\<forall>n s. lpm_entries R (route_insert N R t net sid) n = Some s \<longrightarrow> s = sid"
    using Cons(2) by (auto simp: route_insert_def lpm_correctD(3)[OF assms(1)] split: option.splits)
  from Cons(1)[OF this] show ?case by simp
qed simp

lemma removed_empty:
  assumes "lpm_correct R" and "lpm_entries R t = Map.empty"
  shows "lpm_entries R (route_remove_session R t sid) = Map.empty"
proof -
  have "lpm_iter R t = []" using assms(2) unfolding lpm_entries_def by (cases "lpm_iter R t") (auto simp: fun_eq_iff split: if_splits)
  then show ?thesis using assms(2) by (simp add: route_remove_session_def)
qed

lemma one_route:
  assumes "lpm_correct R" and "\<forall>n s. lpm_entries R (ag_routes ag) n = Some s \<longrightarrow> s = sid" and "ag_peers ag = []"
    and "ag_hub ag = Some r" and "id_at ag r = Some sid"
  shows "route_for N R dst ag = Some sid"
proof -
  have "route_lookup R (ag_routes ag) dst \<in> {None, Some sid}"
    using assms(2) by (cases "lpm_longest R (ag_routes ag) dst") (auto simp: route_lookup_def dest: lpm_longest_Some(1)[OF assms(1)])
  then show ?thesis using assms(3-5) by (auto simp: route_for_def lookup_for_dst_def)
qed

text \<open>What a session that only ever sealed looks like to its peer.\<close>

lemma sealed_frame:
  assumes "session_seal P ck s i = (Inr out, s')"
  shows "se_closed s' = se_closed s" "ep_remote_index (se_current s') = ep_remote_index (se_current s)"
    "sc_send (ep_cipher (se_current s')) = sc_send (ep_cipher (se_current s))" "se_peer_endpoint s' = se_peer_endpoint s"
    "sc_counter (ep_cipher (se_current s')) = sc_counter (ep_cipher (se_current s)) + 1"
  using assms
  by (auto simp: session_seal_def set_current_cipher_def seal_with_def next_counter_def res_simps Let_def
      split: if_splits prod.splits sum.splits)

lemma delivered:
  assumes "aead_correct P" and "session_seal P ck s (Ip packet) = (Inr d, s')" and "\<not> se_closed s"
    and "ep_remote_index (se_current s) = idx" and "sc_send (ep_cipher (se_current s)) = sc_send (cipher_new keys Initiator su)"
    and "tb_store t r = Some (session_new ck0 sid Responder su pc keys idx li None)" and "tb_by_index t idx = Some r"
  shows "snd (recv_datagram P dfr ck2 t from d) = [EvPeerEndpointChanged r from, EvIp r packet]"
proof -
  let ?t = "session_new ck0 sid Responder su pc keys idx li None"
  let ?c = "cipher_new keys Responder su"
  obtain h body where d: "d = header_encode h @ body" "header_ok h" and idx: "h_receiver_index h = idx"
    and sealed: "seal_in_place P (sc_send (cipher_new keys Initiator su)) (nonce_for (h_counter h)) (header_encode h) (inner_encode (Ip packet)) = Inr body"
    using session_seal_ok[OF assms(3,2)] unfolding assms(4,5) by blast
  obtain put where sel: "select_cipher ?t (h_receiver_index h) = Some (?c, put)"
    using idx by (simp add: select_cipher_def session_new_def)
  have role: "peer_role Initiator = Responder" by simp
  have "fst (session_open P ck2 ?t h body) = Inr (Ip packet)"
    by (rule session_open_seal[OF assms(1) _ sel]) (use sealed[unfolded peer_keys role] in \<open>simp_all add: session_new_def\<close>)
  then obtain s1 where o: "session_open P ck2 ?t h body = (Inr (Ip packet), s1)" by (cases "session_open P ck2 ?t h body") auto
  have "se_peer_endpoint s1 = None" using session_open_frame(3)[of P ck2 ?t h body] o by (simp add: session_new_def)
  then show ?thesis
    using hdr.dec_enc[OF d(2), of body] assms(6,7) idx o by (simp add: recv_datagram_def d(1) by_index_def Let_def)
qed

text \<open>The agent completes with its key provider what it would complete with the key itself.\<close>

lemma complete_provider:
  assumes "complete P po an sid cid kp rc = Inr est" and "\<forall>ct ss. decapsulate P kp ct = Inr ss \<longrightarrow> dcap ct = Inr ss"
  shows "complete_with P po an sid cid dcap rc = Inr est"
  using assms by (auto simp: complete_def complete_with_def res_simps Let_def split: if_splits)

lemma hub_session_completes:
  assumes "complete_with P pending an sid (cert_id P (id_certificate ident)) (id_decapsulate ident) gc = Inr est"
    and "cert_decode P cb = Inr gc" and "is_ok (chain_verify P (id_verifier ident) gc [id_issuing ident] now)"
    and "resolve_endpoint G local (an_responder_endpoint an) = Inr addr"
    and "hr_session_id resp = sid" and "length sid = 16" and "hr_answer resp = Some an" and "hr_gateway_certificate resp = Some cb"
  shows "hub_session P G ck now ident local pending idx resp =
    Inr (session_new ck sid Initiator (eb_suite est) (cert_id P gc) (eb_keys est) idx (an_responder_index an) (Some addr), addr)"
proof -
  obtain v where "chain_verify P (id_verifier ident) gc [id_issuing ident] now = Inr v"
    using assms(3) by (cases "chain_verify P (id_verifier ident) gc [id_issuing ident] now") auto
  then have "chain_ok P ident now gc = Inr ()" by (simp add: chain_ok_def)
  then show ?thesis using assms by (simp add: hub_session_def session_id_of_def)
qed

lemma fresh_session:
  "\<not> se_closed (session_new ck sid ro su pc keys li ri ep)" "ep_remote_index (se_current (session_new ck sid ro su pc keys li ri ep)) = ri"
  "ep_cipher (se_current (session_new ck sid ro su pc keys li ri ep)) = cipher_new keys ro su"
  "se_peer_endpoint (session_new ck sid ro su pc keys li ri ep) = ep" "se_id (session_new ck sid ro su pc keys li ri ep) = sid"
  by (simp_all add: session_new_def)

lemma new_counter: "sc_counter (cipher_new keys ro su) = 0"
  by (cases ro) (simp_all add: cipher_new_def counter_new_def)

section \<open>Rekeys\<close>

lemma seal_flag: "se_rekey_pending (snd (session_seal P ck s i)) = se_rekey_pending s"
  by (auto simp: session_seal_def Let_def set_current_cipher_def split: prod.splits sum.splits)

lemma frame_flag: "send_frame P enc ck s msg = (res, s') \<Longrightarrow> se_rekey_pending s' = se_rekey_pending s"
  using seal_flag[of P ck s "Control (enc msg)"]
  by (auto simp: send_frame_def send_inner_def send_inner_to_def split: option.splits prod.splits sum.splits)

text \<open>A rekey that sent its offer left it in the slot.\<close>

lemma rekey_dueD:
  assumes "rekey_due P G ck rnd draws True r ag = Some (ag', [out])" and "session_at ag r = Some s"
  shows "\<exists>s' x m idx. ag' = ag\<lparr>ag_table := put_session (ag_table ag) r s', ag_pending_rekey := Some (kem_generate P x m, idx)\<rparr> \<and>
    rnd = Some (x, m) \<and> se_rekey_pending s' = se_rekey_pending s"
  using assms
  by (auto simp: rekey_due_def rekey_offer_def Let_def dest: frame_flag split: option.splits prod.splits sum.splits)

lemma pending_silent:
  assumes "tb_store t r = Some s" and "se_rekey_pending s"
  shows "EvRekeyDue r \<notin> set (fst (snd (timer_session P ck tc t r)))"
proof -
  obtain e s1 where ex: "expire_previous_epoch ck s (tc_epoch_overlap tc) = (e, s1)" by fastforce
  have "se_rekey_pending s1" using ex assms(2) by (auto simp: expire_previous_epoch_def split: option.splits prod.splits if_splits)
  then show ?thesis using assms(1) ex by (auto simp: timer_session_def Let_def split: prod.splits sum.splits)
qed

section \<open>Properties\<close>

text \<open>C99. An agent only ever talks to certified peers.  Over any run of the agent, whatever the control plane, the
  gateways, other devices and the network send and in whatever order its tasks run, every session it holds is with a
  certificate that the pinned root vouched for when the session was made, and every session it initiated was
  answered with that certificate's signature over the transcript of this very session; a packet of the device
  leaves only sealed under such a session.\<close>

theorem agent_sessions_authenticated:
  assumes "agent_run P G R ident ag"
  shows "(\<forall>r s. session_at ag r = Some s \<longrightarrow> authenticated P ident s) \<and>
    (forward_from_tun P (gl_net G) R ck packet ag = (Inr (addr, d), ag') \<longrightarrow>
      (\<exists>r s. session_at ag r = Some s \<and> authenticated P ident s \<and> se_peer_endpoint s = Some addr \<and>
        fst (session_seal P ck s (Ip packet)) = Inr d))"
proof -
  have k: "\<forall>r s. session_at ag r = Some s \<longrightarrow> authenticated P ident s"
    using run_known[OF assms] by (simp add: peers_known_def session_at_def)
  moreover have "\<exists>r s. session_at ag r = Some s \<and> authenticated P ident s \<and> se_peer_endpoint s = Some addr \<and>
        fst (session_seal P ck s (Ip packet)) = Inr d"
    if f: "forward_from_tun P (gl_net G) R ck packet ag = (Inr (addr, d), ag')"
  proof -
    obtain r s s' where s: "session_at ag r = Some s" "send_inner P ck s (Ip packet) = (Inr (addr, d), s')"
      using f by (auto simp: forward_from_tun_def res_simps split: option.splits prod.splits bind_splits)
    then have "se_peer_endpoint s = Some addr" "fst (session_seal P ck s (Ip packet)) = Inr d"
      by (auto simp: send_inner_def send_inner_to_def split: option.splits prod.splits sum.splits)
    with s(1) k show ?thesis by blast
  qed
  ultimately show ?thesis by blast
qed

text \<open>C99. A packet of the device reaches the gateway.  An agent without sessions asks for its hub session, the control
  plane brokers it with a gateway, and the agent completes it with the response: then every well-formed packet
  the device sends is sealed to the endpoint the gateway advertised, and the gateway, which learns the agent's
  address from the datagram, hands exactly that packet to its data plane for the session it made for this device.\<close>

theorem device_reaches_gateway:
  assumes "ed25519_correct P" and "mldsa_correct P" and "x25519_commutes P" and "mlkem_correct P" and "length r1 = 32"
    and "gw_signing gw = signing_generate P r1 r2" and "tb_signing_key (ce_tbs (gw_cert gw)) = verifying_key (gw_signing gw)"
    and "aead_correct P" and "aead_seals P" and "lpm_correct R'"
    and "ag_peers ag = []" and "lpm_entries R' (ag_routes ag) = Map.empty"
    and "hub_request P rx rm draws' ag = Some (Inr (pending, req))"
    and "open_session C B up open_tx t draw call info req st = (Inr p, st1, [(tx, GdOffer off)])"
    and "cert_decode P (sv_certificate (op_device p)) = Inr (id_certificate ident)"
    and "tb_kem_key (ce_tbs (id_certificate ident)) = Some (kem_public (kem_generate P sx sm))"
    and "\<forall>ct ss. decapsulate P (kem_generate P sx sm) ct = Inr ss \<longrightarrow> id_decapsulate ident ct = Inr ss"
    and "accept_offer P L R ck now ep coins rnd draws ok gw r off = Some (Inr (), gw', [an])"
    and "waiting call" and "up' SActivate" and "up' SGatewayCert" and "valid_cert t' (op_gateway p) (ap_db st1) = Some gc"
    and "cert_decode P gc = Inr (gw_cert gw)"
    and "is_ok (chain_verify P (id_verifier ident) (gw_cert gw) [id_issuing ident] now')"
    and "resolve_endpoint G local ep = Inr addr"
    and "gl_v4_parse G (show_ip (fst (sv_overlay_v4 (op_device p))) @ ascii ''/'' @ dec (fst (op_prefixes p))) = Some v4"
    and "gl_v6_parse G (show_ip (fst (sv_overlay_v6 (op_device p))) @ ascii ''/'' @ dec (snd (op_prefixes p))) = Some v6"
  shows "\<exists>st2 resp st3 hub ag' out.
    events_message L' ups upm waiting tm (op_gateway p) (GuAnswer an) st1 = (st2, Some (call, an)) \<and>
    open_finish up' t' p (Some an) st2 = (Inr resp, st3) \<and>
    hub_finish P G R' ck' now' ident local r' pending (oq_initiator_index req) (hub_reply_of resp) ag = (Inr hub, ag', out) \<and>
    map_of (gw_meta gw') (hi_session_id hub) \<noteq> None \<and>
    (\<forall>packet ck1 ck2 from dfr. parse_dst packet \<noteq> None \<and> length packet \<le> 65535 \<longrightarrow>
      (\<exists>d ag''. forward_from_tun P (gl_net G) R' ck1 packet ag' = (Inr (addr, d), ag'') \<and>
        snd (recv_datagram P dfr ck2 (gw_table gw') from d) =
          ([EvPeerEndpointChanged r from, EvIp r packet] :: tunnel_msg option endpoint_event list)))"
proof -
  have pend: "pending = initiator_offer P rx rm offer_suites" and q: "oq_eph_kem_pk req = po_eph_pk_bytes (initiator_offer P rx rm offer_suites)"
    "oq_suites req = map suite_pb offer_suites"
    using assms(13) by (auto simp: hub_request_def Let_def res_simps offer_suites_def suite_pb_def)
  from brokered_run[where waiting = waiting and up' = up' and L' = L' and ups = ups and upm = upm and tm = tm, OF assms(1-7) q assms(14-16,18-22)]
  obtain st2 resp st3 est idx m where len: "length (or_session_id resp) = 16" and an: "or_answer resp = an" "an_responder_index an = idx" "an_responder_endpoint an = ep"
    and gc: "or_gateway_certificate resp = gc"
    and ov: "or_overlay_ipv4 resp = show_ip (fst (sv_overlay_v4 (op_device p))) @ ascii ''/'' @ dec (fst (op_prefixes p))"
      "or_overlay_ipv6 resp = show_ip (fst (sv_overlay_v6 (op_device p))) @ ascii ''/'' @ dec (snd (op_prefixes p))"
    and ev: "events_message L' ups upm waiting tm (op_gateway p) (GuAnswer an) st1 = (st2, Some (call, an))"
    and fin: "open_finish up' t' p (Some an) st2 = (Inr resp, st3)"
    and comp: "complete P (initiator_offer P rx rm offer_suites) (or_answer resp) (or_session_id resp) (cert_id P (id_certificate ident))
      (kem_generate P sx sm) (gw_cert gw) = Inr est"
    and tab: "gw_table gw' = table_insert (gw_table gw) r (session_new ck (or_session_id resp) Responder (eb_suite est)
      (cert_id P (id_certificate ident)) (eb_keys est) idx (oq_initiator_index req) None)"
    and meta: "map_of (gw_meta gw') (or_session_id resp) = Some m"
    by (elim exE conjE) (rule that)
  let ?sid = "or_session_id resp"
  let ?s = "session_new ck' ?sid Initiator (eb_suite est) (cert_id P (gw_cert gw)) (eb_keys est) (oq_initiator_index req) idx (Some addr)"
  have hs: "hub_session P G ck' now' ident local pending (oq_initiator_index req) (hub_reply_of resp) = Inr (?s, addr)"
    using hub_session_completes[OF complete_provider[OF comp[unfolded an(1)] assms(17)] assms(23,24), where resp = "hub_reply_of resp" and
        G = G and local = local and addr = addr and ck = ck' and idx = "oq_initiator_index req"] len an gc assms(25) pend
    by (simp add: hub_reply_of_def)
  have lim: "(0 :: u64) < LIMIT" "(0 + 1 :: u64) < LIMIT" by (simp_all add: word_less_nat_alt)
  have "\<exists>ka s'. session_seal P ck' ?s Keepalive = (Inr ka, s')"
    by (rule session_seal_succeeds[OF assms(9)]) (use lim in \<open>simp_all add: fresh_session new_counter\<close>)
  then obtain ka s' where ka: "session_seal P ck' ?s Keepalive = (Inr ka, s')" by (elim exE)
  note fr = sealed_frame[OF ka, unfolded fresh_session new_counter]
  have s': "se_id s' = ?sid" "\<not> se_closed s'" using session_seal_frame(1)[of P ck' ?s Keepalive] ka fr(1) by (simp_all add: fresh_session)
  have snd: "send_inner P ck' ?s Keepalive = (Inr (addr, ka), s')" using ka by (simp add: send_inner_def send_inner_to_def fresh_session)
  let ?t = "put_session (table_insert (ag_table ag) r' ?s) r' s'"
  let ?routes = "set_routes (gl_net G) R' (ag_routes ag) (reply_routes (gl_net G) (hub_reply_of resp)) ?sid"
  let ?ag = "ag\<lparr>ag_table := ?t, ag_hub := Some r', ag_routes := ?routes\<rparr>"
  let ?hub = "\<lparr>hi_session_id = ?sid, hi_overlay_v4 = v4, hi_overlay_v6 = v6, hi_routes = reply_routes (gl_net G) (hub_reply_of resp),
      hi_gateway_endpoint = addr, hi_session = r'\<rparr>"
  have parse: "gl_v4_parse G (hr_overlay_ipv4 (hub_reply_of resp)) = Some v4" "gl_v6_parse G (hr_overlay_ipv6 (hub_reply_of resp)) = Some v6"
    using assms(26,27) ov by (simp_all only: hub_reply_of_def hub_reply.simps)
  have hub: "hub_finish P G R' ck' now' ident local r' pending (oq_initiator_index req) (hub_reply_of resp) ag = (Inr ?hub, ?ag, [(addr, ka)])"
    by (simp add: hub_finish_def hs snd Let_def fresh_session parse)
  have at: "session_at ?ag r' = Some s'" "id_at ?ag r' = Some ?sid" "by_id (ag_table ?ag) ?sid = Some r'"
    using s' by (simp_all add: session_at_def id_at_def by_id_def put_session_def table_insert_def fresh_session)
  have "\<forall>n s. lpm_entries R' ?routes n = Some s \<longrightarrow> s = ?sid"
    unfolding set_routes_def by (rule routes_only[OF assms(10)]) (simp add: removed_empty[OF assms(10,12)])
  then have rt: "route_for (gl_net G) R' dst ?ag = Some ?sid" for dst
    by (intro one_route[OF assms(10), of _ _ r']) (use assms(11) at in simp_all)
  have gwt: "tb_store (gw_table gw') r = Some (session_new ck ?sid Responder (eb_suite est) (cert_id P (id_certificate ident)) (eb_keys est) idx
      (oq_initiator_index req) None)" "tb_by_index (gw_table gw') idx = Some r"
    by (simp_all add: tab table_insert_def indexes_def session_new_def)
  have go: "\<exists>d ag''. forward_from_tun P (gl_net G) R' ck1 packet ?ag = (Inr (addr, d), ag'') \<and>
        snd (recv_datagram P dfr ck2 (gw_table gw') from d) = ([EvPeerEndpointChanged r from, EvIp r packet] :: tunnel_msg option endpoint_event list)"
    if pk: "parse_dst packet \<noteq> None" "length packet \<le> 65535" for packet ck1 ck2 "from" dfr
  proof -
    obtain dst where dst: "parse_dst packet = Some dst" using pk(1) by auto
    have "\<exists>d s''. session_seal P ck1 s' (Ip packet) = (Inr d, s'')"
      by (rule session_seal_succeeds[OF assms(9) s'(2)]) (use pk(2) lim fr(5) in simp_all)
    then obtain d s'' where d: "session_seal P ck1 s' (Ip packet) = (Inr d, s'')" by (elim exE)
    then have "send_inner P ck1 s' (Ip packet) = (Inr (addr, d), s'')" using fr(4) by (simp add: send_inner_def send_inner_to_def)
    then have "forward_from_tun P (gl_net G) R' ck1 packet ?ag = (Inr (addr, d), ?ag\<lparr>ag_table := put_session ?t r' s''\<rparr>)"
      using dst rt[of dst] at by (simp add: forward_from_tun_def)
    moreover have "snd (recv_datagram P dfr ck2 (gw_table gw') from d) = ([EvPeerEndpointChanged r from, EvIp r packet] :: tunnel_msg option endpoint_event list)"
      by (rule delivered[OF assms(8) d s'(2) fr(2,3) gwt])
    ultimately show ?thesis by (intro exI conjI)
  qed
  have all: "\<forall>packet ck1 ck2 from dfr. parse_dst packet \<noteq> None \<and> length packet \<le> 65535 \<longrightarrow>
      (\<exists>d ag''. forward_from_tun P (gl_net G) R' ck1 packet ?ag = (Inr (addr, d), ag'') \<and>
        snd (recv_datagram P dfr ck2 (gw_table gw') from d) =
          ([EvPeerEndpointChanged r from, EvIp r packet] :: tunnel_msg option endpoint_event list))"
    by (intro allI impI, elim conjE, rule go)
  show ?thesis
  proof (intro exI conjI)
    show "events_message L' ups upm waiting tm (op_gateway p) (GuAnswer an) st1 = (st2, Some (call, an))" by (rule ev)
    show "open_finish up' t' p (Some an) st2 = (Inr resp, st3)" by (rule fin)
    show "hub_finish P G R' ck' now' ident local r' pending (oq_initiator_index req) (hub_reply_of resp) ag = (Inr ?hub, ?ag, [(addr, ka)])" by (rule hub)
    show "map_of (gw_meta gw') (hi_session_id ?hub) \<noteq> None" using meta by simp
  qed (rule all)
qed

text \<open>C99. Of two rekeys under way at once, one is lost and the other goes wrong.  When two sessions of an agent become due
  before the first is acknowledged, the second offer takes the only slot for a pending rekey.  The acknowledgement of
  the first session is then completed with the second session's key and, if it rotates the session, binds the
  index announced for the second session to the first; the acknowledgement of the second finds no pending rekey and
  changes nothing, so that session keeps its old keys and its flag, and no timer ever asks for its rekey again.\<close>

theorem crossed_rekeys_lost:
  assumes "rekey_due P G ck1 rnd1 draws1 True ra ag = Some (ag1, [o1])" and "rekey_due P G ck2 rnd2 draws2 True rb ag1 = Some (ag2, [o2])"
    and "ra \<noteq> rb" and "session_at ag ra = Some sa" and "session_at ag rb = Some sb" and "se_rekey_pending sb"
  shows "\<exists>eph idx sa' sb'. ag_pending_rekey ag2 = Some (eph, idx) \<and> session_at ag2 ra = Some sa' \<and> session_at ag2 rb = Some sb' \<and>
    (\<exists>x m. rnd2 = Some (x, m) \<and> eph = kem_generate P x m) \<and>
    (let ag3 = rekey_acked P ck3 ra ct na ag2 in
      ag_pending_rekey ag3 = None \<and>
      (\<forall>keys. complete_rekey P sa' eph ct = Inr keys \<longrightarrow>
        session_at ag3 ra = Some (rotate ck3 sa' keys idx na) \<and> by_index (ag_table ag3) idx = Some ra) \<and>
      rekey_acked P ck4 rb ct' nb ag3 = ag3 \<and> session_at ag3 rb = Some sb' \<and> se_rekey_pending sb' \<and>
      (\<forall>ck tc t. tb_store t rb = Some sb' \<longrightarrow>
        EvRekeyDue rb \<notin> set (fst (snd (timer_session P ck tc t rb :: _ \<times> tunnel_msg option endpoint_event list \<times> _)))))"
proof -
  from rekey_dueD[OF assms(1,4)] obtain sa' xa ma ia where
    a: "ag1 = ag\<lparr>ag_table := put_session (ag_table ag) ra sa', ag_pending_rekey := Some (kem_generate P xa ma, ia)\<rparr>"
    by (elim exE conjE) (rule that)
  have b1: "session_at ag1 rb = Some sb" "session_at ag1 ra = Some sa'"
    using assms(3,5) unfolding a by (simp_all add: session_at_def put_session_def)
  from rekey_dueD[OF assms(2) b1(1)] obtain sb' x m idx where b: "ag2 = ag1\<lparr>ag_table := put_session (ag_table ag1) rb sb', ag_pending_rekey := Some (kem_generate P x m, idx)\<rparr>"
    "rnd2 = Some (x, m)" "se_rekey_pending sb' = se_rekey_pending sb"
    by (elim exE conjE) (rule that)
  have at: "session_at ag2 ra = Some sa'" "session_at ag2 rb = Some sb'" "ag_pending_rekey ag2 = Some (kem_generate P x m, idx)"
    using b1(2) assms(3) unfolding b(1) by (simp_all add: session_at_def put_session_def)
  let ?ag3 = "rekey_acked P ck3 ra ct na ag2"
  have none: "ag_pending_rekey ?ag3 = None" by (simp add: rekey_acked_def at Let_def split: sum.splits)
  have rb: "session_at ?ag3 rb = Some sb'"
    using at assms(3) by (simp add: rekey_acked_def Let_def session_at_def put_session_def rebind_index_def split: sum.splits)
  have rot: "session_at ?ag3 ra = Some (rotate ck3 sa' keys idx na) \<and> by_index (ag_table ?ag3) idx = Some ra"
    if "complete_rekey P sa' (kem_generate P x m) ct = Inr keys" for keys
    using that at by (simp add: rekey_acked_def Let_def session_at_def put_session_def rebind_index_def by_index_def)
  have late: "rekey_acked P ck4 rb ct' nb ?ag3 = ?ag3" by (simp add: rekey_acked_def[of _ _ rb] none)
  have pend: "se_rekey_pending sb'" using b(3) assms(6) by simp
  show ?thesis
    unfolding Let_def
    by (rule exI[of _ "kem_generate P x m"], rule exI[of _ idx], rule exI[of _ sa'], rule exI[of _ sb'])
      (use at b(2) none rb rot late pend pending_silent in blast)
qed

section \<open>Witnesses\<close>

definition sample_agent_libs :: "(ip_addr \<times> nat) agent_libs" where
  "sample_agent_libs = \<lparr>gl_net = toy_net, gl_v4_parse = (\<lambda>_. Some (V4 1, 10)), gl_v6_parse = (\<lambda>_. Some (V6 1, 48)),
     gl_lookup_host = (\<lambda>_. Some [SockV4 1 2]), gl_sock_parse = (\<lambda>_. None), gl_sock_show = (\<lambda>_. []), gl_frame = (\<lambda>_. [])\<rparr>"

definition sample_identity :: agent_identity where
  "sample_identity = \<lparr>id_certificate = sample_device_cert, id_issuing = sample_cert IssuingCa 1 1, id_verifier = [sample_cert RootCa 1 1],
     id_decapsulate = (\<lambda>ct. map_err Crypto (decapsulate toy (kem_generate toy [1] []) ct)), id_sign = (\<lambda>_ _. Inl tunnel_error.Closed)\<rparr>"

abbreviation "sample_agent \<equiv> manager_new toy_lpm :: (ip_addr \<times> nat, ((ip_addr \<times> nat) \<times> bytes) list) agent"
abbreviation "sample_local \<equiv> SockV4 0 0"

lemma sample_resolves: "resolve_endpoint sample_agent_libs sample_local [103] = Inr (SockV4 1 2)"
proof -
  have "trim [103] = [103]" by (rule trim_solid) (simp_all add: solid_def)
  then show ?thesis by (simp add: resolve_endpoint_def sample_agent_libs_def)
qed

lemma sample_gateway_chain: "is_ok (chain_verify toy (id_verifier sample_identity) (sample_cert Gateway 1 1) [id_issuing sample_identity] 150)"
proof -
  have sig: "verify_signature toy (sample_cert k s i) (verifying_key (sample_kp i)) = Inr ()" for k s i
    using sample_signed(1) by (simp add: verify_signature_iff)
  have val: "check_validity (sample_cert k s i) 150 = Inr ()" for k s i by (simp add: check_validity_def sample_fields)
  show ?thesis by (simp add: sample_identity_def chain_verify_def sample_fields sample_key_id sig val)
qed

lemma sample_kem_key: "tb_kem_key (ce_tbs (id_certificate sample_identity)) = Some (kem_public (kem_generate toy [1] []))"
  by (simp add: sample_identity_def sample_device_cert_def sample_device_tbs_def sample_kem_def)

lemma sample_provider: "\<forall>ct ss. decapsulate toy (kem_generate toy [1] []) ct = Inr ss \<longrightarrow> id_decapsulate sample_identity ct = Inr ss"
  by (simp add: sample_identity_def)

lemma sample_hub_opens:
  "\<exists>resp s ep. hub_session toy sample_agent_libs (demo_clock 0) 150 sample_identity sample_local (initiator_offer toy [1] [] offer_suites) 7 resp = Inr (s, ep)"
proof -
  obtain an est where a: "answer toy demo_coins [] (replicate 16 8) (id_certificate sample_identity)
      (po_eph_pk_bytes (initiator_offer toy [1] [] offer_suites)) Aes256Gcm (cert_id toy (sample_cert Gateway 1 1))
      (signing_generate toy (replicate 32 1) []) 9 (Some [103]) = Inr (an, est)"
    using demo_answers[OF sample_kem_key] by blast
  have "complete toy (initiator_offer toy [1] [] offer_suites) an (replicate 16 8) (cert_id toy (id_certificate sample_identity))
      (kem_generate toy [1] []) (sample_cert Gateway 1 1) = Inr est"
    by (rule established_agree[OF toy_ed25519 toy_mldsa toy_x25519 toy_mlkem _ _ sample_kem_key _ a])
      (simp_all add: offer_suites_def sample_fields sample_kp_def)
  note c = complete_provider[OF this sample_provider]
  let ?resp = "\<lparr>hr_session_id = replicate 16 8, hr_answer = Some an, hr_gateway_certificate = Some (cert_encode (sample_cert Gateway 1 1)),
     hr_overlay_ipv4 = [], hr_overlay_ipv6 = [], hr_routes = []\<rparr>"
  have d: "cert_decode toy (cert_encode (sample_cert Gateway 1 1)) = Inr (sample_cert Gateway 1 1)" by (rule cert.from_to[OF sample_cert_wf])
  have e: "resolve_endpoint sample_agent_libs sample_local (an_responder_endpoint an) = Inr (SockV4 1 2)"
    using answer_ends[OF a] sample_resolves by simp
  show ?thesis
    by (intro exI) (rule hub_session_completes[OF c d sample_gateway_chain e, of ?resp], simp_all)
qed

theorem agent_sessions_authenticated_witness:
  "\<exists>ag s. agent_run toy sample_agent_libs toy_lpm sample_identity (ag :: (ip_addr \<times> nat, ((ip_addr \<times> nat) \<times> bytes) list) agent) \<and>
    session_at ag 0 = Some s \<and> authenticated toy sample_identity s"
proof -
  obtain resp s ep where h: "hub_session toy sample_agent_libs (demo_clock 0) 150 sample_identity sample_local
      (initiator_offer toy [1] [] offer_suites) 7 resp = Inr (s, ep)" using sample_hub_opens by blast
  obtain res s' where snd: "send_inner toy (demo_clock 0) s Keepalive = (res, s')" by (cases "send_inner toy (demo_clock 0) s Keepalive")
  obtain r ag out where f: "hub_finish toy sample_agent_libs toy_lpm (demo_clock 0) 150 sample_identity sample_local 0
      (initiator_offer toy [1] [] offer_suites) 7 resp sample_agent = (r, ag, out)" and at: "session_at ag 0 = Some s'"
    unfolding hub_finish_def h by (simp add: Let_def snd sample_agent_libs_def session_at_def put_session_def)
  have "tb_store (ag_table sample_agent) 0 = None" by (simp add: manager_new_def table_new_def)
  then have run: "agent_run toy sample_agent_libs toy_lpm sample_identity ag"
    by (rule agent_run.goes[OF agent_run.starts agent_step.opens_hub[OF _ f]])
  have "authenticated toy sample_identity s'" using agent_sessions_authenticated[OF run] at by blast
  with run at show ?thesis by blast
qed

theorem device_reaches_gateway_witness:
  "\<exists>p st1 gw' an resp hub ag' out d ag''.
    open_session sample_control sample_broker (\<lambda>_. True) (\<lambda>_. True) 150 (Inr (replicate 16 8)) 2 sample_info sample_open
      sample_broker_state = (Inr p, st1, [(4, GdOffer sample_offer)]) \<and>
    accept_offer toy toy_libs toy_lpm (demo_clock 0) 150 [103] demo_coins [] [Inr [0, 0, 0, 9]] True sample_session_gateway 0 sample_offer =
      Some (Inr (), gw', [an]) \<and>
    hub_finish toy sample_agent_libs toy_lpm (demo_clock 0) 150 sample_identity sample_local 0 (initiator_offer toy [1] [] offer_suites) 7
      (hub_reply_of resp) sample_agent = (Inr hub, ag', out) \<and>
    forward_from_tun toy toy_net toy_lpm (demo_clock 1) sample_packet ag' = (Inr (SockV4 1 2, d), ag'') \<and>
    EvIp 0 sample_packet \<in> set (snd (recv_datagram toy (\<lambda>_. None :: tunnel_msg option option) (demo_clock 2) (gw_table gw') sample_local d))"
proof -
  obtain p st1 where o: "open_session sample_control sample_broker (\<lambda>_. True) (\<lambda>_. True) 150 (Inr (replicate 16 8)) 2 sample_info sample_open
      sample_broker_state = (Inr p, st1, [(4, GdOffer sample_offer)])"
    and p: "op_device p = sample_sess_device" "op_gateway p = replicate 16 1" "db_certs (ap_db st1) = db_certs sample_broker_db"
    using sample_opens unfolding sample_offer_def by blast
  obtain gw' an where a: "accept_offer toy toy_libs toy_lpm (demo_clock 0) 150 [103] demo_coins [] [Inr [0, 0, 0, 9]] True sample_session_gateway 0
      sample_offer = Some (Inr (), gw', [an])" using sample_accepts by blast
  have gw: "gw_signing sample_session_gateway = signing_generate toy (replicate 32 1) []"
    "tb_signing_key (ce_tbs (gw_cert sample_session_gateway)) = verifying_key (gw_signing sample_session_gateway)"
    "gw_cert sample_session_gateway = sample_cert Gateway 1 1"
    by (simp_all add: sample_session_gateway_def sample_gateway_def sample_kp_def sample_fields)
  have q: "hub_request toy [1] [] [Inr [0, 0, 0, 7]] sample_agent = Some (Inr (initiator_offer toy [1] [] offer_suites, sample_open))"
    by (simp add: hub_request_def Let_def manager_new_def table_new_def sample_open_def offer_suites_def from_be_bytes_def from_be_def)
  have ic: "cert_decode toy (sv_certificate (op_device p)) = Inr (id_certificate sample_identity)"
    by (simp add: p sample_decodes sample_identity_def)
  have v: "valid_cert 150 (op_gateway p) (ap_db st1) = Some (cert_encode (sample_cert Gateway 1 1))"
    using sample_valid(2) unfolding valid_cert_def p .
  have gd: "cert_decode toy (cert_encode (sample_cert Gateway 1 1)) = Inr (gw_cert sample_session_gateway)"
    unfolding gw(3) by (rule cert.from_to[OF sample_cert_wf])
  have em: "ag_peers sample_agent = []" "lpm_entries toy_lpm (ag_routes sample_agent) = Map.empty"
    using lpm_correctD(1)[OF toy_lpm_correct] by (simp_all add: manager_new_def)
  have t: "(\<lambda>_. True) SActivate" "(\<lambda>_. True) SGatewayCert" "(\<lambda>_. True) (2 :: nat)" "length (replicate 32 1 :: bytes) = 32" by simp_all
  have parse: "gl_v4_parse sample_agent_libs b = Some (V4 1, 10)" "gl_v6_parse sample_agent_libs b = Some (V6 1, 48)" for b
    by (simp_all add: sample_agent_libs_def)
  have idx: "oq_initiator_index sample_open = 7" by (simp add: sample_open_def)
  from device_reaches_gateway[OF toy_ed25519 toy_mldsa toy_x25519 toy_mlkem t(4) gw(1,2) toy_aead toy_lpm_correct em q o ic sample_kem_key
      sample_provider a, where waiting = "\<lambda>_. True" and up' = "\<lambda>_. True" and upm = True and tm = 150 and L' = sample_ca_auth and
      ups = "\<lambda>_. True" and ck' = "demo_clock 0" and r' = 0, OF t(3,1,2) v gd sample_gateway_chain[unfolded gw(3)[symmetric]] sample_resolves parse, unfolded idx]
  obtain resp hub ag' out where h: "hub_finish toy sample_agent_libs toy_lpm (demo_clock 0) 150 sample_identity sample_local 0
      (initiator_offer toy [1] [] offer_suites) 7 (hub_reply_of resp) sample_agent = (Inr hub, ag', out)"
    and f: "\<forall>packet ck1 ck2 from dfr. parse_dst packet \<noteq> None \<and> length packet \<le> 65535 \<longrightarrow>
      (\<exists>d ag''. forward_from_tun toy (gl_net sample_agent_libs) toy_lpm ck1 packet ag' = (Inr (SockV4 1 2, d), ag'') \<and>
        snd (recv_datagram toy dfr ck2 (gw_table gw') from d) =
          ([EvPeerEndpointChanged 0 from, EvIp 0 packet] :: tunnel_msg option endpoint_event list))"
    by (elim exE conjE) (rule that)
  have "parse_dst sample_packet \<noteq> None \<and> length sample_packet \<le> 65535" by (simp add: parse_dst_def sample_packet_def)
  then obtain d ag'' where "forward_from_tun toy toy_net toy_lpm (demo_clock 1) sample_packet ag' = (Inr (SockV4 1 2, d), ag'')"
    "snd (recv_datagram toy (\<lambda>_. None) (demo_clock 2) (gw_table gw') sample_local d) =
      ([EvPeerEndpointChanged 0 sample_local, EvIp 0 sample_packet] :: tunnel_msg option endpoint_event list)"
    using f by (fastforce simp: sample_agent_libs_def)
  with o a h show ?thesis by (intro exI conjI) (assumption | simp)+
qed

definition sample_due :: "bytes \<Rightarrow> u32 \<Rightarrow> session" where
  "sample_due i idx = set_rekey_pending (session_new (demo_clock 0) i Initiator Aes256Gcm [] demo_keys idx 6 (Some (SockV4 1 2))) True"

definition sample_two :: "(ip_addr \<times> nat, ((ip_addr \<times> nat) \<times> bytes) list) agent" where
  "sample_two = sample_agent\<lparr>ag_table := table_insert (table_insert table_new 0 (sample_due [1] 4)) 1 (sample_due [2] 5)\<rparr>"

lemma sample_sends:
  assumes "session_at ag r = Some (sample_due i idx)" and "tb_by_index (ag_table ag) (from_be_bytes b) = None" and "(from_be_bytes b :: u32) \<noteq> 0"
  shows "\<exists>ag' out. rekey_due toy sample_agent_libs (demo_clock 1) (Some ([1], [])) [Inr b] True r ag = Some (ag', [out])"
proof -
  let ?s = "sample_due i idx"
  have s: "\<not> se_closed ?s" "ep_cipher (se_current ?s) = cipher_new demo_keys Initiator Aes256Gcm" "se_peer_endpoint ?s = Some (SockV4 1 2)"
    by (simp_all add: sample_due_def set_rekey_pending_def session_new_def)
  have lim: "(0 :: u64) < LIMIT" by (simp add: word_less_nat_alt)
  have "\<exists>d s'. session_seal toy (demo_clock 1) ?s (Control []) = (Inr d, s')"
    by (rule session_seal_succeeds[OF toy_aead(2) s(1)]) (use lim in \<open>simp_all add: s(2) new_counter\<close>)
  then obtain d s' where "session_seal toy (demo_clock 1) ?s (Control []) = (Inr d, s')" by (elim exE)
  then have "send_frame toy (gl_frame sample_agent_libs) (demo_clock 1) ?s msg = (Inr (SockV4 1 2, d), s')" for msg
    by (simp add: send_frame_def send_inner_def send_inner_to_def s(3) sample_agent_libs_def)
  then show ?thesis using assms by (simp add: rekey_due_def Let_def)
qed

theorem crossed_rekeys_lost_witness:
  "\<exists>ag1 o1 ag2 o2. rekey_due toy sample_agent_libs (demo_clock 1) (Some ([1], [])) [Inr [0, 0, 0, 8]] True 0 sample_two = Some (ag1, [o1]) \<and>
    rekey_due toy sample_agent_libs (demo_clock 1) (Some ([1], [])) [Inr [0, 0, 0, 9]] True 1 ag1 = Some (ag2, [o2]) \<and>
    (let ag3 = rekey_acked toy (demo_clock 2) 0 [] 3 ag2 in rekey_acked toy (demo_clock 3) 1 [] 3 ag3 = ag3 \<and> ag_pending_rekey ag3 = None)"
proof -
  have two: "session_at sample_two 0 = Some (sample_due [1] 4)" "session_at sample_two 1 = Some (sample_due [2] 5)"
    by (simp_all add: sample_two_def session_at_def table_insert_def)
  have ix: "indexes (sample_due i idx) = [idx]" for i idx by (simp add: sample_due_def set_rekey_pending_def session_new_def indexes_def)
  have free: "tb_by_index (ag_table sample_two) (from_be_bytes [0, 0, 0, 8]) = None" "tb_by_index (ag_table sample_two) (from_be_bytes [0, 0, 0, 9]) = None"
    "(from_be_bytes [0, 0, 0, 8] :: u32) \<noteq> 0" "(from_be_bytes [0, 0, 0, 9] :: u32) \<noteq> 0"
    by (simp_all add: sample_two_def table_insert_def ix table_new_def from_be_bytes_def from_be_def)
  obtain ag1 o1 where a: "rekey_due toy sample_agent_libs (demo_clock 1) (Some ([1], [])) [Inr [0, 0, 0, 8]] True 0 sample_two = Some (ag1, [o1])"
    using sample_sends[OF two(1) free(1,3)] by blast
  from rekey_dueD[OF a two(1)] obtain s' x m idx where g: "ag1 = sample_two\<lparr>ag_table := put_session (ag_table sample_two) 0 s',
      ag_pending_rekey := Some (kem_generate toy x m, idx)\<rparr>" by (elim exE conjE) (rule that)
  have one: "session_at ag1 1 = Some (sample_due [2] 5)" "tb_by_index (ag_table ag1) (from_be_bytes [0, 0, 0, 9]) = None"
    using two(2) free(2) unfolding g by (simp_all add: session_at_def put_session_def)
  obtain ag2 o2 where b: "rekey_due toy sample_agent_libs (demo_clock 1) (Some ([1], [])) [Inr [0, 0, 0, 9]] True 1 ag1 = Some (ag2, [o2])"
    using sample_sends[OF one free(4)] by blast
  have "(0 :: nat) \<noteq> 1" "se_rekey_pending (sample_due [2] 5)" by (simp_all add: sample_due_def set_rekey_pending_def)
  from crossed_rekeys_lost[OF a b this(1) two this(2), of "demo_clock 2" "[]" 3 "demo_clock 3" "[]" 3]
  have "let ag3 = rekey_acked toy (demo_clock 2) 0 [] 3 ag2 in rekey_acked toy (demo_clock 3) 1 [] 3 ag3 = ag3 \<and> ag_pending_rekey ag3 = None"
    by (auto simp: Let_def)
  with a b show ?thesis by (intro exI conjI)
qed

end
