(* ===== verification/Spec2Isabelle.thy ===== *)
theory Spec2Isabelle
  imports Gateway_Control Legacy_Tunnel Rotating_Token Control_Enroll Control_Attest Control_Auth Control_Typing Agent_Tunnel
begin

text \<open>
  A verification development for AVON, a post-quantum zero-trust overlay network.
\<close>

end
